(* ===== verification/Prelude.thy ===== *)
theory Prelude
  imports Main "HOL-Library.List_Lexorder" "HOL-Library.Char_ord"
    "HOL-Library.Product_Lexorder" "HOL-Library.Sublist" "HOL-Library.Multiset"
begin

text \<open>
  Shared vocabulary of the development.
  \<^item> \<open>error\<close> and \<open>'a res\<close> stand for \<open>anyhow::Error\<close> and \<open>anyhow::Result<T>\<close>: an error
    keeps the format string of the \<open>bail!\<close>/\<open>anyhow!\<close> call and the text of its arguments.
    \<open>res_bind\<close> is the \<open>?\<close> operator, \<open>res_map\<close> an iterator collected into a
    \<open>Result<Vec<_>>\<close>, \<open>res_fold\<close> a \<open>for\<close> loop whose body may fail.
  \<^item> Rust strings are UTF-8 byte strings, here \<open>string\<close>: equality and the
    lexicographic order of bytes are those of Rust's \<open>str\<close>.
  \<^item> \<open>BTreeSet<String>\<close> is a sorted list without duplicates (\<open>bset_insert\<close>,
    \<open>bset_of_list\<close>), so that its iteration order is the code's;
    \<open>BTreeMap<K, V>\<close> is an association list sorted by key (\<open>bmap_insert\<close>,
    \<open>bmap_remove\<close>), read with \<open>map_of\<close>.
  \<^item> \<open>root_simps\<close>, \<open>res_simps\<close> and \<open>layout_simps\<close> collect the equations that
    unfold the operations of a component in a proof.
\<close>

named_theorems res_simps "unfolding the result monad"
named_theorems root_simps "unfolding operations on program roots"
named_theorems layout_simps "unfolding layout computations"

subsection \<open>Results\<close>

datatype error = Bail (err_format: string) (err_args: "string list")

type_synonym 'a res = "error + 'a"

definition res_bind :: "('e + 'a) \<Rightarrow> ('a \<Rightarrow> 'e + 'b) \<Rightarrow> 'e + 'b" where
  "res_bind m f = (case m of Inl e \<Rightarrow> Inl e | Inr x \<Rightarrow> f x)"

lemma res_bind_simps [simp, res_simps]:
  "res_bind (Inl e) f = Inl e"
  "res_bind (Inr x) f = f x"
  by (simp_all add: res_bind_def)

lemma res_bind_cong [fundef_cong]:
  "m = n \<Longrightarrow> (\<And>x. n = Inr x \<Longrightarrow> f x = g x) \<Longrightarrow> res_bind m f = res_bind n g"
  by (cases n) auto

lemma res_bind_eq_Inr [simp]:
  "res_bind m f = Inr y \<longleftrightarrow> (\<exists>x. m = Inr x \<and> f x = Inr y)"
  by (cases m) auto

lemma res_bind_eq_Inl:
  "res_bind m f = Inl e \<longleftrightarrow> m = Inl e \<or> (\<exists>x. m = Inr x \<and> f x = Inl e)"
  by (cases m) auto

definition ensure :: "bool \<Rightarrow> 'e \<Rightarrow> 'e + unit" where
  "ensure b e = (if b then Inr () else Inl e)"

lemma ensure_eq_Inr [simp]: "ensure b e = Inr u \<longleftrightarrow> b"
  by (simp add: ensure_def)

lemma ensure_simps [simp, res_simps]:
  "ensure True e = Inr ()"
  "ensure False e = Inl e"
  by (simp_all add: ensure_def)

definition ok_or :: "'a option \<Rightarrow> 'e \<Rightarrow> 'e + 'a" where
  "ok_or m e = (case m of None \<Rightarrow> Inl e | Some x \<Rightarrow> Inr x)"

lemma ok_or_simps [simp, res_simps]:
  "ok_or None e = Inl e"
  "ok_or (Some x) e = Inr x"
  by (simp_all add: ok_or_def)

lemma ok_or_eq_Inr [simp]: "ok_or m e = Inr x \<longleftrightarrow> m = Some x"
  by (cases m) auto

definition is_ok :: "'e + 'a \<Rightarrow> bool" where
  "is_ok m = (case m of Inl _ \<Rightarrow> False | Inr _ \<Rightarrow> True)"

lemma is_ok_simps [simp]: "is_ok (Inl e) = False" "is_ok (Inr x) = True"
  by (simp_all add: is_ok_def)

lemma is_ok_iff: "is_ok m \<longleftrightarrow> (\<exists>x. m = Inr x)"
  by (cases m) auto

lemma is_ok_bind [simp]: "is_ok (res_bind m f) \<longleftrightarrow> (\<exists>x. m = Inr x \<and> is_ok (f x))"
  by (cases m) auto

lemma is_ok_ensure [simp]: "is_ok (ensure b e) \<longleftrightarrow> b"
  by (simp add: ensure_def)

fun res_map :: "('a \<Rightarrow> 'e + 'b) \<Rightarrow> 'a list \<Rightarrow> 'e + 'b list" where
  "res_map f [] = Inr []"
| "res_map f (x # xs) =
     res_bind (f x) (\<lambda>y. res_bind (res_map f xs) (\<lambda>ys. Inr (y # ys)))"

lemma res_map_cong [fundef_cong]:
  "xs = ys \<Longrightarrow> (\<And>x. x \<in> set ys \<Longrightarrow> f x = g x) \<Longrightarrow> res_map f xs = res_map g ys"
  by (induction ys arbitrary: xs) auto

lemma res_map_Inr_iff:
  "res_map f xs = Inr ys \<longleftrightarrow> list_all2 (\<lambda>x y. f x = Inr y) xs ys"
  by (induction xs arbitrary: ys) (auto simp: list_all2_Cons1)

lemma res_map_length: "res_map f xs = Inr ys \<Longrightarrow> length ys = length xs"
  by (auto simp: res_map_Inr_iff dest: list_all2_lengthD)

lemma res_map_pure [simp]: "res_map (\<lambda>x. Inr (f x)) xs = Inr (map f xs)"
  by (induction xs) auto

lemma is_ok_res_map: "is_ok (res_map f xs) \<longleftrightarrow> (\<forall>x \<in> set xs. is_ok (f x))"
  by (induction xs) (auto simp: is_ok_iff)

fun res_fold :: "('a \<Rightarrow> 's \<Rightarrow> 'e + 's) \<Rightarrow> 'a list \<Rightarrow> 's \<Rightarrow> 'e + 's" where
  "res_fold f [] s = Inr s"
| "res_fold f (x # xs) s = res_bind (f x s) (\<lambda>t. res_fold f xs t)"

lemma res_fold_cong [fundef_cong]:
  "s = t \<Longrightarrow> xs = ys \<Longrightarrow> (\<And>x s. x \<in> set ys \<Longrightarrow> f x s = g x s) \<Longrightarrow> res_fold f xs s = res_fold g ys t"
  by (induction ys arbitrary: xs s t) (auto intro!: res_bind_cong)

lemma res_fold_append:
  "res_fold f (xs @ ys) s = res_bind (res_fold f xs s) (\<lambda>t. res_fold f ys t)"
  by (induction xs arbitrary: s) (auto simp: res_bind_def split: sum.splits)

lemma res_fold_invariant:
  assumes "res_fold f xs s = Inr t" and "P s"
    and "\<And>x s t. x \<in> set xs \<Longrightarrow> P s \<Longrightarrow> f x s = Inr t \<Longrightarrow> P t"
  shows "P t"
  using assms by (induction xs arbitrary: s) auto

subsection \<open>Ordered sets of strings\<close>

abbreviation bset_insert :: "'a::linorder \<Rightarrow> 'a list \<Rightarrow> 'a list" where
  "bset_insert x xs \<equiv> insort_insert x xs"

definition bset_of_list :: "'a::linorder list \<Rightarrow> 'a list" where
  "bset_of_list xs = fold bset_insert xs []"

definition bset_ok :: "'a::linorder list \<Rightarrow> bool" where
  "bset_ok xs \<longleftrightarrow> sorted xs \<and> distinct xs"

lemma bset_ok_Nil [simp]: "bset_ok []"
  by (simp add: bset_ok_def)

lemma set_bset_insert [simp]: "set (bset_insert x xs) = insert x (set xs)"
  by (rule set_insort_insert)

lemma bset_ok_insert [simp, intro]: "bset_ok xs \<Longrightarrow> bset_ok (bset_insert x xs)"
  by (simp add: bset_ok_def sorted_insort_insert distinct_insort_insert)

lemma set_fold_bset_insert: "set (fold bset_insert xs ys) = set xs \<union> set ys"
  by (induction xs arbitrary: ys) auto

lemma bset_ok_fold: "bset_ok ys \<Longrightarrow> bset_ok (fold bset_insert xs ys)"
  by (induction xs arbitrary: ys) auto

lemma set_bset_of_list [simp]: "set (bset_of_list xs) = set xs"
  by (simp add: bset_of_list_def set_fold_bset_insert)

lemma bset_ok_of_list [simp]: "bset_ok (bset_of_list xs)"
  by (simp add: bset_of_list_def bset_ok_fold)

lemma bset_unique: "bset_ok xs \<Longrightarrow> bset_ok ys \<Longrightarrow> set xs = set ys \<Longrightarrow> xs = ys"
  by (simp add: bset_ok_def sorted_distinct_set_unique)

lemma bset_of_list_eq_iff: "bset_of_list xs = bset_of_list ys \<longleftrightarrow> set xs = set ys"
  by (metis bset_ok_of_list bset_unique set_bset_of_list)

lemma bset_of_list_empty_iff [simp]: "bset_of_list xs = [] \<longleftrightarrow> xs = []"
  by (metis set_bset_of_list set_empty)

subsection \<open>Ordered maps\<close>

fun bmap_insert :: "'k::linorder \<Rightarrow> 'v \<Rightarrow> ('k \<times> 'v) list \<Rightarrow> ('k \<times> 'v) list" where
  "bmap_insert k v [] = [(k, v)]"
| "bmap_insert k v ((a, b) # m) =
     (if k < a then (k, v) # (a, b) # m
      else if k = a then (k, v) # m
      else (a, b) # bmap_insert k v m)"

definition bmap_remove :: "'k \<Rightarrow> ('k \<times> 'v) list \<Rightarrow> ('k \<times> 'v) list" where
  "bmap_remove k m = filter (\<lambda>(a, _). a \<noteq> k) m"

lemma map_of_bmap_insert [simp]: "map_of (bmap_insert k v m) = (map_of m)(k \<mapsto> v)"
  by (induction k v m rule: bmap_insert.induct) auto

lemma map_of_bmap_remove [simp]: "map_of (bmap_remove k m) = (map_of m)(k := None)"
  by (induction m) (auto simp: bmap_remove_def)

subsection \<open>Sorting by a key\<close>

text \<open>
  \<open>slice::sort_by\<close> is stable, as \<open>sort_key\<close> is. When the keys of the elements are
  distinct, the result depends on the set of elements only.
\<close>

lemma sort_key_eqI:
  assumes "mset xs = mset ys" and "inj_on f (set xs)"
  shows "sort_key f xs = sort_key f ys"
proof (rule properties_for_sort_key)
  show "mset (sort_key f ys) = mset xs" using assms(1) by simp
  show "filter (\<lambda>y. f k = f y) (sort_key f ys) = filter (\<lambda>y. f k = f y) xs"
    if "k \<in> set (sort_key f ys)" for k
  proof -
    have seteq: "set xs = set ys" using assms(1) by (metis set_mset_mset)
    have single: "(f k = f y) = (k = y)" if "y \<in> set xs" for y
      using that assms(2) \<open>k \<in> set (sort_key f ys)\<close> seteq by (auto simp: inj_on_def)
    have rep: "filter (\<lambda>y. f k = f y) zs = replicate (count (mset xs) k) k"
      if "mset zs = mset xs" for zs
    proof -
      have "set zs = set xs" using that by (metis set_mset_mset)
      then have "filter (\<lambda>y. f k = f y) zs = filter (\<lambda>y. k = y) zs"
        using single by (auto intro: filter_cong)
      then show ?thesis using that
        by (metis count_mset filter_eq_replicate_mset mset_filter replicate_count_mset_eq_filter_eq that)
    qed
    show ?thesis using rep [of "sort_key f ys"] rep [of xs] assms(1) by simp
  qed
  show "sorted (map f (sort_key f ys))" by simp
qed

subsection \<open>Strings\<close>

fun join_with :: "string \<Rightarrow> string list \<Rightarrow> string" where
  "join_with sep [] = []"
| "join_with sep [s] = s"
| "join_with sep (s # t # ss) = s @ sep @ join_with sep (t # ss)"

text \<open>\<open>str::split(c)\<close>: the pieces between the occurrences of a character, always at least one.\<close>

fun split_on :: "'a \<Rightarrow> 'a list \<Rightarrow> 'a list list" where
  "split_on c [] = [[]]"
| "split_on c (x # xs) =
     (if x = c then [] # split_on c xs
      else case split_on c xs of [] \<Rightarrow> [[x]] | p # ps \<Rightarrow> (x # p) # ps)"

lemma split_on_not_Nil [simp]: "split_on c xs \<noteq> []"
  by (induction xs) (auto split: list.splits)

lemma split_on_no_sep: "c \<notin> set xs \<Longrightarrow> split_on c xs = [xs]"
  by (induction xs) auto

lemma split_on_append: "split_on c (a @ c # b) = split_on c a @ split_on c b"
  by (induction a) (auto split: list.splits)

text \<open>\<open>str::rsplit_once(c)\<close>: the text before and after the last occurrence of a character.\<close>

fun rsplit_once :: "'a \<Rightarrow> 'a list \<Rightarrow> ('a list \<times> 'a list) option" where
  "rsplit_once c [] = None"
| "rsplit_once c (x # xs) =
     (case rsplit_once c xs of
        Some (a, b) \<Rightarrow> Some (x # a, b)
      | None \<Rightarrow> if x = c then Some ([], xs) else None)"

lemma rsplit_once_None_iff: "rsplit_once c xs = None \<longleftrightarrow> c \<notin> set xs"
  by (induction xs) (auto split: option.splits)

lemma rsplit_once_append: "c \<notin> set ys \<Longrightarrow> rsplit_once c (xs @ c # ys) = Some (xs, ys)"
proof (induction xs)
  case Nil
  then have "rsplit_once c ys = None" by (simp add: rsplit_once_None_iff)
  then show ?case by simp
qed simp

lemma rsplit_once_Some: "rsplit_once c zs = Some (xs, ys) \<Longrightarrow> zs = xs @ c # ys \<and> c \<notin> set ys"
  by (induction zs arbitrary: xs) (auto simp: rsplit_once_None_iff split: option.splits if_splits)

abbreviation starts_with :: "string \<Rightarrow> string \<Rightarrow> bool" where
  "starts_with p s \<equiv> prefix p s"

text \<open>\<open>str::strip_prefix\<close>.\<close>

definition strip_prefix :: "string \<Rightarrow> string \<Rightarrow> string option" where
  "strip_prefix p s = (if prefix p s then Some (drop (length p) s) else None)"

lemma strip_prefix_Some_iff: "strip_prefix p s = Some t \<longleftrightarrow> s = p @ t"
  by (auto simp: strip_prefix_def prefix_def)

text \<open>The decimal text of a number, as \<open>format!("{n}")\<close> prints it.\<close>

fun dec_nat :: "nat \<Rightarrow> string" where
  "dec_nat n = (if n < 10 then [char_of (48 + n)] else dec_nat (n div 10) @ [char_of (48 + n mod 10)])"

declare dec_nat.simps [simp del]

definition read_dec :: "string \<Rightarrow> nat" where
  "read_dec = foldl (\<lambda>acc c. 10 * acc + (of_char c - 48)) 0"

lemma read_dec_nat: "read_dec (dec_nat n) = n"
proof (induction n rule: dec_nat.induct)
  case (1 n)
  show ?case
  proof (cases "n < 10")
    case False
    then have "read_dec (dec_nat n) = 10 * read_dec (dec_nat (n div 10)) + n mod 10"
      by (subst dec_nat.simps) (simp add: read_dec_def)
    with 1 [OF False] show ?thesis by simp
  qed (simp add: dec_nat.simps [of n] read_dec_def)
qed

lemma dec_nat_inject [simp]: "dec_nat m = dec_nat n \<longleftrightarrow> m = n"
  by (metis read_dec_nat)

lemma dec_nat_digits: "c \<in> set (dec_nat n) \<Longrightarrow> of_char c \<in> {48..57::nat}"
proof (induction n rule: dec_nat.induct)
  case (1 n)
  then show ?case by (subst (asm) dec_nat.simps) (auto split: if_splits)
qed

subsection \<open>Lists\<close>

lemma find_Some_in: "List.find P xs = Some x \<Longrightarrow> x \<in> set xs \<and> P x"
  by (auto simp: find_Some_iff)

lemma find_eq_None_iff: "List.find P xs = None \<longleftrightarrow> (\<forall>x \<in> set xs. \<not> P x)"
  by (auto simp: find_None_iff)

lemma find_append:
  "List.find P (xs @ ys) = (case List.find P xs of None \<Rightarrow> List.find P ys | Some x \<Rightarrow> Some x)"
  by (induction xs) auto

lemma find_filter_conj: "List.find P (filter Q xs) = List.find (\<lambda>x. Q x \<and> P x) xs"
  by (induction xs) auto

text \<open>\<open>iter().position(p)\<close>.\<close>

fun position :: "('a \<Rightarrow> bool) \<Rightarrow> 'a list \<Rightarrow> nat option" where
  "position P [] = None"
| "position P (x # xs) = (if P x then Some 0 else map_option Suc (position P xs))"

lemma position_Some: "position P xs = Some i \<Longrightarrow> i < length xs \<and> P (xs ! i) \<and> (\<forall>j < i. \<not> P (xs ! j))"
proof (induction xs arbitrary: i)
  case (Cons x xs)
  show ?case
  proof (cases "P x")
    case False
    then obtain k where k: "position P xs = Some k" "i = Suc k" using Cons.prems by auto
    with Cons.IH [of k] False show ?thesis by (auto simp: less_Suc_eq_0_disj)
  qed (use Cons.prems in auto)
qed simp

lemma position_None_iff: "position P xs = None \<longleftrightarrow> (\<forall>x \<in> set xs. \<not> P x)"
  by (induction xs) auto

end
