(* ===== verification/Model.thy ===== *)
theory Model
  imports Json
begin

text \<open>
  The program root of \<open>src/src/model.rs\<close>: the immutable snapshot a root hash names. It
  lists symbols with their definition and signature hashes, types, name bindings, parameter
  names, exports and tests. The theory holds the payload records, \<open>normalize_root\<close> (the
  canonical order in which a root is hashed), the lookups by name and by symbol, the display
  of a symbol in a module, and the identifiers the projection accepts.
\<close>

subsection \<open>Payloads\<close>

record root_symbol_payload =
  rs_symbol :: string
  rs_definition :: string
  rs_signature :: string

record root_type_payload =
  rt_type_symbol :: string
  rt_type_def :: string

record name_binding =
  nb_module :: string
  nb_display_name :: string
  nb_symbol :: string
  nb_is_preferred :: bool

record type_name_binding =
  tnb_module :: string
  tnb_display_name :: string
  tnb_type_symbol :: string
  tnb_is_preferred :: bool

record param_names_payload =
  pn_symbol :: string
  pn_names :: "string list"

record export_binding =
  eb_symbol :: string
  eb_exported_name :: string

record root_test_binding =
  tb_name :: string
  tb_test :: string

record program_root =
  symbols :: "root_symbol_payload list"
  types :: "root_type_payload list"
  names :: "name_binding list"
  type_names :: "type_name_binding list"
  param_names :: "param_names_payload list"
  exports :: "export_binding list"
  tests :: "root_test_binding list"
  recursion_groups :: "string list"
  type_recursion_groups :: "string list"
  metadata :: "(string \<times> json) list"

record branch_state =
  bs_root_hash :: string
  bs_history_hash :: "string option"

definition empty_root :: program_root where
  "empty_root = \<lparr>symbols = [], types = [], names = [], type_names = [], param_names = [],
     exports = [], tests = [], recursion_groups = [], type_recursion_groups = [], metadata = []\<rparr>"

definition ROOT_MODULES_METADATA_KEY :: string where
  "ROOT_MODULES_METADATA_KEY = ''modules''"

subsection \<open>Canonical order\<close>

abbreviation name_key :: "name_binding \<Rightarrow> string \<times> string \<times> string \<times> bool" where
  "name_key b \<equiv> (nb_module b, nb_display_name b, nb_symbol b, nb_is_preferred b)"

abbreviation type_name_key :: "type_name_binding \<Rightarrow> string \<times> string \<times> string \<times> bool" where
  "type_name_key b \<equiv> (tnb_module b, tnb_display_name b, tnb_type_symbol b, tnb_is_preferred b)"

definition normalize_root :: "program_root \<Rightarrow> program_root" where
  "normalize_root root = root\<lparr>
     symbols := sort_key rs_symbol (symbols root),
     types := sort_key rt_type_symbol (types root),
     names := sort_key name_key (names root),
     type_names := sort_key type_name_key (type_names root),
     param_names := sort_key pn_symbol (param_names root),
     exports := sort_key (\<lambda>b. (eb_exported_name b, eb_symbol b)) (exports root),
     tests := sort_key (\<lambda>b. (tb_name b, tb_test b)) (tests root),
     recursion_groups := sort (recursion_groups root),
     type_recursion_groups := sort (type_recursion_groups root)\<rparr>"

subsection \<open>Modules\<close>

definition root_module_names :: "program_root \<Rightarrow> string list" where
  "root_module_names root =
     (let listed = (case map_of (metadata root) ROOT_MODULES_METADATA_KEY of
                      None \<Rightarrow> []
                    | Some v \<Rightarrow> (case as_array v of None \<Rightarrow> [] | Some vs \<Rightarrow>
                        List.map_filter (\<lambda>e. Option.bind (json_get ''name'' e) as_str) vs));
          modules = fold bset_insert (map nb_module (names root)) (bset_of_list listed);
          modules = fold bset_insert (map tnb_module (type_names root)) modules
      in if modules = [] then [''main''] else modules)"

definition synchronize_module_metadata :: "program_root \<Rightarrow> program_root" where
  "synchronize_module_metadata root =
     (let modules = bset_of_list (map nb_module (names root) @ map tnb_module (type_names root))
      in if modules = []
         then root\<lparr>metadata := bmap_remove ROOT_MODULES_METADATA_KEY (metadata root)\<rparr>
         else root\<lparr>metadata := bmap_insert ROOT_MODULES_METADATA_KEY
                (JArr (map (\<lambda>name. JObj [(''name'', JStr name)]) modules)) (metadata root)\<rparr>)"

subsection \<open>Lookups\<close>

definition root_symbol_index :: "program_root \<Rightarrow> string \<Rightarrow> nat res" where
  "root_symbol_index root symbol =
     ok_or (position (\<lambda>entry. rs_symbol entry = symbol) (symbols root))
       (Bail ''symbol missing from root {}'' [symbol])"

definition root_type_index :: "program_root \<Rightarrow> string \<Rightarrow> nat res" where
  "root_type_index root type_symbol =
     ok_or (position (\<lambda>entry. rt_type_symbol entry = type_symbol) (types root))
       (Bail ''type missing from root {}'' [type_symbol])"

text \<open>The first entry of the symbol is updated in place, a new one is pushed at the end.\<close>

fun upsert_param_entry :: "string \<Rightarrow> string list \<Rightarrow> param_names_payload list \<Rightarrow> param_names_payload list" where
  "upsert_param_entry symbol ns [] = [\<lparr>pn_symbol = symbol, pn_names = ns\<rparr>]"
| "upsert_param_entry symbol ns (e # es) =
     (if pn_symbol e = symbol then e\<lparr>pn_names := ns\<rparr> # es
      else e # upsert_param_entry symbol ns es)"

definition upsert_param_names :: "program_root \<Rightarrow> string \<Rightarrow> string list \<Rightarrow> program_root" where
  "upsert_param_names root symbol ns =
     root\<lparr>param_names := upsert_param_entry symbol ns (param_names root)\<rparr>"

definition param_names_of :: "program_root \<Rightarrow> string \<Rightarrow> string list" where
  "param_names_of root symbol =
     (case List.find (\<lambda>entry. pn_symbol entry = symbol) (param_names root) of
        None \<Rightarrow> [] | Some entry \<Rightarrow> pn_names entry)"

definition preferred_names :: "program_root \<Rightarrow> name_binding list" where
  "preferred_names root =
     sort_key (\<lambda>b. (nb_module b, nb_display_name b, nb_symbol b))
       (filter nb_is_preferred (names root))"

definition preferred_type_names :: "program_root \<Rightarrow> type_name_binding list" where
  "preferred_type_names root =
     sort_key (\<lambda>b. (tnb_module b, tnb_display_name b, tnb_type_symbol b))
       (filter tnb_is_preferred (type_names root))"

definition preferred_binding :: "program_root \<Rightarrow> string \<Rightarrow> name_binding option" where
  "preferred_binding root symbol =
     (case List.find (\<lambda>b. nb_symbol b = symbol \<and> nb_is_preferred b) (names root) of
        Some b \<Rightarrow> Some b
      | None \<Rightarrow> List.find (\<lambda>b. nb_symbol b = symbol) (names root))"

definition preferred_type_binding :: "program_root \<Rightarrow> string \<Rightarrow> type_name_binding option" where
  "preferred_type_binding root type_symbol =
     (case List.find (\<lambda>b. tnb_type_symbol b = type_symbol \<and> tnb_is_preferred b) (type_names root) of
        Some b \<Rightarrow> Some b
      | None \<Rightarrow> List.find (\<lambda>b. tnb_type_symbol b = type_symbol) (type_names root))"

definition aliases_for :: "program_root \<Rightarrow> string \<Rightarrow> string list" where
  "aliases_for root symbol =
     bset_of_list (map nb_display_name
       (filter (\<lambda>b. nb_symbol b = symbol \<and> \<not> nb_is_preferred b) (names root)))"

definition exports_for :: "program_root \<Rightarrow> string \<Rightarrow> string list" where
  "exports_for root symbol =
     bset_of_list (map eb_exported_name (filter (\<lambda>b. eb_symbol b = symbol) (exports root)))"

definition test_binding_for :: "program_root \<Rightarrow> string \<Rightarrow> root_test_binding option" where
  "test_binding_for root name = List.find (\<lambda>b. tb_name b = name) (tests root)"

definition resolve_name_in_root :: "program_root \<Rightarrow> string \<Rightarrow> string \<Rightarrow> string option" where
  "resolve_name_in_root root module name =
     map_option nb_symbol
       (List.find (\<lambda>b. nb_module b = module \<and> nb_display_name b = name) (names root))"

definition resolve_type_name_in_root :: "program_root \<Rightarrow> string \<Rightarrow> string \<Rightarrow> string option" where
  "resolve_type_name_in_root root module name =
     map_option tnb_type_symbol
       (List.find (\<lambda>b. tnb_module b = module \<and> tnb_display_name b = name) (type_names root))"

definition split_qualified_name :: "string \<Rightarrow> (string \<times> string) option" where
  "split_qualified_name name =
     (case rsplit_once (CHR ''.'') name of
        None \<Rightarrow> None
      | Some (module, local_name) \<Rightarrow>
          if module = [] \<or> local_name = [] then None else Some (module, local_name))"

definition resolve_function_name_in_root :: "program_root \<Rightarrow> string \<Rightarrow> string \<Rightarrow> string option" where
  "resolve_function_name_in_root root current_module name =
     (case split_qualified_name name of
        Some (module, local_name) \<Rightarrow> resolve_name_in_root root module local_name
      | None \<Rightarrow> resolve_name_in_root root current_module name)"

definition resolve_named_type_in_root :: "program_root \<Rightarrow> string \<Rightarrow> string \<Rightarrow> string option" where
  "resolve_named_type_in_root root current_module name =
     (case split_qualified_name name of
        Some (module, local_name) \<Rightarrow> resolve_type_name_in_root root module local_name
      | None \<Rightarrow> resolve_type_name_in_root root current_module name)"

definition symbol_display_in_module :: "program_root \<Rightarrow> string \<Rightarrow> string \<Rightarrow> string option" where
  "symbol_display_in_module root current_module symbol =
     (case preferred_binding root symbol of
        None \<Rightarrow> None
      | Some b \<Rightarrow>
          if nb_module b = current_module then Some (nb_display_name b)
          else Some (nb_module b @ ''.'' @ nb_display_name b))"

definition qualified_symbol_display :: "program_root \<Rightarrow> string \<Rightarrow> string option" where
  "qualified_symbol_display root symbol =
     map_option (\<lambda>b. nb_module b @ ''.'' @ nb_display_name b) (preferred_binding root symbol)"

definition type_symbol_display_in_module :: "program_root \<Rightarrow> string \<Rightarrow> string \<Rightarrow> string option" where
  "type_symbol_display_in_module root current_module type_symbol =
     (case preferred_type_binding root type_symbol of
        None \<Rightarrow> None
      | Some b \<Rightarrow>
          if tnb_module b = current_module then Some (tnb_display_name b)
          else Some (tnb_module b @ ''.'' @ tnb_display_name b))"

subsection \<open>Projection identifiers\<close>

definition is_ascii_alphabetic :: "char \<Rightarrow> bool" where
  "is_ascii_alphabetic c \<longleftrightarrow>
     (CHR ''a'' \<le> c \<and> c \<le> CHR ''z'') \<or> (CHR ''A'' \<le> c \<and> c \<le> CHR ''Z'')"

definition is_ascii_digit :: "char \<Rightarrow> bool" where
  "is_ascii_digit c \<longleftrightarrow> CHR ''0'' \<le> c \<and> c \<le> CHR ''9''"

definition is_ascii_alphanumeric :: "char \<Rightarrow> bool" where
  "is_ascii_alphanumeric c \<longleftrightarrow> is_ascii_alphabetic c \<or> is_ascii_digit c"

definition reserved_projection_identifiers :: "string list" where
  "reserved_projection_identifiers =
     [''fn'', ''if'', ''then'', ''else'', ''let'', ''in'', ''module'', ''mut'', ''of'', ''record'',
      ''true'', ''false'', ''i64'', ''bool'', ''unit'', ''auto'', ''break'', ''case'', ''char'',
      ''const'', ''continue'', ''default'', ''do'', ''double'', ''enum'', ''extern'', ''float'',
      ''fold'', ''for'', ''goto'', ''int'', ''long'', ''with'', ''register'', ''return'', ''short'',
      ''signed'', ''sizeof'', ''static'', ''struct'', ''switch'', ''typedef'', ''union'',
      ''unsigned'', ''void'', ''volatile'', ''while'']"

definition reserved_projection_identifier :: "string \<Rightarrow> bool" where
  "reserved_projection_identifier name \<longleftrightarrow> name \<in> set reserved_projection_identifiers"

definition is_projection_identifier :: "string \<Rightarrow> bool" where
  "is_projection_identifier name =
     (case name of
        [] \<Rightarrow> False
      | first # rest \<Rightarrow>
          if first \<noteq> CHR ''_'' \<and> \<not> is_ascii_alphabetic first then False
          else list_all (\<lambda>ch. ch = CHR ''_'' \<or> is_ascii_alphanumeric ch) rest
             \<and> \<not> reserved_projection_identifier name)"

definition validate_projection_identifier :: "string \<Rightarrow> string \<Rightarrow> unit res" where
  "validate_projection_identifier label name =
     (if \<not> is_projection_identifier name
      then Inl (Bail ''{} must be a projection-safe identifier: {:?}'' [label, name])
      else Inr ())"

definition validate_module_path :: "string \<Rightarrow> string \<Rightarrow> unit res" where
  "validate_module_path label module =
     (if module = [] then Inl (Bail ''{} must not be empty'' [label])
      else res_fold (\<lambda>segment _. validate_projection_identifier label segment)
             (split_on (CHR ''.'') module) ())"


subsection \<open>The interface of a name table\<close>

text \<open>
  Function names and type names are two tables of bindings with the same shape: a module, a
  display name, the symbol bound and a preference flag. The locale states what a binding
  type provides (a binding is determined by the four), and its lemmas serve both tables.
\<close>

locale name_table =
  fixes modl :: "'b \<Rightarrow> string" and disp :: "'b \<Rightarrow> string"
    and target :: "'b \<Rightarrow> string" and pref :: "'b \<Rightarrow> bool"
  assumes binding_ext:
    "modl a = modl b \<Longrightarrow> disp a = disp b \<Longrightarrow> target a = target b \<Longrightarrow> pref a = pref b \<Longrightarrow> a = b"
begin

definition key :: "'b \<Rightarrow> string \<times> string \<times> string \<times> bool" where
  "key b = (modl b, disp b, target b, pref b)"

definition resolve :: "'b list \<Rightarrow> string \<Rightarrow> string \<Rightarrow> string option" where
  "resolve bs m n = map_option target (List.find (\<lambda>b. modl b = m \<and> disp b = n) bs)"

definition preferred :: "'b list \<Rightarrow> string \<Rightarrow> 'b option" where
  "preferred bs s =
     (case List.find (\<lambda>b. target b = s \<and> pref b) bs of
        Some b \<Rightarrow> Some b
      | None \<Rightarrow> List.find (\<lambda>b. target b = s) bs)"

definition unambiguous :: "'b list \<Rightarrow> bool" where
  "unambiguous bs \<longleftrightarrow>
     (\<forall>a \<in> set bs. \<forall>b \<in> set bs. modl a = modl b \<and> disp a = disp b \<longrightarrow> target a = target b)"

lemma inj_key: "inj_on key A"
  using binding_ext by (auto simp: inj_on_def key_def)

lemma sort_canonical: "mset xs = mset ys \<Longrightarrow> sort_key key xs = sort_key key ys"
  by (rule sort_key_eqI) (simp_all add: inj_key)

lemma resolve_member:
  assumes "unambiguous bs" and "b \<in> set bs"
  shows "resolve bs (modl b) (disp b) = Some (target b)"
proof -
  obtain a where a: "List.find (\<lambda>x. modl x = modl b \<and> disp x = disp b) bs = Some a"
    using assms(2) by (cases "List.find (\<lambda>x. modl x = modl b \<and> disp x = disp b) bs") (auto simp: find_eq_None_iff)
  then have "target a = target b"
    using assms find_Some_in [OF a] unfolding unambiguous_def by blast
  with a show ?thesis by (simp add: resolve_def)
qed

lemma resolve_SomeD: "resolve bs m n = Some s \<Longrightarrow> \<exists>b \<in> set bs. modl b = m \<and> disp b = n \<and> target b = s"
proof -
  assume "resolve bs m n = Some s"
  then obtain b where b: "List.find (\<lambda>b. modl b = m \<and> disp b = n) bs = Some b" "target b = s"
    unfolding resolve_def by blast
  from find_Some_in [OF b(1)] b(2) show ?thesis by blast
qed

lemma preferred_SomeD:
  assumes "preferred bs s = Some b"
  shows "b \<in> set bs \<and> target b = s \<and> ((\<exists>a \<in> set bs. target a = s \<and> pref a) \<longrightarrow> pref b)"
proof (cases "List.find (\<lambda>b. target b = s \<and> pref b) bs")
  case None
  with assms have "List.find (\<lambda>b. target b = s) bs = Some b" by (simp add: preferred_def)
  with None show ?thesis by (auto simp: find_eq_None_iff dest: find_Some_in)
next
  case (Some a)
  with assms show ?thesis by (auto simp: preferred_def dest: find_Some_in)
qed

lemma preferred_None_iff: "preferred bs s = None \<longleftrightarrow> (\<forall>b \<in> set bs. target b \<noteq> s)"
proof (cases "List.find (\<lambda>b. target b = s \<and> pref b) bs")
  case (Some a)
  then show ?thesis by (auto simp: preferred_def dest: find_Some_in)
next
  case None
  then have "preferred bs s = List.find (\<lambda>b. target b = s) bs" by (simp add: preferred_def)
  then show ?thesis by (simp add: find_eq_None_iff)
qed

lemma resolve_preferred:
  "unambiguous bs \<Longrightarrow> preferred bs s = Some b \<Longrightarrow> resolve bs (modl b) (disp b) = Some s"
  using resolve_member preferred_SomeD by blast

end

interpretation nm: name_table "nb_module :: name_binding \<Rightarrow> string" nb_display_name nb_symbol nb_is_preferred
  by unfold_locales (rule name_binding.equality; simp)

interpretation tnm: name_table "tnb_module :: type_name_binding \<Rightarrow> string" tnb_display_name tnb_type_symbol tnb_is_preferred
  by unfold_locales (rule type_name_binding.equality; simp)

lemma resolve_name_nm: "resolve_name_in_root root m n = nm.resolve (names root) m n"
  by (simp add: resolve_name_in_root_def nm.resolve_def)

lemma resolve_type_name_tnm: "resolve_type_name_in_root root m n = tnm.resolve (type_names root) m n"
  by (simp add: resolve_type_name_in_root_def tnm.resolve_def)

lemma preferred_binding_nm: "preferred_binding root s = nm.preferred (names root) s"
  by (simp add: preferred_binding_def nm.preferred_def)

lemma preferred_type_binding_tnm: "preferred_type_binding root s = tnm.preferred (type_names root) s"
  by (simp add: preferred_type_binding_def tnm.preferred_def)

lemma name_key_nm: "name_key = nm.key" and type_name_key_tnm: "type_name_key = tnm.key"
  by (auto simp: nm.key_def tnm.key_def)

subsection \<open>Normalisation is canonical\<close>

text \<open>The content of a root: its entries, regardless of their order.\<close>

definition same_content :: "program_root \<Rightarrow> program_root \<Rightarrow> bool" where
  "same_content r s \<longleftrightarrow>
     mset (symbols r) = mset (symbols s) \<and> mset (types r) = mset (types s) \<and>
     mset (names r) = mset (names s) \<and> mset (type_names r) = mset (type_names s) \<and>
     mset (param_names r) = mset (param_names s) \<and> mset (exports r) = mset (exports s) \<and>
     mset (tests r) = mset (tests s) \<and> mset (recursion_groups r) = mset (recursion_groups s) \<and>
     mset (type_recursion_groups r) = mset (type_recursion_groups s) \<and> metadata r = metadata s"

definition keyed_once :: "program_root \<Rightarrow> bool" where
  "keyed_once r \<longleftrightarrow>
     distinct (map rs_symbol (symbols r)) \<and> distinct (map rt_type_symbol (types r)) \<and>
     distinct (map pn_symbol (param_names r))"

lemma normalize_root_fields [simp]:
  "symbols (normalize_root r) = sort_key rs_symbol (symbols r)"
  "types (normalize_root r) = sort_key rt_type_symbol (types r)"
  "names (normalize_root r) = sort_key name_key (names r)"
  "type_names (normalize_root r) = sort_key type_name_key (type_names r)"
  "param_names (normalize_root r) = sort_key pn_symbol (param_names r)"
  "exports (normalize_root r) = sort_key (\<lambda>b. (eb_exported_name b, eb_symbol b)) (exports r)"
  "tests (normalize_root r) = sort_key (\<lambda>b. (tb_name b, tb_test b)) (tests r)"
  "recursion_groups (normalize_root r) = sort (recursion_groups r)"
  "type_recursion_groups (normalize_root r) = sort (type_recursion_groups r)"
  "metadata (normalize_root r) = metadata r"
  by (simp_all add: normalize_root_def)

lemma normalize_root_more [simp]: "program_root.more (normalize_root r) = program_root.more r"
  by (simp add: normalize_root_def)

lemma same_content_normalize: "same_content (normalize_root r) r"
  by (simp add: same_content_def)

lemma same_content_sym: "same_content r s \<Longrightarrow> same_content s r"
  and same_content_trans: "same_content r s \<Longrightarrow> same_content s t \<Longrightarrow> same_content r t"
  by (simp_all add: same_content_def)

lemma inj_on_distinct_map: "distinct (map f xs) \<Longrightarrow> inj_on f (set xs)"
  by (simp add: distinct_map)

lemma normalize_root_content:
  assumes "same_content r s" and "keyed_once r"
  shows "normalize_root r = normalize_root s"
proof (rule program_root.equality)
  show "exports (normalize_root r) = exports (normalize_root s)"
    using assms(1) by (auto simp: same_content_def inj_on_def intro!: sort_key_eqI export_binding.equality)
  show "tests (normalize_root r) = tests (normalize_root s)"
    using assms(1) by (auto simp: same_content_def inj_on_def intro!: sort_key_eqI root_test_binding.equality)
  show "names (normalize_root r) = names (normalize_root s)"
    using assms(1) nm.sort_canonical [of "names r" "names s"] by (simp add: same_content_def name_key_nm)
  show "type_names (normalize_root r) = type_names (normalize_root s)"
    using assms(1) tnm.sort_canonical [of "type_names r" "type_names s"]
    by (simp add: same_content_def type_name_key_tnm)
qed (use assms in \<open>auto simp: same_content_def keyed_once_def inj_on_distinct_map
       intro!: sort_key_eqI inj_on_id2\<close>)

text \<open>C32. Two roots with one entry per symbol, type and parameter list normalise to the same
  payload exactly when they have the same content: the order in which operations pushed
  entries never shows in the root that is hashed, and the payload loses nothing.\<close>

theorem normalize_root_canonical:
  assumes "keyed_once r"
  shows "normalize_root r = normalize_root s \<longleftrightarrow> same_content r s"
proof
  assume "normalize_root r = normalize_root s"
  then show "same_content r s"
    by (metis same_content_normalize same_content_sym same_content_trans)
qed (rule normalize_root_content [OF _ assms])

theorem normalize_root_canonical_witness:
  "normalize_root (empty_root\<lparr>recursion_groups := [''b'', ''a'']\<rparr>)
     = normalize_root (empty_root\<lparr>recursion_groups := [''a'', ''b'']\<rparr>)"
  by (subst normalize_root_canonical)
    (simp_all add: keyed_once_def same_content_def empty_root_def)

lemma normalize_root_idem: "normalize_root (normalize_root r) = normalize_root r"
  by (rule program_root.equality)
    (simp_all add: sort_key_id_if_sorted del: sort_key_simps)


subsection \<open>Names that survive printing\<close>

text \<open>
  \<open>symbol_display_in_module\<close> prints a symbol for a module, \<open>resolve_function_name_in_root\<close>
  reads it back. Identifiers and module paths are what makes the two inverse: a display name
  has no dot and a module path has no empty segment.
\<close>

lemma projection_identifier_chars:
  "is_projection_identifier n \<Longrightarrow> n \<noteq> [] \<and> (\<forall>c \<in> set n. c = CHR ''_'' \<or> is_ascii_alphanumeric c)"
  by (auto simp: is_projection_identifier_def is_ascii_alphanumeric_def list_all_iff
      split: list.splits if_splits)

lemma dot_not_alphanumeric: "\<not> (CHR ''.'' = CHR ''_'' \<or> is_ascii_alphanumeric (CHR ''.''))"
  by (simp add: is_ascii_alphanumeric_def is_ascii_alphabetic_def is_ascii_digit_def less_eq_char_def)

lemma projection_identifier_no_dot: "is_projection_identifier n \<Longrightarrow> CHR ''.'' \<notin> set n"
  using projection_identifier_chars [of n] dot_not_alphanumeric by blast

lemma validate_projection_identifier_ok:
  "validate_projection_identifier label n = Inr u \<longleftrightarrow> is_projection_identifier n"
  by (simp add: validate_projection_identifier_def)

lemma res_fold_unit: "res_fold (\<lambda>x (_ :: unit). f x) xs u = Inr v \<longleftrightarrow> (\<forall>x \<in> set xs. is_ok (f x))"
  by (induction xs arbitrary: u) (auto simp: is_ok_iff)

lemma validate_module_path_ok:
  "validate_module_path label m = Inr u \<longleftrightarrow>
     m \<noteq> [] \<and> (\<forall>seg \<in> set (split_on (CHR ''.'') m). is_projection_identifier seg)"
  by (auto simp: validate_module_path_def res_fold_unit is_ok_iff validate_projection_identifier_ok)

lemma split_qualified_qualified:
  "m \<noteq> [] \<Longrightarrow> n \<noteq> [] \<Longrightarrow> CHR ''.'' \<notin> set n \<Longrightarrow> split_qualified_name (m @ CHR ''.'' # n) = Some (m, n)"
  by (simp add: split_qualified_name_def rsplit_once_append)

lemma split_qualified_plain: "CHR ''.'' \<notin> set n \<Longrightarrow> split_qualified_name n = None"
  by (simp add: split_qualified_name_def rsplit_once_None_iff [THEN iffD2])

text \<open>Every binding of the root carries names an accepted operation could have given it.\<close>

definition names_wf :: "program_root \<Rightarrow> bool" where
  "names_wf r \<longleftrightarrow>
     nm.unambiguous (names r) \<and> tnm.unambiguous (type_names r) \<and>
     (\<forall>b \<in> set (names r). validate_module_path ''module'' (nb_module b) = Inr () \<and>
        is_projection_identifier (nb_display_name b)) \<and>
     (\<forall>b \<in> set (type_names r). validate_module_path ''module'' (tnb_module b) = Inr () \<and>
        is_projection_identifier (tnb_display_name b))"

text \<open>C31. Whatever module it is printed for, the displayed name of a symbol resolves back to
  that symbol in the same module.\<close>

theorem display_resolves:
  assumes wf: "names_wf r" and disp: "symbol_display_in_module r m s = Some d"
  shows "resolve_function_name_in_root r m d = Some s"
proof -
  obtain b where pref: "preferred_binding r s = Some b"
    and d: "d = (if nb_module b = m then nb_display_name b else nb_module b @ CHR ''.'' # nb_display_name b)"
    using disp by (auto simp: symbol_display_in_module_def split: option.splits if_splits)
  then have b: "b \<in> set (names r)" "resolve_name_in_root r (nb_module b) (nb_display_name b) = Some s"
    using nm.preferred_SomeD nm.resolve_preferred wf
    by (auto simp: preferred_binding_nm resolve_name_nm names_wf_def)
  then have "CHR ''.'' \<notin> set (nb_display_name b)" "nb_display_name b \<noteq> []" "nb_module b \<noteq> []"
    using wf projection_identifier_no_dot projection_identifier_chars
    by (auto simp: names_wf_def validate_module_path_ok)
  with b(2) d show ?thesis
    by (auto simp: resolve_function_name_in_root_def split_qualified_plain split_qualified_qualified)
qed

theorem display_resolves_witness:
  "resolve_function_name_in_root
     (empty_root\<lparr>names := [\<lparr>nb_module = ''shop'', nb_display_name = ''tax'', nb_symbol = ''sha256:ab'', nb_is_preferred = True\<rparr>]\<rparr>)
     ''main'' ''shop.tax'' = Some ''sha256:ab''"
  by (rule display_resolves)
    (simp_all add: names_wf_def empty_root_def nm.unambiguous_def tnm.unambiguous_def
      validate_module_path_ok is_projection_identifier_def is_ascii_alphanumeric_def
      is_ascii_alphabetic_def less_eq_char_def reserved_projection_identifier_def
      reserved_projection_identifiers_def symbol_display_in_module_def preferred_binding_def)

text \<open>The same for types: a displayed type name resolves back to the type symbol.\<close>

theorem type_display_resolves:
  assumes wf: "names_wf r" and disp: "type_symbol_display_in_module r m s = Some d"
  shows "resolve_named_type_in_root r m d = Some s"
proof -
  obtain b where pref: "preferred_type_binding r s = Some b"
    and d: "d = (if tnb_module b = m then tnb_display_name b else tnb_module b @ CHR ''.'' # tnb_display_name b)"
    using disp by (auto simp: type_symbol_display_in_module_def split: option.splits if_splits)
  then have b: "b \<in> set (type_names r)"
      "resolve_type_name_in_root r (tnb_module b) (tnb_display_name b) = Some s"
    using tnm.preferred_SomeD tnm.resolve_preferred wf
    by (auto simp: preferred_type_binding_tnm resolve_type_name_tnm names_wf_def)
  then have "CHR ''.'' \<notin> set (tnb_display_name b)" "tnb_display_name b \<noteq> []" "tnb_module b \<noteq> []"
    using wf projection_identifier_no_dot projection_identifier_chars
    by (auto simp: names_wf_def validate_module_path_ok)
  with b(2) d show ?thesis
    by (auto simp: resolve_named_type_in_root_def split_qualified_plain split_qualified_qualified)
qed

theorem type_display_resolves_witness:
  "resolve_named_type_in_root
     (empty_root\<lparr>type_names := [\<lparr>tnb_module = ''shop'', tnb_display_name = ''Line'', tnb_type_symbol = ''sha256:cd'', tnb_is_preferred = True\<rparr>]\<rparr>)
     ''shop'' ''Line'' = Some ''sha256:cd''"
  by (rule type_display_resolves)
    (simp_all add: names_wf_def empty_root_def nm.unambiguous_def tnm.unambiguous_def
      validate_module_path_ok is_projection_identifier_def is_ascii_alphanumeric_def
      is_ascii_alphabetic_def less_eq_char_def reserved_projection_identifier_def
      reserved_projection_identifiers_def type_symbol_display_in_module_def preferred_type_binding_def)

subsection \<open>Parameter names and module metadata\<close>

lemma find_upsert_param_entry:
  "List.find (\<lambda>e. pn_symbol e = t) (upsert_param_entry s ns es) =
     (if t = s then Some (case List.find (\<lambda>e. pn_symbol e = s) es of
                           None \<Rightarrow> \<lparr>pn_symbol = s, pn_names = ns\<rparr> | Some e \<Rightarrow> e\<lparr>pn_names := ns\<rparr>)
      else List.find (\<lambda>e. pn_symbol e = t) es)"
  by (induction es) auto

lemma param_names_upsert:
  "param_names_of (upsert_param_names r s ns) t = (if t = s then ns else param_names_of r t)"
  by (auto simp: param_names_of_def upsert_param_names_def find_upsert_param_entry split: option.splits)

lemma upsert_param_entry_keys:
  "map pn_symbol (upsert_param_entry s ns es) =
     (if s \<in> pn_symbol ` set es then map pn_symbol es else map pn_symbol es @ [s])"
  by (induction es) auto

lemma keyed_once_upsert: "keyed_once r \<Longrightarrow> keyed_once (upsert_param_names r s ns)"
  by (auto simp: keyed_once_def upsert_param_names_def upsert_param_entry_keys)

lemma map_filter_names:
  "List.map_filter (\<lambda>e. Option.bind (json_get ''name'' e) as_str)
     (map (\<lambda>n. JObj [(''name'', JStr n)]) ns) = ns"
  by (induction ns) (simp_all add: List.map_filter_simps)

lemma fold_bset_insert_absorb:
  "bset_ok ys \<Longrightarrow> set xs \<subseteq> set ys \<Longrightarrow> fold bset_insert xs ys = ys"
  by (rule bset_unique) (auto simp: bset_ok_fold set_fold_bset_insert)

text \<open>After \<open>synchronize_module_metadata\<close> the modules of the root are exactly those some
  binding lives in, and \<open>main\<close> when there is none, whatever the metadata listed before.\<close>

theorem synchronize_modules:
  "root_module_names (synchronize_module_metadata r) =
     (if names r = [] \<and> type_names r = [] then [''main'']
      else bset_of_list (map nb_module (names r) @ map tnb_module (type_names r)))"
proof -
  define ms where "ms = bset_of_list (map nb_module (names r) @ map tnb_module (type_names r))"
  show ?thesis
  proof (cases "ms = []")
    case True
    then have "names r = []" "type_names r = []" by (simp_all add: ms_def)
    then show ?thesis
      by (simp add: root_module_names_def synchronize_module_metadata_def bset_of_list_def)
  next
    case False
    have abs: "bset_of_list ms = ms"
      by (rule bset_unique) (simp_all add: ms_def)
    have "fold bset_insert (map nb_module (names r)) ms = ms"
      "fold bset_insert (map tnb_module (type_names r)) ms = ms"
      by (simp_all add: ms_def fold_bset_insert_absorb)
    with False abs show ?thesis
      by (simp add: root_module_names_def synchronize_module_metadata_def Let_def
          ms_def [symmetric] map_filter_names) (auto simp: ms_def)
  qed
qed

end
