(* ===== verification/Abi.thy ===== *)
theory Abi
  imports Model
begin

text \<open>
  Native names of symbols, \<open>src/src/abi.rs\<close>. Every symbol has an internal ABI name made of
  the first sixteen hex digits of its hash; an export gives it a public name as well.
  \<open>validate_export_map\<close> is the gate every root passes before it is stored: the theory
  characterises what it accepts and shows that an accepted root links without clashes.
\<close>

definition INTERNAL_ABI_PREFIX :: string where
  "INTERNAL_ABI_PREFIX = ''codedb_''"

definition INTERNAL_ABI_HASH_HEX_LEN :: nat where
  "INTERNAL_ABI_HASH_HEX_LEN = 16"

record abi_export =
  ae_symbol :: string
  ae_internal_abi_symbol :: string
  ae_exported_name :: string

definition is_ascii_hexdigit :: "char \<Rightarrow> bool" where
  "is_ascii_hexdigit c \<longleftrightarrow> is_ascii_digit c \<or>
     (CHR ''a'' \<le> c \<and> c \<le> CHR ''f'') \<or> (CHR ''A'' \<le> c \<and> c \<le> CHR ''F'')"

definition internal_abi_symbol :: "string \<Rightarrow> string res" where
  "internal_abi_symbol symbol_hash =
     (case strip_prefix ''sha256:'' symbol_hash of
        None \<Rightarrow> Inl (Bail ''symbol hash must use sha256: prefix'' [])
      | Some hex \<Rightarrow>
          if length hex < INTERNAL_ABI_HASH_HEX_LEN \<or> \<not> list_all is_ascii_hexdigit hex
          then Inl (Bail ''symbol hash must contain at least 16 hex characters'' [])
          else Inr (INTERNAL_ABI_PREFIX @ take INTERNAL_ABI_HASH_HEX_LEN hex))"

definition is_valid_abi_identifier :: "string \<Rightarrow> bool" where
  "is_valid_abi_identifier name =
     (case name of
        [] \<Rightarrow> False
      | first # rest \<Rightarrow>
          if first \<noteq> CHR ''_'' \<and> \<not> is_ascii_alphabetic first then False
          else list_all (\<lambda>ch. ch = CHR ''_'' \<or> is_ascii_alphanumeric ch) rest)"

definition c_keywords :: "string list" where
  "c_keywords =
     [''auto'', ''break'', ''case'', ''char'', ''const'', ''continue'', ''default'', ''do'',
      ''double'', ''else'', ''enum'', ''extern'', ''float'', ''for'', ''goto'', ''if'', ''inline'',
      ''int'', ''long'', ''register'', ''restrict'', ''return'', ''short'', ''signed'', ''sizeof'',
      ''static'', ''struct'', ''switch'', ''typedef'', ''union'', ''unsigned'', ''void'',
      ''volatile'', ''while'', ''_Alignas'', ''_Alignof'', ''_Atomic'', ''_Bool'', ''_Complex'',
      ''_Generic'', ''_Imaginary'', ''_Noreturn'', ''_Static_assert'', ''_Thread_local'']"

definition is_c_keyword :: "string \<Rightarrow> bool" where
  "is_c_keyword name \<longleftrightarrow> name \<in> set c_keywords"

definition is_reserved_native_export_name :: "string \<Rightarrow> bool" where
  "is_reserved_native_export_name name \<longleftrightarrow> name = ''main'' \<or> is_c_keyword name"

definition validate_exported_abi_name :: "string \<Rightarrow> unit res" where
  "validate_exported_abi_name name =
     (if \<not> is_valid_abi_identifier name then Inl (Bail ''bad ABI export name {:?}'' [name])
      else if is_reserved_native_export_name name
      then Inl (Bail ''reserved native ABI export name {:?}'' [name])
      else Inr ())"

definition exported_abi_names :: "program_root \<Rightarrow> string \<Rightarrow> string list" where
  "exported_abi_names root symbol = exports_for root symbol"

text \<open>
  The two loops of \<open>validate_export_map\<close>. The first fills the map from internal names to
  symbols; the second reads it and fills the set of exported names.
\<close>

definition collect_internal_symbol ::
    "root_symbol_payload \<Rightarrow> (string \<times> string) list \<Rightarrow> (string \<times> string) list res" where
  "collect_internal_symbol entry internal_symbols =
     res_bind (internal_abi_symbol (rs_symbol entry)) (\<lambda>internal.
       case map_of internal_symbols internal of
         Some existing \<Rightarrow>
           Inl (Bail ''internal ABI symbol {} is shared by symbols {} and {}''
             [internal, existing, rs_symbol entry])
       | None \<Rightarrow> Inr (bmap_insert internal (rs_symbol entry) internal_symbols))"

definition check_export ::
    "string list \<Rightarrow> (string \<times> string) list \<Rightarrow> export_binding \<Rightarrow> string list \<Rightarrow> string list res" where
  "check_export root_symbols internal_symbols binding exported_names =
     (if eb_symbol binding \<notin> set root_symbols
      then Inl (Bail ''export {} points to missing symbol {}''
             [eb_exported_name binding, eb_symbol binding])
      else res_bind (validate_exported_abi_name (eb_exported_name binding)) (\<lambda>_.
        if eb_exported_name binding \<in> set exported_names
        then Inl (Bail ''duplicate exported ABI name {}'' [eb_exported_name binding])
        else
          case map_of internal_symbols (eb_exported_name binding) of
            Some owner \<Rightarrow>
              if owner \<noteq> eb_symbol binding
              then Inl (Bail ''exported ABI name {} conflicts with internal ABI symbol for {}''
                     [eb_exported_name binding, owner])
              else Inr (bset_insert (eb_exported_name binding) exported_names)
          | None \<Rightarrow> Inr (bset_insert (eb_exported_name binding) exported_names)))"

definition validate_export_map :: "program_root \<Rightarrow> unit res" where
  "validate_export_map root =
     (let root_symbols = bset_of_list (map rs_symbol (symbols root))
      in res_bind (res_fold collect_internal_symbol (symbols root) []) (\<lambda>internal_symbols.
         res_bind (res_fold (check_export root_symbols internal_symbols) (exports root) []) (\<lambda>_.
         Inr ())))"

definition export_map :: "program_root \<Rightarrow> abi_export list res" where
  "export_map root =
     res_bind (validate_export_map root) (\<lambda>_.
       res_map (\<lambda>binding.
         res_bind (internal_abi_symbol (eb_symbol binding)) (\<lambda>internal.
           Inr \<lparr>ae_symbol = eb_symbol binding, ae_internal_abi_symbol = internal,
                ae_exported_name = eb_exported_name binding\<rparr>))
         (exports root))"

subsection \<open>Internal names\<close>

lemma internal_abi_symbol_ok_iff:
  "internal_abi_symbol s = Inr n \<longleftrightarrow>
     (\<exists>hex. s = ''sha256:'' @ hex \<and> 16 \<le> length hex \<and> list_all is_ascii_hexdigit hex
        \<and> n = ''codedb_'' @ take 16 hex)"
  by (auto simp: internal_abi_symbol_def strip_prefix_Some_iff INTERNAL_ABI_HASH_HEX_LEN_def
      INTERNAL_ABI_PREFIX_def split: option.splits if_splits)
     (auto simp: strip_prefix_def split: if_splits)

definition abi_of :: "string \<Rightarrow> string" where
  "abi_of s = ''codedb_'' @ take 16 (drop 7 s)"

lemma internal_abi_symbol_abi_of: "internal_abi_symbol s = Inr n \<Longrightarrow> n = abi_of s"
  by (auto simp: internal_abi_symbol_ok_iff abi_of_def)

definition abi_hash_ok :: "string \<Rightarrow> bool" where
  "abi_hash_ok s \<longleftrightarrow> is_ok (internal_abi_symbol s)"

lemma abi_hash_ok_eq: "abi_hash_ok s \<longleftrightarrow> internal_abi_symbol s = Inr (abi_of s)"
  using internal_abi_symbol_abi_of by (auto simp: abi_hash_ok_def is_ok_iff)

subsection \<open>What the gate accepts\<close>

lemma collect_internal_ok:
  "is_ok (res_fold collect_internal_symbol es m) \<longleftrightarrow>
     (\<forall>e \<in> set es. abi_hash_ok (rs_symbol e)) \<and>
     distinct (map (\<lambda>e. abi_of (rs_symbol e)) es) \<and>
     (\<forall>e \<in> set es. abi_of (rs_symbol e) \<notin> dom (map_of m))"
proof (induction es arbitrary: m)
  case (Cons e es)
  show ?case
  proof (cases "abi_hash_ok (rs_symbol e)")
    case True
    then show ?thesis
      using Cons.IH
      by (force simp: collect_internal_symbol_def abi_hash_ok_eq image_iff split: option.splits)
  next
    case False
    then show ?thesis
      by (auto simp: collect_internal_symbol_def abi_hash_ok_def is_ok_iff)
  qed
qed simp

lemma collect_internal_map:
  "res_fold collect_internal_symbol es m = Inr m' \<Longrightarrow>
   map_of m' n = (if n \<in> (\<lambda>e. abi_of (rs_symbol e)) ` set es
                  then Some (rs_symbol (the (List.find (\<lambda>e. abi_of (rs_symbol e) = n) es)))
                  else map_of m n)"
proof (induction es arbitrary: m)
  case (Cons e es)
  then obtain m1 where m1: "collect_internal_symbol e m = Inr m1"
    and rest: "res_fold collect_internal_symbol es m1 = Inr m'" by auto
  have ok: "m1 = bmap_insert (abi_of (rs_symbol e)) (rs_symbol e) m"
    using m1 internal_abi_symbol_abi_of
    by (auto simp: collect_internal_symbol_def split: option.splits)
  have "abi_of (rs_symbol e) \<notin> (\<lambda>e. abi_of (rs_symbol e)) ` set es"
    using rest collect_internal_ok [of es m1] ok by (auto simp: is_ok_iff)
  then show ?case using Cons.IH [OF rest] ok by auto
qed simp

lemma collect_internal_owner:
  assumes "res_fold collect_internal_symbol es [] = Inr m"
  shows "map_of m n = Some s \<longleftrightarrow> (\<exists>e \<in> set es. rs_symbol e = s \<and> abi_of s = n)"
proof -
  have dist: "distinct (map (\<lambda>e. abi_of (rs_symbol e)) es)"
    using assms collect_internal_ok [of es "[]"] by (auto simp: is_ok_iff)
  have uniq: "rs_symbol a = rs_symbol b"
    if "a \<in> set es" "b \<in> set es" "abi_of (rs_symbol a) = abi_of (rs_symbol b)" for a b
    using that dist by (auto simp: distinct_map inj_on_def)
  show ?thesis
  proof (cases "n \<in> (\<lambda>e. abi_of (rs_symbol e)) ` set es")
    case True
    then obtain e where f: "List.find (\<lambda>e. abi_of (rs_symbol e) = n) es = Some e"
      by (cases "List.find (\<lambda>e. abi_of (rs_symbol e) = n) es") (auto simp: find_eq_None_iff)
    have e: "e \<in> set es" "abi_of (rs_symbol e) = n" using find_Some_in [OF f] by auto
    have "map_of m n = Some (rs_symbol e)"
      using collect_internal_map [OF assms, of n] True f by simp
    then show ?thesis using e uniq by auto
  next
    case False
    then show ?thesis using collect_internal_map [OF assms, of n] by auto
  qed
qed

definition export_ok :: "program_root \<Rightarrow> export_binding \<Rightarrow> bool" where
  "export_ok r b \<longleftrightarrow>
     eb_symbol b \<in> rs_symbol ` set (symbols r) \<and>
     is_valid_abi_identifier (eb_exported_name b) \<and>
     \<not> is_reserved_native_export_name (eb_exported_name b) \<and>
     (\<forall>e \<in> set (symbols r). abi_of (rs_symbol e) = eb_exported_name b \<longrightarrow> rs_symbol e = eb_symbol b)"

lemma validate_exported_abi_name_ok:
  "validate_exported_abi_name n = Inr u \<longleftrightarrow>
     is_valid_abi_identifier n \<and> \<not> is_reserved_native_export_name n"
  by (simp add: validate_exported_abi_name_def)

lemma check_export_step:
  assumes "res_fold collect_internal_symbol (symbols r) [] = Inr m"
  shows "check_export (bset_of_list (map rs_symbol (symbols r))) m b seen = Inr seen' \<longleftrightarrow>
     export_ok r b \<and> eb_exported_name b \<notin> set seen \<and> seen' = bset_insert (eb_exported_name b) seen"
proof -
  have own: "map_of m n = Some s \<longleftrightarrow> (\<exists>e \<in> set (symbols r). rs_symbol e = s \<and> abi_of s = n)" for n s
    by (rule collect_internal_owner [OF assms])
  show ?thesis
  proof (cases "map_of m (eb_exported_name b)")
    case None
    then have "\<forall>e \<in> set (symbols r). abi_of (rs_symbol e) \<noteq> eb_exported_name b"
      using own [of "eb_exported_name b"] by auto
    with None show ?thesis
      by (auto simp: check_export_def export_ok_def validate_exported_abi_name_ok)
  next
    case (Some s)
    have all: "\<forall>e \<in> set (symbols r). abi_of (rs_symbol e) = eb_exported_name b \<longrightarrow> rs_symbol e = s"
    proof (intro ballI impI)
      fix e assume "e \<in> set (symbols r)" "abi_of (rs_symbol e) = eb_exported_name b"
      then have "map_of m (eb_exported_name b) = Some (rs_symbol e)" using own by blast
      with Some show "rs_symbol e = s" by simp
    qed
    have "\<exists>e \<in> set (symbols r). rs_symbol e = s \<and> abi_of (rs_symbol e) = eb_exported_name b"
      using Some own [of "eb_exported_name b" s] by auto
    with all have "export_ok r b \<longleftrightarrow> eb_symbol b \<in> rs_symbol ` set (symbols r) \<and>
        is_valid_abi_identifier (eb_exported_name b) \<and>
        \<not> is_reserved_native_export_name (eb_exported_name b) \<and> s = eb_symbol b"
      unfolding export_ok_def by blast
    with Some show ?thesis
      by (cases "validate_exported_abi_name (eb_exported_name b)")
        (auto simp: check_export_def validate_exported_abi_name_def split: if_splits)
  qed
qed

lemma check_exports_ok:
  assumes "res_fold collect_internal_symbol (symbols r) [] = Inr m"
  shows "is_ok (res_fold (check_export (bset_of_list (map rs_symbol (symbols r))) m) bs seen) \<longleftrightarrow>
     (\<forall>b \<in> set bs. export_ok r b) \<and> distinct (map eb_exported_name bs) \<and>
     (\<forall>b \<in> set bs. eb_exported_name b \<notin> set seen)"
proof (induction bs arbitrary: seen)
  case (Cons b bs)
  show ?case
  proof (cases "export_ok r b \<and> eb_exported_name b \<notin> set seen")
    case True
    then have "check_export (bset_of_list (map rs_symbol (symbols r))) m b seen
        = Inr (bset_insert (eb_exported_name b) seen)"
      using check_export_step [OF assms] by blast
    with True Cons.IH show ?thesis by (force simp: image_iff)
  next
    case False
    then have "\<not> is_ok (check_export (bset_of_list (map rs_symbol (symbols r))) m b seen)"
      using check_export_step [OF assms] by (auto simp: is_ok_iff)
    with False show ?thesis by (auto simp: is_ok_iff)
  qed
qed simp

definition linkable :: "program_root \<Rightarrow> bool" where
  "linkable r \<longleftrightarrow>
     (\<forall>e \<in> set (symbols r). abi_hash_ok (rs_symbol e)) \<and>
     distinct (map (\<lambda>e. abi_of (rs_symbol e)) (symbols r)) \<and>
     (\<forall>b \<in> set (exports r). export_ok r b) \<and> distinct (map eb_exported_name (exports r))"

text \<open>C29. \<open>validate_export_map\<close> accepts a root exactly when every symbol hash yields an internal
  name, internal names are pairwise different, and every export names an existing symbol with a
  legal unreserved name that no other export and no other symbol's internal name uses.\<close>

theorem validate_export_map_iff: "validate_export_map r = Inr () \<longleftrightarrow> linkable r"
proof (cases "res_fold collect_internal_symbol (symbols r) []")
  case (Inl e)
  then have "\<not> is_ok (res_fold collect_internal_symbol (symbols r) [])" by simp
  then have "\<not> linkable r" by (auto simp: linkable_def collect_internal_ok)
  with Inl show ?thesis by (simp add: validate_export_map_def)
next
  case (Inr m)
  then have "is_ok (res_fold collect_internal_symbol (symbols r) [])" by simp
  then have "(\<forall>e \<in> set (symbols r). abi_hash_ok (rs_symbol e)) \<and>
      distinct (map (\<lambda>e. abi_of (rs_symbol e)) (symbols r))"
    using collect_internal_ok [of "symbols r" "[]"] by simp
  with Inr check_exports_ok [OF Inr, of "exports r" "[]"] show ?thesis
    by (simp add: validate_export_map_def linkable_def is_ok_iff)
qed

text \<open>The names the linker sees: the internal name of each symbol, and every export.\<close>

definition link_names :: "program_root \<Rightarrow> (string \<times> string) set" where
  "link_names r =
     (\<lambda>e. (abi_of (rs_symbol e), rs_symbol e)) ` set (symbols r)
     \<union> (\<lambda>b. (eb_exported_name b, eb_symbol b)) ` set (exports r)"

text \<open>In a root the gate accepts, no two symbols ever share a linker name, internal or
  exported.\<close>

theorem link_names_unambiguous:
  assumes "validate_export_map r = Inr ()"
    and "(n, s) \<in> link_names r" and "(n, t) \<in> link_names r"
  shows "s = t"
proof -
  have ok: "linkable r" using assms(1) validate_export_map_iff by blast
  have ab: "rs_symbol a = rs_symbol b"
    if "a \<in> set (symbols r)" "b \<in> set (symbols r)" "abi_of (rs_symbol a) = abi_of (rs_symbol b)" for a b
    using that ok by (auto simp: linkable_def distinct_map inj_on_def)
  have ex: "a = b"
    if "a \<in> set (exports r)" "b \<in> set (exports r)" "eb_exported_name a = eb_exported_name b" for a b
    using that ok by (auto simp: linkable_def distinct_map inj_on_def)
  have mixed: "rs_symbol e = eb_symbol b"
    if "e \<in> set (symbols r)" "b \<in> set (exports r)" "abi_of (rs_symbol e) = eb_exported_name b" for e b
    using that ok unfolding linkable_def export_ok_def by blast
  show ?thesis
    using assms(2,3) ab ex mixed [symmetric] mixed unfolding link_names_def by (elim UnE imageE) auto
qed


definition sample_symbol_hash :: string where
  "sample_symbol_hash = ''sha256:0123456789abcdef''"

definition sample_export_root :: program_root where
  "sample_export_root = empty_root\<lparr>
     symbols := [\<lparr>rs_symbol = sample_symbol_hash, rs_definition = ''d'', rs_signature = ''g''\<rparr>],
     exports := [\<lparr>eb_symbol = sample_symbol_hash, eb_exported_name = ''public_tax''\<rparr>]\<rparr>"

lemma sample_export_root_linkable: "linkable sample_export_root"
  by (simp add: linkable_def sample_export_root_def empty_root_def export_ok_def abi_hash_ok_def
      internal_abi_symbol_def strip_prefix_def sample_symbol_hash_def INTERNAL_ABI_HASH_HEX_LEN_def
      is_ascii_hexdigit_def is_ascii_digit_def less_eq_char_def is_valid_abi_identifier_def
      is_ascii_alphabetic_def is_ascii_alphanumeric_def is_reserved_native_export_name_def
      is_c_keyword_def c_keywords_def abi_of_def)

theorem link_names_unambiguous_witness:
  "sample_symbol_hash = sample_symbol_hash \<and> (''public_tax'', sample_symbol_hash) \<in> link_names sample_export_root"
proof -
  have ok: "validate_export_map sample_export_root = Inr ()"
    by (simp add: validate_export_map_iff sample_export_root_linkable)
  have mem: "(''public_tax'', sample_symbol_hash) \<in> link_names sample_export_root"
    by (simp add: link_names_def sample_export_root_def empty_root_def)
  show ?thesis using link_names_unambiguous [OF ok mem mem] mem by simp
qed

end
