(* ===== verification/Merge.thy ===== *)
theory Merge
  imports Abi
begin

text \<open>
  The conservative three-way merge of program roots, \<open>src/src/merge.rs\<close>: the state of one
  symbol or one type in a root, the merge of two states against their common ancestor with its
  conflict classes, the merge of whole roots with the final name and export checks.
  The locale \<open>merge_facet\<close> states once what the per-symbol and the per-type loops share.
\<close>

record merge_conflict =
  mc_kind :: string
  mc_message :: string
  mc_symbols :: "string list"
  mc_details :: json

subsection \<open>States of symbols\<close>

record symbol_state =
  ss_entry :: "root_symbol_payload option"
  ss_names :: "name_binding list"
  ss_param_names :: "param_names_payload option"
  ss_exports :: "export_binding list"

definition symbol_state_absent :: symbol_state where
  "symbol_state_absent =
     \<lparr>ss_entry = None, ss_names = [], ss_param_names = None, ss_exports = []\<rparr>"

definition symbol_state_of :: "program_root \<Rightarrow> string \<Rightarrow> symbol_state" where
  "symbol_state_of root symbol =
     (case List.find (\<lambda>entry. rs_symbol entry = symbol) (symbols root) of
        None \<Rightarrow> symbol_state_absent
      | Some entry \<Rightarrow>
          \<lparr>ss_entry = Some entry,
           ss_names = sort_key (\<lambda>b. (nb_module b, nb_display_name b, nb_is_preferred b))
             (filter (\<lambda>b. nb_symbol b = symbol) (names root)),
           ss_param_names = List.find (\<lambda>e. pn_symbol e = symbol) (param_names root),
           ss_exports = sort_key eb_exported_name
             (filter (\<lambda>b. eb_symbol b = symbol) (exports root))\<rparr>)"

definition replace_symbol_state :: "program_root \<Rightarrow> string \<Rightarrow> symbol_state \<Rightarrow> program_root" where
  "replace_symbol_state root symbol state =
     (let root = root\<lparr>
        symbols := filter (\<lambda>e. rs_symbol e \<noteq> symbol) (symbols root),
        names := filter (\<lambda>b. nb_symbol b \<noteq> symbol) (names root),
        param_names := filter (\<lambda>e. pn_symbol e \<noteq> symbol) (param_names root),
        exports := filter (\<lambda>b. eb_symbol b \<noteq> symbol) (exports root)\<rparr>
      in case ss_entry state of
           None \<Rightarrow> root
         | Some entry \<Rightarrow> root\<lparr>
             symbols := symbols root @ [entry],
             names := names root @ ss_names state,
             param_names := param_names root @
               (case ss_param_names state of None \<Rightarrow> [] | Some pn \<Rightarrow> [pn]),
             exports := exports root @ ss_exports state\<rparr>)"

definition root_symbols :: "program_root \<Rightarrow> string list" where
  "root_symbols root =
     bset_of_list (map rs_symbol (symbols root) @ map nb_symbol (names root) @
       map pn_symbol (param_names root) @ map eb_symbol (exports root))"

definition signature_of :: "symbol_state \<Rightarrow> string option" where
  "signature_of state = map_option rs_signature (ss_entry state)"

definition definition_of :: "symbol_state \<Rightarrow> string option" where
  "definition_of state = map_option rs_definition (ss_entry state)"

definition symbol_conflict :: "string \<Rightarrow> string \<Rightarrow> string \<Rightarrow> string \<Rightarrow> merge_conflict" where
  "symbol_conflict kind message symbol facet =
     \<lparr>mc_kind = kind, mc_message = message, mc_symbols = [symbol],
      mc_details = JObj [(''facet'', JStr facet)]\<rparr>"

definition merge_symbol_state ::
    "string \<Rightarrow> symbol_state \<Rightarrow> symbol_state \<Rightarrow> symbol_state \<Rightarrow> merge_conflict + symbol_state" where
  "merge_symbol_state symbol base left right =
     (if (ss_entry left \<noteq> None) \<noteq> (ss_entry base \<noteq> None)
         \<or> (ss_entry right \<noteq> None) \<noteq> (ss_entry base \<noteq> None)
      then Inl (symbol_conflict ''delete_conflict''
             ''one branch removed or added a symbol changed by the other branch'' symbol ''presence'')
      else if signature_of left \<noteq> signature_of base \<or> signature_of right \<noteq> signature_of base
      then (if signature_of left = signature_of right \<and> ss_names left = ss_names right
               \<and> ss_param_names left = ss_param_names right
               \<and> ss_exports left = ss_exports right
               \<and> definition_of left = definition_of right
            then Inr left
            else Inl (symbol_conflict ''signature_conflict''
                   ''signature changes require an explicit merge'' symbol ''signature''))
      else if definition_of left \<noteq> definition_of base \<and> definition_of right \<noteq> definition_of base
              \<and> definition_of left \<noteq> definition_of right
      then Inl (symbol_conflict ''dependency_conflict''
             ''both branches changed the same function body'' symbol ''definition'')
      else if ss_names left \<noteq> ss_names base \<and> ss_names right \<noteq> ss_names base
              \<and> ss_names left \<noteq> ss_names right
      then Inl (symbol_conflict ''name_conflict''
             ''both branches changed names for the same symbol'' symbol ''names'')
      else if ss_param_names left \<noteq> ss_param_names base \<and> ss_param_names right \<noteq> ss_param_names base
              \<and> ss_param_names left \<noteq> ss_param_names right
      then Inl (symbol_conflict ''signature_conflict''
             ''both branches changed parameter names for the same symbol'' symbol ''param_names'')
      else if ss_exports left \<noteq> ss_exports base \<and> ss_exports right \<noteq> ss_exports base
              \<and> ss_exports left \<noteq> ss_exports right
      then Inl (symbol_conflict ''export_conflict''
             ''both branches changed exports for the same symbol'' symbol ''exports'')
      else Inr
        \<lparr>ss_entry = (if ss_entry right \<noteq> ss_entry base then ss_entry right else ss_entry left),
         ss_names = (if ss_names right \<noteq> ss_names base then ss_names right else ss_names left),
         ss_param_names = (if ss_param_names right \<noteq> ss_param_names base
                           then ss_param_names right else ss_param_names left),
         ss_exports = (if ss_exports right \<noteq> ss_exports base
                       then ss_exports right else ss_exports left)\<rparr>)"

definition changed_symbols_between :: "program_root \<Rightarrow> program_root \<Rightarrow> string list" where
  "changed_symbols_between old_root new_root =
     bset_of_list (filter (\<lambda>s. symbol_state_of old_root s \<noteq> symbol_state_of new_root s)
       (root_symbols old_root @ root_symbols new_root))"

subsection \<open>States of types\<close>

record type_state =
  ts_entry :: "root_type_payload option"
  ts_names :: "type_name_binding list"

definition type_state_absent :: type_state where
  "type_state_absent = \<lparr>ts_entry = None, ts_names = []\<rparr>"

definition type_state_of :: "program_root \<Rightarrow> string \<Rightarrow> type_state" where
  "type_state_of root type_symbol =
     (case List.find (\<lambda>entry. rt_type_symbol entry = type_symbol) (types root) of
        None \<Rightarrow> type_state_absent
      | Some entry \<Rightarrow>
          \<lparr>ts_entry = Some entry,
           ts_names = sort_key (\<lambda>b. (tnb_module b, tnb_display_name b, tnb_is_preferred b))
             (filter (\<lambda>b. tnb_type_symbol b = type_symbol) (type_names root))\<rparr>)"

definition replace_type_state :: "program_root \<Rightarrow> string \<Rightarrow> type_state \<Rightarrow> program_root" where
  "replace_type_state root type_symbol state =
     (let root = root\<lparr>
        types := filter (\<lambda>e. rt_type_symbol e \<noteq> type_symbol) (types root),
        type_names := filter (\<lambda>b. tnb_type_symbol b \<noteq> type_symbol) (type_names root)\<rparr>
      in case ts_entry state of
           None \<Rightarrow> root
         | Some entry \<Rightarrow> root\<lparr>
             types := types root @ [entry],
             type_names := type_names root @ ts_names state\<rparr>)"

definition root_type_symbols :: "program_root \<Rightarrow> string list" where
  "root_type_symbols root =
     bset_of_list (map rt_type_symbol (types root) @ map tnb_type_symbol (type_names root))"

definition type_def_of :: "type_state \<Rightarrow> string option" where
  "type_def_of state = map_option rt_type_def (ts_entry state)"

definition type_conflict :: "string \<Rightarrow> string \<Rightarrow> string \<Rightarrow> string \<Rightarrow> merge_conflict" where
  "type_conflict kind message type_symbol facet =
     \<lparr>mc_kind = kind, mc_message = message, mc_symbols = [type_symbol],
      mc_details = JObj [(''facet'', JStr facet)]\<rparr>"

definition merge_type_state ::
    "string \<Rightarrow> type_state \<Rightarrow> type_state \<Rightarrow> type_state \<Rightarrow> merge_conflict + type_state" where
  "merge_type_state type_symbol base left right =
     (if (ts_entry left \<noteq> None) \<noteq> (ts_entry base \<noteq> None)
         \<or> (ts_entry right \<noteq> None) \<noteq> (ts_entry base \<noteq> None)
      then Inl (type_conflict ''delete_conflict''
             ''one branch removed or added a type changed by the other branch'' type_symbol ''presence'')
      else if type_def_of left \<noteq> type_def_of base \<and> type_def_of right \<noteq> type_def_of base
              \<and> type_def_of left \<noteq> type_def_of right
      then Inl (type_conflict ''dependency_conflict''
             ''both branches changed the same type definition'' type_symbol ''definition'')
      else if ts_names left \<noteq> ts_names base \<and> ts_names right \<noteq> ts_names base
              \<and> ts_names left \<noteq> ts_names right
      then Inl (type_conflict ''name_conflict''
             ''both branches changed names for the same type'' type_symbol ''names'')
      else Inr
        \<lparr>ts_entry = (if type_def_of right \<noteq> type_def_of base then ts_entry right else ts_entry left),
         ts_names = (if ts_names right \<noteq> ts_names base then ts_names right else ts_names left)\<rparr>)"

subsection \<open>Final checks\<close>

text \<open>
  The three validations share one loop: a map from keys to the owner last seen, and a conflict
  when the previous owner of a key is a different one.
\<close>

definition claim_name ::
    "name_binding \<Rightarrow> ((string \<times> string) \<times> string) list \<Rightarrow> merge_conflict + ((string \<times> string) \<times> string) list" where
  "claim_name b owners =
     (let key = (nb_module b, nb_display_name b) in
      case map_of owners key of
        Some existing \<Rightarrow>
          if existing \<noteq> nb_symbol b
          then Inl \<lparr>mc_kind = ''name_conflict'',
             mc_message = ''name '' @ fst key @ ''.'' @ snd key @ '' is bound to multiple symbols after merge'',
             mc_symbols = [existing, nb_symbol b],
             mc_details = JObj [(''module'', JStr (fst key)), (''name'', JStr (snd key))]\<rparr>
          else Inr (bmap_insert key (nb_symbol b) owners)
      | None \<Rightarrow> Inr (bmap_insert key (nb_symbol b) owners))"

definition validate_name_conflicts :: "program_root \<Rightarrow> merge_conflict + unit" where
  "validate_name_conflicts root =
     res_bind (res_fold claim_name (names root) []) (\<lambda>_. Inr ())"

definition claim_type_name ::
    "type_name_binding \<Rightarrow> ((string \<times> string) \<times> string) list \<Rightarrow> merge_conflict + ((string \<times> string) \<times> string) list" where
  "claim_type_name b owners =
     (let key = (tnb_module b, tnb_display_name b) in
      case map_of owners key of
        Some existing \<Rightarrow>
          if existing \<noteq> tnb_type_symbol b
          then Inl \<lparr>mc_kind = ''name_conflict'',
             mc_message = ''type name '' @ fst key @ ''.'' @ snd key @ '' is bound to multiple type symbols after merge'',
             mc_symbols = [existing, tnb_type_symbol b],
             mc_details = JObj [(''module'', JStr (fst key)), (''name'', JStr (snd key))]\<rparr>
          else Inr (bmap_insert key (tnb_type_symbol b) owners)
      | None \<Rightarrow> Inr (bmap_insert key (tnb_type_symbol b) owners))"

definition validate_type_name_conflicts :: "program_root \<Rightarrow> merge_conflict + unit" where
  "validate_type_name_conflicts root =
     res_bind (res_fold claim_type_name (type_names root) []) (\<lambda>_. Inr ())"

definition claim_export ::
    "export_binding \<Rightarrow> (string \<times> string) list \<Rightarrow> merge_conflict + (string \<times> string) list" where
  "claim_export b owners =
     (case map_of owners (eb_exported_name b) of
        Some existing \<Rightarrow>
          if existing \<noteq> eb_symbol b
          then Inl \<lparr>mc_kind = ''export_conflict'',
             mc_message = ''export '' @ eb_exported_name b @ '' is bound to multiple symbols after merge'',
             mc_symbols = [existing, eb_symbol b],
             mc_details = JObj [(''exported_name'', JStr (eb_exported_name b))]\<rparr>
          else Inr (bmap_insert (eb_exported_name b) (eb_symbol b) owners)
      | None \<Rightarrow> Inr (bmap_insert (eb_exported_name b) (eb_symbol b) owners))"

definition validate_export_conflicts :: "program_root \<Rightarrow> merge_conflict + unit" where
  "validate_export_conflicts root =
     res_bind (res_fold claim_export (exports root) []) (\<lambda>_. Inr ())"

definition test_entry_symbols :: "root_test_binding list \<Rightarrow> string list" where
  "test_entry_symbols ts = map tb_test ts"

subsection \<open>Merging roots\<close>

definition merge_symbol_step ::
    "program_root \<Rightarrow> program_root \<Rightarrow> program_root \<Rightarrow> string \<Rightarrow> program_root \<Rightarrow> merge_conflict + program_root" where
  "merge_symbol_step ancestor target source symbol merged =
     (let base = symbol_state_of ancestor symbol;
          left = symbol_state_of target symbol;
          right = symbol_state_of source symbol
      in if right = base then Inr merged
         else res_bind
           (if left = base then Inr right
            else if left = right then Inr left
            else merge_symbol_state symbol base left right)
           (\<lambda>next_state. Inr (replace_symbol_state merged symbol next_state)))"

definition merge_type_step ::
    "program_root \<Rightarrow> program_root \<Rightarrow> program_root \<Rightarrow> string \<Rightarrow> program_root \<Rightarrow> merge_conflict + program_root" where
  "merge_type_step ancestor target source type_symbol merged =
     (let base = type_state_of ancestor type_symbol;
          left = type_state_of target type_symbol;
          right = type_state_of source type_symbol
      in if right = base then Inr merged
         else res_bind
           (if left = base then Inr right
            else if left = right then Inr left
            else merge_type_state type_symbol base left right)
           (\<lambda>next_state. Inr (replace_type_state merged type_symbol next_state)))"

definition merge_tests ::
    "program_root \<Rightarrow> program_root \<Rightarrow> program_root \<Rightarrow> program_root \<Rightarrow> merge_conflict + program_root" where
  "merge_tests ancestor target source merged =
     (if tests source \<noteq> tests ancestor then
        if tests target = tests ancestor then Inr (merged\<lparr>tests := tests source\<rparr>)
        else if tests target \<noteq> tests source
        then Inl \<lparr>mc_kind = ''dependency_conflict'',
               mc_message = ''both branches changed semantic test registry'',
               mc_symbols = test_entry_symbols (tests source),
               mc_details = JObj [(''facet'', JStr ''tests'')]\<rparr>
        else Inr merged
      else Inr merged)"

definition merge_metadata ::
    "program_root \<Rightarrow> program_root \<Rightarrow> program_root \<Rightarrow> program_root \<Rightarrow> merge_conflict + program_root" where
  "merge_metadata ancestor target source merged =
     (if metadata source \<noteq> metadata ancestor then
        if metadata target = metadata ancestor then Inr (merged\<lparr>metadata := metadata source\<rparr>)
        else if metadata target \<noteq> metadata source
        then Inl \<lparr>mc_kind = ''dependency_conflict'',
               mc_message = ''both branches changed root metadata'',
               mc_symbols = [],
               mc_details = JObj [(''facet'', JStr ''metadata'')]\<rparr>
        else Inr merged
      else Inr merged)"

definition merge_root_payloads ::
    "program_root \<Rightarrow> program_root \<Rightarrow> program_root \<Rightarrow> merge_conflict + program_root" where
  "merge_root_payloads ancestor target source =
     (let all_symbols = bset_of_list (root_symbols ancestor @ root_symbols target @ root_symbols source);
          all_types = bset_of_list
            (root_type_symbols ancestor @ root_type_symbols target @ root_type_symbols source)
      in res_bind (res_fold (merge_symbol_step ancestor target source) all_symbols target) (\<lambda>merged.
         res_bind (res_fold (merge_type_step ancestor target source) all_types merged) (\<lambda>merged.
         res_bind (merge_tests ancestor target source merged) (\<lambda>merged.
         res_bind (merge_metadata ancestor target source merged) (\<lambda>merged.
         res_bind (validate_name_conflicts merged) (\<lambda>_.
         res_bind (validate_type_name_conflicts merged) (\<lambda>_.
         res_bind (validate_export_conflicts merged) (\<lambda>_.
         Inr merged))))))))"

subsection \<open>The interface of a merge facet\<close>

text \<open>
  Symbols and types are merged by the same loop. A facet provides the state of a key in a root,
  the replacement of that state, the combination of two changed states, and the keys a root
  mentions; its laws are what makes one pass over the keys a three-way merge.
\<close>

locale merge_facet =
  fixes state :: "program_root \<Rightarrow> string \<Rightarrow> 's"
    and replace :: "program_root \<Rightarrow> string \<Rightarrow> 's \<Rightarrow> program_root"
    and combine :: "string \<Rightarrow> 's \<Rightarrow> 's \<Rightarrow> 's \<Rightarrow> merge_conflict + 's"
    and keys :: "program_root \<Rightarrow> string list"
    and state_ok :: "string \<Rightarrow> 's \<Rightarrow> bool"
    and absent :: 's
  assumes state_ok: "state_ok x (state p x)"
    and state_replace: "state_ok x s \<Longrightarrow> state (replace p x s) y = (if y = x then s else state p y)"
    and combine_ok: "state_ok x b \<Longrightarrow> state_ok x l \<Longrightarrow> state_ok x r \<Longrightarrow>
          combine x b l r = Inr s \<Longrightarrow> state_ok x s"
    and combine_swap: "state_ok x b \<Longrightarrow> state_ok x l \<Longrightarrow> state_ok x r \<Longrightarrow>
          combine x b l r = Inr s \<Longrightarrow> combine x b r l = Inr s"
    and state_absent: "x \<notin> set (keys p) \<Longrightarrow> state p x = absent"
begin

definition three_way :: "string \<Rightarrow> 's \<Rightarrow> 's \<Rightarrow> 's \<Rightarrow> merge_conflict + 's" where
  "three_way x b l r =
     (if r = b then Inr l else if l = b then Inr r else if l = r then Inr l else combine x b l r)"

definition step :: "program_root \<Rightarrow> program_root \<Rightarrow> program_root \<Rightarrow> string \<Rightarrow> program_root \<Rightarrow> merge_conflict + program_root" where
  "step a t s x m =
     (let b = state a x; l = state t x; r = state s x in
      if r = b then Inr m
      else res_bind (if l = b then Inr r else if l = r then Inr l else combine x b l r)
             (\<lambda>n. Inr (replace m x n)))"

definition merged :: "program_root \<Rightarrow> program_root \<Rightarrow> program_root \<Rightarrow> string \<Rightarrow> merge_conflict + 's" where
  "merged a t s x = three_way x (state a x) (state t x) (state s x)"

lemma three_way_cases:
  "r = b \<Longrightarrow> three_way x b l r = Inr l"
  "l = b \<Longrightarrow> three_way x b l r = Inr r"
  "l = r \<Longrightarrow> three_way x b l r = Inr l"
  "r \<noteq> b \<Longrightarrow> l \<noteq> b \<Longrightarrow> l \<noteq> r \<Longrightarrow> three_way x b l r = combine x b l r"
  by (auto simp: three_way_def)

lemma three_way_swap:
  assumes "state_ok x b" "state_ok x l" "state_ok x r" and "three_way x b l r = Inr n"
  shows "three_way x b r l = Inr n"
proof (cases "r = b \<or> l = b \<or> l = r")
  case True
  with assms(4) show ?thesis by (metis three_way_cases(1,2,3))
next
  case False
  with assms(4) combine_swap [OF assms(1-3)] show ?thesis by (auto simp: three_way_def)
qed

lemma merged_ok: "merged a t s x = Inr n \<Longrightarrow> state_ok x n"
  unfolding merged_def three_way_def
  using combine_ok [OF state_ok state_ok state_ok] by (auto split: if_splits intro: state_ok)

lemma merged_swap: "merged a t s x = Inr n \<Longrightarrow> merged a s t x = Inr n"
  unfolding merged_def using three_way_swap [OF state_ok state_ok state_ok] by blast

lemma step_eq:
  "step a t s x m =
     (if state s x = state a x then Inr m
      else res_bind (merged a t s x) (\<lambda>n. Inr (replace m x n)))"
  by (auto simp: step_def merged_def three_way_def)

lemma step_state:
  assumes "step a t s x m = Inr m'" and "state m x = state t x"
  shows "merged a t s x = Inr (state m' x)" and "y \<noteq> x \<Longrightarrow> state m' y = state m y"
proof -
  consider "state s x = state a x" "m' = m"
    | n where "merged a t s x = Inr n" "m' = replace m x n"
    using assms(1) by (auto simp: step_eq split: if_splits)
  then have "merged a t s x = Inr (state m' x) \<and> (y \<noteq> x \<longrightarrow> state m' y = state m y)"
    by cases (auto simp: merged_def three_way_def assms(2) merged_ok
        dest: merged_ok simp: state_replace)
  then show "merged a t s x = Inr (state m' x)" and "y \<noteq> x \<Longrightarrow> state m' y = state m y" by auto
qed

lemma step_is_ok: "is_ok (step a t s x m) \<longleftrightarrow> is_ok (merged a t s x)"
  by (auto simp: step_eq is_ok_iff) (simp add: merged_def three_way_def)

lemma fold_state:
  assumes "res_fold (step a t s) xs m = Inr m'" and "distinct xs"
    and "\<And>x. x \<in> set xs \<Longrightarrow> state m x = state t x"
  shows "x \<in> set xs \<Longrightarrow> merged a t s x = Inr (state m' x)"
    and "x \<notin> set xs \<Longrightarrow> state m' x = state m x"
proof -
  have "(x \<in> set xs \<longrightarrow> merged a t s x = Inr (state m' x)) \<and> (x \<notin> set xs \<longrightarrow> state m' x = state m x)"
    using assms
  proof (induction xs arbitrary: m)
    case (Cons y ys)
    then obtain n where n: "step a t s y m = Inr n" "res_fold (step a t s) ys n = Inr m'" by auto
    note st = step_state [OF n(1)] Cons.prems(3)
    have "state n z = state t z" if "z \<in> set ys" for z
      using that Cons.prems st by (metis distinct.simps(2) list.set_intros(1,2))
    from Cons.IH [OF n(2) _ this] Cons.prems(2)
    have IH: "(x \<in> set ys \<longrightarrow> merged a t s x = Inr (state m' x)) \<and> (x \<notin> set ys \<longrightarrow> state m' x = state n x)"
      by simp
    show ?case
      using IH st(1) st(2) [of x] Cons.prems(2,3) by (cases "x = y") auto
  qed simp
  then show "x \<in> set xs \<Longrightarrow> merged a t s x = Inr (state m' x)"
    and "x \<notin> set xs \<Longrightarrow> state m' x = state m x" by auto
qed

lemma fold_is_ok: "is_ok (res_fold (step a t s) xs m) \<longleftrightarrow> (\<forall>x \<in> set xs. is_ok (merged a t s x))"
proof (induction xs arbitrary: m)
  case (Cons x xs)
  have "is_ok (merged a t s x) \<longleftrightarrow> (\<exists>n. step a t s x m = Inr n)"
    using step_is_ok [of a t s x m] by (simp add: is_ok_iff)
  with Cons.IH show ?case by auto
qed simp

lemma loop_state:
  assumes "res_fold (step a t s) (bset_of_list (keys a @ keys t @ keys s)) t = Inr m"
  shows "merged a t s x = Inr (state m x)"
proof (cases "x \<in> set (keys a @ keys t @ keys s)")
  case True
  have "distinct (bset_of_list (keys a @ keys t @ keys s))"
    using bset_ok_of_list [of "keys a @ keys t @ keys s"] by (simp add: bset_ok_def)
  from fold_state(1) [OF assms this] True show ?thesis by simp
next
  case False
  have "distinct (bset_of_list (keys a @ keys t @ keys s))"
    using bset_ok_of_list [of "keys a @ keys t @ keys s"] by (simp add: bset_ok_def)
  from fold_state(2) [OF assms this, of x] False have "state m x = state t x" by simp
  with False show ?thesis by (simp add: merged_def three_way_def state_absent)
qed

lemma fold_unchanged:
  "(\<And>x. x \<in> set xs \<Longrightarrow> state s x = state a x) \<Longrightarrow> res_fold (step a t s) xs m = Inr m"
  by (induction xs arbitrary: m) (auto simp: step_def)

end

subsection \<open>Symbols and types are merge facets\<close>

definition symbol_state_ok :: "string \<Rightarrow> symbol_state \<Rightarrow> bool" where
  "symbol_state_ok x s \<longleftrightarrow>
     (case ss_entry s of
        None \<Rightarrow> s = symbol_state_absent
      | Some e \<Rightarrow> rs_symbol e = x \<and> (\<forall>b \<in> set (ss_names s). nb_symbol b = x)
          \<and> sorted (map (\<lambda>b. (nb_module b, nb_display_name b, nb_is_preferred b)) (ss_names s))
          \<and> (\<forall>p. ss_param_names s = Some p \<longrightarrow> pn_symbol p = x)
          \<and> (\<forall>b \<in> set (ss_exports s). eb_symbol b = x)
          \<and> sorted (map eb_exported_name (ss_exports s)))"

definition type_state_ok :: "string \<Rightarrow> type_state \<Rightarrow> bool" where
  "type_state_ok x s \<longleftrightarrow>
     (case ts_entry s of
        None \<Rightarrow> s = type_state_absent
      | Some e \<Rightarrow> rt_type_symbol e = x \<and> (\<forall>b \<in> set (ts_names s). tnb_type_symbol b = x)
          \<and> sorted (map (\<lambda>b. (tnb_module b, tnb_display_name b, tnb_is_preferred b)) (ts_names s)))"

lemma symbol_state_ok_state: "symbol_state_ok x (symbol_state_of r x)"
  by (auto simp: symbol_state_of_def symbol_state_ok_def symbol_state_absent_def find_Some_iff
      split: option.splits)

lemma type_state_ok_state: "type_state_ok x (type_state_of r x)"
  by (auto simp: type_state_of_def type_state_ok_def type_state_absent_def find_Some_iff
      split: option.splits)

lemma find_filter_neq:
  "List.find (\<lambda>e. f e = y) (filter (\<lambda>e. f e \<noteq> x) xs) = (if y = x then None else List.find (\<lambda>e. f e = y) xs)"
  by (induction xs) auto

lemma filter_owned:
  "\<forall>b \<in> set ys. f b = x \<Longrightarrow>
     filter (\<lambda>b. f b = y) (filter (\<lambda>b. f b \<noteq> x) xs @ ys) = (if y = x then ys else filter (\<lambda>b. f b = y) xs)"
  by (induction xs) (auto simp: filter_empty_conv filter_id_conv)

lemma filter_disowned:
  "y \<noteq> x \<Longrightarrow> filter (\<lambda>b. f b = y \<and> f b \<noteq> x) xs = filter (\<lambda>b. f b = y) xs"
  by (rule filter_cong) auto

lemma symbol_state_replace:
  assumes "symbol_state_ok x s"
  shows "symbol_state_of (replace_symbol_state r x s) y = (if y = x then s else symbol_state_of r y)"
proof (cases "ss_entry s")
  case None
  with assms show ?thesis
    by (auto simp: symbol_state_ok_def symbol_state_of_def replace_symbol_state_def
        find_filter_neq filter_disowned conj_commute split: option.splits)
next
  case (Some e)
  with assms show ?thesis
    by (auto simp: symbol_state_ok_def symbol_state_of_def replace_symbol_state_def find_append
        find_filter_neq filter_owned sort_key_id_if_sorted intro!: symbol_state.equality
        simp del: filter_append split: option.splits)
qed

lemma type_state_replace:
  assumes "type_state_ok x s"
  shows "type_state_of (replace_type_state r x s) y = (if y = x then s else type_state_of r y)"
proof (cases "ts_entry s")
  case None
  with assms show ?thesis
    by (auto simp: type_state_ok_def type_state_of_def replace_type_state_def
        find_filter_neq filter_disowned conj_commute split: option.splits)
next
  case (Some e)
  with assms show ?thesis
    by (auto simp: type_state_ok_def type_state_of_def replace_type_state_def find_append
        find_filter_neq filter_owned sort_key_id_if_sorted intro!: type_state.equality
        simp del: filter_append split: option.splits)
qed

lemma symbol_entry_eq:
  assumes "symbol_state_ok x s" "symbol_state_ok x t" "signature_of s = signature_of t" "definition_of s = definition_of t"
  shows "ss_entry s = ss_entry t"
proof (cases "ss_entry s")
  case (Some e)
  with assms show ?thesis
    by (auto simp: symbol_state_ok_def signature_of_def definition_of_def
        intro!: root_symbol_payload.equality split: option.splits)
qed (use assms in \<open>auto simp: signature_of_def\<close>)

lemma type_entry_eq:
  assumes "type_state_ok x s" "type_state_ok x t" "type_def_of s = type_def_of t"
  shows "ts_entry s = ts_entry t"
proof (cases "ts_entry s")
  case (Some e)
  with assms show ?thesis
    by (auto simp: type_state_ok_def type_def_of_def intro!: root_type_payload.equality split: option.splits)
qed (use assms in \<open>auto simp: type_def_of_def\<close>)

text \<open>Each part of a merged state is the state of that part in one of the two branches.\<close>

definition pick :: "'a \<Rightarrow> 'a \<Rightarrow> 'a \<Rightarrow> 'a" where
  "pick b l r = (if r \<noteq> b then r else l)"

definition compatible :: "'a \<Rightarrow> 'a \<Rightarrow> 'a \<Rightarrow> bool" where
  "compatible b l r \<longleftrightarrow> l = b \<or> r = b \<or> l = r"

lemma pick_swap: "compatible b l r \<Longrightarrow> pick b l r = pick b r l"
  by (auto simp: pick_def compatible_def)

lemma compatible_swap: "compatible b l r = compatible b r l"
  by (auto simp: compatible_def)

definition symbol_parts_compatible :: "symbol_state \<Rightarrow> symbol_state \<Rightarrow> symbol_state \<Rightarrow> bool" where
  "symbol_parts_compatible b l r \<longleftrightarrow>
     (ss_entry l = None) = (ss_entry b = None) \<and> (ss_entry r = None) = (ss_entry b = None) \<and>
     (signature_of l = signature_of b \<and> signature_of r = signature_of b \<and>
      compatible (definition_of b) (definition_of l) (definition_of r) \<and>
      compatible (ss_names b) (ss_names l) (ss_names r) \<and>
      compatible (ss_param_names b) (ss_param_names l) (ss_param_names r) \<and>
      compatible (ss_exports b) (ss_exports l) (ss_exports r))"

lemma if_Inl_Inr_iff: "(if P then Inl e else m) = Inr s \<longleftrightarrow> \<not> P \<and> m = Inr s"
  by simp

lemma compatible_iff: "\<not> (l \<noteq> b \<and> r \<noteq> b \<and> l \<noteq> r) \<longleftrightarrow> compatible b l r"
  by (auto simp: compatible_def)

lemma presence_iff:
  "\<not> ((l \<noteq> None) \<noteq> (b \<noteq> None) \<or> (r \<noteq> None) \<noteq> (b \<noteq> None)) \<longleftrightarrow>
   (l = None) = (b = None) \<and> (r = None) = (b = None)"
  by auto

lemma neither_iff: "((l \<noteq> None) = (b \<noteq> None)) = ((l = None) = (b = None))"
  by auto

lemma unchanged_iff: "\<not> (l \<noteq> b \<or> r \<noteq> b) \<longleftrightarrow> l = b \<and> r = b"
  by auto

lemma merge_symbol_state_Inr:
  assumes "symbol_state_ok x l" "symbol_state_ok x r" "l \<noteq> r"
  shows "merge_symbol_state x b l r = Inr s \<longleftrightarrow>
    symbol_parts_compatible b l r \<and>
    \<lparr>ss_entry = pick (ss_entry b) (ss_entry l) (ss_entry r),
         ss_names = pick (ss_names b) (ss_names l) (ss_names r),
         ss_param_names = pick (ss_param_names b) (ss_param_names l) (ss_param_names r),
         ss_exports = pick (ss_exports b) (ss_exports l) (ss_exports r)\<rparr> = s"
proof -
  have sig: "\<not> (signature_of l = signature_of r \<and> ss_names l = ss_names r \<and>
      ss_param_names l = ss_param_names r \<and> ss_exports l = ss_exports r \<and> definition_of l = definition_of r)"
    using symbol_entry_eq [OF assms(1,2)] assms(3) by (auto intro: symbol_state.equality)
  show ?thesis
    by (simp only: merge_symbol_state_def if_Inl_Inr_iff if_not_P [OF sig] compatible_iff
        presence_iff neither_iff unchanged_iff symbol_parts_compatible_def pick_def [symmetric] sum.inject conj_assoc)
qed

definition type_parts_compatible :: "type_state \<Rightarrow> type_state \<Rightarrow> type_state \<Rightarrow> bool" where
  "type_parts_compatible b l r \<longleftrightarrow>
     (ts_entry l = None) = (ts_entry b = None) \<and> (ts_entry r = None) = (ts_entry b = None) \<and>
     compatible (type_def_of b) (type_def_of l) (type_def_of r) \<and>
     compatible (ts_names b) (ts_names l) (ts_names r)"

lemma merge_type_state_Inr:
  "merge_type_state x b l r = Inr s \<longleftrightarrow>
    type_parts_compatible b l r \<and>
    \<lparr>ts_entry = (if type_def_of r \<noteq> type_def_of b then ts_entry r else ts_entry l),
         ts_names = pick (ts_names b) (ts_names l) (ts_names r)\<rparr> = s"
  by (simp only: merge_type_state_def if_Inl_Inr_iff compatible_iff presence_iff neither_iff de_Morgan_disj not_not
      type_parts_compatible_def pick_def [symmetric] sum.inject conj_assoc)

lemma compatible_entries:
  assumes "symbol_parts_compatible b l r" "symbol_state_ok x b" "symbol_state_ok x l" "symbol_state_ok x r"
  shows "compatible (ss_entry b) (ss_entry l) (ss_entry r)"
  using assms(1) symbol_entry_eq [OF assms(3,2)] symbol_entry_eq [OF assms(4,2)]
    symbol_entry_eq [OF assms(3,4)]
  by (auto simp: symbol_parts_compatible_def compatible_def)

lemma symbol_parts_swap: "symbol_parts_compatible b l r = symbol_parts_compatible b r l"
  unfolding symbol_parts_compatible_def
  using compatible_swap [of "definition_of b"] compatible_swap [of "ss_names b"]
    compatible_swap [of "ss_param_names b"] compatible_swap [of "ss_exports b"] by blast

lemma pick_cases: "pick b l r = l \<or> pick b l r = r"
  by (simp add: pick_def)

lemma symbol_combine_ok:
  assumes "symbol_state_ok x b" "symbol_state_ok x l" "symbol_state_ok x r"
    and m: "merge_symbol_state x b l r = Inr s"
  shows "symbol_state_ok x s"
proof (cases "l = r")
  case True
  with m have "s = l"
    by (auto simp: merge_symbol_state_def split: if_splits intro!: symbol_state.equality)
  with assms(2) show ?thesis by simp
next
  case False
  from m merge_symbol_state_Inr [OF assms(2,3) False]
  have c: "symbol_parts_compatible b l r"
    and s: "s = \<lparr>ss_entry = pick (ss_entry b) (ss_entry l) (ss_entry r),
         ss_names = pick (ss_names b) (ss_names l) (ss_names r),
         ss_param_names = pick (ss_param_names b) (ss_param_names l) (ss_param_names r),
         ss_exports = pick (ss_exports b) (ss_exports l) (ss_exports r)\<rparr>" by auto
  show ?thesis
  proof (cases "ss_entry b")
    case None
    with c have "ss_entry l = None" "ss_entry r = None" by (auto simp: symbol_parts_compatible_def)
    with assms(2,3) False show ?thesis by (simp add: symbol_state_ok_def)
  next
    case (Some e)
    with c obtain el er where "ss_entry l = Some el" "ss_entry r = Some er"
      by (auto simp: symbol_parts_compatible_def)
    with assms(2,3) show ?thesis
      using pick_cases [of "ss_entry b" "ss_entry l" "ss_entry r"]
        pick_cases [of "ss_names b" "ss_names l" "ss_names r"]
        pick_cases [of "ss_param_names b" "ss_param_names l" "ss_param_names r"]
        pick_cases [of "ss_exports b" "ss_exports l" "ss_exports r"]
      by (auto simp: symbol_state_ok_def s)
  qed
qed

lemma symbol_combine_swap:
  assumes "symbol_state_ok x b" "symbol_state_ok x l" "symbol_state_ok x r"
    and m: "merge_symbol_state x b l r = Inr s"
  shows "merge_symbol_state x b r l = Inr s"
proof (cases "l = r")
  case False
  then have F: "r \<noteq> l" by simp
  from m merge_symbol_state_Inr [OF assms(2,3) False]
  have c: "symbol_parts_compatible b l r" by simp
  have ce: "compatible (ss_entry b) (ss_entry l) (ss_entry r)" by (rule compatible_entries [OF c assms(1-3)])
  from m c show ?thesis
    unfolding merge_symbol_state_Inr [OF assms(2,3) False] merge_symbol_state_Inr [OF assms(3,2) F]
    using symbol_parts_swap [of b l r] pick_swap [OF ce]
    by (simp add: symbol_parts_compatible_def pick_swap)
qed (use m in simp)

lemma type_combine_ok:
  assumes "type_state_ok x b" "type_state_ok x l" "type_state_ok x r"
    and m: "merge_type_state x b l r = Inr s"
  shows "type_state_ok x s"
proof (cases "ts_entry b")
  case None
  with m assms show ?thesis
    by (auto simp: merge_type_state_Inr type_parts_compatible_def type_state_ok_def type_state_absent_def pick_def)
next
  case (Some e)
  with m obtain el er where "ts_entry l = Some el" "ts_entry r = Some er"
    by (auto simp: merge_type_state_Inr type_parts_compatible_def)
  with m assms(2,3) show ?thesis
    using pick_cases [of "ts_names b" "ts_names l" "ts_names r"]
    by (auto simp: merge_type_state_Inr type_state_ok_def)
qed

lemma type_combine_swap:
  assumes "type_state_ok x b" "type_state_ok x l" "type_state_ok x r"
    and m: "merge_type_state x b l r = Inr s"
  shows "merge_type_state x b r l = Inr s"
proof -
  have e: "ts_entry u = ts_entry v" if "type_def_of u = type_def_of v" "u \<in> {b, l, r}" "v \<in> {b, l, r}" for u v
    using that type_entry_eq assms(1-3) by blast
  have "(if type_def_of r \<noteq> type_def_of b then ts_entry r else ts_entry l) =
        (if type_def_of l \<noteq> type_def_of b then ts_entry l else ts_entry r)"
    if "compatible (type_def_of b) (type_def_of l) (type_def_of r)"
    using that e [of l r] e [of l b] e [of b r] by (auto simp: compatible_def)
  with m pick_swap [of "ts_names b" "ts_names l" "ts_names r"] show ?thesis
    by (auto simp: merge_type_state_Inr type_parts_compatible_def compatible_swap [of "type_def_of b" "type_def_of r"]
        compatible_swap [of "ts_names b" "ts_names r"])
qed

lemma symbol_state_absent_keys: "x \<notin> set (root_symbols r) \<Longrightarrow> symbol_state_of r x = symbol_state_absent"
  by (auto simp: root_symbols_def symbol_state_of_def find_Some_iff split: option.splits)

lemma type_state_absent_keys: "x \<notin> set (root_type_symbols r) \<Longrightarrow> type_state_of r x = type_state_absent"
  by (auto simp: root_type_symbols_def type_state_of_def find_Some_iff split: option.splits)

interpretation sm: merge_facet symbol_state_of replace_symbol_state merge_symbol_state root_symbols
    symbol_state_ok symbol_state_absent
  by unfold_locales (blast intro: symbol_state_ok_state symbol_combine_ok symbol_combine_swap
      symbol_state_replace symbol_state_absent_keys)+

interpretation tm: merge_facet type_state_of replace_type_state merge_type_state root_type_symbols
    type_state_ok type_state_absent
  by unfold_locales (blast intro: type_state_ok_state type_combine_ok type_combine_swap
      type_state_replace type_state_absent_keys)+

lemma merge_symbol_step_sm: "merge_symbol_step a t s = sm.step a t s"
  by (auto simp: fun_eq_iff merge_symbol_step_def sm.step_def Let_def)

lemma merge_type_step_tm: "merge_type_step a t s = tm.step a t s"
  by (auto simp: fun_eq_iff merge_type_step_def tm.step_def Let_def)

subsection \<open>The interface of a claim loop\<close>

text \<open>
  The final checks walk over the bindings and remember the owner of each key. The locale says
  what one round does; its lemma says when the whole walk succeeds.
\<close>

locale claim_loop =
  fixes claim :: "'b \<Rightarrow> ('k::linorder \<times> 'o) list \<Rightarrow> 'e + ('k \<times> 'o) list"
    and key :: "'b \<Rightarrow> 'k" and owner :: "'b \<Rightarrow> 'o"
  assumes claim_Inr: "claim b m = Inr n \<longleftrightarrow>
      (map_of m (key b) = None \<or> map_of m (key b) = Some (owner b)) \<and> n = bmap_insert (key b) (owner b) m"
begin

definition consistent :: "'b list \<Rightarrow> bool" where
  "consistent bs \<longleftrightarrow> (\<forall>a \<in> set bs. \<forall>b \<in> set bs. key a = key b \<longrightarrow> owner a = owner b)"

lemma fold_ok_iff:
  "is_ok (res_fold claim bs m) \<longleftrightarrow>
     consistent bs \<and> (\<forall>b \<in> set bs. map_of m (key b) = None \<or> map_of m (key b) = Some (owner b))"
proof (induction bs arbitrary: m)
  case (Cons b bs)
  show ?case
  proof (cases "map_of m (key b) = None \<or> map_of m (key b) = Some (owner b)")
    case True
    then have "claim b m = Inr (bmap_insert (key b) (owner b) m)" by (simp add: claim_Inr)
    then have "is_ok (res_fold claim (b # bs) m) \<longleftrightarrow>
        is_ok (res_fold claim bs (bmap_insert (key b) (owner b) m))" by simp
    moreover have "consistent (b # bs) \<longleftrightarrow>
        consistent bs \<and> (\<forall>c \<in> set bs. key c = key b \<longrightarrow> owner c = owner b)"
      unfolding consistent_def 
      by (simp add: eq_commute [of "key b"] eq_commute [of "owner b"]) blast
    moreover have "(map_of (bmap_insert (key b) (owner b) m) (key c) = None \<or>
        map_of (bmap_insert (key b) (owner b) m) (key c) = Some (owner c)) \<longleftrightarrow>
        (key c = key b \<longrightarrow> owner c = owner b) \<and>
        (map_of m (key c) = None \<or> map_of m (key c) = Some (owner c))" for c
      using True by (cases "key c = key b"; cases "owner c = owner b") simp_all
    ultimately show ?thesis using True by (simp add: Cons.IH ball_conj_distrib del: map_of_bmap_insert)
  next
    case False
    then have "\<not> is_ok (res_fold claim (b # bs) m)" by (simp add: claim_Inr)
    with False show ?thesis by auto
  qed
qed (simp add: consistent_def)

lemma loop_ok_iff: "is_ok (res_fold claim bs []) \<longleftrightarrow> consistent bs"
  by (simp add: fold_ok_iff)

end

interpretation name_claims: claim_loop claim_name "\<lambda>b. (nb_module b, nb_display_name b)" nb_symbol
  by unfold_locales (auto simp: claim_name_def Let_def split: option.splits)

interpretation type_name_claims: claim_loop claim_type_name "\<lambda>b. (tnb_module b, tnb_display_name b)" tnb_type_symbol
  by unfold_locales (auto simp: claim_type_name_def Let_def split: option.splits)

interpretation export_claims: claim_loop claim_export eb_exported_name eb_symbol
  by unfold_locales (auto simp: claim_export_def split: option.splits)

definition exports_unambiguous :: "export_binding list \<Rightarrow> bool" where
  "exports_unambiguous es \<longleftrightarrow>
     (\<forall>a \<in> set es. \<forall>b \<in> set es. eb_exported_name a = eb_exported_name b \<longrightarrow> eb_symbol a = eb_symbol b)"

definition unambiguous_root :: "program_root \<Rightarrow> bool" where
  "unambiguous_root r \<longleftrightarrow>
     nm.unambiguous (names r) \<and> tnm.unambiguous (type_names r) \<and> exports_unambiguous (exports r)"

lemma bind_unit_is_ok: "res_bind m (\<lambda>_. Inr ()) = Inr u \<longleftrightarrow> is_ok m"
  by (auto simp: is_ok_iff)

lemma validations_ok:
  "validate_name_conflicts r = Inr u \<longleftrightarrow> nm.unambiguous (names r)"
  "validate_type_name_conflicts r = Inr u \<longleftrightarrow> tnm.unambiguous (type_names r)"
  "validate_export_conflicts r = Inr u \<longleftrightarrow> exports_unambiguous (exports r)"
  by (simp_all add: validate_name_conflicts_def validate_type_name_conflicts_def
      validate_export_conflicts_def bind_unit_is_ok name_claims.loop_ok_iff
      type_name_claims.loop_ok_iff export_claims.loop_ok_iff name_claims.consistent_def
      type_name_claims.consistent_def export_claims.consistent_def nm.unambiguous_def
      tnm.unambiguous_def exports_unambiguous_def del: res_bind_eq_Inr)

subsection \<open>What a merge of roots does\<close>

abbreviation mergeable_symbol_keys where
  "mergeable_symbol_keys a t s \<equiv> bset_of_list (root_symbols a @ root_symbols t @ root_symbols s)"

abbreviation mergeable_type_keys where
  "mergeable_type_keys a t s \<equiv> bset_of_list (root_type_symbols a @ root_type_symbols t @ root_type_symbols s)"

lemma merge_root_payloads_Inr:
  "merge_root_payloads a t s = Inr m \<longleftrightarrow>
     (\<exists>m1 m2 m3. res_fold (sm.step a t s) (mergeable_symbol_keys a t s) t = Inr m1 \<and>
        res_fold (tm.step a t s) (mergeable_type_keys a t s) m1 = Inr m2 \<and>
        merge_tests a t s m2 = Inr m3 \<and> merge_metadata a t s m3 = Inr m \<and> unambiguous_root m)"
  by (auto simp: merge_root_payloads_def Let_def merge_symbol_step_sm merge_type_step_tm
      validations_ok unambiguous_root_def)

text \<open>What the loops leave alone: the type loop does not touch symbols, the symbol loop does
  not touch types, neither touches the recursion groups.\<close>

lemma replace_symbol_state_frame [simp]:
  "types (replace_symbol_state r x st) = types r"
  "type_names (replace_symbol_state r x st) = type_names r"
  "tests (replace_symbol_state r x st) = tests r"
  "metadata (replace_symbol_state r x st) = metadata r"
  "recursion_groups (replace_symbol_state r x st) = recursion_groups r"
  "type_recursion_groups (replace_symbol_state r x st) = type_recursion_groups r"
  by (simp_all add: replace_symbol_state_def Let_def split: option.splits)

lemma replace_type_state_frame [simp]:
  "symbols (replace_type_state r x st) = symbols r"
  "names (replace_type_state r x st) = names r"
  "param_names (replace_type_state r x st) = param_names r"
  "exports (replace_type_state r x st) = exports r"
  "tests (replace_type_state r x st) = tests r"
  "metadata (replace_type_state r x st) = metadata r"
  "recursion_groups (replace_type_state r x st) = recursion_groups r"
  "type_recursion_groups (replace_type_state r x st) = type_recursion_groups r"
  by (simp_all add: replace_type_state_def Let_def split: option.splits)

definition type_part :: "program_root \<Rightarrow> root_type_payload list \<times> type_name_binding list" where
  "type_part r = (types r, type_names r)"

definition symbol_part :: "program_root \<Rightarrow> root_symbol_payload list \<times> name_binding list
    \<times> param_names_payload list \<times> export_binding list" where
  "symbol_part r = (symbols r, names r, param_names r, exports r)"

definition shared_part :: "program_root \<Rightarrow> root_test_binding list \<times> (string \<times> json) list \<times> string list \<times> string list" where
  "shared_part r = (tests r, metadata r, recursion_groups r, type_recursion_groups r)"

lemma symbol_fold_frame:
  "res_fold (sm.step a t s) xs r = Inr m \<Longrightarrow> type_part m = type_part r \<and> shared_part m = shared_part r"
  by (erule res_fold_invariant) (auto simp: sm.step_eq type_part_def shared_part_def split: if_splits)

lemma type_fold_frame:
  "res_fold (tm.step a t s) xs r = Inr m \<Longrightarrow> symbol_part m = symbol_part r \<and> shared_part m = shared_part r"
  by (erule res_fold_invariant) (auto simp: tm.step_eq symbol_part_def shared_part_def split: if_splits)

lemma merge_tests_Inr:
  "merge_tests a t s r = Inr m \<longleftrightarrow>
     compatible (tests a) (tests t) (tests s) \<and>
     m = (if tests s \<noteq> tests a \<and> tests t = tests a then r\<lparr>tests := tests s\<rparr> else r)"
  by (auto simp: merge_tests_def compatible_def)

lemma merge_metadata_Inr:
  "merge_metadata a t s r = Inr m \<longleftrightarrow>
     compatible (metadata a) (metadata t) (metadata s) \<and>
     m = (if metadata s \<noteq> metadata a \<and> metadata t = metadata a then r\<lparr>metadata := metadata s\<rparr> else r)"
  by (auto simp: merge_metadata_def compatible_def)

lemma symbol_state_of_part: "symbol_part r = symbol_part m \<Longrightarrow> symbol_state_of r x = symbol_state_of m x"
  unfolding symbol_part_def symbol_state_of_def by (simp only: prod.inject)

lemma type_state_of_part: "type_part r = type_part m \<Longrightarrow> type_state_of r x = type_state_of m x"
  unfolding type_part_def type_state_of_def by (simp only: prod.inject)

lemma merge_states:
  assumes "merge_root_payloads a t s = Inr m"
  shows "sm.merged a t s x = Inr (symbol_state_of m x)"
    and "tm.merged a t s x = Inr (type_state_of m x)"
proof -
  obtain m1 m2 m3 where f: "res_fold (sm.step a t s) (mergeable_symbol_keys a t s) t = Inr m1"
      "res_fold (tm.step a t s) (mergeable_type_keys a t s) m1 = Inr m2"
      "merge_tests a t s m2 = Inr m3" "merge_metadata a t s m3 = Inr m"
    using assms by (auto simp: merge_root_payloads_Inr)
  have p: "symbol_part m = symbol_part m2" "type_part m = type_part m2"
    using f(3,4) by (auto simp: merge_tests_Inr merge_metadata_Inr symbol_part_def type_part_def)
  have "symbol_part m = symbol_part m1" using type_fold_frame [OF f(2)] p by simp
  then have "symbol_state_of m x = symbol_state_of m1 x" by (rule symbol_state_of_part)
  with sm.loop_state [OF f(1), of x] show "sm.merged a t s x = Inr (symbol_state_of m x)" by simp
  have eq: "type_state_of t y = type_state_of m1 y" for y
    using symbol_fold_frame [OF f(1)] by (intro type_state_of_part) simp
  have "tm.step a m1 s = tm.step a t s" by (simp add: fun_eq_iff tm.step_def eq)
  moreover have "root_type_symbols m1 = root_type_symbols t"
    using symbol_fold_frame [OF f(1)] by (simp add: root_type_symbols_def type_part_def)
  ultimately have "tm.merged a m1 s x = Inr (type_state_of m2 x)"
    by (intro tm.loop_state) (simp only: f(2))
  then show "tm.merged a t s x = Inr (type_state_of m x)"
    using type_state_of_part [OF p(2), of x] by (simp add: tm.merged_def eq)
qed

lemma merge_shared:
  assumes "merge_root_payloads a t s = Inr m"
  shows "compatible (tests a) (tests t) (tests s) \<and> tests m = pick (tests a) (tests t) (tests s) \<and>
    compatible (metadata a) (metadata t) (metadata s) \<and> metadata m = pick (metadata a) (metadata t) (metadata s) \<and>
    recursion_groups m = recursion_groups t \<and> type_recursion_groups m = type_recursion_groups t"
proof -
  obtain m1 m2 m3 where f: "res_fold (sm.step a t s) (mergeable_symbol_keys a t s) t = Inr m1"
      "res_fold (tm.step a t s) (mergeable_type_keys a t s) m1 = Inr m2"
      "merge_tests a t s m2 = Inr m3" "merge_metadata a t s m3 = Inr m"
    using assms by (auto simp: merge_root_payloads_Inr)
  have "shared_part m2 = shared_part t"
    using symbol_fold_frame [OF f(1)] type_fold_frame [OF f(2)] by simp
  then show ?thesis
    using f(3,4) by (auto simp: merge_tests_Inr merge_metadata_Inr shared_part_def pick_def compatible_def)
qed

text \<open>C2. After a successful merge the state of every symbol is the three-way result: the
  source's state where only the source changed it, the target's where only the target did,
  the common state where both agree, and otherwise what \<open>merge_symbol_state\<close> accepted.\<close>

theorem merge_symbol_result:
  assumes "merge_root_payloads ancestor target source = Inr m"
  shows "(if symbol_state_of source x = symbol_state_of ancestor x
            then symbol_state_of m x = symbol_state_of target x
          else if symbol_state_of target x = symbol_state_of ancestor x
            then symbol_state_of m x = symbol_state_of source x
          else if symbol_state_of target x = symbol_state_of source x
            then symbol_state_of m x = symbol_state_of target x
          else merge_symbol_state x (symbol_state_of ancestor x) (symbol_state_of target x)
                 (symbol_state_of source x) = Inr (symbol_state_of m x))"
  using merge_states(1) [OF assms, of x]
  by (auto simp: sm.merged_def sm.three_way_def split: if_splits)

text \<open>The same for types.\<close>

theorem merge_type_result:
  assumes "merge_root_payloads ancestor target source = Inr m"
  shows "(if type_state_of source x = type_state_of ancestor x
            then type_state_of m x = type_state_of target x
          else if type_state_of target x = type_state_of ancestor x
            then type_state_of m x = type_state_of source x
          else if type_state_of target x = type_state_of source x
            then type_state_of m x = type_state_of target x
          else merge_type_state x (type_state_of ancestor x) (type_state_of target x)
                 (type_state_of source x) = Inr (type_state_of m x))"
  using merge_states(2) [OF assms, of x]
  by (auto simp: tm.merged_def tm.three_way_def split: if_splits)

text \<open>C28. Merging the two branches in either direction gives the same symbols, the same types,
  the same tests and the same metadata whenever both directions succeed.\<close>

theorem merge_commutes:
  assumes "merge_root_payloads ancestor target source = Inr m"
    and "merge_root_payloads ancestor source target = Inr n"
  shows "symbol_state_of m x = symbol_state_of n x \<and> type_state_of m x = type_state_of n x \<and>
    tests m = tests n \<and> metadata m = metadata n"
  using sm.merged_swap [OF merge_states(1) [OF assms(1), of x]] merge_states(1) [OF assms(2), of x]
    tm.merged_swap [OF merge_states(2) [OF assms(1), of x]] merge_states(2) [OF assms(2), of x]
    merge_shared [OF assms(1)] merge_shared [OF assms(2)] pick_swap [of "tests ancestor" "tests target" "tests source"]
    pick_swap [of "metadata ancestor" "metadata target" "metadata source"]
  by simp

text \<open>C27. A successful merge never leaves a name, a type name or an exported name bound to two
  owners, in any root.\<close>

theorem merge_unambiguous:
  assumes "merge_root_payloads ancestor target source = Inr m"
  shows "unambiguous_root m"
  using assms by (auto simp: merge_root_payloads_Inr)

text \<open>C26. When the two branches gave a symbol of unchanged signature different new bodies, the
  merge fails: no body is ever dropped silently.\<close>

theorem merge_body_conflict:
  assumes "symbol_state_of ancestor x = b" "symbol_state_of target x = l" "symbol_state_of source x = r"
    and "definition_of l \<noteq> definition_of b" "definition_of r \<noteq> definition_of b"
    and "definition_of l \<noteq> definition_of r"
  shows "\<not> is_ok (merge_root_payloads ancestor target source)"
proof
  assume "is_ok (merge_root_payloads ancestor target source)"
  then obtain m where "merge_root_payloads ancestor target source = Inr m" by (auto simp: is_ok_iff)
  note sm.merged_def [of ancestor target source x] merge_states(1) [OF this, of x]
  moreover have "l \<noteq> r" "l \<noteq> b" "r \<noteq> b" using assms(4-6) by auto
  ultimately have "merge_symbol_state x b l r = Inr (symbol_state_of m x)"
    using assms(1-3) by (simp add: sm.three_way_def)
  moreover have "symbol_state_ok x l" "symbol_state_ok x r"
    using assms(2,3) symbol_state_ok_state by auto
  ultimately have "symbol_parts_compatible b l r"
    using merge_symbol_state_Inr \<open>l \<noteq> r\<close> by blast
  with assms(4-6) show False by (auto simp: symbol_parts_compatible_def compatible_def)
qed

text \<open>A source that did not change anything merges to the target itself.\<close>

theorem merge_unchanged_source:
  "merge_root_payloads ancestor target ancestor =  Inr m \<longleftrightarrow> unambiguous_root target \<and> m = target"
proof -
  have "res_fold (sm.step ancestor target ancestor) xs target = Inr m1 \<longleftrightarrow> m1 = target" for xs m1
    using sm.fold_unchanged [of xs ancestor ancestor target target] by auto
  moreover have "res_fold (tm.step ancestor target ancestor) xs target = Inr m1 \<longleftrightarrow> m1 = target" for xs m1
    using tm.fold_unchanged [of xs ancestor ancestor target target] by auto
  moreover have "merge_tests ancestor target ancestor target = Inr m1 \<longleftrightarrow> m1 = target"
    "merge_metadata ancestor target ancestor target = Inr m1 \<longleftrightarrow> m1 = target" for m1
    by (auto simp: merge_tests_def merge_metadata_def)
  ultimately show ?thesis by (auto simp: merge_root_payloads_Inr)
qed

text \<open>The recursion groups of a merged root are the target's, whatever the source did to
  its own: they are not part of any facet of the merge.\<close>

theorem merge_keeps_target_groups:
  assumes "merge_root_payloads ancestor target source = Inr m"
  shows "recursion_groups m = recursion_groups target \<and>
    type_recursion_groups m = type_recursion_groups target"
  using merge_shared [OF assms] by simp

subsection \<open>A merge of two branches\<close>

text \<open>The target renames a function, the source changes its body and adds a second function
  with a recursion group.\<close>

definition sample_ancestor :: program_root where
  "sample_ancestor = empty_root\<lparr>
     symbols := [\<lparr>rs_symbol = ''f'', rs_definition = ''d0'', rs_signature = ''s0''\<rparr>],
     names := [\<lparr>nb_module = ''main'', nb_display_name = ''old'', nb_symbol = ''f'', nb_is_preferred = True\<rparr>]\<rparr>"

definition sample_target :: program_root where
  "sample_target = sample_ancestor\<lparr>
     names := [\<lparr>nb_module = ''main'', nb_display_name = ''new'', nb_symbol = ''f'', nb_is_preferred = True\<rparr>]\<rparr>"

definition sample_source :: program_root where
  "sample_source = sample_ancestor\<lparr>
     symbols := [\<lparr>rs_symbol = ''f'', rs_definition = ''d1'', rs_signature = ''s0''\<rparr>,
                 \<lparr>rs_symbol = ''g'', rs_definition = ''e0'', rs_signature = ''s1''\<rparr>],
     names := [\<lparr>nb_module = ''main'', nb_display_name = ''old'', nb_symbol = ''f'', nb_is_preferred = True\<rparr>,
               \<lparr>nb_module = ''main'', nb_display_name = ''step'', nb_symbol = ''g'', nb_is_preferred = True\<rparr>],
     recursion_groups := [''group:f,g'']\<rparr>"

definition sample_merged :: program_root where
  "sample_merged = sample_source\<lparr>
     names := [\<lparr>nb_module = ''main'', nb_display_name = ''new'', nb_symbol = ''f'', nb_is_preferred = True\<rparr>,
               \<lparr>nb_module = ''main'', nb_display_name = ''step'', nb_symbol = ''g'', nb_is_preferred = True\<rparr>],
     recursion_groups := []\<rparr>"

lemma sample_merge: "merge_root_payloads sample_ancestor sample_target sample_source = Inr sample_merged"
  by code_simp

lemma sample_merge_swapped: "is_ok (merge_root_payloads sample_ancestor sample_source sample_target)"
  by code_simp

theorem merge_symbol_result_witness:
  "definition_of (symbol_state_of sample_merged ''g'') = Some ''e0''"
proof -
  have "symbol_state_of sample_source ''g'' \<noteq> symbol_state_of sample_ancestor ''g''"
    "symbol_state_of sample_target ''g'' = symbol_state_of sample_ancestor ''g''"
    "definition_of (symbol_state_of sample_source ''g'') = Some ''e0''" by code_simp+
  with merge_symbol_result [OF sample_merge, of "''g''"] show ?thesis by simp
qed

theorem merge_type_result_witness: "type_state_of sample_merged ''t'' = type_state_absent"
proof -
  have "type_state_of sample_source ''t'' = type_state_of sample_ancestor ''t''"
    "type_state_of sample_target ''t'' = type_state_absent" by code_simp+
  with merge_type_result [OF sample_merge, of "''t''"] show ?thesis by simp
qed

theorem merge_commutes_witness:
  "\<exists>n. merge_root_payloads sample_ancestor sample_source sample_target = Inr n \<and>
     symbol_state_of n ''f'' = symbol_state_of sample_merged ''f''"
  using sample_merge_swapped merge_commutes [OF sample_merge, of _ "''f''"] by (auto simp: is_ok_iff)

theorem merge_unambiguous_witness: "unambiguous_root sample_merged"
  by (rule merge_unambiguous [OF sample_merge])

theorem merge_body_conflict_witness:
  "\<not> is_ok (merge_root_payloads sample_ancestor
     (sample_ancestor\<lparr>symbols := [\<lparr>rs_symbol = ''f'', rs_definition = ''d2'', rs_signature = ''s0''\<rparr>]\<rparr>) sample_source)"
  by (rule merge_body_conflict [where x = "''f''", OF refl refl refl]) code_simp+

theorem merge_keeps_target_groups_witness:
  "recursion_groups sample_source = [''group:f,g''] \<and> recursion_groups sample_merged = []"
  using merge_keeps_target_groups [OF sample_merge]
  by (simp add: sample_source_def sample_target_def sample_ancestor_def empty_root_def)

end
