(* ===== verification/Raw.thy ===== *)
theory Raw
  imports Prelude
begin

text \<open>
  Source-form expressions, \<open>src/src/expr.rs\<close>: the enum \<open>RawExpr\<close>, its record fields, case arms,
  ranges and nested patterns, with the two structural checks on early returns. The second half
  of the theory is the nameless form of an expression, the specification that the rewrites of
  \<open>Rewrite\<close> are proved against: binders lose their names, an occurrence becomes the index of
  its binder, and what is left are a tree of labels, free names and parameter references.
\<close>

datatype raw_pattern =
    PBinding string
  | PWildcard
  | PVariant string raw_pattern

datatype raw_expr =
    LiteralI64 string
  | LiteralBool bool
  | LiteralString string
  | LiteralBytes string
  | UnitE
  | ParamRef nat
  | ParamName string
  | Call string "raw_expr list"
  | Binary string raw_expr raw_expr
  | Unary string raw_expr
  | BorrowShared "string option" raw_expr
  | BorrowMut "string option" raw_expr
  | Assign raw_expr raw_expr
  | LetE string string raw_expr raw_expr
  | IfE raw_expr raw_expr raw_expr
  | Return raw_expr
  | FoldE string raw_expr string raw_expr raw_expr
  | LoopE string raw_expr raw_expr raw_expr
  | ArrayE "raw_expr list"
  | ArrayFill raw_expr string
  | Index raw_expr raw_expr
  | RecordE "raw_record_field list"
  | FieldAccess raw_expr string
  | EnumConstruct string string raw_expr
  | CaseE raw_expr "raw_case_arm list"
and raw_record_field = RawRecordField (rf_name: string) (rf_value: raw_expr)
and raw_case_arm =
    RawCaseArm (ca_variant: "string option") (ca_literal: "raw_expr option")
      (ca_range: "raw_case_range option") (ca_default: bool) (ca_binding: "string option")
      (ca_guard: "raw_expr option") (ca_payload_pattern: "raw_pattern option") (ca_body: raw_expr)
and raw_case_range = RawCaseRange (cr_lo: raw_expr) (cr_hi: raw_expr) (cr_inclusive: bool)

text \<open>The text of the error, up to the dash that introduces the positions it excludes.\<close>

definition RETURN_MSG :: string where
  "RETURN_MSG = ''`return` may only appear as a function body, an `if`/`case` branch, or a `let` body''"

text \<open>\<open>map\<close> and \<open>collect::<Result<_>>\<close> on an optional expression.\<close>

fun res_opt :: "('a \<Rightarrow> 'e + 'b) \<Rightarrow> 'a option \<Rightarrow> 'e + 'b option" where
  "res_opt f None = Inr None"
| "res_opt f (Some x) = res_bind (f x) (\<lambda>y. Inr (Some y))"

lemma res_opt_cong [fundef_cong]:
  "m = n \<Longrightarrow> (\<And>x. n = Some x \<Longrightarrow> f x = g x) \<Longrightarrow> res_opt f m = res_opt g n"
  by (cases n) auto

lemma size_arm_parts [termination_simp]:
  "size (ca_body a) < size a"
  "ca_guard a = Some g \<Longrightarrow> size g < size a"
  by (cases a; simp)+

lemma size_field_value [termination_simp]: "size (rf_value f) < size f"
  by (cases f) simp

lemma size_list_member [termination_simp]:
  "x \<in> set xs \<Longrightarrow> size y < size x \<Longrightarrow> size y < Suc (size_list size xs)"
  by (induction xs) auto

lemma size_list_member' [termination_simp]:
  "x \<in> set xs \<Longrightarrow> size y < size x \<Longrightarrow> size y < Suc (n + size_list size xs)"
  using size_list_member [of x xs y] by simp

fun raw_expr_diverges :: "raw_expr \<Rightarrow> bool" where
  "raw_expr_diverges (Return value) = True"
| "raw_expr_diverges (IfE cond then_expr else_expr) =
     (raw_expr_diverges then_expr \<and> raw_expr_diverges else_expr)"
| "raw_expr_diverges (CaseE expr arms) =
     (arms \<noteq> [] \<and> list_all (\<lambda>arm. raw_expr_diverges (ca_body arm)) arms)"
| "raw_expr_diverges (LetE name ty value body) = raw_expr_diverges body"
| "raw_expr_diverges _ = False"

fun pattern_leaf_binding :: "raw_pattern \<Rightarrow> string option" where
  "pattern_leaf_binding (PBinding name) = Some name"
| "pattern_leaf_binding PWildcard = None"
| "pattern_leaf_binding (PVariant variant sub) = pattern_leaf_binding sub"

fun render_pattern :: "raw_pattern \<Rightarrow> string" where
  "render_pattern (PBinding name) = name"
| "render_pattern PWildcard = ''_''"
| "render_pattern (PVariant variant sub) = variant @ ''('' @ render_pattern sub @ '')''"

fun validate_return_positions :: "raw_expr \<Rightarrow> bool \<Rightarrow> unit res" where
  "validate_return_positions (Return value) allowed =
     (if \<not> allowed then Inl (Bail RETURN_MSG [])
      else validate_return_positions value False)"
| "validate_return_positions (IfE cond then_expr else_expr) allowed =
     res_bind (validate_return_positions cond False) (\<lambda>_.
     res_bind (validate_return_positions then_expr True) (\<lambda>_.
     validate_return_positions else_expr True))"
| "validate_return_positions (LetE name ty value body) allowed =
     res_bind (validate_return_positions value False) (\<lambda>_.
     validate_return_positions body True)"
| "validate_return_positions (CaseE expr arms) allowed =
     res_bind (validate_return_positions expr False) (\<lambda>_.
     res_fold (\<lambda>arm _.
       res_bind (case ca_guard arm of
                   None \<Rightarrow> Inr ()
                 | Some guard \<Rightarrow> validate_return_positions guard False) (\<lambda>_.
       validate_return_positions (ca_body arm) True)) arms ())"
| "validate_return_positions (FoldE item target acc init body) allowed =
     res_bind (validate_return_positions target False) (\<lambda>_.
     res_bind (validate_return_positions init False) (\<lambda>_.
     validate_return_positions body False))"
| "validate_return_positions (LoopE acc init cond body) allowed =
     res_bind (validate_return_positions init False) (\<lambda>_.
     res_bind (validate_return_positions cond False) (\<lambda>_.
     validate_return_positions body False))"
| "validate_return_positions (Call name args) allowed =
     res_fold (\<lambda>arg _. validate_return_positions arg False) args ()"
| "validate_return_positions (Binary op left right) allowed =
     res_bind (validate_return_positions left False) (\<lambda>_. validate_return_positions right False)"
| "validate_return_positions (Unary op expr) allowed = validate_return_positions expr False"
| "validate_return_positions (BorrowShared region target) allowed = validate_return_positions target False"
| "validate_return_positions (BorrowMut region target) allowed = validate_return_positions target False"
| "validate_return_positions (Assign target value) allowed =
     res_bind (validate_return_positions target False) (\<lambda>_. validate_return_positions value False)"
| "validate_return_positions (ArrayE elements) allowed =
     res_fold (\<lambda>element _. validate_return_positions element False) elements ()"
| "validate_return_positions (ArrayFill value n) allowed = validate_return_positions value False"
| "validate_return_positions (Index target index) allowed =
     res_bind (validate_return_positions target False) (\<lambda>_. validate_return_positions index False)"
| "validate_return_positions (RecordE fields) allowed =
     res_fold (\<lambda>field _. validate_return_positions (rf_value field) False) fields ()"
| "validate_return_positions (FieldAccess target field) allowed = validate_return_positions target False"
| "validate_return_positions (EnumConstruct enum_type variant value) allowed = validate_return_positions value False"
| "validate_return_positions _ allowed = Inr ()"

text \<open>The name an arm puts in scope for its guard and body: the simple binding, or else the
  leaf of a nested pattern.\<close>

definition scoped_binding :: "raw_case_arm \<Rightarrow> string option" where
  "scoped_binding arm =
     (case ca_binding arm of
        Some name \<Rightarrow> Some name
      | None \<Rightarrow> Option.bind (ca_payload_pattern arm) pattern_leaf_binding)"

definition push_scoped :: "raw_case_arm \<Rightarrow> string list \<Rightarrow> string list" where
  "push_scoped arm locals = (case scoped_binding arm of None \<Rightarrow> locals | Some name \<Rightarrow> name # locals)"

subsection \<open>The nameless form\<close>

text \<open>
  A label keeps what a node has besides its sub-expressions and the names it binds. The parts
  of a case arm that no rewrite traverses, its literal and its range, stay in the label.
\<close>

datatype label =
    Lb string "string list"
  | LRegion string "string option"
  | LArm "string option" "raw_expr option" "raw_case_range option" bool bool "raw_pattern option"

datatype nterm = NBound nat | NFree string | NParam nat | NNode label "nterm list"

fun anonymous_pattern :: "raw_pattern \<Rightarrow> raw_pattern" where
  "anonymous_pattern (PBinding name) = PBinding []"
| "anonymous_pattern PWildcard = PWildcard"
| "anonymous_pattern (PVariant variant sub) = PVariant variant (anonymous_pattern sub)"

definition arm_label :: "raw_case_arm \<Rightarrow> label" where
  "arm_label arm = LArm (ca_variant arm) (ca_literal arm) (ca_range arm) (ca_default arm)
     (ca_binding arm \<noteq> None) (map_option anonymous_pattern (ca_payload_pattern arm))"

definition occurrence :: "string list \<Rightarrow> string \<Rightarrow> nterm" where
  "occurrence env name = (case position (\<lambda>local. local = name) env of Some i \<Rightarrow> NBound i | None \<Rightarrow> NFree name)"

fun nameless :: "string list \<Rightarrow> raw_expr \<Rightarrow> nterm" where
  "nameless env (LiteralI64 value) = NNode (Lb ''literal_i64'' [value]) []"
| "nameless env (LiteralBool value) = NNode (Lb (if value then ''true'' else ''false'') []) []"
| "nameless env (LiteralString value) = NNode (Lb ''literal_string'' [value]) []"
| "nameless env (LiteralBytes value) = NNode (Lb ''literal_bytes'' [value]) []"
| "nameless env UnitE = NNode (Lb ''unit'' []) []"
| "nameless env (ParamRef index) = NParam index"
| "nameless env (ParamName name) = occurrence env name"
| "nameless env (Call name args) = NNode (Lb ''call'' [name]) (map (nameless env) args)"
| "nameless env (Binary op left right) = NNode (Lb ''binary'' [op]) [nameless env left, nameless env right]"
| "nameless env (Unary op expr) = NNode (Lb ''unary'' [op]) [nameless env expr]"
| "nameless env (BorrowShared region target) = NNode (LRegion ''borrow_shared'' region) [nameless env target]"
| "nameless env (BorrowMut region target) = NNode (LRegion ''borrow_mut'' region) [nameless env target]"
| "nameless env (Assign target value) = NNode (Lb ''assign'' []) [nameless env target, nameless env value]"
| "nameless env (LetE name ty value body) =
     NNode (Lb ''let'' [ty]) [nameless env value, nameless (name # env) body]"
| "nameless env (IfE cond then_expr else_expr) =
     NNode (Lb ''if'' []) [nameless env cond, nameless env then_expr, nameless env else_expr]"
| "nameless env (Return value) = NNode (Lb ''return'' []) [nameless env value]"
| "nameless env (FoldE item target acc init body) =
     NNode (Lb ''fold'' []) [nameless env target, nameless env init, nameless (acc # item # env) body]"
| "nameless env (LoopE acc init cond body) =
     NNode (Lb ''loop'' []) [nameless env init, nameless (acc # env) cond, nameless (acc # env) body]"
| "nameless env (ArrayE elements) = NNode (Lb ''array'' []) (map (nameless env) elements)"
| "nameless env (ArrayFill value n) = NNode (Lb ''array_fill'' [n]) [nameless env value]"
| "nameless env (Index target index) = NNode (Lb ''index'' []) [nameless env target, nameless env index]"
| "nameless env (RecordE fields) =
     NNode (Lb ''record'' (map rf_name fields)) (map (\<lambda>field. nameless env (rf_value field)) fields)"
| "nameless env (FieldAccess target field) = NNode (Lb ''field'' [field]) [nameless env target]"
| "nameless env (EnumConstruct enum_type variant value) =
     NNode (Lb ''enum'' [enum_type, variant]) [nameless env value]"
| "nameless env (CaseE expr arms) =
     NNode (Lb ''case'' []) (nameless env expr # map (\<lambda>arm. NNode (arm_label arm)
       (nameless (push_scoped arm env) (ca_body arm) #
        (case ca_guard arm of None \<Rightarrow> [] | Some guard \<Rightarrow> [nameless (push_scoped arm env) guard]))) arms)"

text \<open>Structural induction on expressions, with one case per constructor and the induction
  hypotheses for the elements of the lists.\<close>

lemmas raw_expr_induct = nameless.induct [of "\<lambda>_ e. P e" for P, case_names LiteralI64 LiteralBool
  LiteralString LiteralBytes UnitE ParamRef ParamName Call Binary Unary BorrowShared BorrowMut
  Assign LetE IfE Return FoldE LoopE ArrayE ArrayFill Index RecordE FieldAccess EnumConstruct CaseE]

fun nfree :: "nterm \<Rightarrow> string set" where
  "nfree (NBound i) = {}"
| "nfree (NFree name) = {name}"
| "nfree (NParam i) = {}"
| "nfree (NNode l ts) = \<Union> (nfree ` set ts)"

fun nparams :: "nterm \<Rightarrow> nat set" where
  "nparams (NBound i) = {}"
| "nparams (NFree name) = {}"
| "nparams (NParam i) = {i}"
| "nparams (NNode l ts) = \<Union> (nparams ` set ts)"

text \<open>Substitution of terms for parameter references: nothing has to be renamed or shifted, for
  the terms substituted have only free names.\<close>

fun nsubst :: "nterm list \<Rightarrow> nterm \<Rightarrow> nterm" where
  "nsubst ts (NParam i) = (if i < length ts then ts ! i else NParam i)"
| "nsubst ts (NNode l us) = NNode l (map (nsubst ts) us)"
| "nsubst ts u = u"

text \<open>Abstraction of free names into parameter references.\<close>

fun nabstract :: "string list \<Rightarrow> nterm \<Rightarrow> nterm" where
  "nabstract ps (NFree name) =
     (case position (\<lambda>p. p = name) ps of Some i \<Rightarrow> NParam i | None \<Rightarrow> NFree name)"
| "nabstract ps (NNode l us) = NNode l (map (nabstract ps) us)"
| "nabstract ps u = u"

lemma occurrence_free: "nfree (occurrence env name) = {name} - set env"
  by (auto simp: occurrence_def position_None_iff split: option.splits dest: position_Some)

end
