(* ===== verification/Rewrite.thy ===== *)
theory Rewrite
  imports Raw
begin

text \<open>
  The rewrites of source-form expressions that semantic patches and migrations are made of:
  inlining a call (\<open>substitute_param_refs\<close>, \<open>collect_free_param_names\<close>,
  \<open>alpha_rename_let_bindings\<close> in \<open>src/src/patch.rs\<close>), adding a defaulted argument, borrowing an
  argument and resolving parameter names (\<open>append_default_arg_to_calls\<close>,
  \<open>borrow_call_arg_to_calls\<close>, \<open>normalize_param_refs\<close> in \<open>src/src/migrations.rs\<close>).
  A scope the code keeps in a vector and searches from the back is a list with the innermost
  binding first; a mutable set of used names is threaded through the traversal.
\<close>

subsection \<open>Inlining a call\<close>

fun substitute_param_refs :: "raw_expr \<Rightarrow> raw_expr list \<Rightarrow> raw_expr res" where
  "substitute_param_refs (LiteralI64 value) args = Inr (LiteralI64 value)"
| "substitute_param_refs (LiteralBool value) args = Inr (LiteralBool value)"
| "substitute_param_refs (LiteralString value) args = Inr (LiteralString value)"
| "substitute_param_refs (LiteralBytes value) args = Inr (LiteralBytes value)"
| "substitute_param_refs UnitE args = Inr UnitE"
| "substitute_param_refs (ParamRef index) args =
     (if index < length args then Inr (args ! index)
      else Inl (Bail ''inline_function missing argument for param_ref {index}'' [dec_nat index]))"
| "substitute_param_refs (ParamName name) args = Inr (ParamName name)"
| "substitute_param_refs (Call name call_args) args =
     res_bind (res_map (\<lambda>arg. substitute_param_refs arg args) call_args) (\<lambda>xs. Inr (Call name xs))"
| "substitute_param_refs (Binary op left right) args =
     res_bind (substitute_param_refs left args) (\<lambda>l.
     res_bind (substitute_param_refs right args) (\<lambda>r. Inr (Binary op l r)))"
| "substitute_param_refs (Unary op expr) args =
     res_bind (substitute_param_refs expr args) (\<lambda>e. Inr (Unary op e))"
| "substitute_param_refs (BorrowShared region target) args =
     res_bind (substitute_param_refs target args) (\<lambda>t. Inr (BorrowShared region t))"
| "substitute_param_refs (BorrowMut region target) args =
     res_bind (substitute_param_refs target args) (\<lambda>t. Inr (BorrowMut region t))"
| "substitute_param_refs (Assign target value) args =
     res_bind (substitute_param_refs target args) (\<lambda>t.
     res_bind (substitute_param_refs value args) (\<lambda>v. Inr (Assign t v)))"
| "substitute_param_refs (LetE name ty value body) args =
     res_bind (substitute_param_refs value args) (\<lambda>v.
     res_bind (substitute_param_refs body args) (\<lambda>b. Inr (LetE name ty v b)))"
| "substitute_param_refs (IfE cond then_expr else_expr) args =
     res_bind (substitute_param_refs cond args) (\<lambda>c.
     res_bind (substitute_param_refs then_expr args) (\<lambda>t.
     res_bind (substitute_param_refs else_expr args) (\<lambda>e. Inr (IfE c t e))))"
| "substitute_param_refs (Return value) args =
     res_bind (substitute_param_refs value args) (\<lambda>v. Inr (Return v))"
| "substitute_param_refs (FoldE item target acc init body) args =
     res_bind (substitute_param_refs target args) (\<lambda>t.
     res_bind (substitute_param_refs init args) (\<lambda>i.
     res_bind (substitute_param_refs body args) (\<lambda>b. Inr (FoldE item t acc i b))))"
| "substitute_param_refs (LoopE acc init cond body) args =
     res_bind (substitute_param_refs init args) (\<lambda>i.
     res_bind (substitute_param_refs cond args) (\<lambda>c.
     res_bind (substitute_param_refs body args) (\<lambda>b. Inr (LoopE acc i c b))))"
| "substitute_param_refs (ArrayE elements) args =
     res_bind (res_map (\<lambda>element. substitute_param_refs element args) elements) (\<lambda>xs. Inr (ArrayE xs))"
| "substitute_param_refs (ArrayFill value n) args =
     res_bind (substitute_param_refs value args) (\<lambda>v. Inr (ArrayFill v n))"
| "substitute_param_refs (Index target index) args =
     res_bind (substitute_param_refs target args) (\<lambda>t.
     res_bind (substitute_param_refs index args) (\<lambda>i. Inr (Index t i)))"
| "substitute_param_refs (RecordE fields) args =
     res_bind (res_map (\<lambda>field. res_bind (substitute_param_refs (rf_value field) args)
       (\<lambda>v. Inr (RawRecordField (rf_name field) v))) fields) (\<lambda>xs. Inr (RecordE xs))"
| "substitute_param_refs (FieldAccess target field) args =
     res_bind (substitute_param_refs target args) (\<lambda>t. Inr (FieldAccess t field))"
| "substitute_param_refs (EnumConstruct enum_type variant value) args =
     res_bind (substitute_param_refs value args) (\<lambda>v. Inr (EnumConstruct enum_type variant v))"
| "substitute_param_refs (CaseE expr arms) args =
     res_bind (substitute_param_refs expr args) (\<lambda>e.
     res_bind (res_map (\<lambda>arm.
       res_bind (res_opt (\<lambda>guard. substitute_param_refs guard args) (ca_guard arm)) (\<lambda>g.
       res_bind (substitute_param_refs (ca_body arm) args) (\<lambda>b.
       Inr (RawCaseArm (ca_variant arm) (ca_literal arm) (ca_range arm) (ca_default arm)
              (ca_binding arm) g (ca_payload_pattern arm) b)))) arms) (\<lambda>xs. Inr (CaseE e xs)))"

fun collect_free_param_names :: "raw_expr \<Rightarrow> string list \<Rightarrow> string list \<Rightarrow> string list" where
  "collect_free_param_names (ParamName name) bound_locals names =
     (if name \<in> set bound_locals then names else bset_insert name names)"
| "collect_free_param_names (Call name args) bound_locals names =
     fold (\<lambda>arg names. collect_free_param_names arg bound_locals names) args names"
| "collect_free_param_names (Binary op left right) bound_locals names =
     (let names = collect_free_param_names left bound_locals names
      in collect_free_param_names right bound_locals names)"
| "collect_free_param_names (Unary op expr) bound_locals names = collect_free_param_names expr bound_locals names"
| "collect_free_param_names (BorrowShared region target) bound_locals names =
     collect_free_param_names target bound_locals names"
| "collect_free_param_names (BorrowMut region target) bound_locals names =
     collect_free_param_names target bound_locals names"
| "collect_free_param_names (Assign target value) bound_locals names =
     (let names = collect_free_param_names target bound_locals names
      in collect_free_param_names value bound_locals names)"
| "collect_free_param_names (LetE name ty value body) bound_locals names =
     (let names = collect_free_param_names value bound_locals names
      in collect_free_param_names body (name # bound_locals) names)"
| "collect_free_param_names (IfE cond then_expr else_expr) bound_locals names =
     (let names = collect_free_param_names cond bound_locals names;
          names = collect_free_param_names then_expr bound_locals names
      in collect_free_param_names else_expr bound_locals names)"
| "collect_free_param_names (Return value) bound_locals names = collect_free_param_names value bound_locals names"
| "collect_free_param_names (FoldE item target acc init body) bound_locals names =
     (let names = collect_free_param_names target bound_locals names;
          names = collect_free_param_names init bound_locals names
      in collect_free_param_names body (acc # item # bound_locals) names)"
| "collect_free_param_names (LoopE acc init cond body) bound_locals names =
     (let names = collect_free_param_names init bound_locals names;
          names = collect_free_param_names cond (acc # bound_locals) names
      in collect_free_param_names body (acc # bound_locals) names)"
| "collect_free_param_names (ArrayE elements) bound_locals names =
     fold (\<lambda>element names. collect_free_param_names element bound_locals names) elements names"
| "collect_free_param_names (ArrayFill value n) bound_locals names = collect_free_param_names value bound_locals names"
| "collect_free_param_names (Index target index) bound_locals names =
     (let names = collect_free_param_names target bound_locals names
      in collect_free_param_names index bound_locals names)"
| "collect_free_param_names (RecordE fields) bound_locals names =
     fold (\<lambda>field names. collect_free_param_names (rf_value field) bound_locals names) fields names"
| "collect_free_param_names (FieldAccess target field) bound_locals names =
     collect_free_param_names target bound_locals names"
| "collect_free_param_names (EnumConstruct enum_type variant value) bound_locals names =
     collect_free_param_names value bound_locals names"
| "collect_free_param_names (CaseE expr arms) bound_locals names =
     (let names = collect_free_param_names expr bound_locals names
      in fold (\<lambda>arm names.
           let bound_locals = push_scoped arm bound_locals;
               names = (case ca_guard arm of None \<Rightarrow> names
                        | Some guard \<Rightarrow> collect_free_param_names guard bound_locals names)
           in collect_free_param_names (ca_body arm) bound_locals names) arms names)"
| "collect_free_param_names _ bound_locals names = names"

text \<open>The search over the suffixes counts with an \<open>i32\<close> in the code; here it has no bound.\<close>

function fresh_suffix :: "nat \<Rightarrow> string \<Rightarrow> string list \<Rightarrow> string" where
  "fresh_suffix idx base used_names =
     (let candidate = base @ ''_'' @ dec_nat idx
      in if candidate \<in> set used_names then fresh_suffix (Suc idx) base used_names else candidate)"
  by auto

termination
proof (relation "measure (\<lambda>(idx, base, used). card {j. idx \<le> j \<and> base @ ''_'' @ dec_nat j \<in> set used})")
  fix idx base used candidate
  assume c: "candidate = base @ ''_'' @ dec_nat idx" "candidate \<in> set used"
  let ?S = "\<lambda>i. {j. i \<le> j \<and> base @ ''_'' @ dec_nat j \<in> set used}"
  have "finite ((\<lambda>j. base @ ''_'' @ dec_nat j) -` set used)"
    by (rule finite_vimageI) (auto simp: inj_on_def)
  then have fin: "finite (?S idx)" by (rule rev_finite_subset) auto
  have "idx \<in> ?S idx" "idx \<notin> ?S (Suc idx)" "?S (Suc idx) \<subseteq> ?S idx" using c by auto
  then have "?S (Suc idx) \<subset> ?S idx" by blast
  with fin show "((Suc idx, base, used), idx, base, used) \<in> measure (\<lambda>(i, b, u). card {j. i \<le> j \<and> b @ ''_'' @ dec_nat j \<in> set u})"
    by (simp add: psubset_card_mono)
qed simp

declare fresh_suffix.simps [simp del]

definition unique_inline_local_name :: "string \<Rightarrow> string list \<Rightarrow> string" where
  "unique_inline_local_name name used_names =
     (if name \<notin> set used_names then name
      else let base = name @ ''_inline''
           in if base \<notin> set used_names then base else fresh_suffix 1 base used_names)"

fun alpha_rename_pattern ::
    "raw_pattern \<Rightarrow> string list \<Rightarrow> (string \<times> string) list \<Rightarrow> raw_pattern \<times> string list \<times> (string \<times> string) list" where
  "alpha_rename_pattern PWildcard used_names renamed_locals = (PWildcard, used_names, renamed_locals)"
| "alpha_rename_pattern (PBinding name) used_names renamed_locals =
     (let renamed = unique_inline_local_name name used_names
      in (PBinding renamed, bset_insert renamed used_names, (name, renamed) # renamed_locals))"
| "alpha_rename_pattern (PVariant variant sub) used_names renamed_locals =
     (let (sub, used_names, renamed_locals) = alpha_rename_pattern sub used_names renamed_locals
      in (PVariant variant sub, used_names, renamed_locals))"

text \<open>An iterator whose closure also updates a mutable set.\<close>

fun st_map :: "('a \<Rightarrow> 's \<Rightarrow> 'b \<times> 's) \<Rightarrow> 'a list \<Rightarrow> 's \<Rightarrow> 'b list \<times> 's" where
  "st_map f [] s = ([], s)"
| "st_map f (x # xs) s = (let (y, s) = f x s; (ys, s) = st_map f xs s in (y # ys, s))"

lemma st_map_cong [fundef_cong]:
  "xs = ys \<Longrightarrow> s = t \<Longrightarrow> (\<And>x s. x \<in> set ys \<Longrightarrow> f x s = g x s) \<Longrightarrow> st_map f xs s = st_map g ys t"
  by (induction ys arbitrary: xs s t) (auto simp: split_def Let_def)

fun st_opt :: "('a \<Rightarrow> 's \<Rightarrow> 'b \<times> 's) \<Rightarrow> 'a option \<Rightarrow> 's \<Rightarrow> 'b option \<times> 's" where
  "st_opt f None s = (None, s)"
| "st_opt f (Some x) s = (let (y, s) = f x s in (Some y, s))"

lemma st_opt_cong [fundef_cong]:
  "m = n \<Longrightarrow> s = t \<Longrightarrow> (\<And>x s. n = Some x \<Longrightarrow> f x s = g x s) \<Longrightarrow> st_opt f m s = st_opt g n t"
  by (cases n) (auto simp: split_def)

text \<open>What an arm binds is renamed before its guard and its body: its simple binding, then the
  leaf of its nested pattern.\<close>

definition rename_arm_scope ::
    "raw_case_arm \<Rightarrow> string list \<Rightarrow> (string \<times> string) list
     \<Rightarrow> string option \<times> raw_pattern option \<times> string list \<times> (string \<times> string) list" where
  "rename_arm_scope arm used_names renamed_locals =
     (let (renamed_binding, used_names, renamed_locals) =
            (case ca_binding arm of
               None \<Rightarrow> (None, used_names, renamed_locals)
             | Some binding \<Rightarrow>
                 let renamed = unique_inline_local_name binding used_names
                 in (Some renamed, bset_insert renamed used_names, (binding, renamed) # renamed_locals));
          (renamed_pattern, used_names, renamed_locals) =
            (case ca_payload_pattern arm of
               None \<Rightarrow> (None, used_names, renamed_locals)
             | Some pattern \<Rightarrow>
                 let (rewritten, used_names, renamed_locals) =
                       alpha_rename_pattern pattern used_names renamed_locals
                 in (Some rewritten, used_names, renamed_locals))
      in (renamed_binding, renamed_pattern, used_names, renamed_locals))"

fun alpha_rename_scoped ::
    "(string \<times> string) list \<Rightarrow> raw_expr \<Rightarrow> string list \<Rightarrow> raw_expr \<times> string list" where
  "alpha_rename_scoped sc (ParamName name) u =
     (ParamName (case map_of sc name of Some new \<Rightarrow> new | None \<Rightarrow> name), u)"
| "alpha_rename_scoped sc (Call name args) u =
     (let (args, u) = st_map (\<lambda>arg u. alpha_rename_scoped sc arg u) args u in (Call name args, u))"
| "alpha_rename_scoped sc (Binary op left right) u =
     (let (left, u) = alpha_rename_scoped sc left u;
          (right, u) = alpha_rename_scoped sc right u
      in (Binary op left right, u))"
| "alpha_rename_scoped sc (Unary op expr) u =
     (let (expr, u) = alpha_rename_scoped sc expr u in (Unary op expr, u))"
| "alpha_rename_scoped sc (BorrowShared region target) u =
     (let (target, u) = alpha_rename_scoped sc target u in (BorrowShared region target, u))"
| "alpha_rename_scoped sc (BorrowMut region target) u =
     (let (target, u) = alpha_rename_scoped sc target u in (BorrowMut region target, u))"
| "alpha_rename_scoped sc (Assign target value) u =
     (let (target, u) = alpha_rename_scoped sc target u;
          (value, u) = alpha_rename_scoped sc value u
      in (Assign target value, u))"
| "alpha_rename_scoped sc (LetE name ty value body) u =
     (let (value, u) = alpha_rename_scoped sc value u;
          renamed = unique_inline_local_name name u;
          u = bset_insert renamed u;
          (body, u) = alpha_rename_scoped ((name, renamed) # sc) body u
      in (LetE renamed ty value body, u))"
| "alpha_rename_scoped sc (IfE cond then_expr else_expr) u =
     (let (cond, u) = alpha_rename_scoped sc cond u;
          (then_expr, u) = alpha_rename_scoped sc then_expr u;
          (else_expr, u) = alpha_rename_scoped sc else_expr u
      in (IfE cond then_expr else_expr, u))"
| "alpha_rename_scoped sc (Return value) u =
     (let (value, u) = alpha_rename_scoped sc value u in (Return value, u))"
| "alpha_rename_scoped sc (FoldE item target acc init body) u =
     (let (target, u) = alpha_rename_scoped sc target u;
          (init, u) = alpha_rename_scoped sc init u;
          renamed_item = unique_inline_local_name item u;
          u = bset_insert renamed_item u;
          renamed_acc = unique_inline_local_name acc u;
          u = bset_insert renamed_acc u;
          (body, u) = alpha_rename_scoped ((acc, renamed_acc) # (item, renamed_item) # sc) body u
      in (FoldE renamed_item target renamed_acc init body, u))"
| "alpha_rename_scoped sc (LoopE acc init cond body) u =
     (let (init, u) = alpha_rename_scoped sc init u;
          renamed_acc = unique_inline_local_name acc u;
          u = bset_insert renamed_acc u;
          (cond, u) = alpha_rename_scoped ((acc, renamed_acc) # sc) cond u;
          (body, u) = alpha_rename_scoped ((acc, renamed_acc) # sc) body u
      in (LoopE renamed_acc init cond body, u))"
| "alpha_rename_scoped sc (ArrayE elements) u =
     (let (elements, u) = st_map (\<lambda>element u. alpha_rename_scoped sc element u) elements u
      in (ArrayE elements, u))"
| "alpha_rename_scoped sc (ArrayFill value n) u =
     (let (value, u) = alpha_rename_scoped sc value u in (ArrayFill value n, u))"
| "alpha_rename_scoped sc (Index target index) u =
     (let (target, u) = alpha_rename_scoped sc target u;
          (index, u) = alpha_rename_scoped sc index u
      in (Index target index, u))"
| "alpha_rename_scoped sc (RecordE fields) u =
     (let (fields, u) = st_map (\<lambda>field u.
            let (value, u) = alpha_rename_scoped sc (rf_value field) u
            in (RawRecordField (rf_name field) value, u)) fields u
      in (RecordE fields, u))"
| "alpha_rename_scoped sc (FieldAccess target field) u =
     (let (target, u) = alpha_rename_scoped sc target u in (FieldAccess target field, u))"
| "alpha_rename_scoped sc (EnumConstruct enum_type variant value) u =
     (let (value, u) = alpha_rename_scoped sc value u in (EnumConstruct enum_type variant value, u))"
| "alpha_rename_scoped sc (CaseE expr arms) u =
     (let (expr, u) = alpha_rename_scoped sc expr u;
          (arms, u) = st_map (\<lambda>arm u.
            let (renamed_binding, renamed_pattern, u, sc) = rename_arm_scope arm u sc;
                (guard, u) = st_opt (\<lambda>guard u. alpha_rename_scoped sc guard u) (ca_guard arm) u;
                (body, u) = alpha_rename_scoped sc (ca_body arm) u
            in (RawCaseArm (ca_variant arm) (ca_literal arm) (ca_range arm) (ca_default arm)
                  renamed_binding guard renamed_pattern body, u)) arms u
      in (CaseE expr arms, u))"
| "alpha_rename_scoped sc e u = (e, u)"

definition alpha_rename_let_bindings :: "raw_expr \<Rightarrow> string list \<Rightarrow> raw_expr \<times> string list" where
  "alpha_rename_let_bindings expr used_names = alpha_rename_scoped [] expr used_names"

text \<open>The last step of \<open>inline_call_payload\<close>: the body of the callee, its arguments as the caller
  writes them, and the names of the caller's locals.\<close>

definition inline_call :: "raw_expr \<Rightarrow> raw_expr list \<Rightarrow> string list \<Rightarrow> raw_expr res" where
  "inline_call target_raw_body args caller_locals =
     (let used_names = bset_of_list caller_locals;
          used_names = fold (\<lambda>arg names. collect_free_param_names arg [] names) args used_names;
          (hygienic_body, used_names) = alpha_rename_let_bindings target_raw_body used_names
      in substitute_param_refs hygienic_body args)"

end
