(* ===== verification/Inline.thy ===== *)
theory Inline
  imports Rewrite
begin

text \<open>
  Inlining is capture-avoiding substitution: the proofs about \<open>inline_call\<close>. Renaming preserves
  the nameless form, its fresh binders avoid every name already used, and substitution under
  such binders is the substitution of the nameless forms.
\<close>

subsection \<open>Free names\<close>

lemma set_fold_collect:
  "(\<And>x ns. x \<in> set xs \<Longrightarrow> set (f x ns) = set ns \<union> g x) \<Longrightarrow> set (fold f xs ns) = set ns \<union> (\<Union>x \<in> set xs. g x)"
  by (induction xs arbitrary: ns) auto

lemma nfree_arm:
  "nfree (NNode l (t # (case g of None \<Rightarrow> [] | Some x \<Rightarrow> [f x]))) =
     nfree t \<union> (case g of None \<Rightarrow> {} | Some x \<Rightarrow> nfree (f x))"
  by (cases g) auto

text \<open>\<open>collect_free_param_names\<close> adds exactly the free names of the expression.\<close>

lemma collect_free:
  "set (collect_free_param_names e env ns) = set ns \<union> nfree (nameless env e)"
proof (induction env e arbitrary: ns rule: nameless.induct)
  case (25 env e arms)
  have "set (collect_free_param_names (CaseE e arms) env ns) =
      set (collect_free_param_names e env ns) \<union> (\<Union>arm \<in> set arms.
        nfree (nameless (push_scoped arm env) (ca_body arm)) \<union>
        (case ca_guard arm of None \<Rightarrow> {} | Some g \<Rightarrow> nfree (nameless (push_scoped arm env) g)))"
    unfolding collect_free_param_names.simps Let_def
    by (rule set_fold_collect) (auto simp: 25 split: option.splits)
  then show ?case by (auto simp: 25 nfree_arm simp del: nfree.simps(4) simp: nfree.simps(4)[of "Lb _ _"])
qed (auto simp: occurrence_free Let_def set_fold_collect)

lemma collect_ok: "bset_ok ns \<Longrightarrow> bset_ok (collect_free_param_names e env ns)"
proof (induction env e arbitrary: ns rule: nameless.induct)
  case (8 env name args)
  have "bset_ok (fold (\<lambda>arg names. collect_free_param_names arg env names) xs ns)"
    if "set xs \<subseteq> set args" "bset_ok ns" for xs ns
    using that by (induction xs arbitrary: ns) (auto simp: 8)
  with 8 show ?case by simp
next
  case (19 env elements)
  have "bset_ok (fold (\<lambda>arg names. collect_free_param_names arg env names) xs ns)"
    if "set xs \<subseteq> set elements" "bset_ok ns" for xs ns
    using that by (induction xs arbitrary: ns) (auto simp: 19)
  with 19 show ?case by simp
next
  case (22 env fields)
  have "bset_ok (fold (\<lambda>field names. collect_free_param_names (rf_value field) env names) xs ns)"
    if "set xs \<subseteq> set fields" "bset_ok ns" for xs ns
    using that by (induction xs arbitrary: ns) (auto simp: 22)
  with 22 show ?case by simp
next
  case (25 env e arms)
  have "bset_ok (fold (\<lambda>arm names.
           let bound_locals = push_scoped arm env;
               names = (case ca_guard arm of None \<Rightarrow> names
                        | Some guard \<Rightarrow> collect_free_param_names guard bound_locals names)
           in collect_free_param_names (ca_body arm) bound_locals names) xs ns)"
    if "set xs \<subseteq> set arms" "bset_ok ns" for xs ns
    using that by (induction xs arbitrary: ns) (auto simp: Let_def 25 split: option.splits)
  with 25 show ?case by (simp add: Let_def)
qed (auto simp: Let_def)

subsection \<open>Fresh names\<close>

lemma fresh_suffix_fresh: "fresh_suffix idx base u \<notin> set u"
  by (induction idx base u rule: fresh_suffix.induct) (subst fresh_suffix.simps, auto simp: Let_def)

lemma unique_fresh [simp]: "unique_inline_local_name name u \<notin> set u"
  by (auto simp: unique_inline_local_name_def Let_def fresh_suffix_fresh)

text \<open>The names an expression binds.\<close>

definition pattern_names :: "raw_pattern option \<Rightarrow> string set" where
  "pattern_names p = set_option (Option.bind p pattern_leaf_binding)"

fun binders :: "raw_expr \<Rightarrow> string set" where
  "binders (Call name args) = \<Union> (binders ` set args)"
| "binders (Binary op left right) = binders left \<union> binders right"
| "binders (Unary op expr) = binders expr"
| "binders (BorrowShared region target) = binders target"
| "binders (BorrowMut region target) = binders target"
| "binders (Assign target value) = binders target \<union> binders value"
| "binders (LetE name ty value body) = insert name (binders value \<union> binders body)"
| "binders (IfE cond then_expr else_expr) = binders cond \<union> binders then_expr \<union> binders else_expr"
| "binders (Return value) = binders value"
| "binders (FoldE item target acc init body) =
     insert item (insert acc (binders target \<union> binders init \<union> binders body))"
| "binders (LoopE acc init cond body) = insert acc (binders init \<union> binders cond \<union> binders body)"
| "binders (ArrayE elements) = \<Union> (binders ` set elements)"
| "binders (ArrayFill value n) = binders value"
| "binders (Index target index) = binders target \<union> binders index"
| "binders (RecordE fields) = (\<Union>field \<in> set fields. binders (rf_value field))"
| "binders (FieldAccess target field) = binders target"
| "binders (EnumConstruct enum_type variant value) = binders value"
| "binders (CaseE expr arms) = binders expr \<union> (\<Union>arm \<in> set arms.
     set_option (scoped_binding arm) \<union> binders (ca_body arm) \<union>
     (case ca_guard arm of None \<Rightarrow> {} | Some guard \<Rightarrow> binders guard))"
| "binders _ = {}"

text \<open>A binding and a nested pattern exclude each other, as the parser of arms guarantees.\<close>

definition arm_exclusive :: "raw_case_arm \<Rightarrow> bool" where
  "arm_exclusive arm \<longleftrightarrow> ca_binding arm = None \<or> ca_payload_pattern arm = None"

fun arms_exclusive :: "raw_expr \<Rightarrow> bool" where
  "arms_exclusive (Call name args) = list_all arms_exclusive args"
| "arms_exclusive (Binary op left right) \<longleftrightarrow> arms_exclusive left \<and> arms_exclusive right"
| "arms_exclusive (Unary op expr) = arms_exclusive expr"
| "arms_exclusive (BorrowShared region target) = arms_exclusive target"
| "arms_exclusive (BorrowMut region target) = arms_exclusive target"
| "arms_exclusive (Assign target value) \<longleftrightarrow> arms_exclusive target \<and> arms_exclusive value"
| "arms_exclusive (LetE name ty value body) \<longleftrightarrow> arms_exclusive value \<and> arms_exclusive body"
| "arms_exclusive (IfE cond then_expr else_expr) \<longleftrightarrow>
     arms_exclusive cond \<and> arms_exclusive then_expr \<and> arms_exclusive else_expr"
| "arms_exclusive (Return value) = arms_exclusive value"
| "arms_exclusive (FoldE item target acc init body) \<longleftrightarrow>
     arms_exclusive target \<and> arms_exclusive init \<and> arms_exclusive body"
| "arms_exclusive (LoopE acc init cond body) \<longleftrightarrow>
     arms_exclusive init \<and> arms_exclusive cond \<and> arms_exclusive body"
| "arms_exclusive (ArrayE elements) = list_all arms_exclusive elements"
| "arms_exclusive (ArrayFill value n) = arms_exclusive value"
| "arms_exclusive (Index target index) \<longleftrightarrow> arms_exclusive target \<and> arms_exclusive index"
| "arms_exclusive (RecordE fields) = list_all (\<lambda>field. arms_exclusive (rf_value field)) fields"
| "arms_exclusive (FieldAccess target field) = arms_exclusive target"
| "arms_exclusive (EnumConstruct enum_type variant value) = arms_exclusive value"
| "arms_exclusive (CaseE expr arms) \<longleftrightarrow> arms_exclusive expr \<and> list_all (\<lambda>arm.
     arm_exclusive arm \<and> arms_exclusive (ca_body arm) \<and>
     (case ca_guard arm of None \<Rightarrow> True | Some guard \<Rightarrow> arms_exclusive guard)) arms"
| "arms_exclusive _ = True"

subsection \<open>Renaming preserves the nameless form\<close>

text \<open>A renaming scope is sound for a set of used names and the free names of what it is applied
  to: new names are distinct and used, and a name it does not rename is used and not new.\<close>

definition scope_ok :: "(string \<times> string) list \<Rightarrow> string list \<Rightarrow> string set \<Rightarrow> bool" where
  "scope_ok sc u fs \<longleftrightarrow> distinct (map snd sc) \<and> snd ` set sc \<subseteq> set u \<and> fs \<subseteq> set u \<and> fs \<inter> snd ` set sc = {}"

lemma scope_ok_mono: "scope_ok sc u fs \<Longrightarrow> gs \<subseteq> fs \<Longrightarrow> set u \<subseteq> set v \<Longrightarrow> scope_ok sc v gs"
  by (auto simp: scope_ok_def)

lemma scope_ok_subset: "scope_ok sc u fs \<Longrightarrow> gs \<subseteq> fs \<Longrightarrow> scope_ok sc u gs"
  by (auto simp: scope_ok_def)

lemma scope_ok_push:
  assumes "scope_ok sc u fs" and "gs \<subseteq> fs" and "new \<notin> set u" and "set u \<subseteq> set v" and "new \<in> set v"
  shows "scope_ok ((old, new) # sc) v gs"
  using assms by (auto simp: scope_ok_def)

lemma position_rename:
  assumes "distinct (map snd sc)"
  shows "map_of sc name = Some new \<Longrightarrow> position (\<lambda>l. l = new) (map snd sc) = position (\<lambda>l. l = name) (map fst sc)"
    and "map_of sc name = None \<Longrightarrow> position (\<lambda>l. l = name) (map fst sc) = None"
  using assms by (induction sc) (auto split: if_splits dest!: map_of_SomeD simp: image_iff)

lemma occurrence_rename:
  assumes "scope_ok sc u (nfree (occurrence (map fst sc) name))"
  shows "occurrence (map snd sc) (case map_of sc name of Some new \<Rightarrow> new | None \<Rightarrow> name) =
         occurrence (map fst sc) name"
proof (cases "map_of sc name")
  case None
  then have "name \<notin> set (map fst sc)" by (simp add: map_of_eq_None_iff)
  with assms have "name \<notin> snd ` set sc" by (auto simp: scope_ok_def occurrence_free)
  then have "position (\<lambda>l. l = name) (map snd sc) = None" by (auto simp: position_None_iff)
  with None position_rename(2) [of sc name] assms show ?thesis by (simp add: occurrence_def scope_ok_def)
next
  case (Some new)
  with position_rename(1) [OF _ Some] assms have
    p: "position (\<lambda>l. l = new) (map snd sc) = position (\<lambda>l. l = name) (map fst sc)" by (simp add: scope_ok_def)
  have "name \<in> fst ` set sc" using Some by (metis map_of_eq_None_iff option.distinct(1))
  then have "position (\<lambda>l. l = name) (map fst sc) \<noteq> None" by (auto simp: position_None_iff)
  then show ?thesis using p Some by (auto simp: occurrence_def)
qed

text \<open>What a renamed expression owes its original: the nameless form of the result, its binders
  and the growth of the used names.\<close>

definition renamed :: "nterm list \<Rightarrow> string list \<Rightarrow> nterm list \<Rightarrow> string list \<Rightarrow> string set \<Rightarrow> bool" where
  "renamed ts u ts' u' bs \<longleftrightarrow> ts' = ts \<and> set u \<subseteq> set u' \<and> bs \<subseteq> set u' \<and> bs \<inter> set u = {}"

definition renames :: "(string \<times> string) list \<Rightarrow> raw_expr \<Rightarrow> string list \<Rightarrow> raw_expr \<Rightarrow> string list \<Rightarrow> bool" where
  "renames sc e u e' u' = renamed [nameless (map fst sc) e] u [nameless (map snd sc) e'] u' (binders e')"

lemma renamed_step:
  "renamed ts u ts' v bs \<Longrightarrow> renamed ss v ss' w cs \<Longrightarrow> renamed (ts @ ss) u (ts' @ ss') w (bs \<union> cs)"
  by (auto simp: renamed_def)

lemma renamed_scope:
  "renamed ts u ts' v bs \<Longrightarrow> scope_ok sc u fs \<Longrightarrow> gs \<subseteq> fs \<Longrightarrow> scope_ok sc v gs"
  by (auto simp: renamed_def elim: scope_ok_mono)

lemma st_map_renamed:
  assumes "st_map f xs u = (ys, u')" and "scope_ok sc u (\<Union>x \<in> set xs. nfree (h x))"
    and "\<And>x v y v'. x \<in> set xs \<Longrightarrow> f x v = (y, v') \<Longrightarrow> scope_ok sc v (nfree (h x)) \<Longrightarrow>
           renamed [h x] v [h' y] v' (b y)"
  shows "renamed (map h xs) u (map h' ys) u' (\<Union>y \<in> set ys. b y)"
  using assms
proof (induction xs arbitrary: u ys)
  case Nil
  then show ?case by (simp add: renamed_def)
next
  case (Cons x xs)
  from Cons.prems(1) obtain y v zs where y: "f x u = (y, v)" and zs: "st_map f xs v = (zs, u')" and ys: "ys = y # zs"
    by (auto split: prod.splits)
  have 1: "renamed [h x] u [h' y] v (b y)"
    using Cons.prems(2) by (intro Cons.prems(3) [OF _ y]) (auto elim: scope_ok_subset)
  have "renamed (map h xs) v (map h' zs) u' (\<Union>y \<in> set zs. b y)"
    using Cons.prems(2,3) renamed_scope [OF 1] by (intro Cons.IH [OF zs]) (auto)
  from renamed_step [OF 1 this] show ?case by (simp add: ys)
qed

text \<open>The scope of an arm: at most one name is renamed, and the label does not change.\<close>

lemma alpha_rename_pattern_scope:
  "alpha_rename_pattern p u sc = (p', u', sc') \<Longrightarrow>
     anonymous_pattern p' = anonymous_pattern p \<and>
     (case pattern_leaf_binding p of
        None \<Rightarrow> pattern_leaf_binding p' = None \<and> u' = u \<and> sc' = sc
      | Some old \<Rightarrow> (let new = unique_inline_local_name old u in
          pattern_leaf_binding p' = Some new \<and> u' = bset_insert new u \<and> sc' = (old, new) # sc))"
  by (induction p arbitrary: p' u' sc') (auto simp: Let_def split: prod.splits option.splits)

lemma rename_arm_scope_cases:
  assumes "rename_arm_scope arm u sc = (b, p, u', sc')" and "arm_exclusive arm"
    and arm'_def: "arm' = RawCaseArm (ca_variant arm) (ca_literal arm) (ca_range arm) (ca_default arm) b g p body"
  shows "arm_label arm' = arm_label arm \<and>
    (case scoped_binding arm of
       None \<Rightarrow> scoped_binding arm' = None \<and> u' = u \<and> sc' = sc
     | Some old \<Rightarrow> (let new = unique_inline_local_name old u in
         scoped_binding arm' = Some new \<and> u' = bset_insert new u \<and> sc' = (old, new) # sc))"
proof (cases "ca_binding arm")
  case (Some old)
  with assms show ?thesis
    by (auto simp: rename_arm_scope_def arm_exclusive_def arm_label_def scoped_binding_def Let_def)
next
  case None
  show ?thesis
  proof (cases "ca_payload_pattern arm")
    case (Some q)
    with None assms(1) have "alpha_rename_pattern q u sc = (the p, u', sc')" and p: "p = Some (the p)" "b = None"
      by (auto simp: rename_arm_scope_def Let_def split: prod.splits)
    from alpha_rename_pattern_scope [OF this(1)] p None Some show ?thesis
      by (cases "pattern_leaf_binding q"; cases p)
        (auto simp: arm'_def arm_label_def scoped_binding_def Let_def)
  qed (use None assms in \<open>auto simp: rename_arm_scope_def arm_label_def scoped_binding_def\<close>)
qed

lemma renamed_append2: "renamed [s, t] u [s', t'] w bs \<longleftrightarrow> renamed ([s] @ [t]) u ([s'] @ [t']) w bs"
  by simp

lemma renamed_push:
  assumes "renamed ts v ts' w bs" and "new \<notin> set u" and "set u \<subseteq> set v" and "new \<in> set v"
  shows "renamed ts u ts' w (insert new bs)"
  using assms by (auto simp: renamed_def)

lemma unique_fresh_insert: "unique_inline_local_name n (bset_insert x u) \<noteq> x \<and> unique_inline_local_name n (bset_insert x u) \<notin> set u"
  using unique_fresh [of n "bset_insert x u"] by (simp del: unique_fresh)

lemma renamed_children:
  "renamed ts u ts' v bs \<Longrightarrow> bs = cs \<Longrightarrow> renamed [NNode l ts] u [NNode l ts'] v cs"
  by (auto simp: renamed_def)

text \<open>One arm: its scope, then its guard, then its body.\<close>

definition rename_arm :: "(string \<times> string) list \<Rightarrow> raw_case_arm \<Rightarrow> string list \<Rightarrow> raw_case_arm \<times> string list" where
  "rename_arm sc arm u =
     (let (renamed_binding, renamed_pattern, u, sc) = rename_arm_scope arm u sc;
          (guard, u) = st_opt (\<lambda>guard u. alpha_rename_scoped sc guard u) (ca_guard arm) u;
          (body, u) = alpha_rename_scoped sc (ca_body arm) u
      in (RawCaseArm (ca_variant arm) (ca_literal arm) (ca_range arm) (ca_default arm)
            renamed_binding guard renamed_pattern body, u))"

definition nameless_arm :: "string list \<Rightarrow> raw_case_arm \<Rightarrow> nterm" where
  "nameless_arm env arm = NNode (arm_label arm)
     (nameless (push_scoped arm env) (ca_body arm) #
      (case ca_guard arm of None \<Rightarrow> [] | Some guard \<Rightarrow> [nameless (push_scoped arm env) guard]))"

definition arm_names :: "raw_case_arm \<Rightarrow> string set" where
  "arm_names arm = set_option (scoped_binding arm) \<union> binders (ca_body arm) \<union>
     (case ca_guard arm of None \<Rightarrow> {} | Some guard \<Rightarrow> binders guard)"

lemma nameless_CaseE:
  "nameless env (CaseE e arms) = NNode (Lb ''case'' []) (nameless env e # map (nameless_arm env) arms)"
  by (simp add: nameless_arm_def [abs_def])

lemma rename_arm_renamed:
  assumes r: "rename_arm sc arm u = (arm', u')" and excl: "arm_exclusive arm"
    and ok: "scope_ok sc u (nfree (nameless_arm (map fst sc) arm))"
    and body: "\<And>sc w e' w'. alpha_rename_scoped sc (ca_body arm) w = (e', w') \<Longrightarrow>
        scope_ok sc w (nfree (nameless (map fst sc) (ca_body arm))) \<Longrightarrow> renames sc (ca_body arm) w e' w'"
    and guard: "\<And>g sc w e' w'. ca_guard arm = Some g \<Longrightarrow> alpha_rename_scoped sc g w = (e', w') \<Longrightarrow>
        scope_ok sc w (nfree (nameless (map fst sc) g)) \<Longrightarrow> renames sc g w e' w'"
  shows "renamed [nameless_arm (map fst sc) arm] u [nameless_arm (map snd sc) arm'] u' (arm_names arm')"
proof -
  from r obtain b p v sc1 g w bd where s: "rename_arm_scope arm u sc = (b, p, v, sc1)"
    and g: "st_opt (\<lambda>guard u. alpha_rename_scoped sc1 guard u) (ca_guard arm) v = (g, w)"
    and bd: "alpha_rename_scoped sc1 (ca_body arm) w = (bd, u')"
    and arm': "arm' = RawCaseArm (ca_variant arm) (ca_literal arm) (ca_range arm) (ca_default arm) b g p bd"
    by (auto simp: rename_arm_def split: prod.splits)
  note sc1 = rename_arm_scope_cases [OF s excl arm']
  have env: "map fst sc1 = push_scoped arm (map fst sc)" "map snd sc1 = push_scoped arm' (map snd sc)"
    using sc1 by (auto simp: push_scoped_def Let_def split: option.splits)
  have parts: "ca_body arm' = bd" "ca_guard arm' = g" by (simp_all add: arm')
  let ?fg = "case ca_guard arm of None \<Rightarrow> {} | Some x \<Rightarrow> nfree (nameless (map fst sc1) x)"
  let ?fb = "nfree (nameless (map fst sc1) (ca_body arm))"
  have "nfree (nameless_arm (map fst sc) arm) = ?fb \<union> ?fg"
    by (auto simp: nameless_arm_def env split: option.splits)
  with ok have "scope_ok sc u (?fb \<union> ?fg)" by simp
  with sc1 have ok1: "scope_ok sc1 v (?fb \<union> ?fg)"
    by (auto simp: Let_def split: option.splits elim!: scope_ok_push)
  have G: "renamed (case ca_guard arm of None \<Rightarrow> [] | Some x \<Rightarrow> [nameless (map fst sc1) x]) v
      (case g of None \<Rightarrow> [] | Some x \<Rightarrow> [nameless (map snd sc1) x]) w (case g of None \<Rightarrow> {} | Some x \<Rightarrow> binders x)"
  proof (cases "ca_guard arm")
    case (Some x)
    with g obtain y where "alpha_rename_scoped sc1 x v = (y, w)" "g = Some y" by (auto split: prod.splits)
    with guard [OF Some this(1) scope_ok_subset [OF ok1]] Some show ?thesis
      by (auto simp: renames_def)
  qed (use g in \<open>auto simp: renamed_def\<close>)
  have B: "renamed [nameless (map fst sc1) (ca_body arm)] w [nameless (map snd sc1) bd] u' (binders bd)"
    using body [OF bd] renamed_scope [OF G ok1] by (auto simp: renames_def)
  have "renamed [nameless_arm (map fst sc) arm] v [nameless_arm (map snd sc) arm'] u'
      (binders bd \<union> (case g of None \<Rightarrow> {} | Some x \<Rightarrow> binders x))"
    using B G conjunct1 [OF sc1]
    unfolding renamed_def nameless_arm_def env [symmetric] parts by auto
  then show ?thesis using conjunct2 [OF sc1]
    by (auto simp: arm_names_def parts Let_def renamed_def split: option.splits)
qed

theorem alpha_renames:
  "alpha_rename_scoped sc e u = (e', u') \<Longrightarrow> arms_exclusive e \<Longrightarrow>
     scope_ok sc u (nfree (nameless (map fst sc) e)) \<Longrightarrow> renames sc e u e' u'"
proof (induction e arbitrary: sc u e' u' rule: raw_expr_induct)
  case (ParamName env name)
  then show ?case using occurrence_rename [of sc u name] by (auto simp: renames_def renamed_def)
next
  case (Call env name args)
  then obtain args' where m: "st_map (\<lambda>arg u. alpha_rename_scoped sc arg u) args u = (args', u')" and e': "e' = Call name args'"
    by (auto split: prod.splits)
  have "renamed (map (nameless (map fst sc)) args) u (map (nameless (map snd sc)) args') u' (\<Union>y \<in> set args'. binders y)"
    using Call.prems Call.IH by (intro st_map_renamed [OF m, of sc]) (auto simp: renames_def list_all_iff)
  from renamed_children [OF this] show ?case by (simp add: renames_def e')
next
  case (Binary env op l r)
  from Binary.prems(1) obtain l' v r' where l: "alpha_rename_scoped sc l u = (l', v)"
    and r: "alpha_rename_scoped sc r v = (r', u')" and e': "e' = Binary op l' r'" by (auto split: prod.splits)
  have L: "renames sc l u l' v"
    using Binary.prems by (intro Binary.IH(1) [OF l]) (auto elim: scope_ok_subset)
  have "renames sc r v r' u'"
    using Binary.prems renamed_scope [OF L [unfolded renames_def]] by (intro Binary.IH(2) [OF r]) auto
  from renamed_children [OF renamed_step [OF L [unfolded renames_def] this [unfolded renames_def]]]
  show ?case by (simp add: renames_def e')
next
  case (LetE env name ty val body)
  let ?new = "\<lambda>v. unique_inline_local_name name v"
  from LetE.prems(1) obtain val' v body' where
    l: "alpha_rename_scoped sc val u = (val', v)"
    and r: "alpha_rename_scoped ((name, ?new v) # sc) body (bset_insert (?new v) v) = (body', u')"
    and e': "e' = LetE (?new v) ty val' body'" by (auto simp: Let_def split: prod.splits)
  have L: "renames sc val u val' v"
    using LetE.prems by (intro LetE.IH(1) [OF l]) (auto elim: scope_ok_subset)
  have "scope_ok sc v (nfree (nameless (map fst sc) (LetE name ty val body)))"
    using renamed_scope [OF L [unfolded renames_def] LetE.prems(3)] by simp
  then have "renames ((name, ?new v) # sc) body (bset_insert (?new v) v) body' u'"
    using LetE.prems(2) by (intro LetE.IH(2) [OF r]) (auto elim!: scope_ok_push)
  then have "renamed [nameless (name # map fst sc) body] v [nameless (?new v # map snd sc) body'] u' (insert (?new v) (binders body'))"
    by (intro renamed_push) (auto simp: renames_def)
  from renamed_children [OF renamed_step [OF L [unfolded renames_def] this]]
  show ?case by (simp add: renames_def e')
next
  case (FoldE env item target acc init body)
  let ?it = "\<lambda>v. unique_inline_local_name item v"
  let ?v2 = "\<lambda>v. bset_insert (?it v) v"
  let ?ac = "\<lambda>v. unique_inline_local_name acc (?v2 v)"
  from FoldE.prems(1) obtain target' v init' w body' where
    t: "alpha_rename_scoped sc target u = (target', v)"
    and i: "alpha_rename_scoped sc init v = (init', w)"
    and b: "alpha_rename_scoped ((acc, ?ac w) # (item, ?it w) # sc) body (bset_insert (?ac w) (?v2 w)) = (body', u')"
    and e': "e' = FoldE (?it w) target' (?ac w) init' body'" by (auto simp: Let_def split: prod.splits)
  have T: "renames sc target u target' v"
    using FoldE.prems by (intro FoldE.IH(1) [OF t]) (auto elim: scope_ok_subset)
  note vs = renamed_scope [OF T [unfolded renames_def] FoldE.prems(3)]
  have I: "renames sc init v init' w"
    using FoldE.prems vs by (intro FoldE.IH(2) [OF i]) auto
  note ws = renamed_scope [OF I [unfolded renames_def] vs [OF subset_refl]]
  have "scope_ok ((item, ?it w) # sc) (?v2 w) (nfree (nameless (acc # item # map fst sc) body))"
    by (rule scope_ok_push [OF ws [OF subset_refl]]) auto
  then have "scope_ok ((acc, ?ac w) # (item, ?it w) # sc) (bset_insert (?ac w) (?v2 w)) (nfree (nameless (acc # item # map fst sc) body))"
    by (rule scope_ok_push [OF _ _ unique_fresh]) auto
  then have "renames ((acc, ?ac w) # (item, ?it w) # sc) body (bset_insert (?ac w) (?v2 w)) body' u'"
    using FoldE.prems(2) by (intro FoldE.IH(3) [OF b]) auto
  then have "renamed [nameless (acc # item # map fst sc) body] (bset_insert (?ac w) (?v2 w))
      [nameless (?ac w # ?it w # map snd sc) body'] u' (binders body')"
    by (simp add: renames_def)
  then have "renamed [nameless (acc # item # map fst sc) body] (?v2 w) [nameless (?ac w # ?it w # map snd sc) body'] u'
      (insert (?ac w) (binders body'))"
    by (rule renamed_push [OF _ unique_fresh]) auto
  then have "renamed [nameless (acc # item # map fst sc) body] w [nameless (?ac w # ?it w # map snd sc) body'] u'
      (insert (?it w) (insert (?ac w) (binders body')))"
    by (rule renamed_push [OF _ unique_fresh]) auto
  from renamed_children [OF renamed_step [OF renamed_step [OF T [unfolded renames_def] I [unfolded renames_def]] this]]
  show ?case by (simp add: renames_def e' insert_commute)
next
  case (LoopE env acc init cond body)
  let ?new = "\<lambda>v. unique_inline_local_name acc v"
  from LoopE.prems(1) obtain init' v cond' w body' where
    i: "alpha_rename_scoped sc init u = (init', v)"
    and c: "alpha_rename_scoped ((acc, ?new v) # sc) cond (bset_insert (?new v) v) = (cond', w)"
    and b: "alpha_rename_scoped ((acc, ?new v) # sc) body w = (body', u')"
    and e': "e' = LoopE (?new v) init' cond' body'" by (auto simp: Let_def split: prod.splits)
  have I: "renames sc init u init' v"
    using LoopE.prems by (intro LoopE.IH(1) [OF i]) (auto elim: scope_ok_subset)
  have vs: "scope_ok ((acc, ?new v) # sc) (bset_insert (?new v) v)
      (nfree (nameless (acc # map fst sc) cond) \<union> nfree (nameless (acc # map fst sc) body))"
    by (rule scope_ok_push [OF renamed_scope [OF I [unfolded renames_def] LoopE.prems(3) subset_refl]]) auto
  have C: "renames ((acc, ?new v) # sc) cond (bset_insert (?new v) v) cond' w"
    using LoopE.prems(2) vs by (intro LoopE.IH(2) [OF c]) (auto elim: scope_ok_subset)
  have "renames ((acc, ?new v) # sc) body w body' u'"
    using LoopE.prems(2) renamed_scope [OF C [unfolded renames_def] vs] by (intro LoopE.IH(3) [OF b]) auto
  from renamed_step [OF C [unfolded renames_def] this [unfolded renames_def]]
  have "renamed [nameless (acc # map fst sc) cond, nameless (acc # map fst sc) body] v
      [nameless (?new v # map snd sc) cond', nameless (?new v # map snd sc) body'] u'
      (insert (?new v) (binders cond' \<union> binders body'))"
    by (intro renamed_push) auto
  from renamed_children [OF renamed_step [OF I [unfolded renames_def] this]]
  show ?case by (simp add: renames_def e' Un_assoc)
next
  case (Assign env l r)
  from Assign.prems(1) obtain l' v r' where l: "alpha_rename_scoped sc l u = (l', v)"
    and r: "alpha_rename_scoped sc r v = (r', u')" and e': "e' = Assign l' r'" by (auto split: prod.splits)
  have L: "renames sc l u l' v"
    using Assign.prems by (intro Assign.IH(1) [OF l]) (auto elim: scope_ok_subset)
  have "renames sc r v r' u'"
    using Assign.prems renamed_scope [OF L [unfolded renames_def]] by (intro Assign.IH(2) [OF r]) auto
  from renamed_children [OF renamed_step [OF L [unfolded renames_def] this [unfolded renames_def]]]
  show ?case by (simp add: renames_def e')
next
  case (Index env l r)
  from Index.prems(1) obtain l' v r' where l: "alpha_rename_scoped sc l u = (l', v)"
    and r: "alpha_rename_scoped sc r v = (r', u')" and e': "e' = Index l' r'" by (auto split: prod.splits)
  have L: "renames sc l u l' v"
    using Index.prems by (intro Index.IH(1) [OF l]) (auto elim: scope_ok_subset)
  have "renames sc r v r' u'"
    using Index.prems renamed_scope [OF L [unfolded renames_def]] by (intro Index.IH(2) [OF r]) auto
  from renamed_children [OF renamed_step [OF L [unfolded renames_def] this [unfolded renames_def]]]
  show ?case by (simp add: renames_def e')
next
  case (IfE env c t f)
  from IfE.prems(1) obtain c' v t' w f' where c: "alpha_rename_scoped sc c u = (c', v)"
    and t: "alpha_rename_scoped sc t v = (t', w)" and f: "alpha_rename_scoped sc f w = (f', u')"
    and e': "e' = IfE c' t' f'" by (auto split: prod.splits)
  have C: "renames sc c u c' v"
    using IfE.prems by (intro IfE.IH(1) [OF c]) (auto elim: scope_ok_subset)
  note vs = renamed_scope [OF C [unfolded renames_def] IfE.prems(3)]
  have T: "renames sc t v t' w"
    using IfE.prems vs by (intro IfE.IH(2) [OF t]) auto
  have "renames sc f w f' u'"
    using IfE.prems renamed_scope [OF T [unfolded renames_def] vs [OF subset_refl]]
    by (intro IfE.IH(3) [OF f]) auto
  from renamed_children [OF renamed_step [OF renamed_step [OF C [unfolded renames_def] T [unfolded renames_def]] this [unfolded renames_def]]]
  show ?case by (simp add: renames_def e')
next
  case (ArrayE env xs)
  then obtain xs' where m: "st_map (\<lambda>arg u. alpha_rename_scoped sc arg u) xs u = (xs', u')" and e': "e' = ArrayE xs'"
    by (auto split: prod.splits)
  have "renamed (map (nameless (map fst sc)) xs) u (map (nameless (map snd sc)) xs') u' (\<Union>y \<in> set xs'. binders y)"
    using ArrayE.prems ArrayE.IH by (intro st_map_renamed [OF m, of sc]) (auto simp: renames_def list_all_iff)
  from renamed_children [OF this] show ?case by (simp add: renames_def e')
next
  case (RecordE env fs)
  then obtain fs' where m: "st_map (\<lambda>field u. let (v, u) = alpha_rename_scoped sc (rf_value field) u
            in (RawRecordField (rf_name field) v, u)) fs u = (fs', u')" and e': "e' = RecordE fs'"
    by (auto split: prod.splits)
  have "renamed (map (\<lambda>f. NNode (Lb (rf_name f) []) [nameless (map fst sc) (rf_value f)]) fs) u
      (map (\<lambda>f. NNode (Lb (rf_name f) []) [nameless (map snd sc) (rf_value f)]) fs') u' (\<Union>y \<in> set fs'. binders (rf_value y))"
  proof (rule st_map_renamed [OF m, of sc])
    show "scope_ok sc u (\<Union>x \<in> set fs. nfree (NNode (Lb (rf_name x) []) [nameless (map fst sc) (rf_value x)]))"
      using RecordE.prems(3) by simp
    fix f v g v'
    assume f: "f \<in> set fs" "(let (a, u) = alpha_rename_scoped sc (rf_value f) v in (RawRecordField (rf_name f) a, u)) = (g, v')"
      "scope_ok sc v (nfree (NNode (Lb (rf_name f) []) [nameless (map fst sc) (rf_value f)]))"
    then obtain a where a: "alpha_rename_scoped sc (rf_value f) v = (a, v')" "g = RawRecordField (rf_name f) a"
      by (auto split: prod.splits)
    have "renames sc (rf_value f) v a v'"
      using f RecordE.prems(2) by (intro RecordE.IH [OF f(1) a(1)]) (auto simp: list_all_iff)
    then show "renamed [NNode (Lb (rf_name f) []) [nameless (map fst sc) (rf_value f)]] v
        [NNode (Lb (rf_name g) []) [nameless (map snd sc) (rf_value g)]] v' (binders (rf_value g))"
      using a(2) by (auto simp: renames_def renamed_def)
  qed
  then show ?case by (auto simp: renames_def renamed_def e' list_eq_iff_nth_eq)
next
  case (CaseE env e arms)
  from CaseE.prems(1) obtain e1 v arms' where s: "alpha_rename_scoped sc e u = (e1, v)"
    and m: "st_map (\<lambda>arm u. rename_arm sc arm u) arms v = (arms', u')" and e': "e' = CaseE e1 arms'"
    by (auto simp: rename_arm_def split: prod.splits)
  have E: "renames sc e u e1 v"
    using CaseE.prems by (intro CaseE.IH(1) [OF s]) (auto elim: scope_ok_subset)
  have "renamed (map (nameless_arm (map fst sc)) arms) v (map (nameless_arm (map snd sc)) arms') u' (\<Union>arm \<in> set arms'. arm_names arm)"
  proof (rule st_map_renamed [OF m, of sc])
    show "scope_ok sc v (\<Union>arm \<in> set arms. nfree (nameless_arm (map fst sc) arm))"
      using renamed_scope [OF E [unfolded renames_def] CaseE.prems(3)] by (simp add: nameless_arm_def)
    fix arm w arm' w'
    assume arm: "arm \<in> set arms" "rename_arm sc arm w = (arm', w')"
      "scope_ok sc w (nfree (nameless_arm (map fst sc) arm))"
    show "renamed [nameless_arm (map fst sc) arm] w [nameless_arm (map snd sc) arm'] w' (arm_names arm')"
    proof (rule rename_arm_renamed [OF arm(2)])
      show "arm_exclusive arm" using arm(1) CaseE.prems(2) by (auto simp: list_all_iff)
      show "renames sc1 (ca_body arm) w1 e2 w2" if "alpha_rename_scoped sc1 (ca_body arm) w1 = (e2, w2)"
          "scope_ok sc1 w1 (nfree (nameless (map fst sc1) (ca_body arm)))" for sc1 w1 e2 w2
        using CaseE.IH(2) [OF arm(1) that(1)] that(2) arm(1) CaseE.prems(2) by (auto simp: list_all_iff)
      show "renames sc1 g w1 e2 w2" if "ca_guard arm = Some g" "alpha_rename_scoped sc1 g w1 = (e2, w2)"
          "scope_ok sc1 w1 (nfree (nameless (map fst sc1) g))" for g sc1 w1 e2 w2
        using CaseE.IH(3) [OF arm(1) that(1,2)] that(1,3) arm(1) CaseE.prems(2) by (auto simp: list_all_iff)
    qed (rule arm(3))
  qed
  from renamed_children [OF renamed_step [OF E [unfolded renames_def] this]]
  show ?case by (simp add: renames_def e' nameless_arm_def [abs_def] arm_names_def)
qed (fastforce simp: renames_def renamed_def split: prod.splits)+

subsection \<open>Substitution under fresh binders\<close>

lemma position_append:
  "position P (xs @ ys) = (case position P xs of Some i \<Rightarrow> Some i | None \<Rightarrow> map_option ((+) (length xs)) (position P ys))"
  by (cases "position P ys"; induction xs) (auto split: option.splits)

lemma occurrence_weaken:
  assumes "name \<in> set env \<or> name \<notin> set outer"
  shows "occurrence (env @ outer) name = occurrence env name"
proof (cases "position (\<lambda>l. l = name) env")
  case None
  then have "name \<notin> set env" by (auto simp: position_None_iff)
  with assms have "position (\<lambda>l. l = name) outer = None" by (auto simp: position_None_iff)
  with None show ?thesis by (simp add: occurrence_def position_append)
qed (simp add: occurrence_def position_append)

text \<open>An enclosing scope that binds no free name of an expression does not change its form.\<close>

lemma nameless_weaken:
  "nfree (nameless env e) \<inter> set outer = {} \<Longrightarrow> nameless (env @ outer) e = nameless env e"
proof (induction env e rule: nameless.induct)
  case (7 env name)
  then show ?case by (auto simp: occurrence_free intro: occurrence_weaken)
next
  case (25 env e arms)
  have push: "push_scoped arm (env @ outer) = push_scoped arm env @ outer" for arm
    by (simp add: push_scoped_def split: option.splits)
  have "nameless_arm (env @ outer) arm = nameless_arm env arm" if arm: "arm \<in> set arms" for arm
  proof -
    have "nfree (nameless_arm env arm) \<inter> set outer = {}"
      using 25(4) [unfolded nameless_CaseE] arm by auto
    then have "nfree (nameless (push_scoped arm env) (ca_body arm)) \<inter> set outer = {}"
      "\<And>g. ca_guard arm = Some g \<Longrightarrow> nfree (nameless (push_scoped arm env) g) \<inter> set outer = {}"
      by (auto simp: nameless_arm_def)
    with 25(2,3) [OF arm] show ?thesis by (simp add: nameless_arm_def push split: option.split)
  qed
  moreover have "nfree (nameless env e) \<inter> set outer = {}"
    using 25(4) [unfolded nameless_CaseE] by auto
  ultimately show ?case using 25(1) unfolding nameless_CaseE by simp
qed (auto simp: disjoint_iff)

lemma res_map_nameless:
  assumes "res_map f xs = Inr ys" and "\<And>x y. x \<in> set xs \<Longrightarrow> f x = Inr y \<Longrightarrow> h y = g x"
  shows "map h ys = map g xs"
  using assms by (induction xs arbitrary: ys) auto

text \<open>An arm rebuilt with another guard and body keeps its label and its scope.\<close>

definition with_parts :: "raw_case_arm \<Rightarrow> raw_expr option \<Rightarrow> raw_expr \<Rightarrow> raw_case_arm" where
  "with_parts arm g b = RawCaseArm (ca_variant arm) (ca_literal arm) (ca_range arm) (ca_default arm)
     (ca_binding arm) g (ca_payload_pattern arm) b"

lemma with_parts_simps [simp]:
  "arm_label (with_parts arm g b) = arm_label arm"
  "scoped_binding (with_parts arm g b) = scoped_binding arm"
  "push_scoped (with_parts arm g b) env = push_scoped arm env"
  "ca_guard (with_parts arm g b) = g"
  "ca_body (with_parts arm g b) = b"
  by (simp_all add: with_parts_def arm_label_def scoped_binding_def push_scoped_def cong: option.case_cong)

lemma nsubst_occurrence [simp]: "nsubst ts (occurrence env name) = occurrence env name"
  and nparams_occurrence [simp]: "nparams (occurrence env name) = {}"
  by (simp_all add: occurrence_def split: option.splits)

lemma res_opt_Inr [simp]:
  "res_opt f m = Inr n \<longleftrightarrow> (case m of None \<Rightarrow> n = None | Some x \<Rightarrow> (\<exists>y. f x = Inr y \<and> n = Some y))"
  by (cases m) auto

definition avoids :: "raw_expr list \<Rightarrow> string set \<Rightarrow> bool" where
  "avoids args names \<longleftrightarrow> (\<forall>a \<in> set args. nfree (nameless [] a) \<inter> names = {})"

lemma avoids_Un [simp]: "avoids args (A \<union> B) \<longleftrightarrow> avoids args A \<and> avoids args B"
  and avoids_insert [simp]: "avoids args (insert n A) \<longleftrightarrow> (\<forall>a \<in> set args. n \<notin> nfree (nameless [] a)) \<and> avoids args A"
  and avoids_UN [simp]: "avoids args (\<Union> (f ` X)) \<longleftrightarrow> (\<forall>x \<in> X. avoids args (f x))"
  and avoids_mono: "avoids args B \<Longrightarrow> A \<subseteq> B \<Longrightarrow> avoids args A"
  by (auto simp: avoids_def)

lemma avoids_push:
  "avoids args (set (push_scoped arm env)) \<longleftrightarrow> avoids args (set_option (scoped_binding arm)) \<and> avoids args (set env)"
  by (auto simp: avoids_def push_scoped_def split: option.splits)

lemma substitute_nameless:
  "substitute_param_refs e args = Inr e' \<Longrightarrow> avoids args (set env) \<Longrightarrow> avoids args (binders e) \<Longrightarrow>
     nameless env e' = nsubst (map (nameless []) args) (nameless env e)"
proof (induction env e arbitrary: e' rule: nameless.induct)
  case (6 env index)
  then have "index < length args" "e' = args ! index" by (auto split: if_splits)
  with 6 nameless_weaken [of "[]" "args ! index" env] show ?case by (auto simp: avoids_def)
next
  case (8 env name xs)
  then obtain ys where ys: "res_map (\<lambda>arg. substitute_param_refs arg args) xs = Inr ys" "e' = Call name ys" by auto
  have "map (nameless env) ys = map (\<lambda>x. nsubst (map (nameless []) args) (nameless env x)) xs"
    using 8 by (intro res_map_nameless [OF ys(1)]) (auto elim: avoids_mono)
  with ys show ?case by simp
next
  case (14 env name ty val body)
  then show ?case by auto
next
  case (17 env item target acc init body)
  then show ?case by auto
next
  case (18 env acc init cond body)
  then show ?case by auto
next
  case (19 env xs)
  then obtain ys where ys: "res_map (\<lambda>arg. substitute_param_refs arg args) xs = Inr ys" "e' = ArrayE ys" by auto
  have "map (nameless env) ys = map (\<lambda>x. nsubst (map (nameless []) args) (nameless env x)) xs"
    using 19 by (intro res_map_nameless [OF ys(1)]) (auto elim: avoids_mono)
  with ys show ?case by simp
next
  case (22 env fs)
  then obtain gs where gs: "res_map (\<lambda>field. res_bind (substitute_param_refs (rf_value field) args)
       (\<lambda>v. Inr (RawRecordField (rf_name field) v))) fs = Inr gs" "e' = RecordE gs" by auto
  have "map (\<lambda>g. (rf_name g, nameless env (rf_value g))) gs =
      map (\<lambda>f. (rf_name f, nsubst (map (nameless []) args) (nameless env (rf_value f)))) fs"
    using 22 by (intro res_map_nameless [OF gs(1)]) (auto elim: avoids_mono)
  then have "map fst (map (\<lambda>g. (rf_name g, nameless env (rf_value g))) gs) = map rf_name fs"
    "map snd (map (\<lambda>g. (rf_name g, nameless env (rf_value g))) gs) =
      map (\<lambda>f. nsubst (map (nameless []) args) (nameless env (rf_value f))) fs"
    by (simp_all add: comp_def)
  with gs show ?case by (simp add: comp_def)
next
  case (25 env e arms)
  from 25(4) obtain e1 arms' where e1: "substitute_param_refs e args = Inr e1"
    and arms': "res_map (\<lambda>arm. res_bind (res_opt (\<lambda>g. substitute_param_refs g args) (ca_guard arm)) (\<lambda>g.
       res_bind (substitute_param_refs (ca_body arm) args) (\<lambda>b. Inr (with_parts arm g b)))) arms = Inr arms'"
    and e': "e' = CaseE e1 arms'"
    by (auto simp: with_parts_def)
  have "map (nameless_arm env) arms' = map (\<lambda>arm. nsubst (map (nameless []) args) (nameless_arm env arm)) arms"
  proof (rule res_map_nameless [OF arms'])
    fix arm arm'
    assume arm: "arm \<in> set arms" and r: "res_bind (res_opt (\<lambda>g. substitute_param_refs g args) (ca_guard arm)) (\<lambda>g.
       res_bind (substitute_param_refs (ca_body arm) args) (\<lambda>b. Inr (with_parts arm g b))) = Inr arm'"
    have "avoids args (arm_names arm)" using 25(6) arm by (auto simp: arm_names_def elim: avoids_mono)
    then have av: "avoids args (set (push_scoped arm env))" "avoids args (binders (ca_body arm))"
      "\<And>g. ca_guard arm = Some g \<Longrightarrow> avoids args (binders g)"
      using 25(5) by (auto simp: arm_names_def avoids_push)
    from r obtain g b where gb: "res_opt (\<lambda>g. substitute_param_refs g args) (ca_guard arm) = Inr g"
      "substitute_param_refs (ca_body arm) args = Inr b" "arm' = with_parts arm g b" by auto
    have "nameless (push_scoped arm env) b = nsubst (map (nameless []) args) (nameless (push_scoped arm env) (ca_body arm))"
      by (rule 25(2) [OF arm gb(2) av(1,2)])
    moreover have "nameless (push_scoped arm env) y = nsubst (map (nameless []) args) (nameless (push_scoped arm env) x)"
      if "ca_guard arm = Some x" "substitute_param_refs x args = Inr y" for x y
      by (rule 25(3) [OF arm that av(1) av(3) [OF that(1)]])
    ultimately show "nameless_arm env arm' = nsubst (map (nameless []) args) (nameless_arm env arm)"
      using gb by (auto simp: nameless_arm_def split: option.splits)
  qed
  moreover have "nameless env e1 = nsubst (map (nameless []) args) (nameless env e)"
    using 25(5,6) by (intro 25(1) [OF e1]) auto
  ultimately show ?case unfolding nameless_CaseE e' by simp
qed auto

lemma substitute_is_ok:
  "is_ok (substitute_param_refs e args) \<longleftrightarrow> nparams (nameless env e) \<subseteq> {..<length args}"
proof (induction env e rule: nameless.induct)
  case (25 env e arms)
  have arm: "is_ok (res_bind (res_opt (\<lambda>g. substitute_param_refs g args) (ca_guard arm)) (\<lambda>g.
       res_bind (substitute_param_refs (ca_body arm) args) (\<lambda>b. Inr (f g b)))) \<longleftrightarrow>
      nparams (nameless_arm env arm) \<subseteq> {..<length args}" if "arm \<in> set arms" for arm f
    using 25(2,3) [OF that] by (cases "ca_guard arm") (auto simp: nameless_arm_def is_ok_iff [symmetric])
  show ?case unfolding nameless_CaseE using arm 25(1)
    by (auto simp: is_ok_iff [symmetric] is_ok_res_map simp del: res_bind_eq_Inr)
qed (auto simp: is_ok_res_map is_ok_iff [symmetric])

subsection \<open>Inlining a call\<close>

lemma used_names_of_args:
  "set (fold (\<lambda>arg names. collect_free_param_names arg [] names) args u) =
     set u \<union> (\<Union>a \<in> set args. nfree (nameless [] a))"
  by (rule set_fold_collect) (rule collect_free)

lemma alpha_rename_closed:
  assumes "alpha_rename_let_bindings e u = (e', u')" and "arms_exclusive e" and "nfree (nameless [] e) \<subseteq> set u"
  shows "nameless [] e' = nameless [] e" and "binders e' \<inter> set u = {}"
  using alpha_renames [of "[]" e u e' u'] assms
  by (auto simp: alpha_rename_let_bindings_def renames_def renamed_def scope_ok_def)

lemma inline_call_Inr:
  assumes "inline_call body args locals = Inr e" and "arms_exclusive body" and "nfree (nameless [] body) = {}"
  shows "nameless [] e = nsubst (map (nameless []) args) (nameless [] body)"
proof -
  define u where "u = fold (\<lambda>arg names. collect_free_param_names arg [] names) args (bset_of_list locals)"
  obtain h u' where h: "alpha_rename_let_bindings body u = (h, u')" by force
  then have s: "substitute_param_refs h args = Inr e"
    using assms(1) by (simp add: inline_call_def u_def Let_def)
  note a = alpha_rename_closed [OF h assms(2)]
  have "avoids args (binders h)"
    using a(2) assms(3) used_names_of_args [of args "bset_of_list locals"]
    by (auto simp: avoids_def u_def)
  from substitute_nameless [OF s _ this, of "[]"] a(1) assms(3) show ?thesis by (simp add: avoids_def)
qed

text \<open>C1. Inlining a call is capture-avoiding substitution. For a callee whose body is closed
  (its parameters are references, its names are locals), the call is inlined exactly when every
  parameter reference has an argument, and the nameless form of the result is that of the body
  with the nameless forms of the arguments in place of the references: no name of an argument is
  captured by a binder of the body, no binder of the body changes what it binds, whatever the
  names and the caller's locals are.\<close>

theorem inline_call_substitutes:
  assumes "arms_exclusive body" and "nfree (nameless [] body) = {}"
  shows "(case inline_call body args caller_locals of
      Inl err \<Rightarrow> \<not> nparams (nameless [] body) \<subseteq> {..<length args}
    | Inr e \<Rightarrow> nparams (nameless [] body) \<subseteq> {..<length args} \<and>
        nameless [] e = nsubst (map (nameless []) args) (nameless [] body))"
proof -
  define u where "u = fold (\<lambda>arg names. collect_free_param_names arg [] names) args (bset_of_list caller_locals)"
  obtain h u' where h: "alpha_rename_let_bindings body u = (h, u')" by force
  have "nameless [] h = nameless [] body" using alpha_rename_closed(1) [OF h assms(1)] assms(2) by simp
  then have "is_ok (inline_call body args caller_locals) \<longleftrightarrow> nparams (nameless [] body) \<subseteq> {..<length args}"
    using h substitute_is_ok [of h args "[]"] by (simp add: inline_call_def u_def Let_def)
  then show ?thesis using inline_call_Inr [OF _ assms]
    by (cases "inline_call body args caller_locals") auto
qed

text \<open>\<open>let x = p0 in p0 + x\<close>, called with the caller's own \<open>x\<close>.\<close>

definition sample_callee :: raw_expr where
  "sample_callee = LetE ''x'' ''i64'' (ParamRef 0) (Binary ''+'' (ParamRef 0) (ParamName ''x''))"

theorem inline_call_substitutes_witness:
  "inline_call sample_callee [ParamName ''x''] [] =
     Inr (LetE ''x_inline'' ''i64'' (ParamName ''x'') (Binary ''+'' (ParamName ''x'') (ParamName ''x_inline''))) \<and>
   nsubst [NFree ''x''] (nameless [] sample_callee) =
     NNode (Lb ''let'' [''i64'']) [NFree ''x'', NNode (Lb ''binary'' [''+'']) [NFree ''x'', NBound 0]]"
proof -
  have "inline_call sample_callee [ParamName ''x''] [] =
     Inr (LetE ''x_inline'' ''i64'' (ParamName ''x'') (Binary ''+'' (ParamName ''x'') (ParamName ''x_inline'')))"
    by code_simp
  moreover have "arms_exclusive sample_callee" "nfree (nameless [] sample_callee) = {}" by code_simp+
  ultimately show ?thesis
    using inline_call_substitutes [of sample_callee "[ParamName ''x'']" "[]"]
    by (simp add: occurrence_def)
qed

text \<open>The set of names that inlining avoids: \<open>collect_free_param_names\<close> adds to a set
  exactly the free names of the expression, and keeps it ordered and without duplicates.\<close>

theorem collect_free_param_names_exact:
  assumes "bset_ok ns"
  shows "bset_ok (collect_free_param_names e bound ns) \<and>
    set (collect_free_param_names e bound ns) = set ns \<union> nfree (nameless bound e)"
  using assms by (simp add: collect_ok collect_free)

theorem collect_free_param_names_exact_witness:
  "set (collect_free_param_names (LetE ''x'' ''i64'' (ParamName ''y'') (Binary ''+'' (ParamName ''x'') (ParamName ''a''))) [] [''k''])
     = {''a'', ''k'', ''y''}"
  using collect_free_param_names_exact [of "[''k'']"
      "LetE ''x'' ''i64'' (ParamName ''y'') (Binary ''+'' (ParamName ''x'') (ParamName ''a''))" "[]"]
  by (auto simp: bset_ok_def occurrence_def)

end
