(* ===== verification/CallSites.thy ===== *)
theory CallSites
  imports Inline
begin

text \<open>
  The rewrites of call sites and parameter names of \<open>src/src/migrations.rs\<close>:
  \<open>append_default_arg_to_calls\<close> (a new defaulted parameter reaches every call of a function),
  \<open>borrow_call_arg_to_calls\<close> (an argument is passed by reference at every call) and
  \<open>normalize_param_refs\<close> (parameter names become parameter references), each proved against a
  function on nameless forms, and the effect of the rewrites on early returns.
\<close>

subsection \<open>Appending a defaulted argument\<close>

fun append_default_arg_to_calls :: "raw_expr \<Rightarrow> string \<Rightarrow> raw_expr \<Rightarrow> raw_expr" where
  "append_default_arg_to_calls (LiteralI64 value) target_name default_arg = LiteralI64 value"
| "append_default_arg_to_calls (LiteralBool value) target_name default_arg = LiteralBool value"
| "append_default_arg_to_calls (LiteralString value) target_name default_arg = LiteralString value"
| "append_default_arg_to_calls (LiteralBytes bytes_hex) target_name default_arg = LiteralBytes bytes_hex"
| "append_default_arg_to_calls UnitE target_name default_arg = UnitE"
| "append_default_arg_to_calls (ParamRef index) target_name default_arg = ParamRef index"
| "append_default_arg_to_calls (ParamName name) target_name default_arg = ParamName name"
| "append_default_arg_to_calls (Call name args) target_name default_arg =
     (let args = map (\<lambda>arg. append_default_arg_to_calls arg target_name default_arg) args
      in Call name (if name = target_name then args @ [default_arg] else args))"
| "append_default_arg_to_calls (Binary op left right) target_name default_arg =
     Binary op (append_default_arg_to_calls left target_name default_arg) (append_default_arg_to_calls right target_name default_arg)"
| "append_default_arg_to_calls (Unary op expr) target_name default_arg =
     Unary op (append_default_arg_to_calls expr target_name default_arg)"
| "append_default_arg_to_calls (BorrowShared r target) target_name default_arg =
     BorrowShared r (append_default_arg_to_calls target target_name default_arg)"
| "append_default_arg_to_calls (BorrowMut r target) target_name default_arg =
     BorrowMut r (append_default_arg_to_calls target target_name default_arg)"
| "append_default_arg_to_calls (Assign target value) target_name default_arg =
     Assign (append_default_arg_to_calls target target_name default_arg) (append_default_arg_to_calls value target_name default_arg)"
| "append_default_arg_to_calls (LetE name ty value body) target_name default_arg =
     LetE name ty (append_default_arg_to_calls value target_name default_arg) (append_default_arg_to_calls body target_name default_arg)"
| "append_default_arg_to_calls (IfE cond then_expr else_expr) target_name default_arg =
     IfE (append_default_arg_to_calls cond target_name default_arg) (append_default_arg_to_calls then_expr target_name default_arg)
       (append_default_arg_to_calls else_expr target_name default_arg)"
| "append_default_arg_to_calls (Return value) target_name default_arg =
     Return (append_default_arg_to_calls value target_name default_arg)"
| "append_default_arg_to_calls (FoldE item target acc init body) target_name default_arg =
     FoldE item (append_default_arg_to_calls target target_name default_arg) acc (append_default_arg_to_calls init target_name default_arg)
       (append_default_arg_to_calls body target_name default_arg)"
| "append_default_arg_to_calls (LoopE acc init cond body) target_name default_arg =
     LoopE acc (append_default_arg_to_calls init target_name default_arg) (append_default_arg_to_calls cond target_name default_arg)
       (append_default_arg_to_calls body target_name default_arg)"
| "append_default_arg_to_calls (ArrayE elements) target_name default_arg =
     ArrayE (map (\<lambda>element. append_default_arg_to_calls element target_name default_arg) elements)"
| "append_default_arg_to_calls (ArrayFill value n) target_name default_arg =
     ArrayFill (append_default_arg_to_calls value target_name default_arg) n"
| "append_default_arg_to_calls (Index target index) target_name default_arg =
     Index (append_default_arg_to_calls target target_name default_arg) (append_default_arg_to_calls index target_name default_arg)"
| "append_default_arg_to_calls (RecordE fields) target_name default_arg =
     RecordE (map (\<lambda>field. RawRecordField (rf_name field)
       (append_default_arg_to_calls (rf_value field) target_name default_arg)) fields)"
| "append_default_arg_to_calls (FieldAccess target field) target_name default_arg =
     FieldAccess (append_default_arg_to_calls target target_name default_arg) field"
| "append_default_arg_to_calls (EnumConstruct enum_type variant value) target_name default_arg =
     EnumConstruct enum_type variant (append_default_arg_to_calls value target_name default_arg)"
| "append_default_arg_to_calls (CaseE expr arms) target_name default_arg =
     CaseE (append_default_arg_to_calls expr target_name default_arg) (map (\<lambda>arm.
       RawCaseArm (ca_variant arm) (ca_literal arm) (ca_range arm) (ca_default arm) (ca_binding arm)
         (map_option (\<lambda>guard. append_default_arg_to_calls guard target_name default_arg) (ca_guard arm))
         (ca_payload_pattern arm) (append_default_arg_to_calls (ca_body arm) target_name default_arg)) arms)"

subsection \<open>Resolving parameter names\<close>

fun normalize_param_refs_scoped :: "raw_expr \<Rightarrow> string list \<Rightarrow> string list \<Rightarrow> raw_expr" where
  "normalize_param_refs_scoped (LiteralI64 value) local_params locals = LiteralI64 value"
| "normalize_param_refs_scoped (LiteralBool value) local_params locals = LiteralBool value"
| "normalize_param_refs_scoped (LiteralString value) local_params locals = LiteralString value"
| "normalize_param_refs_scoped (LiteralBytes bytes_hex) local_params locals = LiteralBytes bytes_hex"
| "normalize_param_refs_scoped UnitE local_params locals = UnitE"
| "normalize_param_refs_scoped (ParamRef index) local_params locals = ParamRef index"
| "normalize_param_refs_scoped (ParamName name) local_params locals = 
     (if name \<in> set locals then ParamName name
      else case position (\<lambda>candidate. candidate = name) local_params of
             Some index \<Rightarrow> ParamRef index | None \<Rightarrow> ParamName name)"
| "normalize_param_refs_scoped (Call name args) local_params locals =
     Call name (map (\<lambda>arg. normalize_param_refs_scoped arg local_params locals) args)"
| "normalize_param_refs_scoped (Binary op left right) local_params locals =
     Binary op (normalize_param_refs_scoped left local_params locals) (normalize_param_refs_scoped right local_params locals)"
| "normalize_param_refs_scoped (Unary op expr) local_params locals =
     Unary op (normalize_param_refs_scoped expr local_params locals)"
| "normalize_param_refs_scoped (BorrowShared r target) local_params locals =
     BorrowShared r (normalize_param_refs_scoped target local_params locals)"
| "normalize_param_refs_scoped (BorrowMut r target) local_params locals =
     BorrowMut r (normalize_param_refs_scoped target local_params locals)"
| "normalize_param_refs_scoped (Assign target value) local_params locals =
     Assign (normalize_param_refs_scoped target local_params locals) (normalize_param_refs_scoped value local_params locals)"
| "normalize_param_refs_scoped (LetE name ty value body) local_params locals =
     LetE name ty (normalize_param_refs_scoped value local_params locals) (normalize_param_refs_scoped body local_params (name # locals))"
| "normalize_param_refs_scoped (IfE cond then_expr else_expr) local_params locals =
     IfE (normalize_param_refs_scoped cond local_params locals) (normalize_param_refs_scoped then_expr local_params locals)
       (normalize_param_refs_scoped else_expr local_params locals)"
| "normalize_param_refs_scoped (Return value) local_params locals =
     Return (normalize_param_refs_scoped value local_params locals)"
| "normalize_param_refs_scoped (FoldE item target acc init body) local_params locals =
     FoldE item (normalize_param_refs_scoped target local_params locals) acc (normalize_param_refs_scoped init local_params locals)
       (normalize_param_refs_scoped body local_params (acc # item # locals))"
| "normalize_param_refs_scoped (LoopE acc init cond body) local_params locals =
     LoopE acc (normalize_param_refs_scoped init local_params locals) (normalize_param_refs_scoped cond local_params (acc # locals))
       (normalize_param_refs_scoped body local_params (acc # locals))"
| "normalize_param_refs_scoped (ArrayE elements) local_params locals =
     ArrayE (map (\<lambda>element. normalize_param_refs_scoped element local_params locals) elements)"
| "normalize_param_refs_scoped (ArrayFill value n) local_params locals =
     ArrayFill (normalize_param_refs_scoped value local_params locals) n"
| "normalize_param_refs_scoped (Index target index) local_params locals =
     Index (normalize_param_refs_scoped target local_params locals) (normalize_param_refs_scoped index local_params locals)"
| "normalize_param_refs_scoped (RecordE fields) local_params locals =
     RecordE (map (\<lambda>field. RawRecordField (rf_name field)
       (normalize_param_refs_scoped (rf_value field) local_params locals)) fields)"
| "normalize_param_refs_scoped (FieldAccess target field) local_params locals =
     FieldAccess (normalize_param_refs_scoped target local_params locals) field"
| "normalize_param_refs_scoped (EnumConstruct enum_type variant value) local_params locals =
     EnumConstruct enum_type variant (normalize_param_refs_scoped value local_params locals)"
| "normalize_param_refs_scoped (CaseE expr arms) local_params locals =
     CaseE (normalize_param_refs_scoped expr local_params locals) (map (\<lambda>arm.
       RawCaseArm (ca_variant arm) (ca_literal arm) (ca_range arm) (ca_default arm) (ca_binding arm)
         (map_option (\<lambda>guard. normalize_param_refs_scoped guard local_params (push_scoped arm locals)) (ca_guard arm))
         (ca_payload_pattern arm) (normalize_param_refs_scoped (ca_body arm) local_params (push_scoped arm locals))) arms)"

definition normalize_param_refs :: "raw_expr \<Rightarrow> string list \<Rightarrow> raw_expr" where
  "normalize_param_refs expr local_params = normalize_param_refs_scoped expr local_params []"

subsection \<open>Borrowing an argument\<close>

fun borrow_call_arg_to_calls :: "raw_expr \<Rightarrow> string \<Rightarrow> nat \<Rightarrow> string \<Rightarrow> bool \<Rightarrow> raw_expr res" where
  "borrow_call_arg_to_calls (LiteralI64 value) target_name param_index region mutable =
     Inr (LiteralI64 value)"
| "borrow_call_arg_to_calls (LiteralBool value) target_name param_index region mutable =
     Inr (LiteralBool value)"
| "borrow_call_arg_to_calls (LiteralString value) target_name param_index region mutable =
     Inr (LiteralString value)"
| "borrow_call_arg_to_calls (LiteralBytes bytes_hex) target_name param_index region mutable =
     Inr (LiteralBytes bytes_hex)"
| "borrow_call_arg_to_calls UnitE target_name param_index region mutable =
     Inr UnitE"
| "borrow_call_arg_to_calls (ParamRef index) target_name param_index region mutable =
     Inr (ParamRef index)"
| "borrow_call_arg_to_calls (ParamName name) target_name param_index region mutable =
     Inr (ParamName name)"
| "borrow_call_arg_to_calls (Call name args) target_name param_index region mutable =
     res_bind (res_map (\<lambda>arg. borrow_call_arg_to_calls arg target_name param_index region mutable) args) (\<lambda>args.
     if name = target_name
     then (if param_index < length args
           then Inr (Call name (args[param_index :=
                  (if mutable then BorrowMut (Some region) (args ! param_index)
                   else BorrowShared (Some region) (args ! param_index))]))
           else Inl (Bail ''call to {target_name} has no argument index {param_index}''
                  [target_name, dec_nat param_index]))
     else Inr (Call name args))"
| "borrow_call_arg_to_calls (Binary op left right) target_name param_index region mutable =
     res_bind (borrow_call_arg_to_calls left target_name param_index region mutable) (\<lambda>l.
     res_bind (borrow_call_arg_to_calls right target_name param_index region mutable) (\<lambda>r.
     Inr (Binary op l r)))"
| "borrow_call_arg_to_calls (Unary op expr) target_name param_index region mutable =
     res_bind (borrow_call_arg_to_calls expr target_name param_index region mutable) (\<lambda>e.
     Inr (Unary op e))"
| "borrow_call_arg_to_calls (BorrowShared r target) target_name param_index region mutable =
     res_bind (borrow_call_arg_to_calls target target_name param_index region mutable) (\<lambda>t.
     Inr (BorrowShared r t))"
| "borrow_call_arg_to_calls (BorrowMut r target) target_name param_index region mutable =
     res_bind (borrow_call_arg_to_calls target target_name param_index region mutable) (\<lambda>t.
     Inr (BorrowMut r t))"
| "borrow_call_arg_to_calls (Assign target value) target_name param_index region mutable =
     res_bind (borrow_call_arg_to_calls target target_name param_index region mutable) (\<lambda>t.
     res_bind (borrow_call_arg_to_calls value target_name param_index region mutable) (\<lambda>v.
     Inr (Assign t v)))"
| "borrow_call_arg_to_calls (LetE name ty value body) target_name param_index region mutable =
     res_bind (borrow_call_arg_to_calls value target_name param_index region mutable) (\<lambda>v.
     res_bind (borrow_call_arg_to_calls body target_name param_index region mutable) (\<lambda>b.
     Inr (LetE name ty v b)))"
| "borrow_call_arg_to_calls (IfE cond then_expr else_expr) target_name param_index region mutable =
     res_bind (borrow_call_arg_to_calls cond target_name param_index region mutable) (\<lambda>c.
     res_bind (borrow_call_arg_to_calls then_expr target_name param_index region mutable) (\<lambda>t.
     res_bind (borrow_call_arg_to_calls else_expr target_name param_index region mutable) (\<lambda>e.
     Inr (IfE c t e))))"
| "borrow_call_arg_to_calls (Return value) target_name param_index region mutable =
     res_bind (borrow_call_arg_to_calls value target_name param_index region mutable) (\<lambda>v.
     Inr (Return v))"
| "borrow_call_arg_to_calls (FoldE item target acc init body) target_name param_index region mutable =
     res_bind (borrow_call_arg_to_calls target target_name param_index region mutable) (\<lambda>t.
     res_bind (borrow_call_arg_to_calls init target_name param_index region mutable) (\<lambda>i.
     res_bind (borrow_call_arg_to_calls body target_name param_index region mutable) (\<lambda>b.
     Inr (FoldE item t acc i b))))"
| "borrow_call_arg_to_calls (LoopE acc init cond body) target_name param_index region mutable =
     res_bind (borrow_call_arg_to_calls init target_name param_index region mutable) (\<lambda>i.
     res_bind (borrow_call_arg_to_calls cond target_name param_index region mutable) (\<lambda>c.
     res_bind (borrow_call_arg_to_calls body target_name param_index region mutable) (\<lambda>b.
     Inr (LoopE acc i c b))))"
| "borrow_call_arg_to_calls (ArrayE elements) target_name param_index region mutable =
     res_bind (res_map (\<lambda>element. borrow_call_arg_to_calls element target_name param_index region mutable) elements) (\<lambda>xs.
     Inr (ArrayE xs))"
| "borrow_call_arg_to_calls (ArrayFill value n) target_name param_index region mutable =
     res_bind (borrow_call_arg_to_calls value target_name param_index region mutable) (\<lambda>v.
     Inr (ArrayFill v n))"
| "borrow_call_arg_to_calls (Index target index) target_name param_index region mutable =
     res_bind (borrow_call_arg_to_calls target target_name param_index region mutable) (\<lambda>t.
     res_bind (borrow_call_arg_to_calls index target_name param_index region mutable) (\<lambda>i.
     Inr (Index t i)))"
| "borrow_call_arg_to_calls (RecordE fields) target_name param_index region mutable =
     res_bind (res_map (\<lambda>field.
       res_bind (borrow_call_arg_to_calls (rf_value field) target_name param_index region mutable) (\<lambda>v.
       Inr (RawRecordField (rf_name field) v))) fields) (\<lambda>xs.
     Inr (RecordE xs))"
| "borrow_call_arg_to_calls (FieldAccess target field) target_name param_index region mutable =
     res_bind (borrow_call_arg_to_calls target target_name param_index region mutable) (\<lambda>t.
     Inr (FieldAccess t field))"
| "borrow_call_arg_to_calls (EnumConstruct enum_type variant value) target_name param_index region mutable =
     res_bind (borrow_call_arg_to_calls value target_name param_index region mutable) (\<lambda>v.
     Inr (EnumConstruct enum_type variant v))"
| "borrow_call_arg_to_calls (CaseE expr arms) target_name param_index region mutable =
     res_bind (borrow_call_arg_to_calls expr target_name param_index region mutable) (\<lambda>e.
     res_bind (res_map (\<lambda>arm.
       res_bind (res_opt (\<lambda>guard. borrow_call_arg_to_calls guard target_name param_index region mutable) (ca_guard arm)) (\<lambda>g.
       res_bind (borrow_call_arg_to_calls (ca_body arm) target_name param_index region mutable) (\<lambda>b.
       Inr (RawCaseArm (ca_variant arm) (ca_literal arm) (ca_range arm) (ca_default arm)
              (ca_binding arm) g (ca_payload_pattern arm) b)))) arms) (\<lambda>xs.
     Inr (CaseE e xs)))"

subsection \<open>The rewrites on nameless forms\<close>

fun nappend :: "string \<Rightarrow> nterm \<Rightarrow> nterm \<Rightarrow> nterm" where
  "nappend target d (NNode l ts) =
     NNode l (map (nappend target d) ts @ (if l = Lb ''call'' [target] then [d] else []))"
| "nappend target d t = t"

fun nborrow :: "string \<Rightarrow> nat \<Rightarrow> string \<Rightarrow> bool \<Rightarrow> nterm \<Rightarrow> nterm" where
  "nborrow target k region mutable (NNode l ts) =
     (let us = map (nborrow target k region mutable) ts in
      NNode l (if l = Lb ''call'' [target]
        then us[k := NNode (LRegion (if mutable then ''borrow_mut'' else ''borrow_shared'') (Some region)) [us ! k]]
        else us))"
| "nborrow target k region mutable t = t"

fun calls_supply :: "string \<Rightarrow> nat \<Rightarrow> nterm \<Rightarrow> bool" where
  "calls_supply target k (NNode l ts) \<longleftrightarrow>
     (l = Lb ''call'' [target] \<longrightarrow> k < length ts) \<and> list_all (calls_supply target k) ts"
| "calls_supply target k t = True"

lemma leaf_occurrence [simp]:
  "nappend target d (occurrence env name) = occurrence env name"
  "nborrow target k region mutable (occurrence env name) = occurrence env name"
  "calls_supply target k (occurrence env name)"
  by (simp_all add: occurrence_def split: option.splits)

lemma arm_label_not_call [simp]: "arm_label arm \<noteq> Lb tag xs"
  by (simp add: arm_label_def)

lemma with_parts_eq:
  "RawCaseArm (ca_variant arm) (ca_literal arm) (ca_range arm) (ca_default arm)
     (ca_binding arm) g (ca_payload_pattern arm) b = with_parts arm g b"
  by (simp add: with_parts_def)

lemma append_nameless:
  "avoids [d] (set env) \<Longrightarrow> avoids [d] (binders e) \<Longrightarrow>
     nameless env (append_default_arg_to_calls e target d) = nappend target (nameless [] d) (nameless env e)"
proof (induction env e rule: nameless.induct)
  case (8 env name args)
  have "nameless env d = nameless [] d"
    using nameless_weaken [of "[]" d env] 8(2) by (simp add: avoids_def)
  with 8 show ?case by (auto simp: Let_def)
next
  case (25 env e arms)
  have "nameless_arm env (with_parts arm (map_option (\<lambda>g. append_default_arg_to_calls g target d) (ca_guard arm))
          (append_default_arg_to_calls (ca_body arm) target d)) = nappend target (nameless [] d) (nameless_arm env arm)"
    if arm: "arm \<in> set arms" for arm
  proof -
    have "avoids [d] (arm_names arm)" using 25(5) arm by (auto simp: arm_names_def)
    then show ?thesis using 25(2,3) [OF arm] 25(4)
      by (auto simp: nameless_arm_def arm_names_def avoids_push split: option.splits)
  qed
  moreover have "nameless env (append_default_arg_to_calls e target d) = nappend target (nameless [] d) (nameless env e)"
    using 25(4,5) by (intro 25(1)) auto
  ultimately show ?case unfolding nameless_CaseE append_default_arg_to_calls.simps with_parts_eq by simp
qed auto

text \<open>Adding a defaulted argument reaches every call of the function, in every position of
  the expression and nothing else: the nameless form of the result is the nameless form with the
  default as one more argument of each such call, provided the default mentions no name that the
  expression binds.\<close>

theorem append_default_reaches_calls:
  assumes "\<forall>n \<in> nfree (nameless [] d). n \<notin> binders e"
  shows "nameless [] (append_default_arg_to_calls e target d) = nappend target (nameless [] d) (nameless [] e)"
  using assms by (intro append_nameless) (auto simp: avoids_def)

theorem append_default_reaches_calls_witness:
  "nameless [] (append_default_arg_to_calls
      (LetE ''x'' ''i64'' (Call ''f'' []) (Call ''f'' [Call ''g'' [ParamName ''x'']])) ''f'' (ParamName ''y'')) =
   NNode (Lb ''let'' [''i64'']) [NNode (Lb ''call'' [''f'']) [NFree ''y''],
     NNode (Lb ''call'' [''f'']) [NNode (Lb ''call'' [''g'']) [NBound 0], NFree ''y'']]"
  by (subst append_default_reaches_calls) (simp_all add: occurrence_def)

lemma normalize_scoped_nameless:
  "nameless env (normalize_param_refs_scoped e ps env) = nabstract ps (nameless env e)"
proof (induction env e rule: nameless.induct)
  case (7 env name)
  show ?case
  proof (cases "name \<in> set env")
    case True
    then have "position (\<lambda>l. l = name) env \<noteq> None" by (auto simp: position_None_iff)
    with True show ?thesis by (auto simp: occurrence_def)
  next
    case False
    then have "position (\<lambda>l. l = name) env = None" by (auto simp: position_None_iff)
    with False show ?thesis by (auto simp: occurrence_def split: option.splits)
  qed
next
  case (25 env e arms)
  have "nameless_arm env (with_parts arm
        (map_option (\<lambda>g. normalize_param_refs_scoped g ps (push_scoped arm env)) (ca_guard arm))
        (normalize_param_refs_scoped (ca_body arm) ps (push_scoped arm env))) = nabstract ps (nameless_arm env arm)"
    if arm: "arm \<in> set arms" for arm
    using 25(2,3) [OF arm] by (auto simp: nameless_arm_def split: option.splits)
  with 25(1) show ?case unfolding nameless_CaseE normalize_param_refs_scoped.simps with_parts_eq by simp
qed auto

lemma normalize_param_refs_resolves_form: "nameless [] (normalize_param_refs e ps) = nabstract ps (nameless [] e)"
  by (simp add: normalize_param_refs_def normalize_scoped_nameless)

text \<open>C37. Parameter names are resolved exactly where they are free: the nameless form of the
  normalised body is the form of the body with the free names abstracted into parameter
  references, so a local that shadows a parameter keeps its occurrences.\<close>

theorem normalize_param_refs_resolves:
  "nameless [] (normalize_param_refs e ps) = nabstract ps (nameless [] e) \<and>
   nfree (nameless [] (normalize_param_refs e ps)) = nfree (nameless [] e) - set ps"
proof -
  have "nfree (nabstract ps t) = nfree t - set ps" for t
    by (induction t) (auto simp: position_None_iff split: option.splits dest: position_Some)
  then show ?thesis by (simp add: normalize_param_refs_def normalize_scoped_nameless)
qed

lemma borrow_nameless:
  "borrow_call_arg_to_calls e target k region mutable = Inr e' \<Longrightarrow>
     nameless env e' = nborrow target k region mutable (nameless env e)"
proof (induction env e arbitrary: e' rule: nameless.induct)
  case (8 env name args)
  then obtain ys where ys: "res_map (\<lambda>arg. borrow_call_arg_to_calls arg target k region mutable) args = Inr ys"
    and e': "if name = target
       then k < length ys \<and> e' = Call name (ys[k := (if mutable then BorrowMut (Some region) (ys ! k)
                   else BorrowShared (Some region) (ys ! k))])
       else e' = Call name ys"
    by (auto split: if_splits)
  have "map (nameless env) ys = map (\<lambda>x. nborrow target k region mutable (nameless env x)) args"
    using 8 by (intro res_map_nameless [OF ys]) auto
  then have m: "map (nameless env) ys = map (nborrow target k region mutable) (map (nameless env) args)" by simp
  show ?case
  proof (cases "name = target")
    case True
    with e' have "k < length ys" by simp
    then have "map (nameless env) ys ! k = nameless env (ys ! k)" by simp
    with True e' m show ?thesis by (simp add: Let_def map_update comp_def)
  qed (use e' m in \<open>simp add: comp_def\<close>)
next
  case (19 env xs)
  then obtain ys where ys: "res_map (\<lambda>arg. borrow_call_arg_to_calls arg target k region mutable) xs = Inr ys" "e' = ArrayE ys" by auto
  have "map (nameless env) ys = map (\<lambda>x. nborrow target k region mutable (nameless env x)) xs"
    using 19 by (intro res_map_nameless [OF ys(1)]) auto
  with ys show ?case by (simp add: comp_def)
next
  case (22 env fs)
  then obtain gs where gs: "res_map (\<lambda>field. res_bind (borrow_call_arg_to_calls (rf_value field) target k region mutable)
       (\<lambda>v. Inr (RawRecordField (rf_name field) v))) fs = Inr gs" "e' = RecordE gs" by auto
  have "map (\<lambda>g. (rf_name g, nameless env (rf_value g))) gs =
      map (\<lambda>f. (rf_name f, nborrow target k region mutable (nameless env (rf_value f)))) fs"
    using 22 by (intro res_map_nameless [OF gs(1)]) auto
  then have "map fst (map (\<lambda>g. (rf_name g, nameless env (rf_value g))) gs) = map rf_name fs"
    "map snd (map (\<lambda>g. (rf_name g, nameless env (rf_value g))) gs) =
      map (\<lambda>f. nborrow target k region mutable (nameless env (rf_value f))) fs"
    by (simp_all add: comp_def)
  with gs show ?case by (simp add: comp_def)
next
  case (25 env e arms)
  from 25(4) obtain e1 arms' where e1: "borrow_call_arg_to_calls e target k region mutable = Inr e1"
    and arms': "res_map (\<lambda>arm. res_bind (res_opt (\<lambda>g. borrow_call_arg_to_calls g target k region mutable) (ca_guard arm)) (\<lambda>g.
       res_bind (borrow_call_arg_to_calls (ca_body arm) target k region mutable) (\<lambda>b. Inr (with_parts arm g b)))) arms = Inr arms'"
    and e': "e' = CaseE e1 arms'"
    by (auto simp: with_parts_eq)
  have "map (nameless_arm env) arms' = map (\<lambda>arm. nborrow target k region mutable (nameless_arm env arm)) arms"
  proof (rule res_map_nameless [OF arms'])
    fix arm arm'
    assume arm: "arm \<in> set arms" and r: "res_bind (res_opt (\<lambda>g. borrow_call_arg_to_calls g target k region mutable) (ca_guard arm)) (\<lambda>g.
       res_bind (borrow_call_arg_to_calls (ca_body arm) target k region mutable) (\<lambda>b. Inr (with_parts arm g b))) = Inr arm'"
    then show "nameless_arm env arm' = nborrow target k region mutable (nameless_arm env arm)"
      using 25(2,3) [OF arm] by (auto simp: nameless_arm_def split: option.splits)
  qed
  with 25(1) [OF e1] show ?case unfolding nameless_CaseE e' by (simp add: comp_def)
qed auto

lemma borrow_is_ok:
  "is_ok (borrow_call_arg_to_calls e target k region mutable) \<longleftrightarrow> calls_supply target k (nameless env e)"
proof (induction env e rule: nameless.induct)
  case (8 env name args)
  have "is_ok (borrow_call_arg_to_calls (Call name args) target k region mutable) \<longleftrightarrow>
      is_ok (res_map (\<lambda>arg. borrow_call_arg_to_calls arg target k region mutable) args) \<and>
      (name = target \<longrightarrow> k < length args)"
    by (cases "res_map (\<lambda>arg. borrow_call_arg_to_calls arg target k region mutable) args")
      (auto dest: res_map_length)
  with 8 show ?case by (auto simp: is_ok_res_map list_all_iff)
next
  case (25 env e arms)
  have arm: "is_ok (res_bind (res_opt (\<lambda>g. borrow_call_arg_to_calls g target k region mutable) (ca_guard arm)) (\<lambda>g.
       res_bind (borrow_call_arg_to_calls (ca_body arm) target k region mutable) (\<lambda>b. Inr (f g b)))) \<longleftrightarrow>
      calls_supply target k (nameless_arm env arm)" if "arm \<in> set arms" for arm f
    using 25(2,3) [OF that] by (cases "ca_guard arm") (auto simp: nameless_arm_def is_ok_iff [symmetric])
  show ?case unfolding nameless_CaseE using arm 25(1)
    by (auto simp: is_ok_iff [symmetric] is_ok_res_map list_all_iff simp del: res_bind_eq_Inr)
qed (auto simp: is_ok_res_map is_ok_iff [symmetric] list_all_iff)

text \<open>C36. Passing an argument by reference rewrites every call of the function or fails: it
  succeeds exactly when each such call has the argument, and then wraps that argument, and
  nothing else, in a borrow of the region.\<close>

theorem borrow_call_arg_rewrites:
  "(case borrow_call_arg_to_calls e target k region mutable of
      Inl err \<Rightarrow> \<not> calls_supply target k (nameless [] e)
    | Inr e' \<Rightarrow> calls_supply target k (nameless [] e) \<and>
        nameless [] e' = nborrow target k region mutable (nameless [] e))"
  using borrow_is_ok [of e target k region mutable "[]"] borrow_nameless [of e target k region mutable _ "[]"]
  by (cases "borrow_call_arg_to_calls e target k region mutable") auto

subsection \<open>Early returns under the rewrites\<close>

text \<open>Where a child of a node is the result of a block: the branches of a conditional, the body
  of a binding, the arms of a case and the body of an arm.\<close>

definition block_result :: "label \<Rightarrow> nat \<Rightarrow> bool" where
  "block_result l i =
     (case l of
        Lb tag xs \<Rightarrow> (tag = ''if'' \<and> xs = [] \<or> tag = ''let'' \<or> tag = ''case'' \<and> xs = []) \<and> 0 < i
      | LRegion tag r \<Rightarrow> False
      | LArm v l r d b p \<Rightarrow> i = 0)"

lemma size_nth_list [termination_simp]: "i < length ts \<Longrightarrow> size (ts ! i) < Suc (size_list size ts)"
  using size_list_estimation' [OF nth_mem, of i ts "size (ts ! i)" size] by simp

fun returns_placed :: "bool \<Rightarrow> nterm \<Rightarrow> bool" where
  "returns_placed allowed (NNode l ts) \<longleftrightarrow>
     (l = Lb ''return'' [] \<longrightarrow> allowed) \<and> (\<forall>i < length ts. returns_placed (block_result l i) (ts ! i))"
| "returns_placed allowed t = True"

lemma returns_placed_occurrence [simp]: "returns_placed allowed (occurrence env name)"
  by (simp add: occurrence_def split: option.splits)

lemma block_result_simps [simp]:
  "block_result (Lb ''if'' []) i = (0 < i)"
  "block_result (Lb ''let'' xs) i = (0 < i)"
  "block_result (Lb ''case'' []) i = (0 < i)"
  "block_result (arm_label arm) i = (i = 0)"
  "tag \<notin> {''if'', ''let'', ''case''} \<Longrightarrow> block_result (Lb tag xs) i = False"
  "block_result (LRegion tag r) i = False"
  by (auto simp: block_result_def arm_label_def)

lemma res_fold_unit_ok: "is_ok (res_fold (\<lambda>x (_ :: unit). f x) xs u) \<longleftrightarrow> (\<forall>x \<in> set xs. is_ok (f x))"
  by (induction xs arbitrary: u) (auto simp: is_ok_iff)

lemma is_ok_bind_unit: "is_ok (res_bind m (f :: unit \<Rightarrow> 'e + 'b)) \<longleftrightarrow> is_ok m \<and> is_ok (f ())"
  by (cases m) auto

lemma validate_returns:
  "is_ok (validate_return_positions e allowed) \<longleftrightarrow> returns_placed allowed (nameless env e)"
proof (induction env e arbitrary: allowed rule: nameless.induct)
  case (25 env e arms)
  have arm: "is_ok (res_bind (case ca_guard arm of None \<Rightarrow> Inr () | Some guard \<Rightarrow> validate_return_positions guard False)
       (\<lambda>_. validate_return_positions (ca_body arm) True)) \<longleftrightarrow> returns_placed True (nameless_arm env arm)"
    if "arm \<in> set arms" for arm
    using 25(2,3) [OF that] by (cases "ca_guard arm") (auto simp: nameless_arm_def is_ok_bind_unit All_less_Suc2 simp del: is_ok_bind)
  have "is_ok (validate_return_positions (CaseE e arms) allowed) \<longleftrightarrow>
      is_ok (validate_return_positions e False) \<and> (\<forall>arm \<in> set arms. is_ok (res_bind (case ca_guard arm of None \<Rightarrow> Inr () | Some guard \<Rightarrow> validate_return_positions guard False)
       (\<lambda>_. validate_return_positions (ca_body arm) True)))"
    by (simp add: res_fold_unit_ok is_ok_bind_unit del: is_ok_bind)
  with arm 25(1) show ?case unfolding nameless_CaseE
    by (simp add: All_less_Suc2) (auto simp: all_set_conv_all_nth)
qed (auto simp: All_less_Suc2 res_fold_unit_ok is_ok_bind_unit all_set_conv_all_nth simp del: is_ok_bind)

text \<open>
  A rewrite of expressions is stable when it acts on nameless forms by a function that keeps
  returns in place for every child position; what is proved of one such function holds for the
  validation of all the expressions it rewrites.
\<close>

locale stable_rewrite =
  fixes rewritten :: "raw_expr \<Rightarrow> raw_expr \<Rightarrow> bool" and act :: "nterm \<Rightarrow> nterm"
  assumes acts: "rewritten e e' \<Longrightarrow> nameless [] e' = act (nameless [] e)"
    and keeps: "returns_placed allowed (act t) \<longleftrightarrow> returns_placed allowed t"
begin

lemma validate_stable:
  "rewritten e e' \<Longrightarrow> is_ok (validate_return_positions e' allowed) \<longleftrightarrow> is_ok (validate_return_positions e allowed)"
  by (simp add: validate_returns [of _ _ "[]"] acts keeps)

end

lemma returns_placed_nabstract: "returns_placed allowed (nabstract ps t) \<longleftrightarrow> returns_placed allowed t"
  by (induction allowed t rule: returns_placed.induct) (auto split: option.splits)

lemma returns_placed_update:
  "returns_placed False w = returns_placed False (us ! k) \<Longrightarrow> i < length us \<Longrightarrow>
     returns_placed False (us[k := w] ! i) = returns_placed False (us ! i)"
  by (cases "i = k") simp_all

lemma returns_placed_nborrow:
  "returns_placed allowed (nborrow target k region mutable t) \<longleftrightarrow> returns_placed allowed t"
proof (induction allowed t rule: returns_placed.induct)
  case (1 allowed l ts)
  let ?us = "map (nborrow target k region mutable) ts"
  have "returns_placed False (?us[k := NNode (LRegion tag (Some region)) [?us ! k]] ! i) = returns_placed False (?us ! i)"
    if "i < length ?us" for i tag
    by (rule returns_placed_update [OF _ that]) (simp add: All_less_Suc2)
  with 1 show ?case by (cases "l = Lb ''call'' [target]") (simp_all add: Let_def)
qed auto

lemma returns_placed_mono: "returns_placed False t \<Longrightarrow> returns_placed allowed t"
  by (cases t) auto

lemma returns_placed_nappend:
  "returns_placed False d \<Longrightarrow> returns_placed allowed (nappend target d t) \<longleftrightarrow> returns_placed allowed t"
proof (induction allowed t rule: returns_placed.induct)
  case (1 allowed l ts)
  let ?us = "map (nappend target d) ts"
  have "(\<forall>i < Suc (length ts). returns_placed (block_result l i) ((?us @ [d]) ! i)) \<longleftrightarrow>
      (\<forall>i < length ts. returns_placed (block_result l i) (?us ! i))"
    using 1(2) by (auto simp: All_less_Suc nth_append returns_placed_mono)
  with 1 show ?case by (cases "l = Lb ''call'' [target]") simp_all
qed auto

interpretation normalize: stable_rewrite "\<lambda>e e'. e' = normalize_param_refs e ps" "nabstract ps" for ps
  by unfold_locales (simp_all add: normalize_param_refs_resolves_form returns_placed_nabstract)

interpretation borrow: stable_rewrite
  "\<lambda>e e'. borrow_call_arg_to_calls e target k region mutable = Inr e'" "nborrow target k region mutable"
  for target k region mutable
  by unfold_locales (simp_all add: borrow_nameless returns_placed_nborrow)

text \<open>Resolving parameter names and borrowing an argument never move an early return into or
  out of a place where it is allowed.\<close>

theorem rewrites_keep_return_positions:
  "(is_ok (validate_return_positions (normalize_param_refs e ps) allowed) \<longleftrightarrow>
      is_ok (validate_return_positions e allowed)) \<and>
   (case borrow_call_arg_to_calls e target k region mutable of
      Inl err \<Rightarrow> True
    | Inr e' \<Rightarrow> is_ok (validate_return_positions e' allowed) \<longleftrightarrow> is_ok (validate_return_positions e allowed))"
  using normalize.validate_stable [OF refl] borrow.validate_stable by (auto split: sum.split)

end
