(* ===== verification/Scalars.thy ===== *)
theory Scalars
  imports Prelude
begin

text \<open>
  The scalar integer types of \<open>src/src/types.rs\<close>, which the operator table, the literals, the
  types and the layouts share: their names, widths in bytes and spellings.
\<close>

subsection \<open>Scalar integer types\<close>

record scalar_int_type =
  int_name :: string
  int_width :: nat
  int_signed :: bool

definition SCALAR_INT_TYPES :: "scalar_int_type list" where
  "SCALAR_INT_TYPES = [
     \<lparr>int_name = ''I8'', int_width = 1, int_signed = True\<rparr>,
     \<lparr>int_name = ''I16'', int_width = 2, int_signed = True\<rparr>,
     \<lparr>int_name = ''I32'', int_width = 4, int_signed = True\<rparr>,
     \<lparr>int_name = ''I64'', int_width = 8, int_signed = True\<rparr>,
     \<lparr>int_name = ''U8'', int_width = 1, int_signed = False\<rparr>,
     \<lparr>int_name = ''U16'', int_width = 2, int_signed = False\<rparr>,
     \<lparr>int_name = ''U32'', int_width = 4, int_signed = False\<rparr>,
     \<lparr>int_name = ''U64'', int_width = 8, int_signed = False\<rparr>]"

definition scalar_int_type_of :: "string \<Rightarrow> scalar_int_type option" where
  "scalar_int_type_of name = List.find (\<lambda>t. int_name t = name) SCALAR_INT_TYPES"

definition to_ascii_lowercase_char :: "char \<Rightarrow> char" where
  "to_ascii_lowercase_char c =
     (if CHR ''A'' \<le> c \<and> c \<le> CHR ''Z'' then char_of (of_char c + (32 :: nat)) else c)"

definition to_ascii_lowercase :: "string \<Rightarrow> string" where
  "to_ascii_lowercase s = map to_ascii_lowercase_char s"

definition scalar_int_source_name :: "string \<Rightarrow> string option" where
  "scalar_int_source_name name = map_option (\<lambda>t. to_ascii_lowercase (int_name t)) (scalar_int_type_of name)"

definition scalar_int_name_for_source :: "string \<Rightarrow> string option" where
  "scalar_int_name_for_source ident =
     map_option int_name (List.find (\<lambda>t. to_ascii_lowercase (int_name t) = to_ascii_lowercase ident) SCALAR_INT_TYPES)"

definition int_cast_target :: "string \<Rightarrow> scalar_int_type option" where
  "int_cast_target name =
     Option.bind (Option.bind (strip_prefix ''to_'' name) scalar_int_name_for_source) scalar_int_type_of"

end
