(* ===== verification/Ops.thy ===== *)
theory Ops
  imports Scalars "HOL-Library.Word" "HOL-Library.Signed_Division"
begin

text \<open>
  The operator registry, \<open>src/src/op_registry.rs\<close>, on the scalar integer types, and the values and integer casts of \<open>src/src/expr.rs\<close>: the table that is
  generated for every width, the lowering of source operators to kinds and its inverse check,
  and the reference evaluator's arithmetic on machine words.
  A value cell is its contents here: the operators never store through one. An error keeps the
  operator of an invalid operation and not the text of the values. The hash of a builtin type
  is a parameter, \<open>type_hash_for\<close>: it is the hash of an object and comes from a library.
\<close>

subsection \<open>The table\<close>

datatype op_category = BinaryOp | UnaryOp

datatype cmp = CEq | CNe | CLt | CLe | CGt | CGe

record int_kind =
  ik_width :: nat
  ik_signed :: bool

datatype arith_op = Add | Sub | Mul | Div | Rem

datatype bit_op = BitAnd | BitOr | BitXor

datatype shift_op = Shl | Shr

datatype sem_op =
    Arith arith_op int_kind
  | Cmp cmp int_kind
  | Bit bit_op int_kind
  | Shift shift_op int_kind
  | Neg int_kind
  | BitNot int_kind
  | AndBool
  | OrBool
  | NotBool

record trap_spec =
  trap_condition :: string
  trap_code :: string

record op_entry =
  oe_kind :: string
  oe_category :: op_category
  oe_source_op :: string
  oe_left_type :: string
  oe_right_type :: string
  oe_result_type :: string
  oe_trap :: "trap_spec option"
  oe_precedence :: nat
  oe_sem :: sem_op

definition UNARY_PRECEDENCE :: nat where "UNARY_PRECEDENCE = 70"
definition DEFAULT_PRECEDENCE :: nat where "DEFAULT_PRECEDENCE = 90"
definition PREC_BIT_OR :: nat where "PREC_BIT_OR = 1"
definition PREC_LOGICAL_OR :: nat where "PREC_LOGICAL_OR = 10"
definition PREC_LOGICAL_AND :: nat where "PREC_LOGICAL_AND = 20"
definition PREC_BIT_XOR :: nat where "PREC_BIT_XOR = 24"
definition PREC_BIT_AND :: nat where "PREC_BIT_AND = 26"
definition PREC_EQUALITY :: nat where "PREC_EQUALITY = 30"
definition PREC_RELATIONAL :: nat where "PREC_RELATIONAL = 40"
definition PREC_SHIFT :: nat where "PREC_SHIFT = 45"
definition PREC_ADDITIVE :: nat where "PREC_ADDITIVE = 50"
definition PREC_MULTIPLICATIVE :: nat where "PREC_MULTIPLICATIVE = 60"
definition CASE_ARM_BODY_MIN_PRECEDENCE :: nat where "CASE_ARM_BODY_MIN_PRECEDENCE = PREC_BIT_OR + 1"

definition DIV_TRAP :: trap_spec where
  "DIV_TRAP = \<lparr>trap_condition = ''right_operand_zero'', trap_code = ''division_by_zero''\<rparr>"

definition MOD_TRAP :: trap_spec where
  "MOD_TRAP = \<lparr>trap_condition = ''right_operand_zero'', trap_code = ''modulo_by_zero''\<rparr>"

definition bin ::
    "string \<Rightarrow> string \<Rightarrow> string \<Rightarrow> string \<Rightarrow> string \<Rightarrow> trap_spec option \<Rightarrow> nat \<Rightarrow> sem_op \<Rightarrow> op_entry" where
  "bin kind source_op left_type right_type result_type trap precedence sem =
     \<lparr>oe_kind = kind, oe_category = BinaryOp, oe_source_op = source_op, oe_left_type = left_type,
      oe_right_type = right_type, oe_result_type = result_type, oe_trap = trap,
      oe_precedence = precedence, oe_sem = sem\<rparr>"

definition un :: "string \<Rightarrow> string \<Rightarrow> string \<Rightarrow> string \<Rightarrow> sem_op \<Rightarrow> op_entry" where
  "un kind source_op input_type result_type sem =
     \<lparr>oe_kind = kind, oe_category = UnaryOp, oe_source_op = source_op, oe_left_type = input_type,
      oe_right_type = '''', oe_result_type = result_type, oe_trap = None,
      oe_precedence = UNARY_PRECEDENCE, oe_sem = sem\<rparr>"

definition leak_kind :: "string \<Rightarrow> string \<Rightarrow> string" where
  "leak_kind verb type_name = verb @ ''_'' @ to_ascii_lowercase type_name"

text \<open>The rows generated for one integer type.\<close>

definition int_ops :: "scalar_int_type \<Rightarrow> op_entry list" where
  "int_ops t =
     (let ty = int_name t;
          k = \<lparr>ik_width = int_width t, ik_signed = int_signed t\<rparr>
      in map (\<lambda>(verb, src, prec, trap, arith).
             bin (leak_kind verb ty) src ty ty ty trap prec (Arith arith k))
           [(''add'', ''+'', PREC_ADDITIVE, None, Add),
            (''sub'', ''-'', PREC_ADDITIVE, None, Sub),
            (''mul'', ''*'', PREC_MULTIPLICATIVE, None, Mul),
            (''div'', ''/'', PREC_MULTIPLICATIVE, Some DIV_TRAP, Div),
            (''mod'', ''%'', PREC_MULTIPLICATIVE, Some MOD_TRAP, Rem)]
         @ map (\<lambda>(verb, src, prec, bit).
             bin (leak_kind verb ty) src ty ty ty None prec (Bit bit k))
           [(''and'', ''&'', PREC_BIT_AND, BitAnd),
            (''or'', ''|'', PREC_BIT_OR, BitOr),
            (''xor'', ''^'', PREC_BIT_XOR, BitXor)]
         @ map (\<lambda>(verb, src, shift).
             bin (leak_kind verb ty) src ty ty ty None PREC_SHIFT (Shift shift k))
           [(''shl'', ''<<'', Shl), (''shr'', ''>>'', Shr)]
         @ map (\<lambda>(verb, src, prec, cmp).
             bin (leak_kind verb ty) src ty ty ''Bool'' None prec (Cmp cmp k))
           [(''eq'', ''=='', PREC_EQUALITY, CEq),
            (''ne'', ''!='', PREC_EQUALITY, CNe),
            (''lt'', ''<'', PREC_RELATIONAL, CLt),
            (''le'', ''<='', PREC_RELATIONAL, CLe),
            (''gt'', ''>'', PREC_RELATIONAL, CGt),
            (''ge'', ''>='', PREC_RELATIONAL, CGe)]
         @ [un (leak_kind ''neg'' ty) ''-'' ty ty (Neg k),
            un (leak_kind ''bitnot'' ty) ''~'' ty ty (BitNot k)])"

definition build_ops :: "op_entry list" where
  "build_ops =
     [bin ''and_bool'' ''&&'' ''Bool'' ''Bool'' ''Bool'' None PREC_LOGICAL_AND AndBool,
      bin ''or_bool'' ''||'' ''Bool'' ''Bool'' ''Bool'' None PREC_LOGICAL_OR OrBool,
      un ''not_bool'' ''!'' ''Bool'' ''Bool'' NotBool]
     @ concat (map int_ops SCALAR_INT_TYPES)"

text \<open>The same rows with the lower-case name of the type given, as the kernel evaluates them.\<close>

definition named_int_ops :: "string \<Rightarrow> scalar_int_type \<Rightarrow> op_entry list" where
  "named_int_ops lower t =
     (let ty = int_name t;
          k = \<lparr>ik_width = int_width t, ik_signed = int_signed t\<rparr>
      in map (\<lambda>(verb, src, prec, trap, arith).
             bin (verb @ ''_'' @ lower) src ty ty ty trap prec (Arith arith k))
           [(''add'', ''+'', PREC_ADDITIVE, None, Add),
            (''sub'', ''-'', PREC_ADDITIVE, None, Sub),
            (''mul'', ''*'', PREC_MULTIPLICATIVE, None, Mul),
            (''div'', ''/'', PREC_MULTIPLICATIVE, Some DIV_TRAP, Div),
            (''mod'', ''%'', PREC_MULTIPLICATIVE, Some MOD_TRAP, Rem)]
         @ map (\<lambda>(verb, src, prec, bit).
             bin (verb @ ''_'' @ lower) src ty ty ty None prec (Bit bit k))
           [(''and'', ''&'', PREC_BIT_AND, BitAnd),
            (''or'', ''|'', PREC_BIT_OR, BitOr),
            (''xor'', ''^'', PREC_BIT_XOR, BitXor)]
         @ map (\<lambda>(verb, src, shift).
             bin (verb @ ''_'' @ lower) src ty ty ty None PREC_SHIFT (Shift shift k))
           [(''shl'', ''<<'', Shl), (''shr'', ''>>'', Shr)]
         @ map (\<lambda>(verb, src, prec, cmp).
             bin (verb @ ''_'' @ lower) src ty ty ''Bool'' None prec (Cmp cmp k))
           [(''eq'', ''=='', PREC_EQUALITY, CEq),
            (''ne'', ''!='', PREC_EQUALITY, CNe),
            (''lt'', ''<'', PREC_RELATIONAL, CLt),
            (''le'', ''<='', PREC_RELATIONAL, CLe),
            (''gt'', ''>'', PREC_RELATIONAL, CGt),
            (''ge'', ''>='', PREC_RELATIONAL, CGe)]
         @ [un (''neg_'' @ lower) ''-'' ty ty (Neg k),
            un (''bitnot_'' @ lower) ''~'' ty ty (BitNot k)])"

lemma int_ops_named: "int_ops t = named_int_ops (to_ascii_lowercase (int_name t)) t"
  by (simp add: int_ops_def named_int_ops_def leak_kind_def Let_def)

lemma scalar_int_lowercase:
  "map (to_ascii_lowercase \<circ> int_name) SCALAR_INT_TYPES =
     [''i8'', ''i16'', ''i32'', ''i64'', ''u8'', ''u16'', ''u32'', ''u64'']"
  by code_simp

lemma build_ops_code [code]:
  "build_ops =
     [bin ''and_bool'' ''&&'' ''Bool'' ''Bool'' ''Bool'' None PREC_LOGICAL_AND AndBool,
      bin ''or_bool'' ''||'' ''Bool'' ''Bool'' ''Bool'' None PREC_LOGICAL_OR OrBool,
      un ''not_bool'' ''!'' ''Bool'' ''Bool'' NotBool]
     @ concat (map (\<lambda>(lower, t). named_int_ops lower t)
         (zip [''i8'', ''i16'', ''i32'', ''i64'', ''u8'', ''u16'', ''u32'', ''u64''] SCALAR_INT_TYPES))"
proof -
  have "map (\<lambda>(lower, t). named_int_ops lower t) (zip (map (to_ascii_lowercase \<circ> int_name) ts) ts) = map int_ops ts" for ts
    by (induction ts) (simp_all add: int_ops_named)
  from this [of SCALAR_INT_TYPES] show ?thesis
    by (simp add: build_ops_def scalar_int_lowercase)
qed

definition operator_kinds :: "string list" where
  "operator_kinds = sort (map oe_kind build_ops)"

definition lookup_binary_kind :: "string \<Rightarrow> op_entry option" where
  "lookup_binary_kind kind = List.find (\<lambda>e. oe_category e = BinaryOp \<and> oe_kind e = kind) build_ops"

definition lookup_unary_kind :: "string \<Rightarrow> op_entry option" where
  "lookup_unary_kind kind = List.find (\<lambda>e. oe_category e = UnaryOp \<and> oe_kind e = kind) build_ops"

definition sem_for_kind :: "string \<Rightarrow> sem_op option" where
  "sem_for_kind kind = map_option oe_sem (List.find (\<lambda>e. oe_kind e = kind) build_ops)"

definition is_source_binary_op :: "string \<Rightarrow> bool" where
  "is_source_binary_op op \<longleftrightarrow> list_ex (\<lambda>e. oe_category e = BinaryOp \<and> oe_source_op e = op) build_ops"

definition binary_precedence :: "string \<Rightarrow> nat" where
  "binary_precedence op =
     (case List.find (\<lambda>e. oe_category e = BinaryOp \<and> oe_source_op e = op) build_ops of
        Some e \<Rightarrow> oe_precedence e | None \<Rightarrow> DEFAULT_PRECEDENCE)"

definition binary_trap :: "string \<Rightarrow> trap_spec option" where
  "binary_trap kind = Option.bind (List.find (\<lambda>e. oe_kind e = kind) build_ops) oe_trap"

text \<open>The cache holds the hash of every type name the table mentions, and answers the empty
  string for any other name.\<close>

definition registry_type_names :: "string list" where
  "registry_type_names =
     filter (\<lambda>name. name \<noteq> []) (concat (map (\<lambda>e. [oe_left_type e, oe_right_type e, oe_result_type e]) build_ops))"

definition registry_type_hash :: "(string \<Rightarrow> string) \<Rightarrow> string \<Rightarrow> string" where
  "registry_type_hash type_hash_for name =
     (if List.member registry_type_names name then type_hash_for name else '''')"

definition lower_binary_kind ::
    "(string \<Rightarrow> string) \<Rightarrow> string \<Rightarrow> string \<Rightarrow> string \<Rightarrow> string \<Rightarrow> string res" where
  "lower_binary_kind type_hash_for source_op left_type right_type result_type =
     (case List.find (\<lambda>e. oe_category e = BinaryOp \<and> oe_source_op e = source_op
             \<and> registry_type_hash type_hash_for (oe_left_type e) = left_type
             \<and> registry_type_hash type_hash_for (oe_right_type e) = right_type
             \<and> registry_type_hash type_hash_for (oe_result_type e) = result_type) build_ops of
        Some e \<Rightarrow> Inr (oe_kind e)
      | None \<Rightarrow> Inl (Bail ''cannot lower binary operator {source_op} with operand/result types'' [source_op]))"

definition lower_unary_kind ::
    "(string \<Rightarrow> string) \<Rightarrow> string \<Rightarrow> string \<Rightarrow> string \<Rightarrow> string res" where
  "lower_unary_kind type_hash_for source_op input_type result_type =
     (case List.find (\<lambda>e. oe_category e = UnaryOp \<and> oe_source_op e = source_op
             \<and> registry_type_hash type_hash_for (oe_left_type e) = input_type
             \<and> registry_type_hash type_hash_for (oe_result_type e) = result_type) build_ops of
        Some e \<Rightarrow> Inr (oe_kind e)
      | None \<Rightarrow> Inl (Bail ''cannot lower unary operator {source_op} with operand/result types'' [source_op]))"

definition verify_binary_kind ::
    "(string \<Rightarrow> string) \<Rightarrow> string \<Rightarrow> string \<Rightarrow> string \<Rightarrow> string \<Rightarrow> (string \<times> string) option \<Rightarrow> unit res" where
  "verify_binary_kind type_hash_for kind left_type right_type result_type trap =
     res_bind (ok_or (lookup_binary_kind kind) (Bail ''unknown lowered binary kind {kind}'' [kind])) (\<lambda>entry.
     res_bind (lower_binary_kind type_hash_for (oe_source_op entry) left_type right_type result_type) (\<lambda>expected.
     if expected \<noteq> kind then Inl (Bail ''lowered binary kind/type mismatch'' [])
     else case (oe_trap entry, trap) of
       (Some spec, Some (condition, code)) \<Rightarrow>
         if condition = trap_condition spec \<and> code = trap_code spec then Inr ()
         else Inl (Bail ''lowered {kind} must include a {} trap'' [kind, trap_code spec])
     | (Some spec, None) \<Rightarrow> Inl (Bail ''lowered {kind} must include a {} trap'' [kind, trap_code spec])
     | (None, None) \<Rightarrow> Inr ()
     | (None, Some _) \<Rightarrow> Inl (Bail ''unexpected trap on lowered binary kind {kind}'' [kind])))"

definition verify_unary_kind :: "(string \<Rightarrow> string) \<Rightarrow> string \<Rightarrow> string \<Rightarrow> string \<Rightarrow> unit res" where
  "verify_unary_kind type_hash_for kind input_type result_type =
     res_bind (ok_or (lookup_unary_kind kind) (Bail ''unknown lowered unary kind {kind}'' [kind])) (\<lambda>entry.
     res_bind (lower_unary_kind type_hash_for (oe_source_op entry) input_type result_type) (\<lambda>expected.
     if expected \<noteq> kind then Inl (Bail ''lowered unary kind/type mismatch'' []) else Inr ()))"

subsection \<open>The table is consistent\<close>

definition same_operands :: "op_entry \<Rightarrow> op_category \<times> string \<times> string" where
  "same_operands e = (oe_category e, oe_source_op e, oe_left_type e)"

lemma kinds_distinct: "distinct (map oe_kind build_ops)"
  by code_simp

lemma operands_distinct: "distinct (map same_operands build_ops)"
  by code_simp

lemma find_unique:
  assumes "distinct (map f xs)" and "e \<in> set xs" and "P e" and "\<And>x. x \<in> set xs \<Longrightarrow> P x \<Longrightarrow> f x = f e"
  shows "List.find P xs = Some e"
proof -
  obtain x where x: "List.find P xs = Some x"
    using assms(2,3) by (cases "List.find P xs") (auto simp: find_eq_None_iff)
  then have "x \<in> set xs" "P x" using find_Some_in [OF x] by auto
  with assms have "x = e" by (meson distinct_map inj_onD)
  with x show ?thesis by simp
qed

text \<open>The rows are those of the booleans or of one of the integer types.\<close>

lemma build_ops_cases:
  assumes "e \<in> set build_ops"
  obtains "e \<in> {bin ''and_bool'' ''&&'' ''Bool'' ''Bool'' ''Bool'' None PREC_LOGICAL_AND AndBool,
      bin ''or_bool'' ''||'' ''Bool'' ''Bool'' ''Bool'' None PREC_LOGICAL_OR OrBool,
      un ''not_bool'' ''!'' ''Bool'' ''Bool'' NotBool}"
    | t where "t \<in> set SCALAR_INT_TYPES" "e \<in> set (int_ops t)"
  using assms by (auto simp: build_ops_def)

lemma int_types_named: "t \<in> set SCALAR_INT_TYPES \<Longrightarrow> int_name t \<noteq> []"
  by (auto simp: SCALAR_INT_TYPES_def)

lemma int_ops_names:
  "e \<in> set (int_ops t) \<Longrightarrow> oe_left_type e = int_name t \<and> oe_result_type e \<in> {int_name t, ''Bool''} \<and>
     oe_right_type e = (if oe_category e = BinaryOp then int_name t else [])"
  by (auto simp: int_ops_def bin_def un_def Let_def)

lemma table_names:
  "e \<in> set build_ops \<Longrightarrow> oe_left_type e \<noteq> [] \<and> oe_result_type e \<noteq> [] \<and>
     (if oe_category e = BinaryOp then oe_right_type e = oe_left_type e else oe_right_type e = [])"
  by (erule build_ops_cases) (auto simp: bin_def un_def dest!: int_ops_names int_types_named)

lemma entry_names:
  assumes "e \<in> set build_ops"
  shows "oe_left_type e \<in> set registry_type_names" "oe_result_type e \<in> set registry_type_names"
    "oe_category e = BinaryOp \<Longrightarrow> oe_right_type e = oe_left_type e"
    "oe_category e = UnaryOp \<Longrightarrow> oe_right_type e = []"
  using table_names [OF assms] assms by (auto simp: registry_type_names_def)

text \<open>The hashes of the type names of the table are different, as those of different objects are.\<close>

definition hashes_apart :: "(string \<Rightarrow> string) \<Rightarrow> bool" where
  "hashes_apart h \<longleftrightarrow> inj_on h (set registry_type_names)"

lemma registry_type_hash_eq:
  "name \<in> set registry_type_names \<Longrightarrow> registry_type_hash h name = h name"
  by (simp add: registry_type_hash_def)

lemma same_entry_by_operands:
  "e \<in> set build_ops \<Longrightarrow> x \<in> set build_ops \<Longrightarrow> same_operands x = same_operands e \<Longrightarrow> x = e"
  using operands_distinct by (meson distinct_map inj_onD)

lemma lower_binary_entry:
  assumes "hashes_apart h" "e \<in> set build_ops" "oe_category e = BinaryOp"
  shows "lower_binary_kind h (oe_source_op e) (h (oe_left_type e)) (h (oe_right_type e)) (h (oe_result_type e)) = Inr (oe_kind e)"
proof -
  have "List.find (\<lambda>x. oe_category x = BinaryOp \<and> oe_source_op x = oe_source_op e
             \<and> registry_type_hash h (oe_left_type x) = h (oe_left_type e)
             \<and> registry_type_hash h (oe_right_type x) = h (oe_right_type e)
             \<and> registry_type_hash h (oe_result_type x) = h (oe_result_type e)) build_ops = Some e"
    using assms entry_names by (intro find_unique [OF operands_distinct])
      (auto simp: registry_type_hash_eq same_operands_def hashes_apart_def dest: inj_onD)
  then show ?thesis by (simp add: lower_binary_kind_def)
qed

lemma lower_unary_entry:
  assumes "hashes_apart h" "e \<in> set build_ops" "oe_category e = UnaryOp"
  shows "lower_unary_kind h (oe_source_op e) (h (oe_left_type e)) (h (oe_result_type e)) = Inr (oe_kind e)"
proof -
  have "List.find (\<lambda>x. oe_category x = UnaryOp \<and> oe_source_op x = oe_source_op e
             \<and> registry_type_hash h (oe_left_type x) = h (oe_left_type e)
             \<and> registry_type_hash h (oe_result_type x) = h (oe_result_type e)) build_ops = Some e"
    using assms entry_names by (intro find_unique [OF operands_distinct])
      (auto simp: registry_type_hash_eq same_operands_def hashes_apart_def dest: inj_onD)
  then show ?thesis by (simp add: lower_unary_kind_def)
qed

lemma lookup_kind:
  assumes "e \<in> set build_ops"
  shows "oe_category e = BinaryOp \<Longrightarrow> lookup_binary_kind (oe_kind e) = Some e"
    and "oe_category e = UnaryOp \<Longrightarrow> lookup_unary_kind (oe_kind e) = Some e"
  unfolding lookup_binary_kind_def lookup_unary_kind_def
  using assms by (auto intro: find_unique [OF kinds_distinct])

definition trap_pair :: "trap_spec option \<Rightarrow> (string \<times> string) option" where
  "trap_pair t = map_option (\<lambda>s. (trap_condition s, trap_code s)) t"

text \<open>C30. Every row of the operator table lowers to its own kind and is accepted by the inverse
  check with its own trap, and with no other trap, when the hashes of the type names are apart.\<close>

theorem operators_round_trip:
  assumes "hashes_apart h" and "e \<in> set build_ops"
  shows "case oe_category e of
      BinaryOp \<Rightarrow>
        lower_binary_kind h (oe_source_op e) (h (oe_left_type e)) (h (oe_right_type e)) (h (oe_result_type e))
          = Inr (oe_kind e) \<and>
        (verify_binary_kind h (oe_kind e) (h (oe_left_type e)) (h (oe_right_type e)) (h (oe_result_type e)) trap
          = Inr () \<longleftrightarrow> trap = trap_pair (oe_trap e))
    | UnaryOp \<Rightarrow>
        lower_unary_kind h (oe_source_op e) (h (oe_left_type e)) (h (oe_result_type e)) = Inr (oe_kind e) \<and>
        verify_unary_kind h (oe_kind e) (h (oe_left_type e)) (h (oe_result_type e)) = Inr ()"
proof (cases "oe_category e")
  case BinaryOp
  with lower_binary_entry [OF assms BinaryOp] lookup_kind(1) [OF assms(2) BinaryOp] show ?thesis
    by (auto simp: verify_binary_kind_def trap_pair_def split: option.splits prod.splits)
next
  case UnaryOp
  with lower_unary_entry [OF assms UnaryOp] lookup_kind(2) [OF assms(2) UnaryOp] show ?thesis
    by (simp add: verify_unary_kind_def)
qed

theorem operators_round_trip_witness:
  "lower_binary_kind id ''/'' ''I64'' ''I64'' ''I64'' = Inr ''div_i64'' \<and>
   verify_binary_kind id ''div_i64'' ''I64'' ''I64'' ''I64'' (Some (''right_operand_zero'', ''division_by_zero'')) = Inr ()"
proof -
  let ?e = "bin ''div_i64'' ''/'' ''I64'' ''I64'' ''I64'' (Some DIV_TRAP) PREC_MULTIPLICATIVE
    (Arith Div \<lparr>ik_width = 8, ik_signed = True\<rparr>)"
  have "List.find (\<lambda>e. oe_kind e = ''div_i64'') build_ops = Some ?e" by code_simp
  then have "?e \<in> set build_ops" by (simp add: find_Some_in)
  from operators_round_trip [of id, OF _ this] show ?thesis
    by (simp add: hashes_apart_def bin_def trap_pair_def DIV_TRAP_def)
qed

text \<open>The kinds of the table are pairwise different, so a kind determines its operator: the
  dispatch on kinds finds the semantics and the trap of the row that has the kind.\<close>

theorem kinds_determine_operators:
  "distinct (map oe_kind build_ops) \<and>
   (\<forall>e \<in> set build_ops. sem_for_kind (oe_kind e) = Some (oe_sem e) \<and> binary_trap (oe_kind e) = oe_trap e)"
proof -
  have "List.find (\<lambda>x. oe_kind x = oe_kind e) build_ops = Some e" if "e \<in> set build_ops" for e
    using that by (intro find_unique [OF kinds_distinct]) auto
  then show ?thesis by (simp add: kinds_distinct sem_for_kind_def binary_trap_def)
qed

theorem kinds_determine_operators_witness: "sem_for_kind ''shr_u16'' = Some (Shift Shr \<lparr>ik_width = 2, ik_signed = False\<rparr>)"
proof -
  let ?e = "bin ''shr_u16'' ''>>'' ''U16'' ''U16'' ''U16'' None PREC_SHIFT (Shift Shr \<lparr>ik_width = 2, ik_signed = False\<rparr>)"
  have "List.find (\<lambda>e. oe_kind e = ''shr_u16'') build_ops = Some ?e" by code_simp
  then have "?e \<in> set build_ops" by (simp add: find_Some_in)
  with kinds_determine_operators have "sem_for_kind (oe_kind ?e) = Some (oe_sem ?e)" by blast
  then show ?thesis by (simp add: bin_def)
qed

definition precedence_table :: "(string \<times> nat) list" where
  "precedence_table =
     [(''&&'', 20), (''||'', 10), (''+'', 50), (''-'', 50), (''*'', 60), (''/'', 60), (''%'', 60),
      (''&'', 26), (''|'', 1), (''^'', 24), (''<<'', 45), (''>>'', 45), (''=='', 30), (''!='', 30),
      (''<'', 40), (''<='', 40), (''>'', 40), (''>='', 40)]"

lemma precedence_table_parser: "map (binary_precedence \<circ> fst) precedence_table = map snd precedence_table"
  by code_simp

lemma precedence_table_holds:
  "list_all (\<lambda>e. oe_category e \<noteq> BinaryOp \<or> map_of precedence_table (oe_source_op e) = Some (oe_precedence e)) build_ops"
  by code_simp

lemma precedence_table_rows:
  "e \<in> set build_ops \<Longrightarrow> oe_category e = BinaryOp \<Longrightarrow>
     map_of precedence_table (oe_source_op e) = Some (oe_precedence e)"
  using precedence_table_holds by (auto simp: list_all_iff)

lemma precedence_table_bars:
  "list_all (\<lambda>(op, prec). prec < CASE_ARM_BODY_MIN_PRECEDENCE \<longleftrightarrow> op = ''|'') precedence_table"
  by code_simp

text \<open>Of the binary operators only the bitwise or binds too loosely for the body of a case
  arm, and every row of an operator has the precedence the parser uses for it.\<close>

theorem arm_bodies_end_at_bars:
  "list_all (\<lambda>e. oe_category e = BinaryOp \<longrightarrow> binary_precedence (oe_source_op e) = oe_precedence e \<and>
     (binary_precedence (oe_source_op e) < CASE_ARM_BODY_MIN_PRECEDENCE \<longleftrightarrow> oe_source_op e = ''|'')) build_ops"
proof -
  have row: "binary_precedence op = prec \<and> (prec < CASE_ARM_BODY_MIN_PRECEDENCE \<longleftrightarrow> op = ''|'')"
    if "map_of precedence_table op = Some prec" for op prec
  proof -
    have "(op, prec) \<in> set precedence_table" using that by (rule map_of_SomeD)
    moreover have "binary_precedence (fst row) = snd row" if "row \<in> set precedence_table" for row
      using precedence_table_parser that by (simp add: map_eq_conv)
    ultimately show ?thesis using precedence_table_bars by (force simp: list_all_iff)
  qed
  show ?thesis unfolding list_all_iff using row [OF precedence_table_rows] by simp
qed

theorem arm_bodies_end_at_bars_witness: "binary_precedence ''||'' = 10"
proof -
  let ?e = "bin ''or_bool'' ''||'' ''Bool'' ''Bool'' ''Bool'' None PREC_LOGICAL_OR OrBool"
  have "?e \<in> set build_ops" by (simp add: build_ops_def)
  from bspec [OF arm_bodies_end_at_bars [unfolded list_all_iff] this]
  have "binary_precedence (oe_source_op ?e) = oe_precedence ?e" by (simp add: bin_def)
  then show ?thesis by (simp add: bin_def PREC_LOGICAL_OR_def)
qed

end
