(* ===== verification/Eval.thy ===== *)
theory Eval
  imports Ops
begin

text \<open>
  The reference evaluator of built-in operators, \<open>src/src/op_registry.rs\<close>, on the values of
  \<open>src/src/expr.rs\<close>: integers are machine words of their width, and every operation wraps.
  The second half proves them against exact integer arithmetic: an operation is the exact
  operation followed by the cast to the type of the operands.
\<close>

unbundle bit_operations_syntax

subsection \<open>Values\<close>

datatype rvalue =
    VI8 "8 word"
  | VI16 "16 word"
  | VI32 "32 word"
  | VI64 "64 word"
  | VU8 "8 word"
  | VU16 "16 word"
  | VU32 "32 word"
  | VU64 "64 word"
  | VBool bool
  | VUnit
  | VSharedRef rvalue
  | VMutRef rvalue
  | VRawPtr rvalue bool
  | VBoxed rvalue
  | VSlice "rvalue list" bool
  | VVec "rvalue list" nat
  | VString "8 word list"
  | VArray "rvalue list"
  | VRecord "(string \<times> rvalue) list"
  | VEnum string rvalue

definition value_matches :: "string \<Rightarrow> rvalue \<Rightarrow> bool" where
  "value_matches type_name v =
     (case v of
        VI8 _ \<Rightarrow> type_name = ''I8''
      | VI16 _ \<Rightarrow> type_name = ''I16''
      | VI32 _ \<Rightarrow> type_name = ''I32''
      | VI64 _ \<Rightarrow> type_name = ''I64''
      | VU8 _ \<Rightarrow> type_name = ''U8''
      | VU16 _ \<Rightarrow> type_name = ''U16''
      | VU32 _ \<Rightarrow> type_name = ''U32''
      | VU64 _ \<Rightarrow> type_name = ''U64''
      | VBool _ \<Rightarrow> type_name = ''Bool''
      | _ \<Rightarrow> False)"

subsection \<open>Operations on words\<close>

text \<open>The division of Rust truncates towards zero, and wraps for the quotient of the least value by
  minus one.\<close>

definition signed_arith :: "arith_op \<Rightarrow> 'a::len word \<Rightarrow> 'a word \<Rightarrow> 'a word res" where
  "signed_arith arith x y =
     (case arith of
        Add \<Rightarrow> Inr (x + y)
      | Sub \<Rightarrow> Inr (x - y)
      | Mul \<Rightarrow> Inr (x * y)
      | Div \<Rightarrow> if y = 0 then Inl (Bail ''division by zero'' [])
               else Inr (word_of_int (sint x sdiv sint y))
      | Rem \<Rightarrow> if y = 0 then Inl (Bail ''modulo by zero'' [])
               else Inr (word_of_int (sint x smod sint y)))"

definition unsigned_arith :: "arith_op \<Rightarrow> 'a::len word \<Rightarrow> 'a word \<Rightarrow> 'a word res" where
  "unsigned_arith arith x y =
     (case arith of
        Add \<Rightarrow> Inr (x + y)
      | Sub \<Rightarrow> Inr (x - y)
      | Mul \<Rightarrow> Inr (x * y)
      | Div \<Rightarrow> if y = 0 then Inl (Bail ''division by zero'' []) else Inr (x div y)
      | Rem \<Rightarrow> if y = 0 then Inl (Bail ''modulo by zero'' []) else Inr (x mod y))"

definition bit_word :: "bit_op \<Rightarrow> 'a::len word \<Rightarrow> 'a word \<Rightarrow> 'a word" where
  "bit_word op x y = (case op of BitAnd \<Rightarrow> x AND y | BitOr \<Rightarrow> x OR y | BitXor \<Rightarrow> x XOR y)"

text \<open>The amount of a shift is the right operand as a \<open>u32\<close>, masked to the width of the left one.\<close>

definition signed_shift :: "shift_op \<Rightarrow> 'a::len word \<Rightarrow> 'a word \<Rightarrow> 'a word" where
  "signed_shift shift x y =
     (let amount = unat (word_of_int (sint y) :: 32 word) mod LENGTH('a)
      in case shift of Shl \<Rightarrow> push_bit amount x | Shr \<Rightarrow> signed_drop_bit amount x)"

definition unsigned_shift :: "shift_op \<Rightarrow> 'a::len word \<Rightarrow> 'a word \<Rightarrow> 'a word" where
  "unsigned_shift shift x y =
     (let amount = unat (word_of_int (uint y) :: 32 word) mod LENGTH('a)
      in case shift of Shl \<Rightarrow> push_bit amount x | Shr \<Rightarrow> drop_bit amount x)"

definition apply_cmp :: "cmp \<Rightarrow> 'a::linorder \<Rightarrow> 'a \<Rightarrow> bool" where
  "apply_cmp cmp a b =
     (case cmp of CEq \<Rightarrow> a = b | CNe \<Rightarrow> a \<noteq> b | CLt \<Rightarrow> a < b | CLe \<Rightarrow> a \<le> b | CGt \<Rightarrow> b < a | CGe \<Rightarrow> b \<le> a)"

subsection \<open>The evaluator\<close>

definition eval_arith :: "arith_op \<Rightarrow> rvalue \<Rightarrow> rvalue \<Rightarrow> rvalue res" where
  "eval_arith arith left right =
     (let invalid = Inl (Bail ''invalid operands: {left}, {right}'' []) in
      case left of
        VI8 x \<Rightarrow> (case right of VI8 y \<Rightarrow> res_bind (signed_arith arith x y) (\<lambda>v. Inr (VI8 v)) | _ \<Rightarrow> invalid)
      | VI16 x \<Rightarrow> (case right of VI16 y \<Rightarrow> res_bind (signed_arith arith x y) (\<lambda>v. Inr (VI16 v)) | _ \<Rightarrow> invalid)
      | VI32 x \<Rightarrow> (case right of VI32 y \<Rightarrow> res_bind (signed_arith arith x y) (\<lambda>v. Inr (VI32 v)) | _ \<Rightarrow> invalid)
      | VI64 x \<Rightarrow> (case right of VI64 y \<Rightarrow> res_bind (signed_arith arith x y) (\<lambda>v. Inr (VI64 v)) | _ \<Rightarrow> invalid)
      | VU8 x \<Rightarrow> (case right of VU8 y \<Rightarrow> res_bind (unsigned_arith arith x y) (\<lambda>v. Inr (VU8 v)) | _ \<Rightarrow> invalid)
      | VU16 x \<Rightarrow> (case right of VU16 y \<Rightarrow> res_bind (unsigned_arith arith x y) (\<lambda>v. Inr (VU16 v)) | _ \<Rightarrow> invalid)
      | VU32 x \<Rightarrow> (case right of VU32 y \<Rightarrow> res_bind (unsigned_arith arith x y) (\<lambda>v. Inr (VU32 v)) | _ \<Rightarrow> invalid)
      | VU64 x \<Rightarrow> (case right of VU64 y \<Rightarrow> res_bind (unsigned_arith arith x y) (\<lambda>v. Inr (VU64 v)) | _ \<Rightarrow> invalid)
      | _ \<Rightarrow> invalid)"

definition eval_bit :: "bit_op \<Rightarrow> rvalue \<Rightarrow> rvalue \<Rightarrow> rvalue res" where
  "eval_bit op left right =
     (let invalid = Inl (Bail ''invalid operands: {left}, {right}'' []) in
      case left of
        VI8 x \<Rightarrow> (case right of VI8 y \<Rightarrow> Inr (VI8 (bit_word op x y)) | _ \<Rightarrow> invalid)
      | VI16 x \<Rightarrow> (case right of VI16 y \<Rightarrow> Inr (VI16 (bit_word op x y)) | _ \<Rightarrow> invalid)
      | VI32 x \<Rightarrow> (case right of VI32 y \<Rightarrow> Inr (VI32 (bit_word op x y)) | _ \<Rightarrow> invalid)
      | VI64 x \<Rightarrow> (case right of VI64 y \<Rightarrow> Inr (VI64 (bit_word op x y)) | _ \<Rightarrow> invalid)
      | VU8 x \<Rightarrow> (case right of VU8 y \<Rightarrow> Inr (VU8 (bit_word op x y)) | _ \<Rightarrow> invalid)
      | VU16 x \<Rightarrow> (case right of VU16 y \<Rightarrow> Inr (VU16 (bit_word op x y)) | _ \<Rightarrow> invalid)
      | VU32 x \<Rightarrow> (case right of VU32 y \<Rightarrow> Inr (VU32 (bit_word op x y)) | _ \<Rightarrow> invalid)
      | VU64 x \<Rightarrow> (case right of VU64 y \<Rightarrow> Inr (VU64 (bit_word op x y)) | _ \<Rightarrow> invalid)
      | _ \<Rightarrow> invalid)"

definition eval_shift :: "shift_op \<Rightarrow> rvalue \<Rightarrow> rvalue \<Rightarrow> rvalue res" where
  "eval_shift shift left right =
     (let invalid = Inl (Bail ''invalid operands: {left}, {right}'' []) in
      case left of
        VI8 x \<Rightarrow> (case right of VI8 y \<Rightarrow> Inr (VI8 (signed_shift shift x y)) | _ \<Rightarrow> invalid)
      | VI16 x \<Rightarrow> (case right of VI16 y \<Rightarrow> Inr (VI16 (signed_shift shift x y)) | _ \<Rightarrow> invalid)
      | VI32 x \<Rightarrow> (case right of VI32 y \<Rightarrow> Inr (VI32 (signed_shift shift x y)) | _ \<Rightarrow> invalid)
      | VI64 x \<Rightarrow> (case right of VI64 y \<Rightarrow> Inr (VI64 (signed_shift shift x y)) | _ \<Rightarrow> invalid)
      | VU8 x \<Rightarrow> (case right of VU8 y \<Rightarrow> Inr (VU8 (unsigned_shift shift x y)) | _ \<Rightarrow> invalid)
      | VU16 x \<Rightarrow> (case right of VU16 y \<Rightarrow> Inr (VU16 (unsigned_shift shift x y)) | _ \<Rightarrow> invalid)
      | VU32 x \<Rightarrow> (case right of VU32 y \<Rightarrow> Inr (VU32 (unsigned_shift shift x y)) | _ \<Rightarrow> invalid)
      | VU64 x \<Rightarrow> (case right of VU64 y \<Rightarrow> Inr (VU64 (unsigned_shift shift x y)) | _ \<Rightarrow> invalid)
      | _ \<Rightarrow> invalid)"

definition eval_cmp :: "cmp \<Rightarrow> rvalue \<Rightarrow> rvalue \<Rightarrow> rvalue res" where
  "eval_cmp cmp left right =
     (let invalid = Inl (Bail ''invalid operands: {left}, {right}'' []) in
      case left of
        VI8 x \<Rightarrow> (case right of VI8 y \<Rightarrow> Inr (VBool (apply_cmp cmp (sint x) (sint y))) | _ \<Rightarrow> invalid)
      | VI16 x \<Rightarrow> (case right of VI16 y \<Rightarrow> Inr (VBool (apply_cmp cmp (sint x) (sint y))) | _ \<Rightarrow> invalid)
      | VI32 x \<Rightarrow> (case right of VI32 y \<Rightarrow> Inr (VBool (apply_cmp cmp (sint x) (sint y))) | _ \<Rightarrow> invalid)
      | VI64 x \<Rightarrow> (case right of VI64 y \<Rightarrow> Inr (VBool (apply_cmp cmp (sint x) (sint y))) | _ \<Rightarrow> invalid)
      | VU8 x \<Rightarrow> (case right of VU8 y \<Rightarrow> Inr (VBool (apply_cmp cmp (uint x) (uint y))) | _ \<Rightarrow> invalid)
      | VU16 x \<Rightarrow> (case right of VU16 y \<Rightarrow> Inr (VBool (apply_cmp cmp (uint x) (uint y))) | _ \<Rightarrow> invalid)
      | VU32 x \<Rightarrow> (case right of VU32 y \<Rightarrow> Inr (VBool (apply_cmp cmp (uint x) (uint y))) | _ \<Rightarrow> invalid)
      | VU64 x \<Rightarrow> (case right of VU64 y \<Rightarrow> Inr (VBool (apply_cmp cmp (uint x) (uint y))) | _ \<Rightarrow> invalid)
      | _ \<Rightarrow> invalid)"

definition eval_binary :: "string \<Rightarrow> rvalue \<Rightarrow> rvalue \<Rightarrow> rvalue res" where
  "eval_binary op left right =
     (let invalid = Inl (Bail ''invalid operands for {op}: {left}, {right}'' [op]) in
      case List.find (\<lambda>e. oe_category e = BinaryOp \<and> oe_source_op e = op
              \<and> value_matches (oe_left_type e) left \<and> value_matches (oe_right_type e) right) build_ops of
        None \<Rightarrow> invalid
      | Some e \<Rightarrow> (case oe_sem e of
            Arith arith _ \<Rightarrow> eval_arith arith left right
          | Cmp cmp _ \<Rightarrow> eval_cmp cmp left right
          | Bit b _ \<Rightarrow> eval_bit b left right
          | Shift shift _ \<Rightarrow> eval_shift shift left right
          | AndBool \<Rightarrow> (case (left, right) of (VBool a, VBool b) \<Rightarrow> Inr (VBool (a \<and> b)) | _ \<Rightarrow> invalid)
          | OrBool \<Rightarrow> (case (left, right) of (VBool a, VBool b) \<Rightarrow> Inr (VBool (a \<or> b)) | _ \<Rightarrow> invalid)
          | _ \<Rightarrow> invalid))"

fun eval_neg :: "rvalue \<Rightarrow> rvalue res" where
  "eval_neg (VI8 x) = Inr (VI8 (- x))"
| "eval_neg (VI16 x) = Inr (VI16 (- x))"
| "eval_neg (VI32 x) = Inr (VI32 (- x))"
| "eval_neg (VI64 x) = Inr (VI64 (- x))"
| "eval_neg (VU8 x) = Inr (VU8 (- x))"
| "eval_neg (VU16 x) = Inr (VU16 (- x))"
| "eval_neg (VU32 x) = Inr (VU32 (- x))"
| "eval_neg (VU64 x) = Inr (VU64 (- x))"
| "eval_neg v = Inl (Bail ''invalid operand for -: {value}'' [])"

fun eval_bitnot :: "rvalue \<Rightarrow> rvalue res" where
  "eval_bitnot (VI8 x) = Inr (VI8 (NOT x))"
| "eval_bitnot (VI16 x) = Inr (VI16 (NOT x))"
| "eval_bitnot (VI32 x) = Inr (VI32 (NOT x))"
| "eval_bitnot (VI64 x) = Inr (VI64 (NOT x))"
| "eval_bitnot (VU8 x) = Inr (VU8 (NOT x))"
| "eval_bitnot (VU16 x) = Inr (VU16 (NOT x))"
| "eval_bitnot (VU32 x) = Inr (VU32 (NOT x))"
| "eval_bitnot (VU64 x) = Inr (VU64 (NOT x))"
| "eval_bitnot v = Inl (Bail ''invalid operand for ~: {value}'' [])"

definition eval_unary :: "string \<Rightarrow> rvalue \<Rightarrow> rvalue res" where
  "eval_unary op v =
     (let invalid = Inl (Bail ''invalid operand for {op}: {value}'' [op]) in
      case List.find (\<lambda>e. oe_category e = UnaryOp \<and> oe_source_op e = op
              \<and> value_matches (oe_left_type e) v) build_ops of
        None \<Rightarrow> invalid
      | Some e \<Rightarrow> (case oe_sem e of
            Neg _ \<Rightarrow> eval_neg v
          | BitNot _ \<Rightarrow> eval_bitnot v
          | NotBool \<Rightarrow> (case v of VBool b \<Rightarrow> Inr (VBool (\<not> b)) | _ \<Rightarrow> invalid)
          | _ \<Rightarrow> invalid))"

subsection \<open>Casts and literals\<close>

text \<open>The final \<open>as\<close> of a cast: the value reduced to the width of the target.\<close>

definition as_int_type :: "scalar_int_type \<Rightarrow> int \<Rightarrow> rvalue option" where
  "as_int_type target x =
     (if int_signed target
      then if int_width target = 1 then Some (VI8 (word_of_int x))
           else if int_width target = 2 then Some (VI16 (word_of_int x))
           else if int_width target = 4 then Some (VI32 (word_of_int x))
           else if int_width target = 8 then Some (VI64 (word_of_int x))
           else None
      else if int_width target = 1 then Some (VU8 (word_of_int x))
           else if int_width target = 2 then Some (VU16 (word_of_int x))
           else if int_width target = 4 then Some (VU32 (word_of_int x))
           else if int_width target = 8 then Some (VU64 (word_of_int x))
           else None)"

fun int_of_value :: "rvalue \<Rightarrow> int option" where
  "int_of_value (VI8 n) = Some (sint n)"
| "int_of_value (VI16 n) = Some (sint n)"
| "int_of_value (VI32 n) = Some (sint n)"
| "int_of_value (VI64 n) = Some (sint n)"
| "int_of_value (VU8 n) = Some (uint n)"
| "int_of_value (VU16 n) = Some (uint n)"
| "int_of_value (VU32 n) = Some (uint n)"
| "int_of_value (VU64 n) = Some (uint n)"
| "int_of_value v = None"

definition cast_int_value :: "rvalue \<Rightarrow> scalar_int_type \<Rightarrow> rvalue res" where
  "cast_int_value v target =
     (case int_of_value v of
        None \<Rightarrow> Inl (Bail ''cannot cast non-integer value {other}'' [])
      | Some x \<Rightarrow> ok_or (as_int_type target x)
          (Bail ''unsupported cast target width {}'' [dec_nat (int_width target)]))"

definition digit_value :: "nat \<Rightarrow> char \<Rightarrow> nat option" where
  "digit_value radix c =
     (let n = of_char c :: nat;
          d = (if 48 \<le> n \<and> n \<le> 57 then n - 48
               else if 97 \<le> n \<and> n \<le> 122 then n - 87
               else if 65 \<le> n \<and> n \<le> 90 then n - 55
               else radix)
      in if d < radix then Some d else None)"

fun parse_digits :: "nat \<Rightarrow> string \<Rightarrow> nat \<Rightarrow> nat option" where
  "parse_digits radix [] acc = Some acc"
| "parse_digits radix (c # cs) acc =
     (case digit_value radix c of
        None \<Rightarrow> None
      | Some d \<Rightarrow> parse_digits radix cs (acc * radix + d))"

text \<open>\<open>from_str_radix\<close> of an integer type: no digit, an invalid digit or a value that does not fit
  is an error; a sign is accepted where digits follow, a minus by signed types only.\<close>

definition from_str_radix :: "bool \<Rightarrow> nat \<Rightarrow> nat \<Rightarrow> string \<Rightarrow> int option" where
  "from_str_radix is_signed bits radix src =
     (let lo = (if is_signed then - (2 ^ (bits - 1)) else 0);
          hi = (if is_signed then 2 ^ (bits - 1) else 2 ^ bits) :: int;
          (negative, digits) =
            (case src of
               c # d # ds \<Rightarrow> if c = CHR ''+'' then (False, d # ds)
                            else if c = CHR ''-'' \<and> is_signed then (True, d # ds)
                            else (False, src)
             | _ \<Rightarrow> (False, src))
      in if digits = [] then None
         else case parse_digits radix digits 0 of
                None \<Rightarrow> None
              | Some n \<Rightarrow> (let v = (if negative then - int n else int n)
                          in if lo \<le> v \<and> v < hi then Some v else None))"

definition split_radix :: "string \<Rightarrow> nat \<times> string" where
  "split_radix s =
     (case strip_prefix ''0x'' s of
        Some hex \<Rightarrow> (16, hex)
      | None \<Rightarrow> (case strip_prefix ''0X'' s of Some hex \<Rightarrow> (16, hex) | None \<Rightarrow> (10, s)))"

definition supported_width :: "nat \<Rightarrow> bool" where
  "supported_width w \<longleftrightarrow> w = 1 \<or> w = 2 \<or> w = 4 \<or> w = 8"

definition int_literal_in_range :: "string \<Rightarrow> scalar_int_type \<Rightarrow> bool" where
  "int_literal_in_range s t =
     (let (radix, digits) = split_radix s;
          signed_hex = int_signed t \<and> radix = 16
      in if supported_width (int_width t)
         then from_str_radix (int_signed t \<and> \<not> signed_hex) (8 * int_width t) radix digits \<noteq> None
         else False)"

definition int_literal_value :: "string \<Rightarrow> scalar_int_type \<Rightarrow> rvalue res" where
  "int_literal_value s t =
     (let (radix, digits) = split_radix s;
          signed_hex = int_signed t \<and> radix = 16
      in if supported_width (int_width t)
         then res_bind (ok_or (from_str_radix (int_signed t \<and> \<not> signed_hex) (8 * int_width t) radix digits)
                (Bail ''integer literal {value} out of range for {}'' [s, int_name t])) (\<lambda>x.
              ok_or (as_int_type t x) (Bail ''unsupported integer width {}'' [dec_nat (int_width t)]))
         else Inl (Bail ''unsupported integer width {}'' [dec_nat (int_width t)]))"

definition int_literal_const_i64 :: "string \<Rightarrow> scalar_int_type \<Rightarrow> 64 word res" where
  "int_literal_const_i64 s t =
     res_bind (int_literal_value s t) (\<lambda>v.
       ok_or (map_option word_of_int (int_of_value v)) (Bail ''integer literal produced a non-integer value: {other}'' []))"

subsection \<open>Exact arithmetic and wrapping\<close>

definition exact_arith :: "arith_op \<Rightarrow> int \<Rightarrow> int \<Rightarrow> int" where
  "exact_arith arith a b =
     (case arith of Add \<Rightarrow> a + b | Sub \<Rightarrow> a - b | Mul \<Rightarrow> a * b | Div \<Rightarrow> a sdiv b | Rem \<Rightarrow> a smod b)"

definition arith_trap :: "arith_op \<Rightarrow> error" where
  "arith_trap arith = (if arith = Div then Bail ''division by zero'' [] else Bail ''modulo by zero'' [])"

definition traps :: "arith_op \<Rightarrow> int \<Rightarrow> bool" where
  "traps arith b \<longleftrightarrow> (arith = Div \<or> arith = Rem) \<and> b = 0"

lemma sint_zero_iff: "sint (y :: 'a::len word) = 0 \<longleftrightarrow> y = 0"
  by (rule signed_eq_0_iff)

lemma uint_zero_iff: "uint (y :: 'a::len word) = 0 \<longleftrightarrow> y = 0"
  by (simp add: uint_0_iff)

lemma signed_arith_exact:
  "signed_arith arith x y =
     (if traps arith (sint y) then Inl (arith_trap arith)
      else Inr (word_of_int (exact_arith arith (sint x) (sint y))))"
  by (cases arith) (simp_all add: signed_arith_def exact_arith_def traps_def arith_trap_def sint_zero_iff)

lemma sdiv_nonneg: "0 \<le> a \<Longrightarrow> 0 \<le> b \<Longrightarrow> (a :: int) sdiv b = a div b"
  by (auto simp: signed_divide_int_def sgn_if)

lemma smod_nonneg: "0 \<le> a \<Longrightarrow> 0 \<le> b \<Longrightarrow> (a :: int) smod b = a mod b"
  by (auto simp: signed_modulo_int_def sgn_if)

lemma unsigned_arith_exact:
  "unsigned_arith arith x y =
     (if traps arith (uint y) then Inl (arith_trap arith)
      else Inr (word_of_int (exact_arith arith (uint x) (uint y))))"
  by (cases arith) (simp_all add: unsigned_arith_def exact_arith_def traps_def arith_trap_def uint_zero_iff
      sdiv_nonneg smod_nonneg word_div_def word_mod_def)

text \<open>Two operands of an integer type.\<close>

lemma int_type_cases:
  assumes "t \<in> set SCALAR_INT_TYPES" and "value_matches (int_name t) v"
  shows "(\<exists>x. v = VI8 x \<and> t = \<lparr>int_name = ''I8'', int_width = 1, int_signed = True\<rparr>) \<or>
    (\<exists>x. v = VI16 x \<and> t = \<lparr>int_name = ''I16'', int_width = 2, int_signed = True\<rparr>) \<or>
    (\<exists>x. v = VI32 x \<and> t = \<lparr>int_name = ''I32'', int_width = 4, int_signed = True\<rparr>) \<or>
    (\<exists>x. v = VI64 x \<and> t = \<lparr>int_name = ''I64'', int_width = 8, int_signed = True\<rparr>) \<or>
    (\<exists>x. v = VU8 x \<and> t = \<lparr>int_name = ''U8'', int_width = 1, int_signed = False\<rparr>) \<or>
    (\<exists>x. v = VU16 x \<and> t = \<lparr>int_name = ''U16'', int_width = 2, int_signed = False\<rparr>) \<or>
    (\<exists>x. v = VU32 x \<and> t = \<lparr>int_name = ''U32'', int_width = 4, int_signed = False\<rparr>) \<or>
    (\<exists>x. v = VU64 x \<and> t = \<lparr>int_name = ''U64'', int_width = 8, int_signed = False\<rparr>)"
  using assms by (cases v) (auto simp: SCALAR_INT_TYPES_def value_matches_def)

lemma eval_arith_exact:
  assumes "t \<in> set SCALAR_INT_TYPES" and l: "value_matches (int_name t) l" "int_of_value l = Some a"
    and r: "value_matches (int_name t) r" "int_of_value r = Some b"
  shows "eval_arith arith l r =
    (if traps arith b then Inl (arith_trap arith) else Inr (the (as_int_type t (exact_arith arith a b))))"
  using int_type_cases [OF assms(1) l(1)] int_type_cases [OF assms(1) r(1)] l(2) r(2)
  by (elim disjE exE conjE)
    (simp_all add: eval_arith_def signed_arith_exact unsigned_arith_exact as_int_type_def)

lemma eval_cmp_exact:
  assumes "t \<in> set SCALAR_INT_TYPES" and l: "value_matches (int_name t) l" "int_of_value l = Some a"
    and r: "value_matches (int_name t) r" "int_of_value r = Some b"
  shows "eval_cmp cmp l r = Inr (VBool (apply_cmp cmp a b))"
  using int_type_cases [OF assms(1) l(1)] int_type_cases [OF assms(1) r(1)] l(2) r(2)
  by (elim disjE exE conjE) (simp_all add: eval_cmp_def)

lemma shift_amount:
  assumes "w dvd 2 ^ 32" and "0 < w"
  shows "unat (word_of_int i :: 32 word) mod w = nat (i mod int w)"
proof -
  have "int (unat (word_of_int i :: 32 word)) = i mod 2 ^ 32"
    using uint_word_of_int [of i, where 'a = 32] by (simp del: word_of_int_uint)
  then have "int (unat (word_of_int i :: 32 word) mod w) = i mod 2 ^ 32 mod int w" by (simp add: zmod_int)
  also have "\<dots> = i mod int w" by (rule mod_mod_cancel) (use assms(1) in \<open>metis int_dvd_int_iff of_nat_numeral of_nat_power\<close>)
  finally show ?thesis by simp
qed

definition exact_shift :: "shift_op \<Rightarrow> nat \<Rightarrow> int \<Rightarrow> int \<Rightarrow> int" where
  "exact_shift shift bits a b =
     (let n = nat (b mod int bits) in case shift of Shl \<Rightarrow> a * 2 ^ n | Shr \<Rightarrow> a div 2 ^ n)"

lemma signed_shift_exact:
  assumes "LENGTH('a::len) dvd 2 ^ 32"
  shows "signed_shift shift (x :: 'a word) y = word_of_int (exact_shift shift LENGTH('a) (sint x) (sint y))"
proof -
  have am: "unat (word_of_int (sint y) :: 32 word) mod LENGTH('a) = nat (sint y mod int LENGTH('a))"
    by (rule shift_amount [OF assms]) simp
  show ?thesis
  proof (cases shift)
    case Shl
    then show ?thesis
      unfolding signed_shift_def exact_shift_def Let_def am
      by (simp add: push_bit_eq_mult flip: wi_hom_mult)
  next
    case Shr
    have "word_of_int (sint (signed_drop_bit n x)) = signed_drop_bit n x" for n by simp
    with Shr show ?thesis
      unfolding signed_shift_def exact_shift_def Let_def am
      by (metis shift_op.case(2) sint_signed_drop_bit_eq drop_bit_eq_div)
  qed
qed

lemma uint_drop_bit: "uint (drop_bit n (x :: 'a::len word)) = uint x div 2 ^ n"
  unfolding unsigned_drop_bit_eq by (simp add: bintr_uint drop_bit_eq_div)

lemma unsigned_shift_exact:
  assumes "LENGTH('a::len) dvd 2 ^ 32"
  shows "unsigned_shift shift (x :: 'a word) y = word_of_int (exact_shift shift LENGTH('a) (uint x) (uint y))"
proof -
  have am: "unat (word_of_int (uint y) :: 32 word) mod LENGTH('a) = nat (uint y mod int LENGTH('a))"
    by (rule shift_amount [OF assms]) simp
  show ?thesis
  proof (cases shift)
    case Shl
    then show ?thesis
      unfolding unsigned_shift_def exact_shift_def Let_def am
      by (simp add: push_bit_eq_mult flip: wi_hom_mult)
  next
    case Shr
    have "word_of_int (uint (drop_bit n x)) = drop_bit n x" for n by simp
    with Shr show ?thesis
      unfolding unsigned_shift_def exact_shift_def Let_def am
      by (metis shift_op.case(2) uint_drop_bit)
  qed
qed

lemma eval_shift_exact:
  assumes "t \<in> set SCALAR_INT_TYPES" and l: "value_matches (int_name t) l" "int_of_value l = Some a"
    and r: "value_matches (int_name t) r" "int_of_value r = Some b"
  shows "eval_shift shift l r = Inr (the (as_int_type t (exact_shift shift (8 * int_width t) a b)))"
  using int_type_cases [OF assms(1) l(1)] int_type_cases [OF assms(1) r(1)] l(2) r(2)
  by (elim disjE exE conjE)
    (simp_all add: eval_shift_def signed_shift_exact unsigned_shift_exact as_int_type_def)

subsection \<open>Casts\<close>

text \<open>The value of an integer in a type: reduced modulo two to the width, into its range.\<close>

definition wrap_to :: "scalar_int_type \<Rightarrow> int \<Rightarrow> int" where
  "wrap_to t x =
     (let bits = 8 * int_width t in
      if int_signed t then (x + 2 ^ (bits - 1)) mod 2 ^ bits - 2 ^ (bits - 1) else x mod 2 ^ bits)"

definition fits :: "scalar_int_type \<Rightarrow> int \<Rightarrow> bool" where
  "fits t x \<longleftrightarrow>
     (let bits = 8 * int_width t in
      if int_signed t then - (2 ^ (bits - 1)) \<le> x \<and> x < 2 ^ (bits - 1) else 0 \<le> x \<and> x < 2 ^ bits)"

lemma sint_word_of_int_wrap:
  "sint (word_of_int x :: 'a::len word) = (x + 2 ^ (LENGTH('a) - 1)) mod 2 ^ LENGTH('a) - 2 ^ (LENGTH('a) - 1)"
  by (simp add: sint_sbintrunc' signed_take_bit_eq_take_bit_shift take_bit_eq_mod)

lemma as_int_type_wraps:
  assumes "t \<in> set SCALAR_INT_TYPES"
  shows "\<exists>w. as_int_type t x = Some w \<and> value_matches (int_name t) w \<and> int_of_value w = Some (wrap_to t x)"
  using assms
  by (auto simp: SCALAR_INT_TYPES_def as_int_type_def value_matches_def wrap_to_def
      sint_word_of_int_wrap uint_word_of_int)

lemma wrap_to_fits: "t \<in> set SCALAR_INT_TYPES \<Longrightarrow> fits t x \<Longrightarrow> wrap_to t x = x"
  by (auto simp: SCALAR_INT_TYPES_def wrap_to_def fits_def mod_pos_pos_trivial)

lemma signed_bounds:
  "- 128 \<le> sint (a :: 8 word)" "sint a < 128"
  "- 32768 \<le> sint (b :: 16 word)" "sint b < 32768"
  "- 2147483648 \<le> sint (c :: 32 word)" "sint c < 2147483648"
  "- 9223372036854775808 \<le> sint (d :: 64 word)" "sint d < 9223372036854775808"
  using sint_greater_eq [of a] sint_less [of a] sint_greater_eq [of b] sint_less [of b]
    sint_greater_eq [of c] sint_less [of c] sint_greater_eq [of d] sint_less [of d] by simp_all

lemma unsigned_bounds:
  "uint (a :: 8 word) < 256" "uint (b :: 16 word) < 65536"
  "uint (c :: 32 word) < 4294967296" "uint (d :: 64 word) < 18446744073709551616"
  using uint_lt2p [of a] uint_lt2p [of b] uint_lt2p [of c] uint_lt2p [of d] by simp_all

lemma value_fits:
  "t \<in> set SCALAR_INT_TYPES \<Longrightarrow> value_matches (int_name t) v \<Longrightarrow> \<exists>a. int_of_value v = Some a \<and> fits t a"
  by (drule (1) int_type_cases, elim disjE exE conjE)
    (simp_all add: fits_def signed_bounds unsigned_bounds)

subsection \<open>Dispatch\<close>

lemma value_matches_unique: "value_matches t v \<Longrightarrow> value_matches u v \<Longrightarrow> t = u"
  by (cases v) (auto simp: value_matches_def)

lemma find_binary_entry:
  assumes "e \<in> set build_ops" "oe_category e = BinaryOp"
    and "value_matches (oe_left_type e) l" "value_matches (oe_right_type e) r"
  shows "List.find (\<lambda>x. oe_category x = BinaryOp \<and> oe_source_op x = oe_source_op e
              \<and> value_matches (oe_left_type x) l \<and> value_matches (oe_right_type x) r) build_ops = Some e"
  using assms by (intro find_unique [OF operands_distinct])
    (auto simp: same_operands_def dest: value_matches_unique)

text \<open>The semantics of a row of an integer type, with its result type and its trap.\<close>

lemma int_row_sem:
  "e \<in> set (int_ops t) \<Longrightarrow> oe_category e = BinaryOp \<Longrightarrow>
     (\<exists>arith k. oe_sem e = Arith arith k \<and> oe_result_type e = int_name t \<and>
        (oe_trap e = None \<longleftrightarrow> arith \<noteq> Div \<and> arith \<noteq> Rem)) \<or>
     (\<exists>b k. oe_sem e = Bit b k \<and> oe_result_type e = int_name t \<and> oe_trap e = None) \<or>
     (\<exists>shift k. oe_sem e = Shift shift k \<and> oe_result_type e = int_name t \<and> oe_trap e = None) \<or>
     (\<exists>cmp k. oe_sem e = Cmp cmp k \<and> oe_result_type e = ''Bool'' \<and> oe_trap e = None)"
  by (auto simp: int_ops_def bin_def un_def Let_def)

lemma eval_bit_type:
  assumes "t \<in> set SCALAR_INT_TYPES" "value_matches (int_name t) l" "value_matches (int_name t) r"
  shows "\<exists>v. eval_bit b l r = Inr v \<and> value_matches (int_name t) v"
  using int_type_cases [OF assms(1,2)] int_type_cases [OF assms(1,3)]
  by (elim disjE exE conjE) (simp_all add: eval_bit_def value_matches_def)

lemma bool_value: "value_matches ''Bool'' v \<longleftrightarrow> (\<exists>b. v = VBool b)"
  by (cases v) (auto simp: value_matches_def)

text \<open>C3. A row of the operator table applied to two values of its operand types never goes
  wrong: the evaluator returns a value of the row's result type, except for a row that declares
  a trap when the right operand is zero, where it reports that error. So the traps that the
  table gives to the lowered code are exactly the errors of the evaluator.\<close>

theorem binary_operators_progress:
  assumes e: "e \<in> set build_ops" "oe_category e = BinaryOp"
    and l: "value_matches (oe_left_type e) l" and r: "value_matches (oe_right_type e) r"
  shows "case eval_binary (oe_source_op e) l r of
      Inr v \<Rightarrow> value_matches (oe_result_type e) v \<and> (oe_trap e \<noteq> None \<longrightarrow> int_of_value r \<noteq> Some 0)
    | Inl err \<Rightarrow> oe_trap e \<noteq> None \<and> int_of_value r = Some 0"
  using e(1)
proof (rule build_ops_cases)
  note find = find_binary_entry [OF e l r]
  fix t assume t: "t \<in> set SCALAR_INT_TYPES" "e \<in> set (int_ops t)"
  then have lr: "value_matches (int_name t) l" "value_matches (int_name t) r"
    using int_ops_names [OF t(2)] e(2) l r by auto
  obtain a b where ab: "int_of_value l = Some a" "int_of_value r = Some b"
    using value_fits [OF t(1) lr(1)] value_fits [OF t(1) lr(2)] by auto
  note exact = eval_arith_exact [OF t(1) lr(1) ab(1) lr(2) ab(2)] eval_cmp_exact [OF t(1) lr(1) ab(1) lr(2) ab(2)]
    eval_shift_exact [OF t(1) lr(1) ab(1) lr(2) ab(2)]
  have cast: "value_matches (int_name t) (the (as_int_type t x))" for x
    using as_int_type_wraps [OF t(1), of x] by auto
  obtain f where f: "eval_bit b l r = Inr (f b)" "value_matches (int_name t) (f b)" for b
    using eval_bit_type [OF t(1) lr] by metis
  from int_row_sem [OF t(2) e(2)] show ?thesis
    using find cast exact f
    by (elim disjE exE conjE) (simp_all add: eval_binary_def Let_def ab traps_def bool_value)
next
  assume "e \<in> {bin ''and_bool'' ''&&'' ''Bool'' ''Bool'' ''Bool'' None PREC_LOGICAL_AND AndBool,
      bin ''or_bool'' ''||'' ''Bool'' ''Bool'' ''Bool'' None PREC_LOGICAL_OR OrBool,
      un ''not_bool'' ''!'' ''Bool'' ''Bool'' NotBool}"
  then show ?thesis using find_binary_entry [OF e l r] e(2) l r
    by (auto simp: bin_def un_def eval_binary_def Let_def bool_value)
qed

theorem binary_operators_progress_witness:
  "\<exists>err. eval_binary ''%'' (VI8 7) (VI8 0) = Inl err"
proof -
  let ?e = "bin ''mod_i8'' ''%'' ''I8'' ''I8'' ''I8'' (Some MOD_TRAP) PREC_MULTIPLICATIVE
    (Arith Rem \<lparr>ik_width = 1, ik_signed = True\<rparr>)"
  have "List.find (\<lambda>e. oe_kind e = ''mod_i8'') build_ops = Some ?e" by code_simp
  then have "?e \<in> set build_ops" by (simp add: find_Some_in)
  from binary_operators_progress [OF this, of "VI8 7" "VI8 0"] show ?thesis
    by (simp add: bin_def value_matches_def split: sum.splits)
qed

text \<open>C4. Arithmetic and shifts are exact arithmetic followed by a cast to the operand type: for
  every integer type, the result is the exact sum, difference, product, truncated quotient,
  remainder or shift (by the right operand modulo the width) reduced into the range of the type.\<close>

theorem integer_operators_exact:
  assumes t: "t \<in> set SCALAR_INT_TYPES"
    and l: "value_matches (int_name t) l" "int_of_value l = Some a"
    and r: "value_matches (int_name t) r" "int_of_value r = Some b"
  shows "eval_arith arith l r =
      (if traps arith b then Inl (arith_trap arith) else Inr (the (as_int_type t (exact_arith arith a b)))) \<and>
    eval_shift shift l r = Inr (the (as_int_type t (exact_shift shift (8 * int_width t) a b))) \<and>
    eval_cmp cmp l r = Inr (VBool (apply_cmp cmp a b)) \<and>
    int_of_value (the (as_int_type t x)) = Some (wrap_to t x)"
  using eval_arith_exact [OF assms] eval_shift_exact [OF assms] eval_cmp_exact [OF assms]
    as_int_type_wraps [OF t, of x] by auto

theorem integer_operators_exact_witness:
  "eval_arith Div (VI8 (- 128)) (VI8 (- 1)) = Inr (VI8 (- 128)) \<and>
   eval_shift Shr (VI8 (- 128)) (VI8 9) = Inr (VI8 (- 64))"
proof -
  let ?t = "\<lparr>int_name = ''I8'', int_width = 1, int_signed = True\<rparr>"
  have t: "?t \<in> set SCALAR_INT_TYPES" by (simp add: SCALAR_INT_TYPES_def)
  have "sint (- 128 :: 8 word) = - 128" "sint (- 1 :: 8 word) = - 1" "sint (9 :: 8 word) = 9" by simp_all
  then show ?thesis
    using integer_operators_exact [OF t, of "VI8 (- 128)" "- 128" "VI8 (- 1)" "- 1" Div]
      integer_operators_exact [OF t, of "VI8 (- 128)" "- 128" "VI8 9" 9 _ Shr]
    by (simp add: value_matches_def traps_def exact_arith_def exact_shift_def as_int_type_def signed_divide_int_def)
qed

text \<open>C38. A cast keeps the value modulo two to the width of the target, has the target's type,
  and is the identity on every value that fits; so a widening followed by the narrowing back is
  the identity.\<close>

theorem cast_wraps:
  assumes "s \<in> set SCALAR_INT_TYPES" "t \<in> set SCALAR_INT_TYPES" "value_matches (int_name s) v"
  shows "\<exists>a w. int_of_value v = Some a \<and> cast_int_value v t = Inr w \<and> value_matches (int_name t) w \<and>
    int_of_value w = Some (wrap_to t a) \<and> (fits t a \<longrightarrow> cast_int_value w s = Inr v)"
proof -
  obtain a where a: "int_of_value v = Some a" "fits s a" using value_fits [OF assms(1,3)] by auto
  obtain w where w: "as_int_type t a = Some w" "value_matches (int_name t) w" "int_of_value w = Some (wrap_to t a)"
    using as_int_type_wraps [OF assms(2), of a] by auto
  have ret: "as_int_type s a = Some v"
    using int_type_cases [OF assms(1,3)] a(1) by (elim disjE exE conjE) (auto simp: as_int_type_def)
  from a w ret show ?thesis by (auto simp: cast_int_value_def wrap_to_fits [OF assms(2)])
qed

theorem cast_wraps_witness:
  "\<exists>w. cast_int_value (VI8 (- 1)) \<lparr>int_name = ''U16'', int_width = 2, int_signed = False\<rparr> = Inr w \<and> int_of_value w = Some 65535"
proof -
  have "sint (- 1 :: 8 word) = - 1" by simp
  with cast_wraps [of "\<lparr>int_name = ''I8'', int_width = 1, int_signed = True\<rparr>"
      "\<lparr>int_name = ''U16'', int_width = 2, int_signed = False\<rparr>" "VI8 (- 1)"]
  show ?thesis by (auto simp: SCALAR_INT_TYPES_def value_matches_def wrap_to_def)
qed

text \<open>A literal is in range for a type exactly when the evaluator can read it, so a literal
  that type-checks is never an error at run time, whatever its text and the type.\<close>

theorem literals_in_range_evaluate:
  "int_literal_in_range s t \<longleftrightarrow> is_ok (int_literal_value s t)"
proof -
  have "as_int_type t x \<noteq> None" if "supported_width (int_width t)" for x
    using that by (auto simp: supported_width_def as_int_type_def)
  then show ?thesis
    by (auto simp: int_literal_in_range_def int_literal_value_def Let_def is_ok_iff split: prod.splits option.splits)
qed

end
