(* ===== verification/Hex.thy ===== *)
theory Hex
  imports Prelude "HOL-Library.Word"
begin

unbundle bit_operations_syntax

text \<open>
  The hex text of byte literals, \<open>src/src/types.rs\<close>: \<open>bytes_to_hex\<close>, its inverse
  \<open>hex_to_bytes\<close> and the check both the parser and the verifier of stored literals run.
  Bytes are \<open>8 word\<close>; a character of the text is read as its byte.
\<close>

definition HEX_DIGITS :: string where
  "HEX_DIGITS = ''0123456789abcdef''"

definition bytes_to_hex :: "8 word list \<Rightarrow> string" where
  "bytes_to_hex bytes =
     concat (map (\<lambda>byte. [HEX_DIGITS ! unat (drop_bit 4 byte), HEX_DIGITS ! unat (byte AND 0x0f)]) bytes)"

definition validate_hex_bytes :: "string \<Rightarrow> unit res" where
  "validate_hex_bytes hex =
     (if odd (length hex) then Inl (Bail ''hex byte string must have even length'' [])
      else res_fold (\<lambda>byte _.
        if (CHR ''0'' \<le> byte \<and> byte \<le> CHR ''9'') \<or> (CHR ''a'' \<le> byte \<and> byte \<le> CHR ''f'') then Inr ()
        else Inl (Bail ''hex byte string must use lowercase hex digits'' [])) hex ())"

definition hex_value :: "char \<Rightarrow> 8 word res" where
  "hex_value byte =
     (if CHR ''0'' \<le> byte \<and> byte \<le> CHR ''9'' then Inr (of_char byte - of_char (CHR ''0''))
      else if CHR ''a'' \<le> byte \<and> byte \<le> CHR ''f'' then Inr (of_char byte - of_char (CHR ''a'') + 10)
      else Inl (Bail ''invalid hex digit'' []))"

text \<open>The loop over the positions of even index.\<close>

fun hex_pairs :: "string \<Rightarrow> 8 word list res" where
  "hex_pairs (a # b # raw) =
     res_bind (hex_value a) (\<lambda>hi.
     res_bind (hex_value b) (\<lambda>lo.
     res_bind (hex_pairs raw) (\<lambda>bytes. Inr ((push_bit 4 hi OR lo) # bytes))))"
| "hex_pairs _ = Inr []"

definition hex_to_bytes :: "string \<Rightarrow> 8 word list res" where
  "hex_to_bytes hex = res_bind (validate_hex_bytes hex) (\<lambda>_. hex_pairs hex)"

subsection \<open>Digits\<close>

abbreviation lower_hex :: "char \<Rightarrow> bool" where
  "lower_hex c \<equiv> (CHR ''0'' \<le> c \<and> c \<le> CHR ''9'') \<or> (CHR ''a'' \<le> c \<and> c \<le> CHR ''f'')"

lemma below_16: "n < 16 \<Longrightarrow> n \<in> {0, 1, 2, 3, 4, 5, 6, 7, 8, 9, 10, 11, 12, 13, 14, 15 :: nat}"
  unfolding insert_iff empty_iff by arith

lemma hex_digit_value: "n < 16 \<Longrightarrow> lower_hex (HEX_DIGITS ! n) \<and> hex_value (HEX_DIGITS ! n) = Inr (word_of_nat n)"
  using below_16 [of n]
  by (auto simp: HEX_DIGITS_def hex_value_def less_eq_char_def)

lemma lower_hex_digit:
  assumes "lower_hex c"
  shows "\<exists>n < 16. c = HEX_DIGITS ! n"
proof -
  have "of_char c \<in> {48..57} \<union> {97..102 :: nat}"
    using assms by (auto simp: less_eq_char_def)
  then have "of_char c \<in> {48, 49, 50, 51, 52, 53, 54, 55, 56, 57, 97, 98, 99, 100, 101, 102 :: nat}"
    unfolding Un_iff atLeastAtMost_iff insert_iff empty_iff by arith
  moreover have "c = char_of (of_char c :: nat)" by simp
  ultimately have "c \<in> set HEX_DIGITS"
    by (auto simp: HEX_DIGITS_def char_of_def bit_Suc_0_iff)
  moreover have "length HEX_DIGITS = 16" by (simp add: HEX_DIGITS_def)
  ultimately show ?thesis by (metis in_set_conv_nth)
qed

lemma hex_value_ok: "is_ok (hex_value c) \<longleftrightarrow> lower_hex c"
  by (auto simp: hex_value_def)

lemma hex_value_digit: "hex_value c = Inr v \<Longrightarrow> \<exists>n < 16. c = HEX_DIGITS ! n \<and> v = word_of_nat n"
proof -
  assume v: "hex_value c = Inr v"
  then have "lower_hex c" using hex_value_ok [of c] by simp
  then obtain n where "n < 16" "c = HEX_DIGITS ! n" using lower_hex_digit by blast
  with v hex_digit_value [of n] show ?thesis by auto
qed

lemma validate_hex_bytes_ok:
  "validate_hex_bytes hex = Inr u \<longleftrightarrow> even (length hex) \<and> list_all lower_hex hex"
proof -
  have "res_fold (\<lambda>byte (_ :: unit). if lower_hex byte then Inr () else Inl e) hex w = Inr u
      \<longleftrightarrow> list_all lower_hex hex" for e :: error and w
    by (induction hex arbitrary: w) auto
  then show ?thesis by (auto simp: validate_hex_bytes_def)
qed

subsection \<open>Nibbles\<close>

lemma nibbles_below: "unat (drop_bit 4 (b :: 8 word)) < 16" "unat (b AND 0x0f) < 16"
proof -
  have "unat b < 2 ^ LENGTH(8)" by (rule unsigned_less)
  then have "unat b < 256" by simp
  then show "unat (drop_bit 4 b) < 16" by (simp only: unat_drop_bit_eq) (simp add: drop_bit_eq_div)
  have "b AND 0x0f = take_bit 4 b" by (simp add: take_bit_eq_mask mask_numeral)
  then show "unat (b AND 0x0f) < 16" by (simp only: unsigned_take_bit_eq) (simp add: take_bit_eq_mod)
qed

lemma nibbles_join: "push_bit 4 (drop_bit 4 (b :: 8 word)) OR (b AND 0x0f) = b"
proof (rule bit_word_eqI)
  fix n assume "n < LENGTH(8)"
  have "b AND 0x0f = take_bit 4 b" by (simp add: take_bit_eq_mask mask_numeral)
  then show "bit (push_bit 4 (drop_bit 4 b) OR (b AND 0x0f)) n = bit b n"
    using \<open>n < LENGTH(8)\<close> by (auto simp: bit_simps not_less)
qed

lemma nibbles_of_join:
  assumes "m < 16" "n < 16"
  shows "unat (drop_bit 4 (push_bit 4 (word_of_nat m :: 8 word) OR word_of_nat n)) = m"
    and "unat ((push_bit 4 (word_of_nat m :: 8 word) OR word_of_nat n) AND 0x0f) = n"
proof -
  have "m \<in> {0, 1, 2, 3, 4, 5, 6, 7, 8, 9, 10, 11, 12, 13, 14, 15}"
    "n \<in> {0, 1, 2, 3, 4, 5, 6, 7, 8, 9, 10, 11, 12, 13, 14, 15}"
    using below_16 assms by auto
  then show "unat (drop_bit 4 (push_bit 4 (word_of_nat m :: 8 word) OR word_of_nat n)) = m"
    and "unat ((push_bit 4 (word_of_nat m :: 8 word) OR word_of_nat n) AND 0x0f) = n"
    by auto
qed

lemma hex_pairs_to_hex: "hex_pairs (bytes_to_hex bs) = Inr bs"
  by (induction bs)
    (simp_all add: bytes_to_hex_def hex_digit_value [OF nibbles_below(1)] hex_digit_value [OF nibbles_below(2)]
      nibbles_join)

lemma hex_pairs_inverse: "even (length hex) \<Longrightarrow> hex_pairs hex = Inr bs \<Longrightarrow> bytes_to_hex bs = hex"
proof (induction hex arbitrary: bs rule: hex_pairs.induct)
  case (1 a b raw)
  then obtain hi lo tl where v: "hex_value a = Inr hi" "hex_value b = Inr lo" "hex_pairs raw = Inr tl"
    "bs = (push_bit 4 hi OR lo) # tl" by auto
  obtain m n where mn: "m < 16" "n < 16" "a = HEX_DIGITS ! m" "hi = word_of_nat m" "b = HEX_DIGITS ! n"
    "lo = word_of_nat n" using hex_value_digit v(1,2) by meson
  have "bytes_to_hex tl = raw" using 1 v by auto
  with v mn nibbles_of_join [OF mn(1,2)] show ?case by (simp add: bytes_to_hex_def)
qed (auto simp: bytes_to_hex_def)

lemma hex_pairs_total: "even (length hex) \<Longrightarrow> list_all lower_hex hex \<Longrightarrow> is_ok (hex_pairs hex)"
proof (induction hex rule: hex_pairs.induct)
  case (1 a b raw)
  then have "is_ok (hex_value a)" "is_ok (hex_value b)"
    by (simp_all add: hex_value_ok)
  then obtain hi lo where v: "hex_value a = Inr hi" "hex_value b = Inr lo" by (auto simp: is_ok_iff)
  have "is_ok (hex_pairs raw)" by (rule "1.IH" [OF v]) (use "1.prems" in auto)
  with v show ?case by (auto simp: is_ok_iff)
qed auto

text \<open>C35. Hex texts and byte strings are in bijection: a byte string is read back from its text,
  and a text that is accepted is the one \<open>bytes_to_hex\<close> prints. Exactly the texts of even length
  over the digits and the lower-case letters are accepted, so a literal has one spelling.\<close>

theorem hex_round_trip:
  "hex_to_bytes (bytes_to_hex bs) = Inr bs \<and>
   (hex_to_bytes hex = Inr cs \<longleftrightarrow> hex = bytes_to_hex cs) \<and>
   (is_ok (hex_to_bytes hex) \<longleftrightarrow> even (length hex) \<and> list_all lower_hex hex)"
proof (intro conjI)
  have digits: "even (length (bytes_to_hex xs)) \<and> list_all lower_hex (bytes_to_hex xs)" for xs
    by (induction xs)
      (simp_all add: bytes_to_hex_def hex_digit_value [OF nibbles_below(1), THEN conjunct1]
        hex_digit_value [OF nibbles_below(2), THEN conjunct1])
  have inverse: "hex_to_bytes (bytes_to_hex xs) = Inr xs" for xs
    using digits [of xs] by (simp add: hex_to_bytes_def validate_hex_bytes_ok hex_pairs_to_hex)
  show "hex_to_bytes (bytes_to_hex bs) = Inr bs" by (rule inverse)
  show "hex_to_bytes hex = Inr cs \<longleftrightarrow> hex = bytes_to_hex cs"
    using inverse hex_pairs_inverse [of hex cs] by (auto simp: hex_to_bytes_def validate_hex_bytes_ok)
  show "is_ok (hex_to_bytes hex) \<longleftrightarrow> even (length hex) \<and> list_all lower_hex hex"
    using hex_pairs_total by (auto simp: hex_to_bytes_def validate_hex_bytes_ok)
qed

end
