(* ===== verification/Operations.thy ===== *)
theory Operations
  imports Model Raw
begin

text \<open>
  The operations of \<open>src/src/migrations.rs\<close> as data: the enum \<open>Operation\<close> with the member
  specifications it carries, and the conditions a migration is recorded with. The guards on
  the name tables of a root that both the conditions and the operations use follow them.
\<close>

subsection \<open>Operations\<close>

datatype effect_kind = Pure | Trap | Io | State | Alloc | Ffi | Unsafe | Concurrent

record param_spec =
  ps_name :: string
  ps_ty :: string

record type_member_spec =
  tm_name :: string
  tm_ty :: string

datatype type_definition_kind =
    RecordDef "type_member_spec list"
  | EnumDef "type_member_spec list"

record symbol_birth_spec =
  sb_symbol_kind :: string
  sb_birth_history_hash :: string
  sb_local_nonce :: string
  sb_owner_type_symbol :: "string option"

record type_definition_identity =
  ti_type_symbol_birth :: symbol_birth_spec
  ti_region_param_births :: "symbol_birth_spec list"
  ti_member_births :: "symbol_birth_spec list"

record recursion_group_member_spec =
  rg_name :: string
  rg_region_params :: "string list"
  rg_type_params :: "string list"
  rg_params :: "param_spec list"
  rg_return_type :: string
  rg_effects :: "effect_kind list"
  rg_body :: raw_expr

record type_group_member_spec =
  tg_name :: string
  tg_region_params :: "string list"
  tg_definition :: type_definition_kind
  tg_identity :: "type_definition_identity option"

record merge_object_payload =
  mo_hash :: string
  mo_kind :: string
  mo_payload :: json

datatype test_category = Behavior | Projection | Export

datatype test_mode = Reference | ReferenceAndNative

datatype test_value =
    TvI8 string | TvI16 string | TvI32 string | TvI64 string
  | TvU8 nat | TvU16 string | TvU32 string | TvU64 string
  | TvBool bool
  | TvUnit
  | TvArray "test_value list"
  | TvRecord "(string \<times> test_value) list"
  | TvEnum string test_value

text \<open>
  The fields of a constructor come in the order of the source. The birth seeds, bodies and
  signatures of the creating operations are kept: they are part of what is recorded.
\<close>

datatype (plugins only: code size) operation =
    CreateFunction (co_module: string) (co_name: string) string "string list" "string list"
      "param_spec list" string "effect_kind list" raw_expr
  | CreateExternalFunction string string string "string list" "param_spec list" string
      "effect_kind list" string string "string option"
  | CreateRecursionGroup string "recursion_group_member_spec list"
  | CreateTypeGroup string "type_group_member_spec list"
  | CreateType string string string "string list" "string list" type_definition_kind
      "type_definition_identity option"
  | RenameType string string string string
  | MoveType string string string string
  | AddField string string string type_member_spec string
  | RenameField string string string string string string
  | RemoveField string string string string string
  | AddVariant string string string type_member_spec string
  | RenameVariant string string string string string string
  | RemoveVariant string string string string string
  | RenameSymbol string string string string
  | MoveSymbol string string string string
  | ReplaceFunctionBody string string string raw_expr
  | ChangeFunctionSignature string string string "string list" "param_spec list" string
      "effect_kind list"
  | AddParameter string string string param_spec "raw_expr option"
  | ConvertParamToReference string string string nat string string bool
  | DeleteSymbol string string string bool
  | CreateAlias string string string string
  | RemoveAlias string string string string
  | SetExport string string string string
  | RemoveExport string string string string
  | CreateTest string string string string test_category test_mode "test_value list" test_value
      bool bool
  | DeleteTest string string
  | MergeBranch string string string "string option" string "string option" program_root
      "merge_object_payload list"

fun kind_name :: "operation \<Rightarrow> string" where
  "kind_name (CreateFunction _ _ _ _ _ _ _ _ _) = ''create_function''"
| "kind_name (CreateRecursionGroup _ _) = ''create_recursion_group''"
| "kind_name (CreateTypeGroup _ _) = ''create_type_group''"
| "kind_name (CreateExternalFunction _ _ _ _ _ _ _ _ _ _) = ''create_external_function''"
| "kind_name (CreateType _ _ _ _ _ _ _) = ''create_type''"
| "kind_name (RenameType _ _ _ _) = ''rename_type''"
| "kind_name (MoveType _ _ _ _) = ''move_type''"
| "kind_name (AddField _ _ _ _ _) = ''add_field''"
| "kind_name (RenameField _ _ _ _ _ _) = ''rename_field''"
| "kind_name (RemoveField _ _ _ _ _) = ''remove_field''"
| "kind_name (AddVariant _ _ _ _ _) = ''add_variant''"
| "kind_name (RenameVariant _ _ _ _ _ _) = ''rename_variant''"
| "kind_name (RemoveVariant _ _ _ _ _) = ''remove_variant''"
| "kind_name (RenameSymbol _ _ _ _) = ''rename_symbol''"
| "kind_name (MoveSymbol _ _ _ _) = ''move_symbol''"
| "kind_name (ReplaceFunctionBody _ _ _ _) = ''replace_function_body''"
| "kind_name (ChangeFunctionSignature _ _ _ _ _ _ _) = ''change_function_signature''"
| "kind_name (AddParameter _ _ _ _ _) = ''add_parameter''"
| "kind_name (ConvertParamToReference _ _ _ _ _ _ _) = ''convert_param_to_reference''"
| "kind_name (DeleteSymbol _ _ _ _) = ''delete_symbol''"
| "kind_name (CreateAlias _ _ _ _) = ''create_alias''"
| "kind_name (RemoveAlias _ _ _ _) = ''remove_alias''"
| "kind_name (SetExport _ _ _ _) = ''set_export''"
| "kind_name (RemoveExport _ _ _ _) = ''remove_export''"
| "kind_name (CreateTest _ _ _ _ _ _ _ _ _ _) = ''create_test''"
| "kind_name (DeleteTest _ _) = ''delete_test''"
| "kind_name (MergeBranch _ _ _ _ _ _ _ _) = ''merge_branch''"

subsection \<open>Conditions\<close>

datatype (plugins only: code size) precondition =
    RootIsCurrent string
  | NameIsAvailable string string
  | TypeNameIsAvailable string string
  | NamePointsToSymbol string string string
  | TypeNamePointsToType string string string
  | PreferredTypeNamePointsToType string string string
  | FieldPointsToSymbol string string string
  | FieldNameIsAvailable string string
  | VariantPointsToSymbol string string string
  | VariantNameIsAvailable string string
  | PreferredNamePointsToSymbol string string string
  | AliasPointsToSymbol string string string
  | ExportNameIsAvailable string
  | ExportPointsToSymbol string string
  | TestNameIsAvailable string
  | TestNamePointsToTest string string

datatype (plugins only: code size) postcondition =
    RootExists string
  | FunctionSourceMatches string string "string list" "string list" "param_spec list" string
      "effect_kind list" raw_expr
  | ExternalFunctionSourceMatches string string "string list" "param_spec list" string
      "effect_kind list" string string "string option"
  | TypeSourceMatches string string "string list" "string list" type_definition_kind
  | PostNamePointsToSymbol string string string
  | PostTypeNamePointsToType string string string
  | NameAbsent string string
  | TypeNameAbsent string string
  | PostFieldPointsToSymbol string string string
  | FieldAbsent string string string
  | PostVariantPointsToSymbol string string string
  | VariantAbsent string string string
  | BodySourceMatches string string string raw_expr
  | SignatureSourceMatches string string string "string list" "param_spec list" string
      "effect_kind list"
  | SymbolAbsent string
  | PostExportPointsToSymbol string string
  | ExportAbsent string
  | PostTestNamePointsToTest string string
  | TestAbsent string string

subsection \<open>Guards on the tables of a root\<close>

definition name_points_to_symbol :: "program_root \<Rightarrow> string \<Rightarrow> string \<Rightarrow> string \<Rightarrow> bool" where
  "name_points_to_symbol root module name symbol =
     list_ex (\<lambda>b. nb_module b = module \<and> nb_display_name b = name \<and> nb_symbol b = symbol) (names root)"

definition type_name_points_to_type :: "program_root \<Rightarrow> string \<Rightarrow> string \<Rightarrow> string \<Rightarrow> bool" where
  "type_name_points_to_type root module name type_symbol =
     list_ex (\<lambda>b. tnb_module b = module \<and> tnb_display_name b = name \<and> tnb_type_symbol b = type_symbol)
       (type_names root)"

definition preferred_name_points_to_symbol :: "program_root \<Rightarrow> string \<Rightarrow> string \<Rightarrow> string \<Rightarrow> bool" where
  "preferred_name_points_to_symbol root module name symbol =
     list_ex (\<lambda>b. nb_module b = module \<and> nb_display_name b = name \<and> nb_symbol b = symbol
       \<and> nb_is_preferred b) (names root)"

definition preferred_type_name_points_to_type :: "program_root \<Rightarrow> string \<Rightarrow> string \<Rightarrow> string \<Rightarrow> bool" where
  "preferred_type_name_points_to_type root module name type_symbol =
     list_ex (\<lambda>b. tnb_module b = module \<and> tnb_display_name b = name \<and> tnb_type_symbol b = type_symbol
       \<and> tnb_is_preferred b) (type_names root)"

definition alias_points_to_symbol :: "program_root \<Rightarrow> string \<Rightarrow> string \<Rightarrow> string \<Rightarrow> bool" where
  "alias_points_to_symbol root module alias symbol =
     list_ex (\<lambda>b. nb_module b = module \<and> nb_display_name b = alias \<and> nb_symbol b = symbol
       \<and> \<not> nb_is_preferred b) (names root)"

definition symbol_for_name :: "program_root \<Rightarrow> string \<Rightarrow> string \<Rightarrow> string option" where
  "symbol_for_name root module name =
     map_option nb_symbol
       (List.find (\<lambda>b. nb_module b = module \<and> nb_display_name b = name) (names root))"

definition type_symbol_for_name :: "program_root \<Rightarrow> string \<Rightarrow> string \<Rightarrow> string option" where
  "type_symbol_for_name root module name =
     map_option tnb_type_symbol
       (List.find (\<lambda>b. tnb_module b = module \<and> tnb_display_name b = name) (type_names root))"

definition preferred_module_for_symbol :: "program_root \<Rightarrow> string \<Rightarrow> string res" where
  "preferred_module_for_symbol root symbol =
     ok_or (map_option nb_module
       (case List.find (\<lambda>b. nb_symbol b = symbol \<and> nb_is_preferred b) (names root) of
          Some b \<Rightarrow> Some b
        | None \<Rightarrow> List.find (\<lambda>b. nb_symbol b = symbol) (names root)))
       (Bail ''symbol {} has no name binding'' [symbol])"

definition export_points_to_symbol :: "program_root \<Rightarrow> string \<Rightarrow> string \<Rightarrow> bool" where
  "export_points_to_symbol root name symbol =
     list_ex (\<lambda>b. eb_exported_name b = name \<and> eb_symbol b = symbol) (exports root)"

definition test_name_points_to_test :: "program_root \<Rightarrow> string \<Rightarrow> string \<Rightarrow> bool" where
  "test_name_points_to_test root name test =
     list_ex (\<lambda>b. tb_name b = name \<and> tb_test b = test) (tests root)"

definition assert_name_points :: "program_root \<Rightarrow> string \<Rightarrow> string \<Rightarrow> string \<Rightarrow> unit res" where
  "assert_name_points root module name symbol =
     (if list_ex (\<lambda>b. nb_module b = module \<and> nb_display_name b = name \<and> nb_symbol b = symbol) (names root)
      then Inr ()
      else Inl (Bail ''precondition failed: {}.{} does not point to {}'' [module, name, symbol]))"

definition assert_type_name_points :: "program_root \<Rightarrow> string \<Rightarrow> string \<Rightarrow> string \<Rightarrow> unit res" where
  "assert_type_name_points root module name type_symbol =
     (if type_name_points_to_type root module name type_symbol then Inr ()
      else Inl (Bail ''precondition failed: {}.{} does not point to {}'' [module, name, type_symbol]))"

text \<open>A loop over names with a set of those seen, as the validators of parameter lists run.\<close>

definition claim_param_name :: "string \<Rightarrow> string \<Rightarrow> string \<Rightarrow> string list \<Rightarrow> string list res" where
  "claim_param_name label dup name seen =
     res_bind (validate_projection_identifier label name) (\<lambda>_.
       if name \<in> set seen then Inl (Bail dup [name]) else Inr (bset_insert name seen))"

definition validate_param_names :: "param_spec list \<Rightarrow> unit res" where
  "validate_param_names params =
     res_bind (res_fold (\<lambda>p. claim_param_name ''parameter name'' ''duplicate parameter name {:?}'' (ps_name p))
       params []) (\<lambda>_. Inr ())"

definition validate_region_param_names :: "string list \<Rightarrow> unit res" where
  "validate_region_param_names params =
     res_bind (res_fold (claim_param_name ''region parameter'' ''duplicate region parameter {}'') params [])
       (\<lambda>_. Inr ())"

definition claim_member :: "string \<Rightarrow> type_member_spec \<Rightarrow> string list \<Rightarrow> string list res" where
  "claim_member label member seen =
     res_bind (validate_projection_identifier label (tm_name member)) (\<lambda>_.
       if tm_name member \<in> set seen then Inl (Bail ''duplicate {} {}'' [label, tm_name member])
       else Inr (bset_insert (tm_name member) seen))"

definition validate_member_specs :: "string \<Rightarrow> type_member_spec list \<Rightarrow> unit res" where
  "validate_member_specs label members =
     res_bind (res_fold (claim_member label) members []) (\<lambda>_. Inr ())"

fun validate_type_member_specs :: "type_definition_kind \<Rightarrow> unit res" where
  "validate_type_member_specs (RecordDef fs) =
     (if fs = [] then Inl (Bail ''record fields must not be empty'' [])
      else validate_member_specs ''record field'' fs)"
| "validate_type_member_specs (EnumDef variants) =
     (if variants = [] then Inl (Bail ''enum variants must not be empty'' [])
      else validate_member_specs ''enum variant'' variants)"

end
