(* ===== verification/Canonical.thy ===== *)
theory Canonical
  imports Json "HOL-Library.Word"
begin

text \<open>
  Canonical text and content hashes, \<open>src/src/store.rs\<close>, and the hex text of byte strings,
  \<open>src/src/types.rs\<close>. The name of an object is the hash of its kind, the schema version and
  the canonical text of its payload: the theory shows that the text determines the payload up
  to the order of object entries, so that the name does.

  Two functions of other crates are parameters: \<open>quote\<close> is \<open>serde_json::to_string\<close> on a string,
  a JSON string literal, and \<open>sha256\<close> the hex digest of \<open>sha2\<close>.
\<close>

definition SCHEMA_VERSION :: int where
  "SCHEMA_VERSION = 1"

definition OBJECT_DOMAIN :: string where
  "OBJECT_DOMAIN = ''codedb/object/v1'' @ [CHR 0x00]"

definition MIGRATION_DOMAIN :: string where
  "MIGRATION_DOMAIN = ''codedb/migration/v1'' @ [CHR 0x00]"

definition HISTORY_DOMAIN :: string where
  "HISTORY_DOMAIN = ''codedb/history/v1'' @ [CHR 0x00]"

definition dec_int :: "int \<Rightarrow> string" where
  "dec_int i = (if i < 0 then CHR ''-'' # dec_nat (nat (- i)) else dec_nat (nat i))"

lemma size_entry [termination_simp]: "(k, v) \<in> set m \<Longrightarrow> size v < Suc (size_list (size_prod (\<lambda>_. 0) size) m)"
  by (induction m) auto

function canonical_json :: "(string \<Rightarrow> string) \<Rightarrow> json \<Rightarrow> string" where
  "canonical_json quote JNull = ''null''"
| "canonical_json quote (JBool b) = (if b then ''true'' else ''false'')"
| "canonical_json quote (JInt i) = dec_int i"
| "canonical_json quote (JFloat s) = s"
| "canonical_json quote (JStr s) = quote s"
| "canonical_json quote (JArr vs) =
     ''['' @ join_with '','' (map (canonical_json quote) vs) @ '']''"
| "canonical_json quote (JObj m) =
     (let entries = sort_key fst m
      in ''{'' @ join_with '','' (map (\<lambda>(k, v). quote k @ '':'' @ canonical_json quote v) entries) @ ''}'')"
  by pat_completeness auto

termination
  by (relation "measure (\<lambda>(_, v). size v)") (auto simp: termination_simp less_Suc_eq_le size_list_estimation')

definition hash_bytes :: "(string \<Rightarrow> string) \<Rightarrow> string \<Rightarrow> string \<Rightarrow> string" where
  "hash_bytes sha256 domain bytes = ''sha256:'' @ sha256 (domain @ bytes)"

definition hash_object_canonical :: "(string \<Rightarrow> string) \<Rightarrow> string \<Rightarrow> int \<Rightarrow> string \<Rightarrow> string" where
  "hash_object_canonical sha256 kind schema_version canonical_payload =
     ''sha256:'' @ sha256 (OBJECT_DOMAIN @ kind @ [CHR 0x00] @ dec_int schema_version @ [CHR 0x00]
       @ canonical_payload)"

text \<open>The strings of a value that name objects, in the order they are met.\<close>

fun extract_hash_strings :: "json \<Rightarrow> string list \<Rightarrow> string list" where
  "extract_hash_strings (JStr s) out = (if starts_with ''sha256:'' s then out @ [s] else out)"
| "extract_hash_strings (JArr vs) out = fold extract_hash_strings vs out"
| "extract_hash_strings (JObj m) out = fold (\<lambda>(_, v). extract_hash_strings v) m out"
| "extract_hash_strings _ out = out"

subsection \<open>Canonical text\<close>

text \<open>The same value with its entries in the order of their keys.\<close>

function json_norm :: "json \<Rightarrow> json" where
  "json_norm (JArr vs) = JArr (map json_norm vs)"
| "json_norm (JObj m) = JObj (map (\<lambda>(k, v). (k, json_norm v)) (sort_key fst m))"
| "json_norm JNull = JNull"
| "json_norm (JBool b) = JBool b"
| "json_norm (JInt i) = JInt i"
| "json_norm (JFloat s) = JFloat s"
| "json_norm (JStr s) = JStr s"
  by pat_completeness auto
termination
  by (relation "measure size") (auto simp: termination_simp less_Suc_eq_le size_list_estimation')

definition number_chars :: "char set" where
  "number_chars = set ''0123456789+-.eE''"

definition delims :: "char set" where
  "delims = set '',]}:''"

text \<open>
  The values the store holds: the keys of an object are distinct, and the text of a number
  that is not an integer shows it.
\<close>

fun json_ok :: "json \<Rightarrow> bool" where
  "json_ok (JFloat s) \<longleftrightarrow> s \<noteq> [] \<and> set s \<subseteq> number_chars \<and> (\<exists>c \<in> set s. c \<in> set ''.eE'')"
| "json_ok (JArr vs) \<longleftrightarrow> (\<forall>v \<in> set vs. json_ok v)"
| "json_ok (JObj m) \<longleftrightarrow> distinct (map fst m) \<and> (\<forall>(k, v) \<in> set m. json_ok v)"
| "json_ok _ \<longleftrightarrow> True"

text \<open>A JSON string literal opens with a quote, and where it ends does not depend on what follows.\<close>

definition quote_ok :: "(string \<Rightarrow> string) \<Rightarrow> bool" where
  "quote_ok quote \<longleftrightarrow>
     (\<forall>s. quote s \<noteq> [] \<and> hd (quote s) = CHR 0x22) \<and>
     (\<forall>s t x y. quote s @ x = quote t @ y \<longrightarrow> s = t \<and> x = y)"

definition ends :: "string \<Rightarrow> bool" where
  "ends x \<longleftrightarrow> x = [] \<or> hd x \<in> delims"

lemma ends_Cons [simp]: "ends (c # x) \<longleftrightarrow> c \<in> delims" "ends []"
  by (simp_all add: ends_def)

lemma token_split:
  assumes "set s \<inter> delims = {}" and "set t \<inter> delims = {}" and "ends x" and "ends y"
    and "s @ x = t @ y"
  shows "s = t \<and> x = y"
proof -
  have "takeWhile (\<lambda>c. c \<notin> delims) (u @ z) = u" if "set u \<inter> delims = {}" "ends z" for u z
    using that by (subst takeWhile_append2) (auto simp: ends_def takeWhile_eq_Nil_iff)
  from this [OF assms(1,3)] this [OF assms(2,4)] assms(5) show ?thesis by auto
qed

lemma join_with_Cons: "join_with sep (s # ss) = s @ (if ss = [] then [] else sep @ join_with sep ss)"
  by (cases ss) auto

lemma join_split:
  assumes code: "\<And>v w x y. v \<in> set vs \<Longrightarrow> w \<in> set ws \<Longrightarrow> ends x \<Longrightarrow> ends y \<Longrightarrow>
        f v @ x = f w @ y \<Longrightarrow> g v = g w \<and> x = y"
    and heads: "\<And>v. v \<in> set vs \<union> set ws \<Longrightarrow> f v \<noteq> [] \<and> hd (f v) \<noteq> c"
    and c: "c \<in> delims" "c \<noteq> CHR '',''"
    and eq: "join_with '','' (map f vs) @ c # x = join_with '','' (map f ws) @ c # y"
  shows "map g vs = map g ws \<and> x = y"
  using code heads eq
proof (induction vs arbitrary: ws)
  case Nil
  show ?case
  proof (cases ws)
    case (Cons w us)
    have w: "f w \<noteq> [] \<and> hd (f w) \<noteq> c" by (rule Nil.prems(2)) (simp add: Cons)
    with Nil.prems(3) Cons show ?thesis by (cases "f w") (auto simp: join_with_Cons)
  qed (use Nil in simp)
next
  case (Cons v vs)
  have v: "f v \<noteq> [] \<and> hd (f v) \<noteq> c" using Cons.prems(2) [of v] by simp
  show ?case
  proof (cases ws)
    case Nil
    with v Cons.prems(3) show ?thesis by (cases "f v") (auto simp: join_with_Cons)
  next
    case ws: (Cons w us)
    let ?rest = "\<lambda>zs z. (if zs = [] then [] else CHR '','' # join_with '','' (map f zs)) @ c # z"
    have "f v @ ?rest vs x = f w @ ?rest us y"
      using Cons.prems(3) ws by (simp add: join_with_Cons split: if_splits)
    moreover have "ends (?rest vs x)" "ends (?rest us y)" using c(1) by (auto simp: delims_def)
    ultimately have vw: "g v = g w" and rest: "?rest vs x = ?rest us y"
      using Cons.prems(1) [of v w "?rest vs x" "?rest us y"] ws by auto
    have "vs = [] \<longleftrightarrow> us = []" using rest c(2) by (auto split: if_splits)
    then have texts: "join_with '','' (map f vs) @ c # x = join_with '','' (map f us) @ c # y"
      using rest by (auto split: if_splits)
    have "map g vs = map g us \<and> x = y"
    proof (rule Cons.IH [OF _ _ texts])
      show "g a = g b \<and> x' = y'"
        if "a \<in> set vs" "b \<in> set us" "ends x'" "ends y'" "f a @ x' = f b @ y'" for a b x' y'
        using Cons.prems(1) [of a b x' y'] that ws by simp
      show "f a \<noteq> [] \<and> hd (f a) \<noteq> c" if "a \<in> set vs \<union> set us" for a
        using Cons.prems(2) [of a] that ws by auto
    qed
    with vw ws show ?thesis by simp
  qed
qed

fun is_token :: "json \<Rightarrow> bool" where
  "is_token (JStr s) = False"
| "is_token (JArr vs) = False"
| "is_token (JObj m) = False"
| "is_token _ = True"

lemma dec_nat_not_Nil: "dec_nat n \<noteq> []"
  by (subst dec_nat.simps) simp

text \<open>The codes of the characters of a decimal number: a minus sign or a digit.\<close>

lemma dec_int_codes: "c \<in> set (dec_int i) \<Longrightarrow> of_char c = (45 :: nat) \<or> of_char c \<in> {48..57 :: nat}"
  using dec_nat_digits by (auto simp: dec_int_def split: if_splits)

lemma dec_int_not_in:
  "d \<in> set ''abcdefghijklmnopqrstuvwxyz.E,]}:[{'' \<union> {CHR 0x22, CHR 0x00} \<Longrightarrow> d \<notin> set (dec_int i)"
  using dec_int_codes [of d i] by auto

lemma dec_int_not_Nil: "dec_int i \<noteq> []"
  by (simp add: dec_int_def dec_nat_not_Nil)

lemma dec_nat_not_minus: "dec_nat n \<noteq> CHR ''-'' # s"
proof
  assume "dec_nat n = CHR ''-'' # s"
  then have "CHR ''-'' \<in> set (dec_nat n)" by simp
  from dec_nat_digits [OF this] show False by simp
qed

lemma dec_int_inject [simp]: "dec_int i = dec_int j \<longleftrightarrow> i = j"
  using dec_nat_not_minus dec_nat_not_minus [symmetric] by (auto simp: dec_int_def)

lemma token_text:
  assumes "is_token v" and "json_ok v"
  shows "canonical_json q v \<noteq> [] \<and> set (canonical_json q v) \<inter> set ('',]}:[{'' @ [CHR 0x22]) = {}"
proof (cases v)
  case (JInt i)
  then show ?thesis using dec_int_not_in [of _ i] dec_int_not_Nil by auto
next
  case (JFloat s)
  then have "s \<noteq> []" "set s \<subseteq> number_chars" using assms by auto
  moreover have "number_chars \<inter> set ('',]}:[{'' @ [CHR 0x22]) = {}" by (simp add: number_chars_def)
  ultimately show ?thesis using JFloat by auto
qed (use assms in auto)

lemma token_inject:
  assumes "is_token v" "is_token w" "json_ok v" "json_ok w" "canonical_json q v = canonical_json q w"
  shows "v = w"
proof -
  have int_float: "dec_int i \<noteq> s \<and> s \<noteq> dec_int i" if ok: "json_ok (JFloat s)" for i s
  proof -
    obtain c where c: "c \<in> set s" "c \<in> set ''.eE''" using ok unfolding json_ok.simps by blast
    have "c \<notin> set (dec_int i)" by (rule dec_int_not_in) (use c(2) in auto)
    with c(1) show ?thesis by blast
  qed
  have word_int: "dec_int i \<noteq> c # s \<and> c # s \<noteq> dec_int i" if "c \<in> set ''ntf''" for i c s
  proof -
    have "c \<notin> set (dec_int i)" by (rule dec_int_not_in) (use that in auto)
    then show ?thesis by (metis list.set_intros(1))
  qed
  have word_float: "c # s \<noteq> t \<and> t \<noteq> c # s" if "json_ok (JFloat t)" "c \<in> set ''ntf''" for t c s
    using that by (fastforce simp: number_chars_def)
  show ?thesis
  proof (cases v)
    case (JInt i)
    then show ?thesis using assms int_float word_int by (cases w) (auto split: if_splits)
  next
    case (JFloat s)
    then show ?thesis using assms int_float word_float by (cases w) (auto simp: number_chars_def split: if_splits)
  next
    case JNull
    then show ?thesis using assms word_int word_float by (cases w) (auto simp: number_chars_def split: if_splits)
  next
    case (JBool b)
    then show ?thesis using assms word_int word_float by (cases w) (auto simp: number_chars_def split: if_splits)
  qed (use assms in auto)
qed

text \<open>
  The text of a value ends where the value ends: two values whose texts are followed by
  delimiters agree, with what follows, when the whole texts do.
\<close>

lemma quote_okD: "quote_ok q \<Longrightarrow> q s @ x = q t @ y \<Longrightarrow> s = t \<and> x = y"
  unfolding quote_ok_def by blast

lemma quote_head: "quote_ok q \<Longrightarrow> q s \<noteq> [] \<and> hd (q s) = CHR 0x22"
  unfolding quote_ok_def by blast

lemma canonical_opens:
  assumes "quote_ok q" and "\<not> is_token w"
  shows "canonical_json q w \<noteq> [] \<and> hd (canonical_json q w) \<in> set ''[{'' \<union> {CHR 0x22}"
  using assms quote_head [OF assms(1)] by (cases w) (auto simp: Let_def)

lemma canonical_head:
  assumes "quote_ok q" and "json_ok v"
  shows "canonical_json q v \<noteq> [] \<and> hd (canonical_json q v) \<notin> delims"
proof (cases "is_token v")
  case True
  from token_text [OF this assms(2), of q] show ?thesis
    by (cases "canonical_json q v") (auto simp: delims_def)
next
  case False
  from canonical_opens [OF assms(1) this] show ?thesis by (auto simp: delims_def)
qed

lemma token_head_other:
  assumes "quote_ok q" and "is_token v" "json_ok v" "\<not> is_token w"
  shows "canonical_json q v @ x \<noteq> canonical_json q w @ y"
proof
  assume eq: "canonical_json q v @ x = canonical_json q w @ y"
  have v: "canonical_json q v \<noteq> []" "hd (canonical_json q v) \<notin> set ''[{'' \<union> {CHR 0x22}"
    using token_text [OF assms(2,3), of q] by (cases "canonical_json q v"; auto)+
  have "hd (canonical_json q v) = hd (canonical_json q w)"
    using arg_cong [OF eq, of hd] v(1) canonical_opens [OF assms(1,4)] by simp
  with v(2) canonical_opens [OF assms(1,4)] show False by simp
qed

lemma token_canonical_split:
  assumes "quote_ok q" "is_token v" "json_ok v" "json_ok w" "ends x" "ends y"
    and eq: "canonical_json q v @ x = canonical_json q w @ y"
  shows "v = w \<and> x = y"
proof -
  have w: "is_token w" using token_head_other [OF assms(1-3)] eq by blast
  have no: "set (canonical_json q u) \<inter> delims = {}" if "is_token u" "json_ok u" for u
    using token_text [OF that, of q] by (auto simp: delims_def)
  from token_split [OF no no assms(5,6) eq] token_inject [of v w q] assms w show ?thesis by blast
qed

text \<open>Texts of strings, arrays and objects start with different characters.\<close>

lemma canonical_eq_shape:
  assumes q: "quote_ok q" and eq: "canonical_json q v @ x = canonical_json q w @ y" and ok: "json_ok w"
  shows "v = JArr vs \<Longrightarrow> \<exists>ws. w = JArr ws" and "v = JObj m \<Longrightarrow> \<exists>n. w = JObj n"
    and "v = JStr s \<Longrightarrow> \<exists>t. w = JStr t"
proof -
  have hd_eq: "hd (canonical_json q v) = hd (canonical_json q w)" if "\<not> is_token v"
    using arg_cong [OF eq, of hd] canonical_head [OF q ok] canonical_opens [OF q that] by simp
  have token: "\<not> is_token w" if "\<not> is_token v"
    using token_head_other [OF q _ ok that] eq by metis
  show "v = JArr vs \<Longrightarrow> \<exists>ws. w = JArr ws" using hd_eq token quote_head [OF q] by (cases w) (auto simp: Let_def)
  show "v = JObj m \<Longrightarrow> \<exists>n. w = JObj n" using hd_eq token quote_head [OF q] by (cases w) (auto simp: Let_def)
  show "v = JStr s \<Longrightarrow> \<exists>t. w = JStr t" using hd_eq token quote_head [OF q] by (cases w) (auto simp: Let_def)
qed

lemma canonical_split:
  assumes q: "quote_ok q"
  shows "json_ok v \<Longrightarrow> json_ok w \<Longrightarrow> ends x \<Longrightarrow> ends y \<Longrightarrow>
     canonical_json q v @ x = canonical_json q w @ y \<Longrightarrow> json_norm v = json_norm w \<and> x = y"
proof (induction v arbitrary: w x y rule: json_norm.induct)
  case (1 vs)
  note prems = "1.prems"
  obtain ws where w: "w = JArr ws" using canonical_eq_shape(1) [OF q prems(5,2)] by blast
  have code: "json_norm v = json_norm u \<and> x' = y'"
    if "v \<in> set vs" "u \<in> set ws" "ends x'" "ends y'" "canonical_json q v @ x' = canonical_json q u @ y'"
    for v u x' y'
    using "1.IH" [OF that(1) _ _ that(3,4,5)] prems(1,2) w that(1,2) by simp
  have heads: "canonical_json q v \<noteq> [] \<and> hd (canonical_json q v) \<noteq> CHR '']''"
    if "v \<in> set vs \<union> set ws" for v
    using canonical_head [OF q, of v] prems(1,2) w that by (auto simp: delims_def)
  have "map json_norm vs = map json_norm ws \<and> x = y"
    by (rule join_split [where c = "CHR '']''", OF code heads])
      (use prems(5) w in \<open>auto simp: delims_def\<close>)
  then show ?case using w by simp
next
  case (2 m)
  note prems = "2.prems"
  obtain n where w: "w = JObj n" using canonical_eq_shape(2) [OF q prems(5,2)] by blast
  let ?f = "\<lambda>(k, v). q k @ CHR '':'' # canonical_json q v" and ?g = "\<lambda>(k, v). (k, json_norm v)"
  have code: "?g a = ?g b \<and> x' = y'"
    if ab: "a \<in> set (sort_key fst m)" "b \<in> set (sort_key fst n)" and x: "ends x'" "ends y'"
      and eq: "?f a @ x' = ?f b @ y'" for a b x' y'
  proof -
    obtain k v l u where kv: "a = (k, v)" "b = (l, u)" by (cases a; cases b)
    have "q k @ CHR '':'' # canonical_json q v @ x' = q l @ CHR '':'' # canonical_json q u @ y'"
      using eq kv by simp
    from quote_okD [OF q this]
    have k: "k = l" and rest: "canonical_json q v @ x' = canonical_json q u @ y'" by auto
    have "json_ok v" "json_ok u" using ab kv prems(1,2) w by auto
    with "2.IH" [OF _ kv(1) [symmetric] _ _ x rest] ab kv k show ?thesis by auto
  qed
  have heads: "?f a \<noteq> [] \<and> hd (?f a) \<noteq> CHR ''}''" if "a \<in> set (sort_key fst m) \<union> set (sort_key fst n)" for a
    using quote_head [OF q, of "fst a"] by (cases a) auto
  have "map ?g (sort_key fst m) = map ?g (sort_key fst n) \<and> x = y"
    by (rule join_split [where c = "CHR ''}''", OF code heads])
      (use prems(5) w in \<open>auto simp: delims_def Let_def\<close>)
  then show ?case using w by simp
next
  case (7 s)
  obtain t where w: "w = JStr t" using canonical_eq_shape(3) [OF q "7.prems"(5,2)] by blast
  with "7.prems"(5) quote_okD [OF q, of s x t y] show ?case by simp
qed (use token_canonical_split [OF q] in \<open>metis is_token.simps\<close>)+

lemma sort_entries_norm:
  "sort_key fst (map (\<lambda>(k, v). (k, f v)) (sort_key fst m)) = map (\<lambda>(k, v). (k, f v)) (sort_key fst m)"
proof (rule sort_key_id_if_sorted)
  have "map fst (map (\<lambda>(k, v). (k, f v)) (sort_key fst m)) = map fst (sort_key fst m)"
    by (simp add: case_prod_unfold comp_def)
  then show "sorted (map fst (map (\<lambda>(k, v). (k, f v)) (sort_key fst m)))"
    by (simp only: sorted_sort_key)
qed

lemma canonical_json_norm: "canonical_json q (json_norm v) = canonical_json q v"
proof (induction v rule: json_norm.induct)
  case (1 vs)
  then show ?case by (simp add: comp_def cong: map_cong)
next
  case (2 m)
  have eq: "map ((\<lambda>(k, v). q k @ '':'' @ canonical_json q v) \<circ> (\<lambda>(k, v). (k, json_norm v))) (sort_key fst m)
     = map (\<lambda>(k, v). q k @ '':'' @ canonical_json q v) (sort_key fst m)"
    using "2.IH" by (auto intro!: map_cong)
  show ?case unfolding json_norm.simps canonical_json.simps Let_def sort_entries_norm map_map eq by (rule refl)
qed simp_all

text \<open>C33. The canonical text of a stored value determines it: two values have the same text
  exactly when they differ in the order of object entries only. Entries are sorted before they
  are printed, and where a value ends in the text does not depend on what follows it.\<close>

theorem canonical_json_injective:
  assumes "quote_ok quote" and "json_ok v" and "json_ok w"
  shows "canonical_json quote v = canonical_json quote w \<longleftrightarrow> json_norm v = json_norm w"
proof
  assume "canonical_json quote v = canonical_json quote w"
  then show "json_norm v = json_norm w"
    using canonical_split [OF assms, of "[]" "[]"] by simp
next
  assume "json_norm v = json_norm w"
  then have "canonical_json quote (json_norm v) = canonical_json quote (json_norm w)" by simp
  then show "canonical_json quote v = canonical_json quote w" by (simp only: canonical_json_norm)
qed

text \<open>A quoting function of this kind: a backslash before a quote and before a backslash.\<close>

definition sample_quote :: "string \<Rightarrow> string" where
  "sample_quote s = CHR 0x22 # concat (map (\<lambda>c. if c \<in> {CHR 0x22, CHR 0x5C} then [CHR 0x5C, c] else [c]) s)
     @ [CHR 0x22]"

lemma sample_quote_ok: "quote_ok sample_quote"
  unfolding quote_ok_def
proof (intro conjI allI impI)
  let ?esc = "\<lambda>s. concat (map (\<lambda>c. if c \<in> {CHR 0x22, CHR 0x5C} then [CHR 0x5C, c] else [c]) s)"
  fix s t x y
  have "s = t \<and> x = y" if "?esc s @ CHR 0x22 # x = ?esc t @ CHR 0x22 # y"
    using that
  proof (induction s arbitrary: t)
    case Nil
    then show ?case by (cases t) (auto split: if_splits)
  next
    case (Cons c s)
    then show ?case by (cases t) (auto split: if_splits)
  qed
  moreover assume "sample_quote s @ x = sample_quote t @ y"
  ultimately show "s = t" "x = y" by (simp_all add: sample_quote_def)
qed (simp_all add: sample_quote_def)

theorem canonical_json_injective_witness:
  "canonical_json sample_quote (JObj [(''b'', JInt 7), (''a'', JNull)])
     = canonical_json sample_quote (JObj [(''a'', JNull), (''b'', JInt 7)])"
  by (subst canonical_json_injective [OF sample_quote_ok]) simp_all

lemma split_at_sep: "c \<notin> set a \<Longrightarrow> c \<notin> set b \<Longrightarrow> a @ c # x = b @ c # y \<Longrightarrow> a = b \<and> x = y"
proof (induction a arbitrary: b)
  case Nil
  then show ?case by (cases b) auto
next
  case (Cons d a)
  then show ?case by (cases b) auto
qed

text \<open>Equal object names mean equal objects, as far as \<open>sha256\<close> has no collision: the kind
  is the same and the payloads are the same up to the order of their entries. The separators
  keep a kind from running into the payload.\<close>

theorem object_hash_determines:
  assumes "inj sha256" and "quote_ok quote" and "json_ok v" and "json_ok w"
    and "CHR 0x00 \<notin> set kind" and "CHR 0x00 \<notin> set kind'"
  shows "hash_object_canonical sha256 kind SCHEMA_VERSION (canonical_json quote v)
       = hash_object_canonical sha256 kind' SCHEMA_VERSION (canonical_json quote w)
     \<longleftrightarrow> kind = kind' \<and> json_norm v = json_norm w"
proof -
  have "hash_object_canonical sha256 kind SCHEMA_VERSION s = hash_object_canonical sha256 kind' SCHEMA_VERSION t
    \<longleftrightarrow> kind = kind' \<and> s = t" for s t
    proof
    assume "hash_object_canonical sha256 kind SCHEMA_VERSION s = hash_object_canonical sha256 kind' SCHEMA_VERSION t"
    then have "sha256 (OBJECT_DOMAIN @ kind @ [CHR 0x00] @ dec_int SCHEMA_VERSION @ [CHR 0x00] @ s)
      = sha256 (OBJECT_DOMAIN @ kind' @ [CHR 0x00] @ dec_int SCHEMA_VERSION @ [CHR 0x00] @ t)"
      by (simp add: hash_object_canonical_def)
    from injD [OF assms(1) this]
    have "kind @ CHR 0x00 # (dec_int SCHEMA_VERSION @ CHR 0x00 # s) = kind' @ CHR 0x00 # (dec_int SCHEMA_VERSION @ CHR 0x00 # t)"
      by simp
    from split_at_sep [OF assms(5,6) this] show "kind = kind' \<and> s = t" by simp
  qed simp
  then show ?thesis using canonical_json_injective [OF assms(2-4)] by simp
qed

theorem object_hash_determines_witness:
  "hash_object_canonical (\<lambda>s. s) ''TestCase'' SCHEMA_VERSION (canonical_json sample_quote (JArr [JNull]))
     \<noteq> hash_object_canonical (\<lambda>s. s) ''ProgramRoot'' SCHEMA_VERSION (canonical_json sample_quote (JArr [JNull]))"
  by (subst object_hash_determines [OF _ sample_quote_ok]) (simp_all add: inj_def)

end
