(* ===== verification/Store.thy ===== *)
theory Store
  imports Operations Abi Canonical
begin

text \<open>
  The object store and the branch pointers of \<open>src/src/store.rs\<close>. A table is the list of its
  rows in the order they were inserted; a primary key is looked up with \<open>row_by\<close> and
  \<open>INSERT OR IGNORE\<close> is \<open>insert_or_ignore\<close>. A function that runs inside a transaction
  returns the new tables or an error, and an error leaves the tables of its caller as they were,
  which is what the rollback does. The tables that only index others (object edges, the names
  and symbols of a root, the caches) are left out: nothing the model covers reads them.
\<close>

subsection \<open>Tables\<close>

record object_row =
  or_hash :: string
  or_kind :: string
  or_payload :: json

type_synonym objects = "object_row list"

record migration_row =
  mg_hash :: string
  mg_parent :: "string option"
  mg_input :: string
  mg_output :: string
  mg_kind :: string
  mg_operation :: string
  mg_preconditions :: string
  mg_postconditions :: string
  mg_agent :: json

record history_row =
  hs_hash :: string
  hs_parent :: "string option"
  hs_migration :: string
  hs_output :: string

record db =
  db_objects :: objects
  db_migrations :: "migration_row list"
  db_histories :: "history_row list"
  db_branches :: "(string \<times> branch_state) list"

definition row_by :: "('r \<Rightarrow> string) \<Rightarrow> string \<Rightarrow> 'r list \<Rightarrow> 'r option" where
  "row_by key k rows = List.find (\<lambda>r. key r = k) rows"

definition insert_or_ignore :: "('r \<Rightarrow> string) \<Rightarrow> 'r \<Rightarrow> 'r list \<Rightarrow> 'r list" where
  "insert_or_ignore key r rows = (if key r \<in> key ` set rows then rows else rows @ [r])"

text \<open>
  What the modelled code calls and does not define: functions of other crates (string quoting,
  the digest, the codecs \<open>serde\<close> derives) and the parts of the program the development does
  not model (indexing and type checking of a root, the payloads of definitions, fields and
  tests, the operations that create or change definitions, and the summaries shown to a user).
\<close>

record env =
  env_quote :: "string \<Rightarrow> string"
  env_sha256 :: "string \<Rightarrow> string"
  env_root_to_json :: "program_root \<Rightarrow> json"
  env_root_from_json :: "json \<Rightarrow> program_root res"
  env_operation_to_json :: "operation \<Rightarrow> json"
  env_operation_of_text :: "string \<Rightarrow> operation res"
  env_preconditions_to_json :: "precondition list \<Rightarrow> json"
  env_postconditions_to_json :: "postcondition list \<Rightarrow> json"
  env_index_root :: "string \<Rightarrow> objects \<Rightarrow> objects res"
  env_type_check_root :: "objects \<Rightarrow> string \<Rightarrow> unit res"
  env_dependencies :: "objects \<Rightarrow> program_root \<Rightarrow> string \<Rightarrow> string list option res"
  env_test_entry :: "objects \<Rightarrow> string \<Rightarrow> string res"
  env_field_symbol :: "objects \<Rightarrow> program_root \<Rightarrow> string \<Rightarrow> string \<Rightarrow> string res"
  env_variant_symbol :: "objects \<Rightarrow> program_root \<Rightarrow> string \<Rightarrow> string \<Rightarrow> string res"
  env_field_points :: "objects \<Rightarrow> program_root \<Rightarrow> string \<Rightarrow> string \<Rightarrow> string \<Rightarrow> bool res"
  env_field_available :: "objects \<Rightarrow> program_root \<Rightarrow> string \<Rightarrow> string \<Rightarrow> bool res"
  env_variant_points :: "objects \<Rightarrow> program_root \<Rightarrow> string \<Rightarrow> string \<Rightarrow> string \<Rightarrow> bool res"
  env_variant_available :: "objects \<Rightarrow> program_root \<Rightarrow> string \<Rightarrow> string \<Rightarrow> bool res"
  env_source_matches :: "objects \<Rightarrow> program_root \<Rightarrow> postcondition \<Rightarrow> bool res"
  env_apply_definition :: "objects \<Rightarrow> string \<Rightarrow> string option \<Rightarrow> operation \<Rightarrow> (string \<times> objects) res"
  env_summary :: "objects \<Rightarrow> operation \<Rightarrow> string \<Rightarrow> string \<Rightarrow> json res"
  env_fallback_summary :: "operation \<Rightarrow> json"

subsection \<open>Objects\<close>

definition hash_object :: "env \<Rightarrow> string \<Rightarrow> json \<Rightarrow> string" where
  "hash_object env kind payload =
     hash_object_canonical (env_sha256 env) kind SCHEMA_VERSION (canonical_json (env_quote env) payload)"

definition put_object :: "env \<Rightarrow> string \<Rightarrow> json \<Rightarrow> objects \<Rightarrow> string \<times> objects" where
  "put_object env kind payload objects =
     (let hash = hash_object env kind payload
      in (hash, insert_or_ignore or_hash
            \<lparr>or_hash = hash, or_kind = kind, or_payload = payload\<rparr> objects))"

definition get_payload :: "objects \<Rightarrow> string \<Rightarrow> json res" where
  "get_payload objects hash =
     ok_or (map_option or_payload (row_by or_hash hash objects)) (Bail ''missing object {}'' [hash])"

definition load_root :: "env \<Rightarrow> objects \<Rightarrow> string \<Rightarrow> program_root res" where
  "load_root env objects root_hash =
     res_bind (get_payload objects root_hash) (\<lambda>payload.
     res_bind (env_root_from_json env payload) (\<lambda>root. Inr (normalize_root root)))"

definition put_program_root :: "env \<Rightarrow> program_root \<Rightarrow> objects \<Rightarrow> (string \<times> objects) res" where
  "put_program_root env root objects =
     (let normalized = normalize_root root
      in res_bind (validate_export_map normalized) (\<lambda>_.
           Inr (put_object env ''ProgramRoot'' (env_root_to_json env normalized) objects)))"

definition reverse_dependencies_for_root :: "env \<Rightarrow> objects \<Rightarrow> program_root \<Rightarrow> string \<Rightarrow> string list res" where
  "reverse_dependencies_for_root env objects root symbol =
     res_bind (res_fold (\<lambda>entry callers.
         res_bind (env_dependencies env objects root (rs_definition entry)) (\<lambda>deps.
           case deps of
             None \<Rightarrow> Inr callers
           | Some deps \<Rightarrow> Inr (if symbol \<in> set deps then callers @ [rs_symbol entry] else callers)))
       (symbols root) [])
     (\<lambda>callers. Inr (sort callers))"

definition symbol_display :: "program_root \<Rightarrow> string \<Rightarrow> string res" where
  "symbol_display root symbol =
     ok_or (map_option nb_display_name (preferred_binding root symbol))
       (Bail ''symbol has no display name {}'' [symbol])"

subsection \<open>Hashes of migrations and histories\<close>

definition opt_json :: "string option \<Rightarrow> json" where
  "opt_json m = (case m of None \<Rightarrow> JNull | Some s \<Rightarrow> JStr s)"

definition migration_payload ::
    "string option \<Rightarrow> string \<Rightarrow> string \<Rightarrow> json \<Rightarrow> json \<Rightarrow> json \<Rightarrow> json" where
  "migration_payload parent_history_hash input_root_hash output_root_hash operation preconditions postconditions =
     JObj [(''parent_history_hash'', opt_json parent_history_hash),
           (''input_root_hash'', JStr input_root_hash),
           (''output_root_hash'', JStr output_root_hash),
           (''operation'', operation),
           (''preconditions'', preconditions),
           (''postconditions'', postconditions)]"

definition migration_hash ::
    "env \<Rightarrow> string option \<Rightarrow> string \<Rightarrow> string \<Rightarrow> json \<Rightarrow> json \<Rightarrow> json \<Rightarrow> string" where
  "migration_hash env parent_history_hash input_root_hash output_root_hash operation preconditions postconditions =
     hash_bytes (env_sha256 env) MIGRATION_DOMAIN (canonical_json (env_quote env)
       (migration_payload parent_history_hash input_root_hash output_root_hash operation
          preconditions postconditions))"

definition history_hash :: "env \<Rightarrow> string option \<Rightarrow> string \<Rightarrow> string \<Rightarrow> string" where
  "history_hash env parent_history_hash migration output_root_hash =
     hash_bytes (env_sha256 env) HISTORY_DOMAIN
       (case_option [] (\<lambda>h. h) parent_history_hash @ [CHR 0x00] @ migration @ [CHR 0x00]
        @ output_root_hash)"

subsection \<open>Branch pointers\<close>

definition MAIN_BRANCH :: string where
  "MAIN_BRANCH = ''main''"

definition branch_opt :: "db \<Rightarrow> string \<Rightarrow> branch_state option" where
  "branch_opt db name = map_of (db_branches db) name"

definition branch :: "db \<Rightarrow> string \<Rightarrow> branch_state res" where
  "branch db name = ok_or (branch_opt db name) (Bail ''branch not initialized: {}'' [name])"

text \<open>\<open>INSERT .. ON CONFLICT(name) DO UPDATE\<close>: the row is replaced in place, or appended.\<close>

definition set_branch :: "string \<Rightarrow> branch_state \<Rightarrow> (string \<times> branch_state) list \<Rightarrow> (string \<times> branch_state) list" where
  "set_branch name st bs =
     (if name \<in> fst ` set bs then map (\<lambda>(n, s). (n, if n = name then st else s)) bs
      else bs @ [(name, st)])"

definition update_branch :: "string \<Rightarrow> string \<Rightarrow> string \<Rightarrow> db \<Rightarrow> db" where
  "update_branch name root_hash hist db =
     db\<lparr>db_branches := set_branch name
       \<lparr>bs_root_hash = root_hash, bs_history_hash = Some hist\<rparr> (db_branches db)\<rparr>"

text \<open>\<open>char::is_whitespace\<close> and \<open>char::is_control\<close>, as the UTF-8 sequences of the characters.\<close>

definition whitespace_chars :: "string list" where
  "whitespace_chars =
     [[CHR 0x09], [CHR 0x0A], [CHR 0x0B], [CHR 0x0C], [CHR 0x0D], [CHR 0x20],
      [CHR 0xC2, CHR 0x85], [CHR 0xC2, CHR 0xA0], [CHR 0xE1, CHR 0x9A, CHR 0x80]]
     @ map (\<lambda>c. [CHR 0xE2, CHR 0x80, c])
         [CHR 0x80, CHR 0x81, CHR 0x82, CHR 0x83, CHR 0x84, CHR 0x85, CHR 0x86, CHR 0x87,
          CHR 0x88, CHR 0x89, CHR 0x8A, CHR 0xA8, CHR 0xA9, CHR 0xAF]
     @ [[CHR 0xE2, CHR 0x81, CHR 0x9F], [CHR 0xE3, CHR 0x80, CHR 0x80]]"

definition control_chars :: "string list" where
  "control_chars =
     map (\<lambda>n. [char_of n]) ([0..<32] @ [127::nat]) @ map (\<lambda>n. [CHR 0xC2, char_of n]) [128..<160::nat]"

definition has_char :: "string list \<Rightarrow> string \<Rightarrow> bool" where
  "has_char cs s \<longleftrightarrow> list_ex (\<lambda>c. sublist c s) cs"

definition validate_branch_name :: "string \<Rightarrow> unit res" where
  "validate_branch_name name =
     (if name = [] then Inl (Bail ''branch name must not be empty'' [])
      else if has_char whitespace_chars name
      then Inl (Bail ''branch name must not contain whitespace'' [])
      else if has_char control_chars name
      then Inl (Bail ''branch name must not contain control characters'' [])
      else Inr ())"

definition ensure_history_matches_root :: "db \<Rightarrow> string \<Rightarrow> string \<Rightarrow> unit res" where
  "ensure_history_matches_root db hist root_hash =
     (case row_by hs_hash hist (db_histories db) of
        None \<Rightarrow> Inl (Bail ''missing history {}'' [hist])
      | Some row \<Rightarrow>
          if hs_output row \<noteq> root_hash
          then Inl (Bail ''history {} outputs root {}, not branch root {}''
                 [hist, hs_output row, root_hash])
          else Inr ())"

definition ensure_branch_history :: "db \<Rightarrow> branch_state \<Rightarrow> unit res" where
  "ensure_branch_history db st =
     (case bs_history_hash st of
        None \<Rightarrow> Inr ()
      | Some h \<Rightarrow> ensure_history_matches_root db h (bs_root_hash st))"

definition create_branch_pointer ::
    "env \<Rightarrow> string \<Rightarrow> string \<Rightarrow> string option \<Rightarrow> db \<Rightarrow> (branch_state \<times> db) res" where
  "create_branch_pointer env name root_hash hist db =
     res_bind (validate_branch_name name) (\<lambda>_.
       if branch_opt db name \<noteq> None then Inl (Bail ''branch already exists: {}'' [name])
       else
         res_bind (load_root env (db_objects db) root_hash) (\<lambda>_.
         res_bind (case hist of None \<Rightarrow> Inr ()
                   | Some h \<Rightarrow> ensure_history_matches_root db h root_hash) (\<lambda>_.
         let st = \<lparr>bs_root_hash = root_hash, bs_history_hash = hist\<rparr>
         in Inr (st, db\<lparr>db_branches := db_branches db @ [(name, st)]\<rparr>))))"

text \<open>
  The walk from the history of the source towards the history of the target. A query that
  finds no row is an error of the driver. The set of hashes seen bounds the walk, whatever the
  tables hold.
\<close>

definition NO_ROWS :: error where
  "NO_ROWS = Bail ''Query returned no rows'' []"

lemma row_by_Some: "row_by key k rows = Some r \<Longrightarrow> r \<in> set rows \<and> key r = k"
  by (auto simp: row_by_def dest: find_Some_in)

function history_descends_loop ::
    "db \<Rightarrow> string option \<Rightarrow> string \<Rightarrow> string option \<Rightarrow> string list \<Rightarrow> bool res" where
  "history_descends_loop db target_history_hash target_root_hash None seen = Inr False"
| "history_descends_loop db target_history_hash target_root_hash (Some h) seen =
     (if Some h = target_history_hash then Inr True
      else if h \<in> set seen then Inl (Bail ''history chain contains a cycle at {}'' [h])
      else
        case row_by hs_hash h (db_histories db) of
          None \<Rightarrow> Inl NO_ROWS
        | Some row \<Rightarrow>
            (case row_by mg_hash (hs_migration row) (db_migrations db) of
               None \<Rightarrow> Inl NO_ROWS
             | Some m \<Rightarrow>
                 if target_history_hash = None \<and> hs_parent row = None \<and> mg_input m = target_root_hash
                 then Inr True
                 else history_descends_loop db target_history_hash target_root_hash (hs_parent row)
                        (bset_insert h seen)))"
  by pat_completeness auto

termination
proof (relation "measure (\<lambda>(db, _, _, _, seen). card (hs_hash ` set (db_histories db) - set seen))", simp)
  fix db target_h target_r h seen row m
  assume "h \<notin> set seen" "row_by hs_hash h (db_histories db) = Some row"
  then have "h \<in> hs_hash ` set (db_histories db) - set seen" by (auto dest: row_by_Some)
  then have "hs_hash ` set (db_histories db) - insert h (set seen) \<subset> hs_hash ` set (db_histories db) - set seen"
    by blast
  then show "((db, target_h, target_r, hs_parent row, bset_insert h seen), db, target_h, target_r, Some h, seen)
      \<in> measure (\<lambda>(db, _, _, _, seen). card (hs_hash ` set (db_histories db) - set seen))"
    by (simp add: psubset_card_mono)
qed

definition history_descends_from ::
    "db \<Rightarrow> string option \<Rightarrow> string option \<Rightarrow> string \<Rightarrow> bool res" where
  "history_descends_from db source_history_hash target_history_hash target_root_hash =
     history_descends_loop db target_history_hash target_root_hash source_history_hash []"

definition branch_state_descends_from :: "db \<Rightarrow> branch_state \<Rightarrow> branch_state \<Rightarrow> bool res" where
  "branch_state_descends_from db target source =
     (if bs_root_hash target = bs_root_hash source \<and> bs_history_hash target = bs_history_hash source
      then Inr True
      else history_descends_from db (bs_history_hash source) (bs_history_hash target) (bs_root_hash target))"

datatype branch_fast_forward_outcome =
    Updated branch_state branch_state
  | FfStaleRoot branch_state
  | NonFastForward branch_state branch_state

definition fast_forward_branch_pointer ::
    "env \<Rightarrow> string \<Rightarrow> string \<Rightarrow> branch_state \<Rightarrow> db \<Rightarrow> (branch_fast_forward_outcome \<times> db) res" where
  "fast_forward_branch_pointer env target expected_root_hash source db =
     res_bind (validate_branch_name target) (\<lambda>_.
     res_bind (branch db target) (\<lambda>old.
       if bs_root_hash old \<noteq> expected_root_hash then Inr (FfStaleRoot old, db)
       else
         res_bind (ensure_branch_history db old) (\<lambda>_.
         res_bind (load_root env (db_objects db) (bs_root_hash source)) (\<lambda>_.
         res_bind (ensure_branch_history db source) (\<lambda>_.
         res_bind (branch_state_descends_from db old source) (\<lambda>descends.
           if \<not> descends then Inr (NonFastForward old source, db)
           else Inr (Updated old source,
                  db\<lparr>db_branches := map (\<lambda>(n, s). (n, if n = target then source else s))
                    (db_branches db)\<rparr>)))))))"

datatype branch_delete_outcome =
    Deleted branch_state
  | DelStaleRoot branch_state

definition delete_branch_pointer_expected ::
    "string \<Rightarrow> string option \<Rightarrow> db \<Rightarrow> (branch_delete_outcome \<times> db) res" where
  "delete_branch_pointer_expected name expected_root_hash db =
     res_bind (validate_branch_name name) (\<lambda>_.
     res_bind (branch db name) (\<lambda>st.
       if (case expected_root_hash of None \<Rightarrow> False | Some r \<Rightarrow> bs_root_hash st \<noteq> r)
       then Inr (DelStaleRoot st, db)
       else Inr (Deleted st, db\<lparr>db_branches := filter (\<lambda>(n, _). n \<noteq> name) (db_branches db)\<rparr>)))"

end
