(* ===== verification/Edits.thy ===== *)
theory Edits
  imports Store
begin

text \<open>
  The operations of \<open>src/src/migrations.rs\<close> that edit the name tables, exports and tests of a
  root: renaming and moving symbols and types, aliases, exports, deletion of symbols and tests,
  and the installation of a merged root. Each \<open>apply_..\<close> function loads its input root, edits
  it and stores the result; the edit itself is a function on roots, so that the properties of
  names do not speak of the store. \<open>apply_operation_to_root\<close> dispatches; the operations that
  create or change definitions go to \<open>env_apply_definition\<close>.
\<close>

text \<open>The end of every operation: store the root, index it and, where the code does, check it.\<close>

definition store_root :: "env \<Rightarrow> bool \<Rightarrow> program_root \<Rightarrow> objects \<Rightarrow> (string \<times> objects) res" where
  "store_root env check root objects =
     res_bind (put_program_root env root objects) (\<lambda>(new_root, objects).
     res_bind (env_index_root env new_root objects) (\<lambda>objects.
     res_bind (if check then env_type_check_root env objects new_root else Inr ()) (\<lambda>_.
     Inr (new_root, objects))))"

subsection \<open>Symbols\<close>

definition rename_symbol :: "program_root \<Rightarrow> string \<Rightarrow> string \<Rightarrow> string \<Rightarrow> string \<Rightarrow> program_root res" where
  "rename_symbol root module symbol old_name new_name =
     (let renamed = (\<lambda>b. nb_module b = module \<and> nb_display_name b = old_name \<and> nb_symbol b = symbol
                          \<and> nb_is_preferred b)
      in if list_ex (\<lambda>b. nb_module b = module \<and> nb_display_name b = new_name) (names root)
         then Inl (Bail ''name already exists: {}.{}'' [module, new_name])
         else if \<not> list_ex renamed (names root)
         then Inl (Bail ''precondition failed: {}.{} does not point to {}'' [module, old_name, symbol])
         else Inr (root\<lparr>names := map (\<lambda>b. if renamed b then b\<lparr>nb_display_name := new_name\<rparr> else b)
                     (names root)\<rparr>))"

definition apply_rename_symbol ::
    "env \<Rightarrow> string \<Rightarrow> string \<Rightarrow> string \<Rightarrow> string \<Rightarrow> string \<Rightarrow> objects \<Rightarrow> (string \<times> objects) res" where
  "apply_rename_symbol env input_root module symbol old_name new_name objects =
     res_bind (validate_module_path ''module'' module) (\<lambda>_.
     res_bind (validate_projection_identifier ''function name'' new_name) (\<lambda>_.
     res_bind (load_root env objects input_root) (\<lambda>root.
     res_bind (rename_symbol root module symbol old_name new_name) (\<lambda>root.
     store_root env False root objects))))"

definition move_symbol :: "program_root \<Rightarrow> string \<Rightarrow> string \<Rightarrow> string \<Rightarrow> string \<Rightarrow> program_root res" where
  "move_symbol root module symbol name new_module =
     (let owned = (\<lambda>b. nb_module b = module \<and> nb_symbol b = symbol);
          moved_names = bset_of_list (map nb_display_name (filter owned (names root)))
      in if \<not> list_ex (\<lambda>b. nb_module b = module \<and> nb_display_name b = name \<and> nb_symbol b = symbol
                 \<and> nb_is_preferred b) (names root)
         then Inl (Bail ''precondition failed: {}.{} does not point to {}'' [module, name, symbol])
         else if moved_names = []
         then Inl (Bail ''precondition failed: no names for {} in module {}'' [symbol, module])
         else
           res_bind (res_fold (\<lambda>moved_name (_ :: unit).
               if list_ex (\<lambda>b. nb_module b = new_module \<and> nb_display_name b = moved_name
                   \<and> nb_symbol b \<noteq> symbol) (names root)
               then Inl (Bail ''name already exists: {}.{}'' [new_module, moved_name])
               else Inr ()) moved_names ()) (\<lambda>_.
           if \<not> list_ex owned (names root)
           then Inl (Bail ''precondition failed: {}.{} does not point to {}'' [module, name, symbol])
           else Inr (synchronize_module_metadata
                  (root\<lparr>names := map (\<lambda>b. if owned b then b\<lparr>nb_module := new_module\<rparr> else b)
                     (names root)\<rparr>))))"

definition apply_move_symbol ::
    "env \<Rightarrow> string \<Rightarrow> string \<Rightarrow> string \<Rightarrow> string \<Rightarrow> string \<Rightarrow> objects \<Rightarrow> (string \<times> objects) res" where
  "apply_move_symbol env input_root module symbol name new_module objects =
     res_bind (validate_module_path ''module'' module) (\<lambda>_.
     res_bind (validate_module_path ''new module'' new_module) (\<lambda>_.
     res_bind (load_root env objects input_root) (\<lambda>root.
       if module = new_module
       then res_bind (assert_name_points root module name symbol) (\<lambda>_. Inr (input_root, objects))
       else
         res_bind (move_symbol root module symbol name new_module) (\<lambda>root.
         store_root env True root objects))))"

definition delete_symbol_entries :: "program_root \<Rightarrow> string \<Rightarrow> bool \<Rightarrow> string list \<Rightarrow> program_root" where
  "delete_symbol_entries root symbol force live_tests =
     root\<lparr>symbols := filter (\<lambda>entry. rs_symbol entry \<noteq> symbol) (symbols root),
          names := filter (\<lambda>b. nb_symbol b \<noteq> symbol) (names root),
          param_names := filter (\<lambda>entry. pn_symbol entry \<noteq> symbol) (param_names root),
          exports := filter (\<lambda>b. eb_symbol b \<noteq> symbol) (exports root),
          tests := (if force then filter (\<lambda>b. tb_name b \<notin> set live_tests) (tests root)
                    else tests root)\<rparr>"

definition live_tests_of :: "env \<Rightarrow> objects \<Rightarrow> program_root \<Rightarrow> string \<Rightarrow> string list res" where
  "live_tests_of env objects root symbol =
     res_bind (res_map (\<lambda>b. res_bind (env_test_entry env objects (tb_test b)) (\<lambda>entry.
         Inr (if entry = symbol then [tb_name b] else []))) (tests root))
       (\<lambda>ns. Inr (concat ns))"

definition apply_delete_symbol ::
    "env \<Rightarrow> string \<Rightarrow> string \<Rightarrow> string \<Rightarrow> string \<Rightarrow> bool \<Rightarrow> objects \<Rightarrow> (string \<times> objects) res" where
  "apply_delete_symbol env input_root module symbol name force objects =
     res_bind (load_root env objects input_root) (\<lambda>root.
     res_bind (assert_name_points root module name symbol) (\<lambda>_.
     res_bind (reverse_dependencies_for_root env objects root symbol) (\<lambda>deps.
     res_bind (live_tests_of env objects root symbol) (\<lambda>live_tests.
       if \<not> force \<and> (deps \<noteq> [] \<or> live_tests \<noteq> [])
       then
         res_bind (res_map (symbol_display root) deps) (\<lambda>blockers.
         let blockers = blockers @ map (\<lambda>test. ''test:'' @ test) live_tests
         in Inl (Bail ''cannot delete {}.{}; live references: {}''
              [module, name, join_with '', '' blockers]))
       else store_root env True (delete_symbol_entries root symbol force live_tests) objects))))"

definition create_alias :: "program_root \<Rightarrow> string \<Rightarrow> string \<Rightarrow> string \<Rightarrow> string \<Rightarrow> program_root res" where
  "create_alias root module symbol name alias =
     res_bind (assert_name_points root module name symbol) (\<lambda>_.
       if list_ex (\<lambda>b. nb_module b = module \<and> nb_display_name b = alias) (names root)
       then Inl (Bail ''name already exists: {}.{}'' [module, alias])
       else Inr (root\<lparr>names := names root @
              [\<lparr>nb_module = module, nb_display_name = alias, nb_symbol = symbol,
                nb_is_preferred = False\<rparr>]\<rparr>))"

definition apply_create_alias ::
    "env \<Rightarrow> string \<Rightarrow> string \<Rightarrow> string \<Rightarrow> string \<Rightarrow> string \<Rightarrow> objects \<Rightarrow> (string \<times> objects) res" where
  "apply_create_alias env input_root module symbol name alias objects =
     res_bind (validate_projection_identifier ''alias'' alias) (\<lambda>_.
     res_bind (load_root env objects input_root) (\<lambda>root.
     res_bind (create_alias root module symbol name alias) (\<lambda>root.
     store_root env False root objects)))"

definition remove_alias :: "program_root \<Rightarrow> string \<Rightarrow> string \<Rightarrow> string \<Rightarrow> string \<Rightarrow> program_root res" where
  "remove_alias root module symbol name alias =
     res_bind (assert_name_points root module name symbol) (\<lambda>_.
     let kept = filter (\<lambda>b. \<not> (nb_module b = module \<and> nb_display_name b = alias \<and> nb_symbol b = symbol
                  \<and> \<not> nb_is_preferred b)) (names root)
     in if length kept = length (names root)
        then Inl (Bail ''alias {}.{} does not point to {}'' [module, alias, symbol])
        else Inr (root\<lparr>names := kept\<rparr>))"

definition apply_remove_alias ::
    "env \<Rightarrow> string \<Rightarrow> string \<Rightarrow> string \<Rightarrow> string \<Rightarrow> string \<Rightarrow> objects \<Rightarrow> (string \<times> objects) res" where
  "apply_remove_alias env input_root module symbol name alias objects =
     res_bind (load_root env objects input_root) (\<lambda>root.
     res_bind (remove_alias root module symbol name alias) (\<lambda>root.
     store_root env False root objects))"

subsection \<open>Exports and tests\<close>

definition set_export :: "program_root \<Rightarrow> string \<Rightarrow> string \<Rightarrow> string \<Rightarrow> string \<Rightarrow> program_root res" where
  "set_export root module symbol name exported_name =
     res_bind (assert_name_points root module name symbol) (\<lambda>_.
       if list_ex (\<lambda>b. eb_exported_name b = exported_name) (exports root)
       then Inl (Bail ''export already exists: {}'' [exported_name])
       else Inr (root\<lparr>exports := exports root @
              [\<lparr>eb_symbol = symbol, eb_exported_name = exported_name\<rparr>]\<rparr>))"

definition apply_set_export ::
    "env \<Rightarrow> string \<Rightarrow> string \<Rightarrow> string \<Rightarrow> string \<Rightarrow> string \<Rightarrow> objects \<Rightarrow> (string \<times> objects) res" where
  "apply_set_export env input_root module symbol name exported_name objects =
     res_bind (validate_exported_abi_name exported_name) (\<lambda>_.
     res_bind (load_root env objects input_root) (\<lambda>root.
     res_bind (set_export root module symbol name exported_name) (\<lambda>root.
     store_root env False root objects)))"

definition remove_export :: "program_root \<Rightarrow> string \<Rightarrow> string \<Rightarrow> string \<Rightarrow> string \<Rightarrow> program_root res" where
  "remove_export root module symbol name exported_name =
     res_bind (assert_name_points root module name symbol) (\<lambda>_.
     let kept = filter (\<lambda>b. \<not> (eb_exported_name b = exported_name \<and> eb_symbol b = symbol)) (exports root)
     in if length kept = length (exports root)
        then Inl (Bail ''export {} does not point to {}'' [exported_name, symbol])
        else Inr (root\<lparr>exports := kept\<rparr>))"

definition apply_remove_export ::
    "env \<Rightarrow> string \<Rightarrow> string \<Rightarrow> string \<Rightarrow> string \<Rightarrow> string \<Rightarrow> objects \<Rightarrow> (string \<times> objects) res" where
  "apply_remove_export env input_root module symbol name exported_name objects =
     res_bind (load_root env objects input_root) (\<lambda>root.
     res_bind (remove_export root module symbol name exported_name) (\<lambda>root.
     store_root env False root objects))"

definition delete_test :: "program_root \<Rightarrow> string \<Rightarrow> string \<Rightarrow> program_root res" where
  "delete_test root name test =
     (let kept = filter (\<lambda>b. \<not> (tb_name b = name \<and> tb_test b = test)) (tests root)
      in if length kept = length (tests root)
         then Inl (Bail ''test {} does not point to {}'' [name, test])
         else Inr (root\<lparr>tests := kept\<rparr>))"

definition apply_delete_test ::
    "env \<Rightarrow> string \<Rightarrow> string \<Rightarrow> string \<Rightarrow> objects \<Rightarrow> (string \<times> objects) res" where
  "apply_delete_test env input_root name test objects =
     res_bind (load_root env objects input_root) (\<lambda>root.
     res_bind (delete_test root name test) (\<lambda>root.
     store_root env True root objects))"

subsection \<open>Types\<close>

definition rename_type :: "program_root \<Rightarrow> string \<Rightarrow> string \<Rightarrow> string \<Rightarrow> string \<Rightarrow> program_root res" where
  "rename_type root module type_symbol old_name new_name =
     (let renamed = (\<lambda>b. tnb_module b = module \<and> tnb_display_name b = old_name
                          \<and> tnb_type_symbol b = type_symbol \<and> tnb_is_preferred b)
      in if list_ex (\<lambda>b. tnb_module b = module \<and> tnb_display_name b = new_name) (type_names root)
         then Inl (Bail ''type name already exists: {}.{}'' [module, new_name])
         else if \<not> list_ex renamed (type_names root)
         then Inl (Bail ''precondition failed: {}.{} does not point to {}'' [module, old_name, type_symbol])
         else Inr (root\<lparr>type_names := map (\<lambda>b. if renamed b then b\<lparr>tnb_display_name := new_name\<rparr> else b)
                     (type_names root)\<rparr>))"

definition apply_rename_type ::
    "env \<Rightarrow> string \<Rightarrow> string \<Rightarrow> string \<Rightarrow> string \<Rightarrow> string \<Rightarrow> objects \<Rightarrow> (string \<times> objects) res" where
  "apply_rename_type env input_root module type_symbol old_name new_name objects =
     res_bind (validate_module_path ''module'' module) (\<lambda>_.
     res_bind (validate_projection_identifier ''type name'' new_name) (\<lambda>_.
     res_bind (load_root env objects input_root) (\<lambda>root.
     res_bind (rename_type root module type_symbol old_name new_name) (\<lambda>root.
     store_root env False root objects))))"

definition move_type :: "program_root \<Rightarrow> string \<Rightarrow> string \<Rightarrow> string \<Rightarrow> string \<Rightarrow> program_root res" where
  "move_type root module type_symbol name new_module =
     (let owned = (\<lambda>b. tnb_module b = module \<and> tnb_type_symbol b = type_symbol);
          moved_names = bset_of_list (map tnb_display_name (filter owned (type_names root)))
      in if \<not> list_ex (\<lambda>b. tnb_module b = module \<and> tnb_display_name b = name
                 \<and> tnb_type_symbol b = type_symbol \<and> tnb_is_preferred b) (type_names root)
         then Inl (Bail ''precondition failed: {}.{} does not point to {}'' [module, name, type_symbol])
         else
           res_bind (res_fold (\<lambda>moved_name (_ :: unit).
               if list_ex (\<lambda>b. tnb_module b = new_module \<and> tnb_display_name b = moved_name
                   \<and> tnb_type_symbol b \<noteq> type_symbol) (type_names root)
               then Inl (Bail ''type name already exists: {}.{}'' [new_module, moved_name])
               else Inr ()) moved_names ()) (\<lambda>_.
           if \<not> list_ex owned (type_names root)
           then Inl (Bail ''precondition failed: {}.{} does not point to {}'' [module, name, type_symbol])
           else Inr (synchronize_module_metadata
                  (root\<lparr>type_names := map (\<lambda>b. if owned b then b\<lparr>tnb_module := new_module\<rparr> else b)
                     (type_names root)\<rparr>))))"

definition apply_move_type ::
    "env \<Rightarrow> string \<Rightarrow> string \<Rightarrow> string \<Rightarrow> string \<Rightarrow> string \<Rightarrow> objects \<Rightarrow> (string \<times> objects) res" where
  "apply_move_type env input_root module type_symbol name new_module objects =
     res_bind (validate_module_path ''module'' module) (\<lambda>_.
     res_bind (validate_module_path ''new module'' new_module) (\<lambda>_.
     res_bind (load_root env objects input_root) (\<lambda>root.
       if module = new_module
       then res_bind (assert_type_name_points root module name type_symbol) (\<lambda>_. Inr (input_root, objects))
       else
         res_bind (move_type root module type_symbol name new_module) (\<lambda>root.
         store_root env True root objects))))"

subsection \<open>Merged roots\<close>

definition insert_merge_object :: "env \<Rightarrow> merge_object_payload \<Rightarrow> objects \<Rightarrow> objects res" where
  "insert_merge_object env obj objects =
     (let (inserted, objects) = put_object env (mo_kind obj) (mo_payload obj) objects
      in if inserted \<noteq> mo_hash obj
         then Inl (Bail ''merge object payload for {} recomputes to {}'' [mo_hash obj, inserted])
         else Inr objects)"

definition check_merge_root :: "env \<Rightarrow> merge_object_payload \<Rightarrow> objects \<Rightarrow> objects res" where
  "check_merge_root env obj objects =
     (if mo_kind obj = ''ProgramRoot''
      then res_bind (env_index_root env (mo_hash obj) objects) (\<lambda>objects.
           res_bind (env_type_check_root env objects (mo_hash obj)) (\<lambda>_. Inr objects))
      else Inr objects)"

text \<open>The code also refreshes the index of references of every inserted object, \<open>refresh_edges\<close>: the
  index is not part of the model, and its only errors are those of the database.\<close>

definition apply_merge_branch ::
    "env \<Rightarrow> string \<Rightarrow> string \<Rightarrow> program_root \<Rightarrow> merge_object_payload list \<Rightarrow> objects \<Rightarrow> (string \<times> objects) res" where
  "apply_merge_branch env input_root source_root_hash merged_root object_payloads objects =
     res_bind (load_root env objects input_root) (\<lambda>_.
     res_bind (res_fold (insert_merge_object env) object_payloads objects) (\<lambda>objects.
     res_bind (res_fold (check_merge_root env) object_payloads objects) (\<lambda>objects.
     res_bind (load_root env objects source_root_hash) (\<lambda>_.
     store_root env True merged_root objects))))"

subsection \<open>Dispatch\<close>

definition apply_operation_to_root ::
    "env \<Rightarrow> string \<Rightarrow> string option \<Rightarrow> operation \<Rightarrow> objects \<Rightarrow> (string \<times> objects) res" where
  "apply_operation_to_root env input_root parent op objects =
     (case op of
        RenameType module type_symbol old_name new_name \<Rightarrow>
          apply_rename_type env input_root module type_symbol old_name new_name objects
      | MoveType module type_symbol name new_module \<Rightarrow>
          apply_move_type env input_root module type_symbol name new_module objects
      | RenameSymbol module symbol old_name new_name \<Rightarrow>
          apply_rename_symbol env input_root module symbol old_name new_name objects
      | MoveSymbol module symbol name new_module \<Rightarrow>
          apply_move_symbol env input_root module symbol name new_module objects
      | DeleteSymbol module symbol name force \<Rightarrow>
          apply_delete_symbol env input_root module symbol name force objects
      | CreateAlias module symbol name alias \<Rightarrow>
          apply_create_alias env input_root module symbol name alias objects
      | RemoveAlias module symbol name alias \<Rightarrow>
          apply_remove_alias env input_root module symbol name alias objects
      | SetExport module symbol name exported_name \<Rightarrow>
          apply_set_export env input_root module symbol name exported_name objects
      | RemoveExport module symbol name exported_name \<Rightarrow>
          apply_remove_export env input_root module symbol name exported_name objects
      | DeleteTest name test \<Rightarrow> apply_delete_test env input_root name test objects
      | MergeBranch target_branch source_branch ancestor_root ancestor_history source_root
          source_history merged_root object_payloads \<Rightarrow>
          apply_merge_branch env input_root source_root merged_root object_payloads objects
      | _ \<Rightarrow> env_apply_definition env objects input_root parent op)"

end
