(* ===== verification/Conditions.thy ===== *)
theory Conditions
  imports Edits
begin

text \<open>
  The conditions of \<open>src/src/migrations.rs\<close>: what an operation requires of the root it is
  applied to (\<open>preconditions_for\<close>), what it promises of the root it produces
  (\<open>postconditions_for\<close>), and the two checks that list the conditions a root does not meet.
\<close>

definition moved_name_preconditions ::
    "env \<Rightarrow> objects \<Rightarrow> string \<Rightarrow> string \<Rightarrow> string \<Rightarrow> string \<Rightarrow> string \<Rightarrow> precondition list" where
  "moved_name_preconditions env objects input_root module symbol name new_module =
     (case load_root env objects input_root of
        Inr root \<Rightarrow>
          map (\<lambda>moved_name. NameIsAvailable new_module moved_name)
            (bset_of_list (map nb_display_name
               (filter (\<lambda>b. nb_module b = module \<and> nb_symbol b = symbol) (names root))))
      | Inl _ \<Rightarrow> [NameIsAvailable new_module name])"

definition moved_type_name_preconditions ::
    "env \<Rightarrow> objects \<Rightarrow> string \<Rightarrow> string \<Rightarrow> string \<Rightarrow> string \<Rightarrow> string \<Rightarrow> precondition list" where
  "moved_type_name_preconditions env objects input_root module type_symbol name new_module =
     (case load_root env objects input_root of
        Inr root \<Rightarrow>
          map (\<lambda>moved_name. TypeNameIsAvailable new_module moved_name)
            (bset_of_list (map tnb_display_name
               (filter (\<lambda>b. tnb_module b = module \<and> tnb_type_symbol b = type_symbol) (type_names root))))
      | Inl _ \<Rightarrow> [TypeNameIsAvailable new_module name])"

definition preconditions_for :: "env \<Rightarrow> objects \<Rightarrow> string \<Rightarrow> operation \<Rightarrow> precondition list" where
  "preconditions_for env objects input_root op =
     RootIsCurrent input_root #
     (case op of
        CreateFunction module name _ _ _ _ _ _ _ \<Rightarrow> [NameIsAvailable module name]
      | CreateExternalFunction module name _ _ _ _ _ _ _ _ \<Rightarrow> [NameIsAvailable module name]
      | CreateRecursionGroup module members \<Rightarrow>
          map (\<lambda>member. NameIsAvailable module (rg_name member)) members
      | CreateTypeGroup module members \<Rightarrow>
          map (\<lambda>member. TypeNameIsAvailable module (tg_name member)) members
      | CreateType module name _ _ _ _ _ \<Rightarrow> [TypeNameIsAvailable module name]
      | RenameType module type_symbol old_name new_name \<Rightarrow>
          [PreferredTypeNamePointsToType module old_name type_symbol, TypeNameIsAvailable module new_name]
      | MoveType module type_symbol name new_module \<Rightarrow>
          PreferredTypeNamePointsToType module name type_symbol #
          (if module = new_module then []
           else moved_type_name_preconditions env objects input_root module type_symbol name new_module)
      | AddField module type_symbol type_name field _ \<Rightarrow>
          [TypeNamePointsToType module type_name type_symbol, FieldNameIsAvailable type_symbol (tm_name field)]
      | RenameField module type_symbol type_name field_symbol old_name new_name \<Rightarrow>
          [TypeNamePointsToType module type_name type_symbol,
           FieldPointsToSymbol type_symbol old_name field_symbol, FieldNameIsAvailable type_symbol new_name]
      | RemoveField module type_symbol type_name field_symbol name \<Rightarrow>
          [TypeNamePointsToType module type_name type_symbol,
           FieldPointsToSymbol type_symbol name field_symbol]
      | AddVariant module type_symbol type_name variant _ \<Rightarrow>
          [TypeNamePointsToType module type_name type_symbol,
           VariantNameIsAvailable type_symbol (tm_name variant)]
      | RenameVariant module type_symbol type_name variant_symbol old_name new_name \<Rightarrow>
          [TypeNamePointsToType module type_name type_symbol,
           VariantPointsToSymbol type_symbol old_name variant_symbol,
           VariantNameIsAvailable type_symbol new_name]
      | RemoveVariant module type_symbol type_name variant_symbol name \<Rightarrow>
          [TypeNamePointsToType module type_name type_symbol,
           VariantPointsToSymbol type_symbol name variant_symbol]
      | RenameSymbol module symbol old_name new_name \<Rightarrow>
          [PreferredNamePointsToSymbol module old_name symbol, NameIsAvailable module new_name]
      | MoveSymbol module symbol name new_module \<Rightarrow>
          PreferredNamePointsToSymbol module name symbol #
          (if module = new_module then []
           else moved_name_preconditions env objects input_root module symbol name new_module)
      | ReplaceFunctionBody module symbol name _ \<Rightarrow> [NamePointsToSymbol module name symbol]
      | ChangeFunctionSignature module symbol name _ _ _ _ \<Rightarrow> [NamePointsToSymbol module name symbol]
      | AddParameter module symbol name _ _ \<Rightarrow> [NamePointsToSymbol module name symbol]
      | ConvertParamToReference module symbol name _ _ _ _ \<Rightarrow> [NamePointsToSymbol module name symbol]
      | DeleteSymbol module symbol name _ \<Rightarrow> [NamePointsToSymbol module name symbol]
      | CreateAlias module symbol name alias \<Rightarrow>
          [NamePointsToSymbol module name symbol, NameIsAvailable module alias]
      | RemoveAlias module symbol name alias \<Rightarrow>
          [NamePointsToSymbol module name symbol, AliasPointsToSymbol module alias symbol]
      | SetExport module symbol name exported_name \<Rightarrow>
          [NamePointsToSymbol module name symbol, ExportNameIsAvailable exported_name]
      | RemoveExport module symbol name exported_name \<Rightarrow>
          [NamePointsToSymbol module name symbol, ExportPointsToSymbol exported_name symbol]
      | CreateTest name entry_module entry_name entry_symbol _ _ _ _ _ _ \<Rightarrow>
          [TestNameIsAvailable name, NamePointsToSymbol entry_module entry_name entry_symbol]
      | DeleteTest name test \<Rightarrow> [TestNamePointsToTest name test]
      | MergeBranch _ _ _ _ _ _ _ _ \<Rightarrow> [])"

definition or_empty :: "string res \<Rightarrow> string" where
  "or_empty r = (case r of Inl _ \<Rightarrow> [] | Inr s \<Rightarrow> s)"

definition postconditions_for :: "env \<Rightarrow> objects \<Rightarrow> string \<Rightarrow> operation \<Rightarrow> postcondition list" where
  "postconditions_for env objects output_root op =
     RootExists output_root #
     (case op of
        CreateFunction module name _ region_params type_params params return_type effects body \<Rightarrow>
          [FunctionSourceMatches module name region_params type_params params return_type effects body]
      | CreateRecursionGroup module members \<Rightarrow>
          map (\<lambda>m. FunctionSourceMatches module (rg_name m) (rg_region_params m) (rg_type_params m)
                 (rg_params m) (rg_return_type m) (rg_effects m) (rg_body m)) members
      | CreateTypeGroup module members \<Rightarrow>
          map (\<lambda>m. TypeSourceMatches module (tg_name m) (tg_region_params m) [] (tg_definition m)) members
      | CreateExternalFunction module name _ region_params params return_type effects abi link_name library \<Rightarrow>
          [ExternalFunctionSourceMatches module name region_params params return_type effects abi
             link_name library]
      | CreateType module name _ region_params type_params definition _ \<Rightarrow>
          [TypeSourceMatches module name region_params type_params definition]
      | RenameType module type_symbol old_name new_name \<Rightarrow>
          [PostTypeNamePointsToType module new_name type_symbol, TypeNameAbsent module old_name]
      | MoveType module type_symbol name new_module \<Rightarrow>
          PostTypeNamePointsToType new_module name type_symbol #
          (if module \<noteq> new_module then [TypeNameAbsent module name] else [])
      | AddField module type_symbol _ field _ \<Rightarrow>
          [PostFieldPointsToSymbol type_symbol (tm_name field)
             (or_empty (res_bind (load_root env objects output_root) (\<lambda>root.
                env_field_symbol env objects root type_symbol (tm_name field))))]
      | RenameField _ type_symbol _ field_symbol old_name new_name \<Rightarrow>
          [PostFieldPointsToSymbol type_symbol new_name field_symbol,
           FieldAbsent type_symbol old_name field_symbol]
      | RemoveField _ type_symbol _ field_symbol name \<Rightarrow> [FieldAbsent type_symbol name field_symbol]
      | AddVariant module type_symbol _ variant _ \<Rightarrow>
          [PostVariantPointsToSymbol type_symbol (tm_name variant)
             (or_empty (res_bind (load_root env objects output_root) (\<lambda>root.
                env_variant_symbol env objects root type_symbol (tm_name variant))))]
      | RenameVariant _ type_symbol _ variant_symbol old_name new_name \<Rightarrow>
          [PostVariantPointsToSymbol type_symbol new_name variant_symbol,
           VariantAbsent type_symbol old_name variant_symbol]
      | RemoveVariant _ type_symbol _ variant_symbol name \<Rightarrow>
          [VariantAbsent type_symbol name variant_symbol]
      | RenameSymbol module symbol old_name new_name \<Rightarrow>
          [PostNamePointsToSymbol module new_name symbol, NameAbsent module old_name]
      | MoveSymbol module symbol name new_module \<Rightarrow>
          PostNamePointsToSymbol new_module name symbol #
          (if module \<noteq> new_module then [NameAbsent module name] else [])
      | ReplaceFunctionBody module symbol name body \<Rightarrow> [BodySourceMatches module name symbol body]
      | ChangeFunctionSignature module symbol name region_params params return_type effects \<Rightarrow>
          [SignatureSourceMatches module name symbol region_params params return_type effects]
      | AddParameter module symbol name _ _ \<Rightarrow> [PostNamePointsToSymbol module name symbol]
      | ConvertParamToReference module symbol name _ _ _ _ \<Rightarrow> [PostNamePointsToSymbol module name symbol]
      | DeleteSymbol _ symbol _ _ \<Rightarrow> [SymbolAbsent symbol]
      | CreateAlias module symbol _ alias \<Rightarrow> [PostNamePointsToSymbol module alias symbol]
      | RemoveAlias module _ _ alias \<Rightarrow> [NameAbsent module alias]
      | SetExport _ symbol _ exported_name \<Rightarrow> [PostExportPointsToSymbol exported_name symbol]
      | RemoveExport _ _ _ exported_name \<Rightarrow> [ExportAbsent exported_name]
      | CreateTest name _ _ _ _ _ _ _ _ _ \<Rightarrow>
          [PostTestNamePointsToTest name
             (or_empty (res_bind (load_root env objects output_root) (\<lambda>root.
                ok_or (map_option tb_test (test_binding_for root name)) (Bail [] []))))]
      | DeleteTest name test \<Rightarrow> [TestAbsent name test]
      | MergeBranch _ _ _ _ _ _ _ _ \<Rightarrow> [])"

text \<open>\<open>Result<bool>::unwrap_or(false)\<close>.\<close>

definition or_false :: "bool res \<Rightarrow> bool" where
  "or_false r = (case r of Inl _ \<Rightarrow> False | Inr b \<Rightarrow> b)"

fun precondition_holds :: "env \<Rightarrow> objects \<Rightarrow> string \<Rightarrow> program_root \<Rightarrow> precondition \<Rightarrow> bool" where
  "precondition_holds env objects current_root root (RootIsCurrent r) = (r = current_root)"
| "precondition_holds env objects current_root root (NameIsAvailable module name) =
     (\<not> list_ex (\<lambda>b. nb_module b = module \<and> nb_display_name b = name) (names root))"
| "precondition_holds env objects current_root root (TypeNameIsAvailable module name) =
     (\<not> list_ex (\<lambda>b. tnb_module b = module \<and> tnb_display_name b = name) (type_names root))"
| "precondition_holds env objects current_root root (NamePointsToSymbol module name symbol) =
     name_points_to_symbol root module name symbol"
| "precondition_holds env objects current_root root (TypeNamePointsToType module name type_symbol) =
     type_name_points_to_type root module name type_symbol"
| "precondition_holds env objects current_root root (PreferredTypeNamePointsToType module name type_symbol) =
     preferred_type_name_points_to_type root module name type_symbol"
| "precondition_holds env objects current_root root (FieldPointsToSymbol type_symbol name field_symbol) =
     or_false (env_field_points env objects root type_symbol name field_symbol)"
| "precondition_holds env objects current_root root (FieldNameIsAvailable type_symbol name) =
     or_false (env_field_available env objects root type_symbol name)"
| "precondition_holds env objects current_root root (VariantPointsToSymbol type_symbol name variant_symbol) =
     or_false (env_variant_points env objects root type_symbol name variant_symbol)"
| "precondition_holds env objects current_root root (VariantNameIsAvailable type_symbol name) =
     or_false (env_variant_available env objects root type_symbol name)"
| "precondition_holds env objects current_root root (PreferredNamePointsToSymbol module name symbol) =
     preferred_name_points_to_symbol root module name symbol"
| "precondition_holds env objects current_root root (AliasPointsToSymbol module alias symbol) =
     alias_points_to_symbol root module alias symbol"
| "precondition_holds env objects current_root root (ExportNameIsAvailable name) =
     (\<not> list_ex (\<lambda>b. eb_exported_name b = name) (exports root))"
| "precondition_holds env objects current_root root (ExportPointsToSymbol name symbol) =
     export_points_to_symbol root name symbol"
| "precondition_holds env objects current_root root (TestNameIsAvailable name) =
     (\<not> list_ex (\<lambda>b. tb_name b = name) (tests root))"
| "precondition_holds env objects current_root root (TestNamePointsToTest name test) =
     test_name_points_to_test root name test"

definition failed_preconditions ::
    "env \<Rightarrow> objects \<Rightarrow> string \<Rightarrow> precondition list \<Rightarrow> precondition list res" where
  "failed_preconditions env objects current_root preconditions =
     res_bind (load_root env objects current_root) (\<lambda>root.
       Inr (filter (\<lambda>p. \<not> precondition_holds env objects current_root root p) preconditions))"

definition postcondition_holds :: "env \<Rightarrow> objects \<Rightarrow> string \<Rightarrow> program_root \<Rightarrow> postcondition \<Rightarrow> bool res" where
  "postcondition_holds env objects current_root root postcondition =
     (case postcondition of
        RootExists r \<Rightarrow> Inr (r = current_root \<or> r \<in> or_hash ` set objects)
      | PostNamePointsToSymbol module name symbol \<Rightarrow> Inr (name_points_to_symbol root module name symbol)
      | PostTypeNamePointsToType module name type_symbol \<Rightarrow>
          Inr (type_name_points_to_type root module name type_symbol)
      | NameAbsent module name \<Rightarrow>
          Inr (\<not> list_ex (\<lambda>b. nb_module b = module \<and> nb_display_name b = name) (names root))
      | TypeNameAbsent module name \<Rightarrow>
          Inr (\<not> list_ex (\<lambda>b. tnb_module b = module \<and> tnb_display_name b = name) (type_names root))
      | PostFieldPointsToSymbol type_symbol name field_symbol \<Rightarrow>
          env_field_points env objects root type_symbol name field_symbol
      | FieldAbsent type_symbol name field_symbol \<Rightarrow>
          res_bind (env_field_points env objects root type_symbol name field_symbol) (\<lambda>b. Inr (\<not> b))
      | PostVariantPointsToSymbol type_symbol name variant_symbol \<Rightarrow>
          env_variant_points env objects root type_symbol name variant_symbol
      | VariantAbsent type_symbol name variant_symbol \<Rightarrow>
          res_bind (env_variant_points env objects root type_symbol name variant_symbol) (\<lambda>b. Inr (\<not> b))
      | FunctionSourceMatches module name _ _ _ _ _ _ \<Rightarrow>
          (case symbol_for_name root module name of
             None \<Rightarrow> Inr False
           | Some _ \<Rightarrow> env_source_matches env objects root postcondition)
      | ExternalFunctionSourceMatches module name _ _ _ _ _ _ _ \<Rightarrow>
          (case symbol_for_name root module name of
             None \<Rightarrow> Inr False
           | Some _ \<Rightarrow> env_source_matches env objects root postcondition)
      | BodySourceMatches module name symbol _ \<Rightarrow>
          if \<not> name_points_to_symbol root module name symbol then Inr False
          else env_source_matches env objects root postcondition
      | SignatureSourceMatches module name symbol _ _ _ _ \<Rightarrow>
          if \<not> name_points_to_symbol root module name symbol then Inr False
          else env_source_matches env objects root postcondition
      | SymbolAbsent symbol \<Rightarrow>
          Inr (\<not> list_ex (\<lambda>entry. rs_symbol entry = symbol) (symbols root)
             \<and> \<not> list_ex (\<lambda>b. nb_symbol b = symbol) (names root)
             \<and> \<not> list_ex (\<lambda>b. eb_symbol b = symbol) (exports root)
             \<and> \<not> list_ex (\<lambda>b. env_test_entry env objects (tb_test b) = Inr symbol) (tests root))
      | PostExportPointsToSymbol name symbol \<Rightarrow> Inr (export_points_to_symbol root name symbol)
      | ExportAbsent name \<Rightarrow> Inr (\<not> list_ex (\<lambda>b. eb_exported_name b = name) (exports root))
      | PostTestNamePointsToTest name test \<Rightarrow> Inr (test_name_points_to_test root name test)
      | TestAbsent name test \<Rightarrow>
          Inr (\<not> list_ex (\<lambda>b. tb_name b = name \<or> tb_test b = test) (tests root))
      | TypeSourceMatches _ _ _ _ _ \<Rightarrow> env_source_matches env objects root postcondition)"

definition failed_postconditions ::
    "env \<Rightarrow> objects \<Rightarrow> string \<Rightarrow> postcondition list \<Rightarrow> postcondition list res" where
  "failed_postconditions env objects current_root postconditions =
     res_bind (load_root env objects current_root) (\<lambda>root.
     res_bind (res_map (\<lambda>p. res_bind (postcondition_holds env objects current_root root p) (\<lambda>holds.
         Inr (if holds then [] else [p]))) postconditions) (\<lambda>failed.
     Inr (concat failed)))"

subsection \<open>Names of conditions\<close>

definition precondition_name :: "precondition \<Rightarrow> string" where
  "precondition_name p = (case p of
     RootIsCurrent _ \<Rightarrow> ''root_is_current''
   | NameIsAvailable _ _ \<Rightarrow> ''name_is_available''
   | TypeNameIsAvailable _ _ \<Rightarrow> ''type_name_is_available''
   | NamePointsToSymbol _ _ _ \<Rightarrow> ''name_points_to_symbol''
   | TypeNamePointsToType _ _ _ \<Rightarrow> ''type_name_points_to_type''
   | PreferredTypeNamePointsToType _ _ _ \<Rightarrow> ''preferred_type_name_points_to_type''
   | FieldPointsToSymbol _ _ _ \<Rightarrow> ''field_points_to_symbol''
   | FieldNameIsAvailable _ _ \<Rightarrow> ''field_name_is_available''
   | VariantPointsToSymbol _ _ _ \<Rightarrow> ''variant_points_to_symbol''
   | VariantNameIsAvailable _ _ \<Rightarrow> ''variant_name_is_available''
   | PreferredNamePointsToSymbol _ _ _ \<Rightarrow> ''preferred_name_points_to_symbol''
   | AliasPointsToSymbol _ _ _ \<Rightarrow> ''alias_points_to_symbol''
   | ExportNameIsAvailable _ \<Rightarrow> ''export_name_is_available''
   | ExportPointsToSymbol _ _ \<Rightarrow> ''export_points_to_symbol''
   | TestNameIsAvailable _ \<Rightarrow> ''test_name_is_available''
   | TestNamePointsToTest _ _ \<Rightarrow> ''test_name_points_to_test'')"

definition postcondition_name :: "postcondition \<Rightarrow> string" where
  "postcondition_name p = (case p of
     RootExists _ \<Rightarrow> ''root_exists''
   | FunctionSourceMatches _ _ _ _ _ _ _ _ \<Rightarrow> ''function_source_matches''
   | ExternalFunctionSourceMatches _ _ _ _ _ _ _ _ _ \<Rightarrow> ''external_function_source_matches''
   | TypeSourceMatches _ _ _ _ _ \<Rightarrow> ''type_source_matches''
   | PostNamePointsToSymbol _ _ _ \<Rightarrow> ''name_points_to_symbol''
   | PostTypeNamePointsToType _ _ _ \<Rightarrow> ''type_name_points_to_type''
   | NameAbsent _ _ \<Rightarrow> ''name_absent''
   | TypeNameAbsent _ _ \<Rightarrow> ''type_name_absent''
   | PostFieldPointsToSymbol _ _ _ \<Rightarrow> ''field_points_to_symbol''
   | FieldAbsent _ _ _ \<Rightarrow> ''field_absent''
   | PostVariantPointsToSymbol _ _ _ \<Rightarrow> ''variant_points_to_symbol''
   | VariantAbsent _ _ _ \<Rightarrow> ''variant_absent''
   | BodySourceMatches _ _ _ _ \<Rightarrow> ''body_source_matches''
   | SignatureSourceMatches _ _ _ _ _ _ _ \<Rightarrow> ''signature_source_matches''
   | SymbolAbsent _ \<Rightarrow> ''symbol_absent''
   | PostExportPointsToSymbol _ _ \<Rightarrow> ''export_points_to_symbol''
   | ExportAbsent _ \<Rightarrow> ''export_absent''
   | PostTestNamePointsToTest _ _ \<Rightarrow> ''test_name_points_to_test''
   | TestAbsent _ _ \<Rightarrow> ''test_absent'')"

definition condition_names :: "('c \<Rightarrow> string) \<Rightarrow> 'c list \<Rightarrow> string" where
  "condition_names condition_name conditions =
     (if conditions = [] then ''none'' else join_with '','' (map condition_name conditions))"

end
