(* ===== verification/History.thy ===== *)
theory History
  imports Conditions
begin

text \<open>
  Recording an operation on a branch, \<open>src/src/migrations.rs\<close>, and the operations on branches
  of \<open>src/src/branches.rs\<close>. \<open>apply_and_record_in_tx\<close> is the body of the transaction: it
  returns the outcome, whether the caller is to commit, and the tables; \<open>apply_and_record_expected\<close>
  commits or rolls back. The theory ends with the step relation of the store, one rule per
  operation that a client can commit.
\<close>

record migration_report =
  rp_old_root :: string
  rp_new_root :: string
  rp_migration_hash :: "string option"
  rp_history_hash :: "string option"
  rp_summary :: json

record migration_conflict =
  mc_current_root :: string
  mc_expected_root :: string
  mc_summary :: json
  mc_failed_preconditions :: "precondition list"
  mc_failed_postconditions :: "postcondition list"

datatype migration_outcome =
    Applied migration_report
  | AlreadyApplied migration_report
  | Conflict migration_conflict

subsection \<open>Recorded operations\<close>

definition operation_text :: "env \<Rightarrow> operation \<Rightarrow> string" where
  "operation_text env op = canonical_json (env_quote env) (env_operation_to_json env op)"

definition recorded_operation_output_matches :: "env \<Rightarrow> db \<Rightarrow> string \<Rightarrow> string \<Rightarrow> operation \<Rightarrow> bool" where
  "recorded_operation_output_matches env db input_root output_root op =
     list_ex (\<lambda>m. mg_input m = input_root \<and> mg_output m = output_root \<and> mg_kind m = kind_name op
       \<and> mg_operation m = operation_text env op) (db_migrations db)"

definition recorded_operation_exists :: "env \<Rightarrow> db \<Rightarrow> operation \<Rightarrow> bool" where
  "recorded_operation_exists env db op =
     list_ex (\<lambda>m. mg_kind m = kind_name op \<and> mg_operation m = operation_text env op) (db_migrations db)"

fun recorded_outputs :: "env \<Rightarrow> db \<Rightarrow> operation list \<Rightarrow> string list \<Rightarrow> string list option" where
  "recorded_outputs env db [] current_roots = Some current_roots"
| "recorded_outputs env db (op # ops) current_roots =
     (let next_roots = bset_of_list (map mg_output (filter (\<lambda>m.
            mg_input m \<in> set current_roots \<and> mg_kind m = kind_name op
            \<and> mg_operation m = operation_text env op) (db_migrations db)))
      in if next_roots = [] then None else recorded_outputs env db ops next_roots)"

definition recorded_operation_sequence_outputs_root ::
    "env \<Rightarrow> db \<Rightarrow> string \<Rightarrow> string \<Rightarrow> operation list \<Rightarrow> bool" where
  "recorded_operation_sequence_outputs_root env db expected_root actual_root operations =
     (if operations = [] then expected_root = actual_root
      else case recorded_outputs env db operations [expected_root] of
             None \<Rightarrow> False
           | Some current_roots \<Rightarrow> actual_root \<in> set current_roots)"

subsection \<open>Applying an operation on a branch\<close>

text \<open>
  The failed preconditions are not empty. The operation counts as applied when its promises
  hold already and it was recorded: with that output from the root the client expected, or at
  all when the client's root is the current one.
\<close>

definition settle_failed ::
    "env \<Rightarrow> db \<Rightarrow> branch_state \<Rightarrow> string \<Rightarrow> operation \<Rightarrow> precondition list \<Rightarrow> migration_outcome res" where
  "settle_failed env db st expected_root op failed_pre =
     (let old_root = bs_root_hash st;
          conflict = (\<lambda>failed_post. Conflict \<lparr>mc_current_root = old_root, mc_expected_root = expected_root,
            mc_summary = env_fallback_summary env op, mc_failed_preconditions = failed_pre,
            mc_failed_postconditions = failed_post\<rparr>)
      in res_bind (failed_postconditions env (db_objects db) old_root
             (postconditions_for env (db_objects db) old_root op)) (\<lambda>failed_post.
         if failed_post = []
         then
           (let stale = list_ex (\<lambda>p. case p of RootIsCurrent _ \<Rightarrow> True | _ \<Rightarrow> False) failed_pre
            in if stale \<and> \<not> recorded_operation_output_matches env db expected_root old_root op
               then Inr (conflict failed_post)
               else if \<not> stale \<and> \<not> recorded_operation_exists env db op
               then Inr (conflict failed_post)
               else res_bind (env_summary env (db_objects db) op old_root old_root) (\<lambda>summary.
                 Inr (AlreadyApplied \<lparr>rp_old_root = old_root, rp_new_root = old_root,
                   rp_migration_hash = None, rp_history_hash = bs_history_hash st,
                   rp_summary = summary\<rparr>)))
         else Inr (conflict failed_post)))"

definition record_migration ::
    "env \<Rightarrow> string \<Rightarrow> branch_state \<Rightarrow> string \<Rightarrow> operation \<Rightarrow> precondition list \<Rightarrow> postcondition list \<Rightarrow> json \<Rightarrow> db
      \<Rightarrow> (string \<times> string) \<times> db" where
  "record_migration env branch_name st new_root op preconditions postconditions agent db =
     (let old_root = bs_root_hash st;
          operation_json = env_operation_to_json env op;
          preconditions_json = env_preconditions_to_json env preconditions;
          postconditions_json = env_postconditions_to_json env postconditions;
          migration = migration_hash env (bs_history_hash st) old_root new_root operation_json
            preconditions_json postconditions_json;
          hist = history_hash env (bs_history_hash st) migration new_root;
          text = canonical_json (env_quote env);
          db = db\<lparr>db_migrations := insert_or_ignore mg_hash
                 \<lparr>mg_hash = migration, mg_parent = bs_history_hash st, mg_input = old_root,
                   mg_output = new_root, mg_kind = kind_name op, mg_operation = text operation_json,
                   mg_preconditions = text preconditions_json,
                   mg_postconditions = text postconditions_json, mg_agent = agent\<rparr> (db_migrations db)\<rparr>;
          db = db\<lparr>db_histories := insert_or_ignore hs_hash
                 \<lparr>hs_hash = hist, hs_parent = bs_history_hash st, hs_migration = migration,
                   hs_output = new_root\<rparr> (db_histories db)\<rparr>
      in ((migration, hist), update_branch branch_name new_root hist db))"

definition apply_and_record_in_tx ::
    "env \<Rightarrow> string \<Rightarrow> string \<Rightarrow> operation \<Rightarrow> json option \<Rightarrow> db \<Rightarrow> ((migration_outcome \<times> bool) \<times> db) res" where
  "apply_and_record_in_tx env branch_name expected_root op agent db =
     res_bind (branch db branch_name) (\<lambda>st.
     let old_root = bs_root_hash st;
         preconditions = preconditions_for env (db_objects db) expected_root op
     in res_bind (failed_preconditions env (db_objects db) old_root preconditions) (\<lambda>failed_pre.
     if failed_pre \<noteq> []
     then res_bind (settle_failed env db st expected_root op failed_pre) (\<lambda>outcome.
            Inr ((outcome, False), db))
     else
       res_bind (apply_operation_to_root env old_root (bs_history_hash st) op (db_objects db))
         (\<lambda>(new_root, objects).
       let db = db\<lparr>db_objects := objects\<rparr>;
           postconditions = postconditions_for env objects new_root op
       in res_bind (failed_postconditions env objects new_root postconditions) (\<lambda>failed_post.
       if failed_post \<noteq> []
       then Inl (Bail ''postcondition failed for {}: {}'' [kind_name op, condition_names postcondition_name failed_post])
       else if new_root = old_root
       then res_bind (env_summary env objects op old_root old_root) (\<lambda>summary.
              Inr ((AlreadyApplied \<lparr>rp_old_root = old_root, rp_new_root = old_root,
                rp_migration_hash = None, rp_history_hash = bs_history_hash st, rp_summary = summary\<rparr>,
                False), db))
       else
         res_bind (env_summary env objects op old_root new_root) (\<lambda>summary.
         let ((migration, hist), db) = record_migration env branch_name st new_root op preconditions
               postconditions (case agent of None \<Rightarrow> JObj [] | Some a \<Rightarrow> a) db
         in Inr ((Applied \<lparr>rp_old_root = old_root, rp_new_root = new_root,
               rp_migration_hash = Some migration, rp_history_hash = Some hist, rp_summary = summary\<rparr>,
               True), db))))))"

definition apply_and_record_expected ::
    "env \<Rightarrow> string \<Rightarrow> operation \<Rightarrow> db \<Rightarrow> (migration_outcome \<times> db) res" where
  "apply_and_record_expected env expected_root op db =
     res_bind (apply_and_record_in_tx env MAIN_BRANCH expected_root op None db)
       (\<lambda>((outcome, should_commit), tables). Inr (outcome, if should_commit then tables else db))"

subsection \<open>The chain of a branch\<close>

record history_item =
  hi_history_hash :: string
  hi_migration_hash :: string
  hi_input_root :: string
  hi_output_root :: string
  hi_operation_kind :: string
  hi_operation :: operation

text \<open>
  The loop follows parents with no check of its own, so it returns only if the parents come to
  an end: \<open>None\<close> is a loop that does not.
\<close>

partial_function (option) history_chain_loop ::
    "env \<Rightarrow> db \<Rightarrow> string option \<Rightarrow> history_item list \<Rightarrow> history_item list res option" where
  "history_chain_loop env db cursor items =
     (case cursor of
        None \<Rightarrow> Some (Inr items)
      | Some h \<Rightarrow>
          (case row_by hs_hash h (db_histories db) of
             None \<Rightarrow> Some (Inl NO_ROWS)
           | Some row \<Rightarrow>
               (case row_by mg_hash (hs_migration row) (db_migrations db) of
                  None \<Rightarrow> Some (Inl NO_ROWS)
                | Some m \<Rightarrow>
                    (case env_operation_of_text env (mg_operation m) of
                       Inl e \<Rightarrow> Some (Inl e)
                     | Inr op \<Rightarrow>
                         history_chain_loop env db (hs_parent row)
                           (items @ [\<lparr>hi_history_hash = h, hi_migration_hash = hs_migration row,
                              hi_input_root = mg_input m, hi_output_root = hs_output row,
                              hi_operation_kind = mg_kind m, hi_operation = op\<rparr>])))))"

definition history_chain :: "env \<Rightarrow> db \<Rightarrow> string \<Rightarrow> history_item list res option" where
  "history_chain env db name =
     (case branch db name of
        Inl e \<Rightarrow> Some (Inl e)
      | Inr st \<Rightarrow>
          map_option (\<lambda>r. res_bind r (\<lambda>items. Inr (rev items)))
            (history_chain_loop env db (bs_history_hash st) []))"

subsection \<open>Branches\<close>

definition branch_source_state ::
    "env \<Rightarrow> string option \<Rightarrow> string option \<Rightarrow> string option \<Rightarrow> db \<Rightarrow> branch_state res" where
  "branch_source_state env from_branch from_root_hash from_history_hash db =
     (let (source_branch, source_root_hash) =
        (case (from_root_hash, from_branch) of
           (None, Some source) \<Rightarrow>
             if starts_with ''sha256:'' source then (None, Some source) else (from_branch, None)
         | _ \<Rightarrow> (from_branch, from_root_hash))
      in if source_branch \<noteq> None \<and> source_root_hash \<noteq> None
         then Inl (Bail ''branch source must use either --from or --from-root, not both'' [])
         else
           case source_root_hash of
             Some root_hash \<Rightarrow>
               res_bind (load_root env (db_objects db) root_hash) (\<lambda>_.
                 Inr \<lparr>bs_root_hash = root_hash, bs_history_hash = from_history_hash\<rparr>)
           | None \<Rightarrow>
               if from_history_hash \<noteq> None
               then Inl (Bail ''--from-history can only be used with --from-root or a sha256: --from value'' [])
               else branch db (case source_branch of None \<Rightarrow> MAIN_BRANCH | Some b \<Rightarrow> b))"

definition create_branch_from ::
    "env \<Rightarrow> string \<Rightarrow> string option \<Rightarrow> string option \<Rightarrow> string option \<Rightarrow> db \<Rightarrow> (branch_state \<times> db) res" where
  "create_branch_from env name from_branch from_root_hash from_history_hash db =
     res_bind (branch_source_state env from_branch from_root_hash from_history_hash db) (\<lambda>st.
     create_branch_pointer env name (bs_root_hash st) (bs_history_hash st) db)"

definition fast_forward_branch ::
    "env \<Rightarrow> string \<Rightarrow> string \<Rightarrow> string \<Rightarrow> db \<Rightarrow> (branch_fast_forward_outcome \<times> db) res" where
  "fast_forward_branch env target source_branch expected_root_hash db =
     res_bind (branch db source_branch) (\<lambda>source.
     fast_forward_branch_pointer env target expected_root_hash source db)"

definition delete_branch :: "string \<Rightarrow> string option \<Rightarrow> db \<Rightarrow> (branch_delete_outcome \<times> db) res" where
  "delete_branch name expected_root_hash db =
     (if name = MAIN_BRANCH then Inl (Bail ''cannot delete the main branch'' [])
      else delete_branch_pointer_expected name expected_root_hash db)"

definition ensure_initialized :: "env \<Rightarrow> (string \<times> json) list \<Rightarrow> db \<Rightarrow> (string \<times> db) res" where
  "ensure_initialized env builtin_types db =
     res_bind (put_program_root env empty_root
         (fold (\<lambda>(kind, payload) objects. snd (put_object env kind payload objects)) builtin_types
            (db_objects db))) (\<lambda>(root_hash, objects).
     res_bind (env_index_root env root_hash objects) (\<lambda>objects.
     Inr (root_hash, db\<lparr>db_objects := objects,
       db_branches := (if MAIN_BRANCH \<in> fst ` set (db_branches db) then db_branches db
         else db_branches db @ [(MAIN_BRANCH, \<lparr>bs_root_hash = root_hash, bs_history_hash = None\<rparr>)])\<rparr>)))"

subsection \<open>The store as a state machine\<close>

text \<open>
  The operations a client can send: what is written to the migrations table reads back, and
  the JSON values a merge carries have distinct keys, as every \<open>JsonValue\<close> and every
  \<open>BTreeMap\<close> of the program.
\<close>

definition root_ok :: "program_root \<Rightarrow> bool" where
  "root_ok r \<longleftrightarrow> sorted (map fst (metadata r)) \<and> distinct (map fst (metadata r)) \<and>
     (\<forall>(k, v) \<in> set (metadata r). json_ok v \<and> json_norm v = v)"

definition operation_ok :: "env \<Rightarrow> operation \<Rightarrow> bool" where
  "operation_ok env op \<longleftrightarrow>
     json_ok (env_operation_to_json env op) \<and> env_operation_of_text env (operation_text env op) = Inr op \<and>
     (case op of
        MergeBranch _ _ _ _ _ _ merged_root object_payloads \<Rightarrow>
          root_ok merged_root \<and>
          list_all (\<lambda>obj. json_ok (mo_payload obj) \<and> CHR 0x00 \<notin> set (mo_kind obj)) object_payloads
      | _ \<Rightarrow> True)"

inductive db_step :: "env \<Rightarrow> db \<Rightarrow> db \<Rightarrow> bool" for env :: env where
  commit: "operation_ok env op \<Longrightarrow>
    apply_and_record_in_tx env branch_name expected_root op agent db = Inr ((outcome, True), db')
    \<Longrightarrow> db_step env db db'"
| create: "create_branch_from env name from_branch from_root from_history db = Inr (st, db')
    \<Longrightarrow> db_step env db db'"
| forward: "fast_forward_branch env target source_branch expected_root db = Inr (out_ff, db')
    \<Longrightarrow> db_step env db db'"
| delete: "delete_branch name expected db = Inr (out_del, db') \<Longrightarrow> db_step env db db'"

inductive reachable :: "env \<Rightarrow> (string \<times> json) list \<Rightarrow> db \<Rightarrow> bool" for env builtin_types where
  init: "ensure_initialized env builtin_types
      \<lparr>db_objects = [], db_migrations = [], db_histories = [], db_branches = []\<rparr> = Inr (root, db)
    \<Longrightarrow> reachable env builtin_types db"
| step: "reachable env builtin_types db \<Longrightarrow> db_step env db db' \<Longrightarrow> reachable env builtin_types db'"

end
