(* ===== verification/Chains.thy ===== *)
theory Chains
  imports History
begin

text \<open>
  The invariant of the history tables. A recorded history names its parent, its migration and
  the root it outputs; the invariant says that the parent was recorded before and outputs the
  root the migration starts from, and that a branch points to a history that outputs the root
  of the branch. It is kept by every committed operation, so the chain of a branch ends, and
  reads as a path of roots that ends at the root of the branch.
\<close>

subsection \<open>Keyed tables\<close>

lemma row_by_Some_iff:
  "distinct (map key rows) \<Longrightarrow> row_by key k rows = Some r \<longleftrightarrow> r \<in> set rows \<and> key r = k"
proof (induction rows)
  case (Cons a rows)
  then show ?case
  proof (cases "key a = k")
    case True
    then have "k \<notin> key ` set rows" using Cons.prems by auto
    with True show ?thesis by (auto simp: row_by_def intro: rev_image_eqI)
  qed (use Cons in \<open>auto simp: row_by_def\<close>)
qed (simp add: row_by_def)

lemma row_by_append: "row_by key k (rows @ added) = (case row_by key k rows of None \<Rightarrow> row_by key k added | Some r \<Rightarrow> Some r)"
  by (simp add: row_by_def find_append split: option.split)

lemma distinct_insert_or_ignore:
  "distinct (map key rows) \<Longrightarrow> distinct (map key (insert_or_ignore key r rows))"
  by (auto simp: insert_or_ignore_def)

definition extends :: "'r list \<Rightarrow> 'r list \<Rightarrow> bool" where
  "extends rows rows' \<longleftrightarrow> (\<exists>added. rows' = rows @ added)"

lemma extends_refl [simp]: "extends rows rows"
  and extends_trans: "extends r s \<Longrightarrow> extends s t \<Longrightarrow> extends r t"
  and extends_append [simp]: "extends rows (rows @ added)"
  by (auto simp: extends_def)

lemma extends_insert [simp]: "extends rows (insert_or_ignore key r rows)"
  by (simp add: insert_or_ignore_def)

lemma extends_subset: "extends rows rows' \<Longrightarrow> set rows \<subseteq> set rows'"
  by (auto simp: extends_def)

lemma extends_row_by: "extends rows rows' \<Longrightarrow> row_by key k rows = Some r \<Longrightarrow> row_by key k rows' = Some r"
  by (auto simp: extends_def row_by_append)

lemma extends_fold: "(\<And>x r. extends r (f x r)) \<Longrightarrow> extends rows (fold f xs rows)"
  by (induction xs arbitrary: rows) (auto intro: extends_trans)

lemma load_root_extends: "extends objs objs' \<Longrightarrow> is_ok (load_root env objs h) \<Longrightarrow> load_root env objs' h = load_root env objs h"
  by (cases "row_by or_hash h objs") (auto simp: load_root_def get_payload_def dest: extends_row_by)

lemma put_object_extends: "put_object env kind payload objs = (h, objs') \<Longrightarrow> extends objs objs'"
  by (auto simp: put_object_def Let_def)

subsection \<open>The environment\<close>

text \<open>
  A row of the object table is named by its content, and a payload is a JSON value. Objects are
  only ever added.
\<close>

definition object_row_ok :: "env \<Rightarrow> object_row \<Rightarrow> bool" where
  "object_row_ok env row \<longleftrightarrow>
     or_hash row = hash_object env (or_kind row) (or_payload row) \<and> json_ok (or_payload row)
     \<and> CHR 0x00 \<notin> set (or_kind row)"

definition adds :: "env \<Rightarrow> objects \<Rightarrow> objects \<Rightarrow> bool" where
  "adds env objs objs' \<longleftrightarrow> (\<exists>added. objs' = objs @ added \<and> list_all (object_row_ok env) added)"

text \<open>
  What the environment is assumed to do. String literals delimit themselves, the digest does
  not collide and is free of NUL (it is hex text), what \<open>serde\<close> writes it reads back, whatever
  the order of the entries, and indexing a root or creating a definition only adds objects.
\<close>

definition env_ok :: "env \<Rightarrow> bool" where
  "env_ok env \<longleftrightarrow>
     quote_ok (env_quote env) \<and> inj (env_sha256 env) \<and> (\<forall>s. CHR 0x00 \<notin> set (env_sha256 env s)) \<and>
     (\<forall>ps. json_ok (env_preconditions_to_json env ps)) \<and>
     (\<forall>ps. json_ok (env_postconditions_to_json env ps)) \<and>
     (\<forall>h objs objs'. env_index_root env h objs = Inr objs' \<longrightarrow> adds env objs objs') \<and>
     (\<forall>objs h p op h' objs'. env_apply_definition env objs h p op = Inr (h', objs') \<longrightarrow> adds env objs objs') \<and>
     (\<forall>r. root_ok r \<longrightarrow> json_ok (env_root_to_json env r)) \<and>
     (\<forall>v r. root_ok r \<and> json_ok v \<and> json_norm v = json_norm (env_root_to_json env r)
        \<longrightarrow> env_root_from_json env v = Inr r) \<and>
     (\<forall>v r. env_root_from_json env v = Inr r \<longrightarrow> root_ok r)"

lemma env_okD:
  assumes "env_ok env"
  shows "quote_ok (env_quote env)" and "inj (env_sha256 env)" and "CHR 0x00 \<notin> set (env_sha256 env s)"
    and "json_ok (env_preconditions_to_json env pre)"
    and "json_ok (env_postconditions_to_json env post)"
    and "env_index_root env h objs = Inr objs' \<Longrightarrow> adds env objs objs'"
    and "env_apply_definition env objs h p op = Inr (h', objs') \<Longrightarrow> adds env objs objs'"
    and "root_ok r \<Longrightarrow> json_ok (env_root_to_json env r)"
    and "root_ok r \<Longrightarrow> json_ok v \<Longrightarrow> json_norm v = json_norm (env_root_to_json env r) \<Longrightarrow>
      env_root_from_json env v = Inr r"
    and "env_root_from_json env v = Inr r \<Longrightarrow> root_ok r"
  using assms unfolding env_ok_def by blast+

lemma adds_refl [simp]: "adds env objs objs"
  by (simp add: adds_def)

lemma adds_trans: "adds env r s \<Longrightarrow> adds env s t \<Longrightarrow> adds env r t"
  by (fastforce simp: adds_def)

lemma adds_extends: "adds env objs objs' \<Longrightarrow> extends objs objs'"
  by (auto simp: adds_def)

lemma adds_objects_ok: "adds env objs objs' \<Longrightarrow> list_all (object_row_ok env) objs \<Longrightarrow> list_all (object_row_ok env) objs'"
  by (auto simp: adds_def)

lemma put_object_adds:
  assumes "put_object env kind payload objs = (h, objs')" and "json_ok payload" and "CHR 0x00 \<notin> set kind"
  shows "adds env objs objs'"
  using assms by (auto simp: put_object_def Let_def insert_or_ignore_def adds_def object_row_ok_def)

text \<open>A root that was stored loads as its normal form.\<close>

lemma object_eq:
  assumes env: "env_ok env" and "object_row_ok env a" "object_row_ok env b" "or_hash a = or_hash b"
  shows "json_norm (or_payload a) = json_norm (or_payload b)"
proof -
  have "hash_object env (or_kind a) (or_payload a) = hash_object env (or_kind b) (or_payload b)"
    using assms(2-4) by (simp add: object_row_ok_def)
  then show ?thesis
    using object_hash_determines [OF env_okD(2,1) [OF env], of "or_payload a" "or_payload b" "or_kind a" "or_kind b"]
      assms(2,3) by (simp add: hash_object_def object_row_ok_def)
qed

lemma load_stored:
  assumes env: "env_ok env" and objs: "list_all (object_row_ok env) objs"
    and put: "put_program_root env root objs = Inr (h, objs')" and root: "root_ok root"
  shows "load_root env objs' h = Inr (normalize_root root)" and "adds env objs objs'"
    and "validate_export_map (normalize_root root) = Inr ()"
proof -
  let ?v = "env_root_to_json env (normalize_root root)"
  let ?row = "\<lparr>or_hash = h, or_kind = ''ProgramRoot'', or_payload = ?v\<rparr>"
  have norm: "root_ok (normalize_root root)" using root by (simp add: root_ok_def)
  from put have put': "put_object env ''ProgramRoot'' ?v objs = (h, objs')"
    and "validate_export_map (normalize_root root) = Inr ()" by (auto simp: put_program_root_def Let_def)
  then show "validate_export_map (normalize_root root) = Inr ()" by simp
  show adds: "adds env objs objs'"
    by (rule put_object_adds [OF put']) (simp_all add: env_okD(8) [OF env norm])
  have row: "object_row_ok env ?row" and objs': "objs' = insert_or_ignore or_hash ?row objs"
    using put' env_okD(8) [OF env norm] by (auto simp: put_object_def Let_def object_row_ok_def)
  have "h \<in> or_hash ` set objs'" using objs' by (auto simp: insert_or_ignore_def)
  then obtain a where a: "row_by or_hash h objs' = Some a"
    by (cases "row_by or_hash h objs'") (auto simp: row_by_def find_eq_None_iff)
  then have "object_row_ok env a" "or_hash a = or_hash ?row"
    using adds_objects_ok [OF adds objs] by (auto simp: list_all_iff dest: row_by_Some)
  with object_eq [OF env _ row] env_okD(9) [OF env norm, of "or_payload a"]
  have "env_root_from_json env (or_payload a) = Inr (normalize_root root)"
    by (simp add: object_row_ok_def)
  with a show "load_root env objs' h = Inr (normalize_root root)"
    by (simp add: load_root_def get_payload_def normalize_root_idem)
qed

text \<open>Hashes of migrations and histories determine what they are made of.\<close>

lemma hash_bytes_eq: "env_ok env \<Longrightarrow> hash_bytes (env_sha256 env) d x = hash_bytes (env_sha256 env) d y \<longleftrightarrow> x = y"
  using env_okD(2) by (auto simp: hash_bytes_def dest: injD)

lemma migration_payload_ok:
  "json_ok op \<Longrightarrow> json_ok pre \<Longrightarrow> json_ok post \<Longrightarrow> json_ok (migration_payload p i r op pre post)"
  by (auto simp: migration_payload_def opt_json_def split: option.splits)

lemma migration_payload_norm:
  assumes "json_norm (migration_payload p i r op pre post) = json_norm (migration_payload p' i' r' op' pre' post')"
  shows "p = p' \<and> i = i' \<and> r = r' \<and> json_norm op = json_norm op' \<and> json_norm pre = json_norm pre'
    \<and> json_norm post = json_norm post'"
proof -
  have map_norm: "map_of (case json_norm (JObj m) of JObj n \<Rightarrow> n | _ \<Rightarrow> []) k = map_option json_norm (map_of m k)"
    if "distinct (map fst m)" for m k
  proof -
    have "map_of (sort_key fst m) = map_of m"
      by (rule map_of_inject_set [THEN iffD2]) (use that in \<open>auto simp: distinct_map\<close>)
    then show ?thesis by (simp add: map_of_map)
  qed
  have "map_option json_norm (map_of (case migration_payload p i r op pre post of JObj m \<Rightarrow> m | _ \<Rightarrow> []) k)
      = map_option json_norm (map_of (case migration_payload p' i' r' op' pre' post' of JObj m \<Rightarrow> m | _ \<Rightarrow> []) k)"
    for k
    using assms by (subst map_norm [symmetric], simp add: migration_payload_def)+
      (simp add: migration_payload_def)
  note eq = this [unfolded migration_payload_def, simplified]
  show ?thesis
    using eq [of "''parent_history_hash''"] eq [of "''input_root_hash''"] eq [of "''output_root_hash''"]
      eq [of "''operation''"] eq [of "''preconditions''"] eq [of "''postconditions''"]
    by (auto simp: opt_json_def split: option.splits)
qed


lemma migration_hash_eq:
  assumes "env_ok env" and "json_ok op" "json_ok pre" "json_ok post" "json_ok op'" "json_ok pre'" "json_ok post'"
    and "migration_hash env p i r op pre post = migration_hash env p' i' r' op' pre' post'"
  shows "p = p' \<and> i = i' \<and> r = r' \<and> json_norm op = json_norm op'"
proof -
  have "canonical_json (env_quote env) (migration_payload p i r op pre post)
      = canonical_json (env_quote env) (migration_payload p' i' r' op' pre' post')"
    using assms(8) hash_bytes_eq [OF assms(1)] by (simp add: migration_hash_def)
  then have "json_norm (migration_payload p i r op pre post) = json_norm (migration_payload p' i' r' op' pre' post')"
    by (subst (asm) canonical_json_injective [OF env_okD(1) [OF assms(1)]])
      (simp_all add: migration_payload_ok assms)
  from migration_payload_norm [OF this] show ?thesis by simp
qed

text \<open>A hash text is not empty and has no NUL, so it can be told from what follows it.\<close>

definition hash_text :: "string \<Rightarrow> bool" where
  "hash_text h \<longleftrightarrow> h \<noteq> [] \<and> CHR 0x00 \<notin> set h"

lemma hash_text_bytes: "env_ok env \<Longrightarrow> hash_text (hash_bytes (env_sha256 env) d x)"
  using env_okD(3) by (auto simp: hash_text_def hash_bytes_def)

lemma hash_text_migration: "env_ok env \<Longrightarrow> hash_text (migration_hash env p i r op pre post)"
  by (simp add: migration_hash_def hash_text_bytes)

lemma hash_text_history: "env_ok env \<Longrightarrow> hash_text (history_hash env p m r)"
  by (simp add: history_hash_def hash_text_bytes)

lemma history_hash_eq:
  assumes "env_ok env" and "pred_option hash_text p" "pred_option hash_text p'" "hash_text m" "hash_text m'"
    and "history_hash env p m r = history_hash env p' m' r'"
  shows "p = p' \<and> m = m' \<and> r = r'"
proof -
  let ?t = "case_option [] (\<lambda>h. h)"
  have eq: "?t p @ CHR 0x00 # m @ CHR 0x00 # r = ?t p' @ CHR 0x00 # m' @ CHR 0x00 # r'"
    using assms(6) hash_bytes_eq [OF assms(1)] by (simp add: history_hash_def)
  have "?t p = ?t p' \<and> m @ CHR 0x00 # r = m' @ CHR 0x00 # r'"
    by (rule split_at_sep [OF _ _ eq]) (use assms(2,3) in \<open>auto simp: hash_text_def split: option.splits\<close>)
  moreover from this have "m = m' \<and> r = r'"
    using split_at_sep [of "CHR 0x00" m m' r r'] assms(4,5) by (auto simp: hash_text_def)
  moreover have "p = p'" if "?t p = ?t p'"
    using that assms(2,3) by (cases p; cases p') (auto simp: hash_text_def)
  ultimately show ?thesis by blast
qed

subsection \<open>The invariant\<close>

definition migration_row_ok :: "env \<Rightarrow> migration_row \<Rightarrow> bool" where
  "migration_row_ok env m \<longleftrightarrow>
     (\<exists>op pre post. operation_ok env op \<and> mg_hash m = migration_hash env (mg_parent m) (mg_input m) (mg_output m)
          (env_operation_to_json env op) (env_preconditions_to_json env pre) (env_postconditions_to_json env post)
        \<and> mg_operation m = operation_text env op \<and> mg_kind m = kind_name op)"

text \<open>A history row against the rows recorded before it.\<close>

definition history_row_ok :: "env \<Rightarrow> migration_row list \<Rightarrow> history_row list \<Rightarrow> history_row \<Rightarrow> bool" where
  "history_row_ok env ms before r \<longleftrightarrow>
     hs_hash r = history_hash env (hs_parent r) (hs_migration r) (hs_output r) \<and>
     hs_hash r \<notin> hs_hash ` set before \<and>
     (\<exists>m \<in> set ms. mg_hash m = hs_migration r \<and> mg_parent m = hs_parent r \<and> mg_output m = hs_output r \<and>
        (\<forall>p. hs_parent r = Some p \<longrightarrow> (\<exists>q \<in> set before. hs_hash q = p \<and> hs_output q = mg_input m)))"

fun histories_ok :: "env \<Rightarrow> migration_row list \<Rightarrow> history_row list \<Rightarrow> history_row list \<Rightarrow> bool" where
  "histories_ok env ms before [] = True"
| "histories_ok env ms before (r # rs) = (history_row_ok env ms before r \<and> histories_ok env ms (before @ [r]) rs)"

definition branch_ok :: "env \<Rightarrow> db \<Rightarrow> branch_state \<Rightarrow> bool" where
  "branch_ok env db st \<longleftrightarrow>
     is_ok (load_root env (db_objects db) (bs_root_hash st)) \<and>
     (\<forall>h. bs_history_hash st = Some h \<longrightarrow>
        (\<exists>r \<in> set (db_histories db). hs_hash r = h \<and> hs_output r = bs_root_hash st))"

definition db_ok :: "env \<Rightarrow> db \<Rightarrow> bool" where
  "db_ok env db \<longleftrightarrow>
     list_all (object_row_ok env) (db_objects db) \<and>
     distinct (map mg_hash (db_migrations db)) \<and>
     (\<forall>m \<in> set (db_migrations db). migration_row_ok env m) \<and>
     histories_ok env (db_migrations db) [] (db_histories db) \<and>
     distinct (map fst (db_branches db)) \<and>
     (\<forall>(name, st) \<in> set (db_branches db). branch_ok env db st)"

lemma histories_ok_append:
  "histories_ok env ms before (rs @ rs') \<longleftrightarrow>
     histories_ok env ms before rs \<and> histories_ok env ms (before @ rs) rs'"
  by (induction rs arbitrary: before) auto

lemma histories_ok_member:
  assumes "histories_ok env ms [] hs" and "r \<in> set hs"
  obtains before after where "hs = before @ r # after" "history_row_ok env ms before r"
proof -
  obtain before after where hs: "hs = before @ r # after" using assms(2) by (meson split_list)
  with assms(1) have "history_row_ok env ms before r" by (simp add: histories_ok_append)
  with hs that show thesis by blast
qed

lemma histories_distinct_aux:
  "histories_ok env ms before rs \<Longrightarrow> distinct (map hs_hash before) \<Longrightarrow> distinct (map hs_hash (before @ rs))"
  by (induction rs arbitrary: before) (fastforce simp: history_row_ok_def)+

lemma histories_distinct: "histories_ok env ms [] hs \<Longrightarrow> distinct (map hs_hash hs)"
  using histories_distinct_aux [of env ms "[]" hs] by simp

lemma history_row_ok_mono: "history_row_ok env ms before r \<Longrightarrow> set ms \<subseteq> set ms' \<Longrightarrow> history_row_ok env ms' before r"
  unfolding history_row_ok_def by blast

lemma histories_ok_mono: "histories_ok env ms before rs \<Longrightarrow> set ms \<subseteq> set ms' \<Longrightarrow> histories_ok env ms' before rs"
  by (induction rs arbitrary: before) (auto intro: history_row_ok_mono)

lemma histories_hash_text:
  assumes "env_ok env" "histories_ok env ms [] hs" "r \<in> set hs"
  shows "hash_text (hs_hash r)"
proof -
  obtain before after where "hs = before @ r # after" "history_row_ok env ms before r"
    by (rule histories_ok_member [OF assms(2,3)])
  then show ?thesis using hash_text_history [OF assms(1)] by (simp add: history_row_ok_def)
qed

subsection \<open>Recording keeps the invariant\<close>

lemma insert_or_ignore_cases:
  obtains "insert_or_ignore key r rows = rows @ [r]" "key r \<notin> key ` set rows"
  | r' where "insert_or_ignore key r rows = rows" "r' \<in> set rows" "key r' = key r"
  by (cases "key r \<in> key ` set rows") (auto simp: insert_or_ignore_def)

lemma add_migration:
  assumes env: "env_ok env" and ok: "\<forall>m \<in> set ms. migration_row_ok env m" and m: "migration_row_ok env m"
  shows "\<forall>m' \<in> set (insert_or_ignore mg_hash m ms). migration_row_ok env m'"
    and "\<exists>m' \<in> set (insert_or_ignore mg_hash m ms). mg_hash m' = mg_hash m \<and> mg_parent m' = mg_parent m
      \<and> mg_input m' = mg_input m \<and> mg_output m' = mg_output m \<and> mg_operation m' = mg_operation m"
proof -
  show "\<forall>m' \<in> set (insert_or_ignore mg_hash m ms). migration_row_ok env m'"
    using ok m by (auto simp: insert_or_ignore_def)
  show "\<exists>m' \<in> set (insert_or_ignore mg_hash m ms). mg_hash m' = mg_hash m \<and> mg_parent m' = mg_parent m
      \<and> mg_input m' = mg_input m \<and> mg_output m' = mg_output m \<and> mg_operation m' = mg_operation m"
  proof (cases rule: insert_or_ignore_cases [of mg_hash m ms])
    case (2 m')
    from m obtain op pre post where op: "operation_ok env op" "mg_operation m = operation_text env op" and "mg_hash m = migration_hash env (mg_parent m) (mg_input m) (mg_output m)
      (env_operation_to_json env op) (env_preconditions_to_json env pre) (env_postconditions_to_json env post)"
      unfolding migration_row_ok_def by blast
    moreover from ok 2 obtain op' pre' post' where
      op': "operation_ok env op'" "mg_operation m' = operation_text env op'"
      and "mg_hash m' = migration_hash env (mg_parent m') (mg_input m') (mg_output m')
      (env_operation_to_json env op') (env_preconditions_to_json env pre') (env_postconditions_to_json env post')"
      unfolding migration_row_ok_def by blast
    ultimately have eq: "mg_parent m' = mg_parent m \<and> mg_input m' = mg_input m \<and> mg_output m' = mg_output m
      \<and> json_norm (env_operation_to_json env op') = json_norm (env_operation_to_json env op)"
      using migration_hash_eq [OF env _ env_okD(4,5) [OF env] _ env_okD(4,5) [OF env]] op op' 2
      unfolding operation_ok_def by metis
    then have "operation_text env op' = operation_text env op"
      unfolding operation_text_def by (metis canonical_json_norm)
    with eq op op' 2 show ?thesis by (intro bexI [of _ m']) auto
  qed auto
qed

lemma migration_hash_text:
  assumes "env_ok env" and "migration_row_ok env m"
  shows "hash_text (mg_hash m)"
  using assms hash_text_migration [OF assms(1)] unfolding migration_row_ok_def by metis

lemma history_parts_text:
  assumes env: "env_ok env" and ok: "histories_ok env ms [] hs" "\<forall>m \<in> set ms. migration_row_ok env m"
    and r: "hs = before @ r # after" "history_row_ok env ms before r"
  shows "pred_option hash_text (hs_parent r)" and "hash_text (hs_migration r)"
proof -
  from r(2) obtain m where m: "m \<in> set ms" "mg_hash m = hs_migration r"
    and p: "\<forall>p. hs_parent r = Some p \<longrightarrow> (\<exists>q \<in> set before. hs_hash q = p)"
    unfolding history_row_ok_def by blast
  show "hash_text (hs_migration r)" using migration_hash_text [OF env] ok(2) m by metis
  show "pred_option hash_text (hs_parent r)"
  proof (cases "hs_parent r")
    case (Some q)
    with p obtain q' where "q' \<in> set before" "hs_hash q' = q" by blast
    with Some histories_hash_text [OF env ok(1), of q'] r(1) show ?thesis by auto
  qed simp
qed

lemma add_history:
  assumes env: "env_ok env" and ms: "\<forall>m \<in> set ms. migration_row_ok env m" and hs: "histories_ok env ms [] hs"
    and hash: "hs_hash r = history_hash env (hs_parent r) (hs_migration r) (hs_output r)"
    and m: "m \<in> set ms" "mg_hash m = hs_migration r" "mg_parent m = hs_parent r" "mg_output m = hs_output r"
    and parent: "\<And>p. hs_parent r = Some p \<Longrightarrow> \<exists>q \<in> set hs. hs_hash q = p \<and> hs_output q = mg_input m"
  shows "histories_ok env ms [] (insert_or_ignore hs_hash r hs) \<and> r \<in> set (insert_or_ignore hs_hash r hs)"
proof (cases rule: insert_or_ignore_cases [of hs_hash r hs])
  case 1
  have "history_row_ok env ms hs r"
    using hash m parent 1(2) unfolding history_row_ok_def by blast
  with 1 hs show ?thesis by (simp add: histories_ok_append)
next
  case (2 r')
  obtain before after where r': "hs = before @ r' # after" "history_row_ok env ms before r'"
    by (rule histories_ok_member [OF hs 2(2)])
  have p: "pred_option hash_text (hs_parent r)"
  proof (cases "hs_parent r")
    case (Some q)
    then obtain q' where "q' \<in> set hs" "hs_hash q' = q" using parent by blast
    with Some histories_hash_text [OF env hs, of q'] show ?thesis by auto
  qed simp
  have mt: "hash_text (hs_migration r)" using migration_hash_text [OF env] ms m by metis
  have "history_hash env (hs_parent r') (hs_migration r') (hs_output r')
    = history_hash env (hs_parent r) (hs_migration r) (hs_output r)"
    using r'(2) hash 2(3) by (simp add: history_row_ok_def)
  from history_hash_eq [OF env history_parts_text(1) [OF env hs ms r'] p history_parts_text(2) [OF env hs ms r'] mt this]
  have "r' = r" using 2(3) by (intro history_row.equality) auto
  with 2 hs show ?thesis by simp
qed

subsection \<open>Branches\<close>

lemma set_branch_keys: "distinct (map fst bs) \<Longrightarrow> distinct (map fst (set_branch n st bs))"
  by (auto simp: set_branch_def comp_def case_prod_unfold)

lemma set_branch_members: "set (set_branch n st bs) \<subseteq> insert (n, st) (set bs)"
  by (auto simp: set_branch_def split: if_splits)

lemma map_of_set_branch: "map_of (set_branch n st bs) k = (if k = n then Some st else map_of bs k)"
proof -
  have upd: "map_of (map (\<lambda>(m, s). (m, if m = n then st else s)) bs) k
      = (if k = n \<and> n \<in> fst ` set bs then Some st else map_of bs k)"
  proof (induction bs)
    case (Cons x bs)
    obtain a b where "x = (a, b)" by (cases x)
    with Cons.IH show ?case by (cases "k = n"; cases "a = n"; cases "a = k") simp_all
  qed simp
  show ?thesis
  proof (cases "n \<in> fst ` set bs")
    case True
    then show ?thesis using upd by (simp add: set_branch_def)
  next
    case False
    then have "map_of bs n = None" by (simp add: map_of_eq_None_iff)
    with False show ?thesis by (auto simp: set_branch_def map_add_def split: option.split)
  qed
qed

lemma branch_ok_mono:
  assumes "branch_ok env db st" and "extends (db_objects db) (db_objects db')"
    and "set (db_histories db) \<subseteq> set (db_histories db')"
  shows "branch_ok env db' st"
  unfolding branch_ok_def
proof (intro conjI allI impI)
  show "is_ok (load_root env (db_objects db') (bs_root_hash st))"
    using assms(1) load_root_extends [OF assms(2), of env] by (simp add: branch_ok_def)
  fix h assume "bs_history_hash st = Some h"
  with assms(1,3) show "\<exists>r \<in> set (db_histories db'). hs_hash r = h \<and> hs_output r = bs_root_hash st"
    unfolding branch_ok_def by blast
qed

lemma db_ok_branch: "db_ok env db \<Longrightarrow> branch db name = Inr st \<Longrightarrow> branch_ok env db st"
  unfolding db_ok_def branch_def branch_opt_def by (auto dest: map_of_SomeD)

text \<open>Tables that hold at least the rows of others, with the same objects under the same hashes.\<close>

definition grows :: "db \<Rightarrow> db \<Rightarrow> bool" where
  "grows db db' \<longleftrightarrow> extends (db_objects db) (db_objects db') \<and> extends (db_migrations db) (db_migrations db')
     \<and> extends (db_histories db) (db_histories db')"

lemma grows_refl [simp]: "grows db db"
  by (simp add: grows_def)

lemma record_migration_ok:
  assumes env: "env_ok env" and ok: "db_ok env db" and st: "branch db name = Inr st"
    and new: "is_ok (load_root env (db_objects db') new_root)" and adds: "adds env (db_objects db) (db_objects db')"
    and same: "db' = db\<lparr>db_objects := db_objects db'\<rparr>"
    and op_ok: "operation_ok env op"
    and rec: "record_migration env name st new_root op pre post agent db' = ((migration, hist), db'')"
  shows "db_ok env db''" and "grows db db''"
    and "\<lparr>hs_hash = hist, hs_parent = bs_history_hash st, hs_migration = migration, hs_output = new_root\<rparr>
           \<in> set (db_histories db'')"
    and "\<exists>m \<in> set (db_migrations db''). mg_hash m = migration \<and> mg_input m = bs_root_hash st
          \<and> mg_operation m = operation_text env op"
    and "db_branches db'' = set_branch name \<lparr>bs_root_hash = new_root, bs_history_hash = Some hist\<rparr> (db_branches db)"
proof -
  let ?text = "canonical_json (env_quote env)"
  let ?m = "\<lparr>mg_hash = migration, mg_parent = bs_history_hash st, mg_input = bs_root_hash st,
    mg_output = new_root, mg_kind = kind_name op, mg_operation = ?text (env_operation_to_json env op),
    mg_preconditions = ?text (env_preconditions_to_json env pre),
    mg_postconditions = ?text (env_postconditions_to_json env post), mg_agent = agent\<rparr>"
  let ?r = "\<lparr>hs_hash = hist, hs_parent = bs_history_hash st, hs_migration = migration, hs_output = new_root\<rparr>"
  let ?b = "\<lparr>bs_root_hash = new_root, bs_history_hash = Some hist\<rparr>"
  have unch: "db_migrations db' = db_migrations db" "db_histories db' = db_histories db"
    "db_branches db' = db_branches db" by (subst same, simp)+
  have hashes: "migration = migration_hash env (bs_history_hash st) (bs_root_hash st) new_root
      (env_operation_to_json env op) (env_preconditions_to_json env pre) (env_postconditions_to_json env post)"
      "hist = history_hash env (bs_history_hash st) migration new_root"
    and db'': "db_objects db'' = db_objects db'" "db_migrations db'' = insert_or_ignore mg_hash ?m (db_migrations db)"
      "db_histories db'' = insert_or_ignore hs_hash ?r (db_histories db)"
      "db_branches db'' = set_branch name ?b (db_branches db)"
    using rec unch by (auto simp: record_migration_def update_branch_def Let_def)
  show "db_branches db'' = set_branch name ?b (db_branches db)" by (rule db''(4))
  show grows: "grows db db''" using db'' adds_extends [OF adds] by (simp add: grows_def)
  have parts: "\<forall>m \<in> set (db_migrations db). migration_row_ok env m" "distinct (map mg_hash (db_migrations db))"
    "histories_ok env (db_migrations db) [] (db_histories db)" using ok by (auto simp: db_ok_def)
  have "migration_row_ok env ?m"
    using hashes(1) op_ok unfolding migration_row_ok_def operation_text_def by auto
  from add_migration [OF env parts(1) this] obtain m where ms: "\<forall>m \<in> set (db_migrations db''). migration_row_ok env m"
    and m: "m \<in> set (db_migrations db'')" "mg_hash m = migration" "mg_parent m = bs_history_hash st"
      "mg_input m = bs_root_hash st" "mg_output m = new_root" "mg_operation m = operation_text env op"
    unfolding db'' by (auto simp: operation_text_def)
  show "\<exists>m \<in> set (db_migrations db''). mg_hash m = migration \<and> mg_input m = bs_root_hash st
      \<and> mg_operation m = operation_text env op" using m by blast
  have hs: "histories_ok env (db_migrations db'') [] (db_histories db)"
    by (rule histories_ok_mono [OF parts(3)]) (use grows in \<open>auto simp: grows_def dest: extends_subset\<close>)
  have "\<exists>q \<in> set (db_histories db). hs_hash q = p \<and> hs_output q = mg_input m" if "hs_parent ?r = Some p" for p
    using db_ok_branch [OF ok st] that m(4) by (simp add: branch_ok_def)
  from add_history [OF env ms hs _ m(1), of ?r] this hashes(2) m
  have h: "histories_ok env (db_migrations db'') [] (db_histories db'') \<and> ?r \<in> set (db_histories db'')"
    unfolding db'' by simp
  then show "?r \<in> set (db_histories db'')" by simp
  have sub: "set (db_histories db) \<subseteq> set (db_histories db'')" "extends (db_objects db) (db_objects db'')"
    using grows by (auto simp: grows_def dest: extends_subset)
  have "branch_ok env db'' ?b" using h new db''(1) by (auto simp: branch_ok_def intro!: bexI [of _ ?r])
  moreover have "branch_ok env db'' s" if "(n, s) \<in> set (db_branches db)" for n s
    using ok that branch_ok_mono [OF _ sub(2,1)] by (auto simp: db_ok_def)
  ultimately have "\<forall>(n, s) \<in> set (db_branches db''). branch_ok env db'' s"
    unfolding db'' using set_branch_members by fastforce
  moreover have "distinct (map fst (db_branches db''))"
    using ok unfolding db'' db_ok_def by (simp add: set_branch_keys)
  moreover have "distinct (map mg_hash (db_migrations db''))"
    using parts(2) unfolding db'' by (rule distinct_insert_or_ignore)
  moreover have "list_all (object_row_ok env) (db_objects db'')"
    using adds_objects_ok [OF adds] ok db''(1) by (simp add: db_ok_def)
  ultimately show "db_ok env db''" using ms h unfolding db_ok_def by blast
qed

subsection \<open>Committed steps\<close>

lemma store_root_result:
  assumes env: "env_ok env" and objs: "list_all (object_row_ok env) objs"
    and store: "store_root env check root objs = Inr (h, objs')" and root: "root_ok root"
  shows "load_root env objs' h = Inr (normalize_root root)" and "adds env objs objs'"
    and "validate_export_map (normalize_root root) = Inr ()"
proof -
  obtain objs1 where put: "put_program_root env root objs = Inr (h, objs1)"
    and index: "env_index_root env h objs1 = Inr objs'"
    using store by (auto simp: store_root_def)
  note load = load_stored [OF env objs put root] and adds = env_okD(6) [OF env index]
  show "validate_export_map (normalize_root root) = Inr ()" by (rule load(3))
  show "adds env objs objs'" by (rule adds_trans [OF load(2) adds])
  show "load_root env objs' h = Inr (normalize_root root)"
    using load_root_extends [OF adds_extends [OF adds]] load(1) by simp
qed

lemma merge_objects_add:
  assumes env: "env_ok env"
  shows "list_all (\<lambda>obj. json_ok (mo_payload obj) \<and> CHR 0x00 \<notin> set (mo_kind obj)) ps \<Longrightarrow>
      res_fold (insert_merge_object env) ps objs = Inr objs' \<Longrightarrow> adds env objs objs'"
    and "res_fold (check_merge_root env) ps objs = Inr objs' \<Longrightarrow> adds env objs objs'"
proof -
  assume ps: "list_all (\<lambda>obj. json_ok (mo_payload obj) \<and> CHR 0x00 \<notin> set (mo_kind obj)) ps"
  have "adds env s t" if "insert_merge_object env x s = Inr t" "x \<in> set ps" for x s t
    using that ps put_object_adds by (auto simp: insert_merge_object_def list_all_iff split: prod.splits if_splits)
  then show "res_fold (insert_merge_object env) ps objs = Inr objs' \<Longrightarrow> adds env objs objs'"
    by (erule_tac res_fold_invariant) (auto intro: adds_trans)
next
  have "adds env s t" if "check_merge_root env x s = Inr t" for x s t
    using that env_okD(6) [OF env] by (auto simp: check_merge_root_def split: if_splits)
  then show "res_fold (check_merge_root env) ps objs = Inr objs' \<Longrightarrow> adds env objs objs'"
    by (erule_tac res_fold_invariant) (auto intro: adds_trans)
qed

text \<open>The edits keep the metadata in order.\<close>

lemma bmap_insert_sorted:
  "sorted (map fst m) \<Longrightarrow> distinct (map fst m) \<Longrightarrow>
   sorted (map fst (bmap_insert k v m)) \<and> distinct (map fst (bmap_insert k v m))
   \<and> set (bmap_insert k v m) \<subseteq> insert (k, v) (set m)"
proof (induction k v m rule: bmap_insert.induct)
  case (2 k v a b m)
  then show ?case by (cases "k < a"; cases "k = a") (auto simp: image_iff)
qed simp

lemma root_ok_synchronize: "root_ok r \<Longrightarrow> root_ok (synchronize_module_metadata r)"
proof -
  assume r: "root_ok r"
  let ?m = "JArr (map (\<lambda>name. JObj [(''name'', JStr name)])
    (bset_of_list (map nb_module (names r) @ map tnb_module (type_names r))))"
  have "json_ok ?m" "json_norm ?m = ?m" by (auto simp: comp_def)
  with r bmap_insert_sorted [of "metadata r" ROOT_MODULES_METADATA_KEY ?m] show ?thesis
    by (fastforce simp: root_ok_def synchronize_module_metadata_def Let_def bmap_remove_def
        sorted_map distinct_map_filter sorted_wrt_filter case_prod_unfold)
qed

lemma root_ok_edits:
  assumes "root_ok r"
  shows "rename_symbol r m s a n = Inr r' \<Longrightarrow> root_ok r'"
    and "move_symbol r m s a n = Inr r' \<Longrightarrow> root_ok r'"
    and "root_ok (delete_symbol_entries r s force ts)"
    and "create_alias r m s a n = Inr r' \<Longrightarrow> root_ok r'"
    and "remove_alias r m s a n = Inr r' \<Longrightarrow> root_ok r'"
    and "set_export r m s a n = Inr r' \<Longrightarrow> root_ok r'"
    and "remove_export r m s a n = Inr r' \<Longrightarrow> root_ok r'"
    and "delete_test r m s = Inr r' \<Longrightarrow> root_ok r'"
    and "rename_type r m s a n = Inr r' \<Longrightarrow> root_ok r'"
    and "move_type r m s a n = Inr r' \<Longrightarrow> root_ok r'"
proof -
  have upd: "root_ok (r\<lparr>names := x\<rparr>)" "root_ok (r\<lparr>type_names := y\<rparr>)" "root_ok (r\<lparr>exports := z\<rparr>)"
    "root_ok (r\<lparr>tests := w\<rparr>)" for x y z w
    using assms by (simp_all add: root_ok_def)
  show "move_symbol r m s a n = Inr r' \<Longrightarrow> root_ok r'"
    using upd root_ok_synchronize by (auto simp: move_symbol_def Let_def split: if_splits)
  show "move_type r m s a n = Inr r' \<Longrightarrow> root_ok r'"
    using upd root_ok_synchronize by (auto simp: move_type_def Let_def split: if_splits)
  show "root_ok (delete_symbol_entries r s force ts)"
    using assms by (simp add: root_ok_def delete_symbol_entries_def)
qed (use assms in \<open>auto simp: rename_symbol_def create_alias_def remove_alias_def set_export_def
       remove_export_def delete_test_def rename_type_def root_ok_def Let_def split: if_splits\<close>)

lemma load_root_ok: "env_ok env \<Longrightarrow> load_root env objs h = Inr r \<Longrightarrow> root_ok r"
  using env_okD(10) by (fastforce simp: load_root_def root_ok_def)

lemma edits_add:
  assumes env: "env_ok env" and objs: "list_all (object_row_ok env) objs"
  shows "apply_rename_symbol env i m s a n objs = Inr (h, objs') \<Longrightarrow> adds env objs objs'"
    and "apply_move_symbol env i m s a n objs = Inr (h, objs') \<Longrightarrow> adds env objs objs'"
    and "apply_delete_symbol env i m s a f objs = Inr (h, objs') \<Longrightarrow> adds env objs objs'"
    and "apply_create_alias env i m s a n objs = Inr (h, objs') \<Longrightarrow> adds env objs objs'"
    and "apply_remove_alias env i m s a n objs = Inr (h, objs') \<Longrightarrow> adds env objs objs'"
    and "apply_set_export env i m s a n objs = Inr (h, objs') \<Longrightarrow> adds env objs objs'"
    and "apply_remove_export env i m s a n objs = Inr (h, objs') \<Longrightarrow> adds env objs objs'"
    and "apply_delete_test env i m s objs = Inr (h, objs') \<Longrightarrow> adds env objs objs'"
    and "apply_rename_type env i m s a n objs = Inr (h, objs') \<Longrightarrow> adds env objs objs'"
    and "apply_move_type env i m s a n objs = Inr (h, objs') \<Longrightarrow> adds env objs objs'"
proof -
  note keep = root_ok_edits [OF load_root_ok [OF env]] and add = store_root_result(2) [OF env objs]
  show "apply_rename_symbol env i m s a n objs = Inr (h, objs') \<Longrightarrow> adds env objs objs'"
    by (auto simp: apply_rename_symbol_def intro: add keep(1))
  show "apply_move_symbol env i m s a n objs = Inr (h, objs') \<Longrightarrow> adds env objs objs'"
    by (auto simp: apply_move_symbol_def split: if_splits intro: add keep(2))
  show "apply_delete_symbol env i m s a f objs = Inr (h, objs') \<Longrightarrow> adds env objs objs'"
    by (auto simp: apply_delete_symbol_def Let_def split: if_splits intro: add keep(3))
  show "apply_create_alias env i m s a n objs = Inr (h, objs') \<Longrightarrow> adds env objs objs'"
    by (auto simp: apply_create_alias_def intro: add keep(4))
  show "apply_remove_alias env i m s a n objs = Inr (h, objs') \<Longrightarrow> adds env objs objs'"
    by (auto simp: apply_remove_alias_def intro: add keep(5))
  show "apply_set_export env i m s a n objs = Inr (h, objs') \<Longrightarrow> adds env objs objs'"
    by (auto simp: apply_set_export_def intro: add keep(6))
  show "apply_remove_export env i m s a n objs = Inr (h, objs') \<Longrightarrow> adds env objs objs'"
    by (auto simp: apply_remove_export_def intro: add keep(7))
  show "apply_delete_test env i m s objs = Inr (h, objs') \<Longrightarrow> adds env objs objs'"
    by (auto simp: apply_delete_test_def intro: add keep(8))
  show "apply_rename_type env i m s a n objs = Inr (h, objs') \<Longrightarrow> adds env objs objs'"
    by (auto simp: apply_rename_type_def intro: add keep(9))
  show "apply_move_type env i m s a n objs = Inr (h, objs') \<Longrightarrow> adds env objs objs'"
    by (auto simp: apply_move_type_def split: if_splits intro: add keep(10))
qed

lemma merge_adds:
  assumes env: "env_ok env" and objs: "list_all (object_row_ok env) objs"
    and ps: "list_all (\<lambda>obj. json_ok (mo_payload obj) \<and> CHR 0x00 \<notin> set (mo_kind obj)) ps"
    and root: "root_ok root" and merge: "apply_merge_branch env i source root ps objs = Inr (h, objs')"
  shows "adds env objs objs'"
proof -
  obtain objs1 objs2 where steps: "res_fold (insert_merge_object env) ps objs = Inr objs1"
    "res_fold (check_merge_root env) ps objs1 = Inr objs2" "store_root env True root objs2 = Inr (h, objs')"
    using merge by (auto simp: apply_merge_branch_def)
  have "adds env objs objs2"
    using merge_objects_add [OF env] ps steps(1,2) adds_trans by blast
  with store_root_result(2) [OF env adds_objects_ok [OF this objs] steps(3) root] show ?thesis
    by (blast intro: adds_trans)
qed

lemma apply_operation_adds:
  assumes env: "env_ok env" and objs: "list_all (object_row_ok env) objs" and op: "operation_ok env op"
    and run: "apply_operation_to_root env h p op objs = Inr (h', objs')"
  shows "adds env objs objs'"
proof (cases op)
  case (MergeBranch a b c d e f root ps)
  then show ?thesis using op run merge_adds [OF env objs, of ps root]
    by (simp add: operation_ok_def apply_operation_to_root_def)
qed (use run edits_add [OF env objs] env_okD(7) [OF env] in \<open>simp_all add: apply_operation_to_root_def\<close>)

text \<open>What a run of the transaction that is to be committed did.\<close>

lemma committed:
  assumes "apply_and_record_in_tx env name expected op agent db = Inr ((result, True), db'')"
  obtains st new_root objs post summary migration hist where
    "branch db name = Inr st"
    "failed_preconditions env (db_objects db) (bs_root_hash st)
       (preconditions_for env (db_objects db) expected op) = Inr []"
    "apply_operation_to_root env (bs_root_hash st) (bs_history_hash st) op (db_objects db) = Inr (new_root, objs)"
    "failed_postconditions env objs new_root post = Inr []"
    "post = postconditions_for env objs new_root op"
    "new_root \<noteq> bs_root_hash st"
    "record_migration env name st new_root op (preconditions_for env (db_objects db) expected op) post
       (case agent of None \<Rightarrow> JObj [] | Some a \<Rightarrow> a) (db\<lparr>db_objects := objs\<rparr>) = ((migration, hist), db'')"
    "result = Applied \<lparr>rp_old_root = bs_root_hash st, rp_new_root = new_root,
       rp_migration_hash = Some migration, rp_history_hash = Some hist, rp_summary = summary\<rparr>"
proof -
  from assms obtain st new_root objs summary where st: "branch db name = Inr st"
    and pre: "failed_preconditions env (db_objects db) (bs_root_hash st)
       (preconditions_for env (db_objects db) expected op) = Inr []"
    and op: "apply_operation_to_root env (bs_root_hash st) (bs_history_hash st) op (db_objects db) = Inr (new_root, objs)"
    and post: "failed_postconditions env objs new_root (postconditions_for env objs new_root op) = Inr []"
    and new: "new_root \<noteq> bs_root_hash st"
    and rest: "(case record_migration env name st new_root op (preconditions_for env (db_objects db) expected op)
        (postconditions_for env objs new_root op) (case agent of None \<Rightarrow> JObj [] | Some a \<Rightarrow> a)
        (db\<lparr>db_objects := objs\<rparr>) of ((migration, hist), tables) \<Rightarrow>
        ((Applied \<lparr>rp_old_root = bs_root_hash st, rp_new_root = new_root, rp_migration_hash = Some migration,
           rp_history_hash = Some hist, rp_summary = summary\<rparr>, True), tables)) = ((result, True), db'')"
    by (auto simp: apply_and_record_in_tx_def Let_def case_prod_unfold split: if_splits)
  obtain migration hist tables where rec: "record_migration env name st new_root op
      (preconditions_for env (db_objects db) expected op)
      (postconditions_for env objs new_root op) (case agent of None \<Rightarrow> JObj [] | Some a \<Rightarrow> a)
      (db\<lparr>db_objects := objs\<rparr>) = ((migration, hist), tables)" by (metis surj_pair)
  show thesis
    by (rule that [OF st pre op post refl new]) (use rest rec in auto)
qed

lemma failed_postconditions_load:
  "failed_postconditions env objs h ps = Inr fs \<Longrightarrow> is_ok (load_root env objs h)"
  by (auto simp: failed_postconditions_def)

lemma failed_preconditions_current:
  "failed_preconditions env objs current (preconditions_for env objs' expected op) = Inr [] \<Longrightarrow> expected = current"
proof -
  obtain rest where "preconditions_for env objs' expected op = RootIsCurrent expected # rest"
    by (simp add: preconditions_for_def)
  then show "failed_preconditions env objs current (preconditions_for env objs' expected op) = Inr [] \<Longrightarrow> expected = current"
    by (auto simp: failed_preconditions_def split: if_splits)
qed

lemma commit_ok:
  assumes env: "env_ok env" and ok: "db_ok env db" and op_ok: "operation_ok env op"
    and tx: "apply_and_record_in_tx env name expected op agent db = Inr ((result, True), db'')"
  shows "db_ok env db'' \<and> grows db db''"
proof (rule committed [OF tx])
  fix st new_root objs post summary migration hist
  assume st: "branch db name = Inr st"
    and op: "apply_operation_to_root env (bs_root_hash st) (bs_history_hash st) op (db_objects db) = Inr (new_root, objs)"
    and post: "failed_postconditions env objs new_root post = Inr []"
    and rec: "record_migration env name st new_root op (preconditions_for env (db_objects db) expected op) post
       (case agent of None \<Rightarrow> JObj [] | Some a \<Rightarrow> a) (db\<lparr>db_objects := objs\<rparr>) = ((migration, hist), db'')"
  show "db_ok env db'' \<and> grows db db''"
    using record_migration_ok(1,2) [OF env ok st _ _ _ op_ok rec] failed_postconditions_load [OF post]
      apply_operation_adds [OF env _ op_ok op] ok by (simp add: db_ok_def)
qed

lemma history_row_branch:
  "ensure_history_matches_root db h root = Inr u \<Longrightarrow> \<exists>r \<in> set (db_histories db). hs_hash r = h \<and> hs_output r = root"
  by (auto simp: ensure_history_matches_root_def split: option.splits if_splits dest: row_by_Some)

lemma create_ok:
  assumes ok: "db_ok env db" and create: "create_branch_pointer env name root hist db = Inr (st, db')"
  shows "db_ok env db'"
proof -
  from create have fresh: "name \<notin> fst ` set (db_branches db)" and root: "is_ok (load_root env (db_objects db) root)"
    and hist: "\<forall>h. hist = Some h \<longrightarrow> (\<exists>r \<in> set (db_histories db). hs_hash r = h \<and> hs_output r = root)"
    and db': "db' = db\<lparr>db_branches := db_branches db @ [(name, \<lparr>bs_root_hash = root, bs_history_hash = hist\<rparr>)]\<rparr>"
    by (auto simp: create_branch_pointer_def branch_opt_def map_of_eq_None_iff Let_def
        split: if_splits option.splits dest: history_row_branch)
  from ok fresh root hist show ?thesis unfolding db' by (auto simp: db_ok_def branch_ok_def)
qed

lemma forward_ok:
  assumes ok: "db_ok env db" and forward: "fast_forward_branch_pointer env target expected source db = Inr (res, db')"
  shows "db_ok env db'"
proof -
  have "branch_ok env db source \<and> db' = db\<lparr>db_branches := map (\<lambda>(n, s). (n, if n = target then source else s))
      (db_branches db)\<rparr> \<or> db' = db"
    using forward history_row_branch
    by (auto simp: fast_forward_branch_pointer_def branch_ok_def ensure_branch_history_def
        split: if_splits option.splits)
  then show ?thesis
  proof
    assume "db' = db" with ok show ?thesis by simp
  next
    assume a: "branch_ok env db source \<and> db' = db\<lparr>db_branches := map (\<lambda>(n, s). (n, if n = target then source else s))
      (db_branches db)\<rparr>"
    have "fst \<circ> (\<lambda>(n, s). (n, if n = target then source else s)) = fst" by auto
    moreover have "branch_ok env db' s = branch_ok env db s" for s
      using a by (simp add: branch_ok_def)
    ultimately show ?thesis using ok a unfolding db_ok_def by auto
  qed
qed

lemma branch_ok_branches [simp]: "branch_ok env (db\<lparr>db_branches := bs\<rparr>) st = branch_ok env db st"
  by (simp add: branch_ok_def)

lemma delete_ok: "db_ok env db \<Longrightarrow> delete_branch name expected db = Inr (res, db') \<Longrightarrow> db_ok env db'"
  by (auto simp: delete_branch_def delete_branch_pointer_expected_def db_ok_def
      distinct_map_filter split: if_splits)

lemma init_ok:
  assumes env: "env_ok env" and builtin: "list_all (\<lambda>(kind, payload). json_ok payload \<and> CHR 0x00 \<notin> set kind) builtin_types"
    and init: "ensure_initialized env builtin_types
      \<lparr>db_objects = [], db_migrations = [], db_histories = [], db_branches = []\<rparr> = Inr (root, db)"
  shows "db_ok env db"
proof -
  let ?objs = "fold (\<lambda>(kind, payload) objects. snd (put_object env kind payload objects)) builtin_types"
  have "list_all (object_row_ok env) (?objs objs)" if "list_all (object_row_ok env) objs" for objs
    using builtin that
  proof (induction builtin_types arbitrary: objs)
    case (Cons kp ts)
    obtain kind payload where kp: "kp = (kind, payload)" by (cases kp)
    have "adds env objs (snd (put_object env kind payload objs))"
      using put_object_adds [of env kind payload objs "fst (put_object env kind payload objs)"] Cons.prems kp by simp
    then show ?case using Cons kp adds_objects_ok by simp
  qed simp
  then have objs: "list_all (object_row_ok env) (?objs [])" by simp
  from init obtain objs1 objs2 where put: "put_program_root env empty_root (?objs []) = Inr (root, objs1)"
    and index: "env_index_root env root objs1 = Inr objs2"
    and db: "db = \<lparr>db_objects = objs2, db_migrations = [], db_histories = [],
      db_branches = [(MAIN_BRANCH, \<lparr>bs_root_hash = root, bs_history_hash = None\<rparr>)]\<rparr>"
    by (auto simp: ensure_initialized_def)
  have "root_ok empty_root" by (simp add: root_ok_def empty_root_def)
  note stored = load_stored [OF env objs put this] and adds = env_okD(6) [OF env index]
  have "is_ok (load_root env objs2 root)"
    using load_root_extends [OF adds_extends [OF adds]] stored(1) by simp
  moreover have "list_all (object_row_ok env) objs2"
    using adds_objects_ok [OF adds adds_objects_ok [OF stored(2) objs]] .
  ultimately show ?thesis unfolding db by (simp add: db_ok_def branch_ok_def)
qed

lemma step_ok:
  assumes env: "env_ok env" and ok: "db_ok env db" and step: "db_step env db db'"
  shows "db_ok env db'"
  using step
proof cases
  case (commit op name expected agent result)
  then show ?thesis using commit_ok [OF env ok] by blast
next
  case (create name from_branch from_root from_history st)
  then show ?thesis using create_ok [OF ok] by (auto simp: create_branch_from_def)
next
  case (forward target source expected res)
  then show ?thesis using forward_ok [OF ok] by (auto simp: fast_forward_branch_def)
next
  case (delete name expected res)
  then show ?thesis using delete_ok [OF ok] by blast
qed

lemma reachable_ok:
  assumes env: "env_ok env" and builtin: "list_all (\<lambda>(kind, payload). json_ok payload \<and> CHR 0x00 \<notin> set kind) builtin_types"
    and reach: "reachable env builtin_types db"
  shows "db_ok env db"
  using reach by (induction rule: reachable.induct) (auto intro: init_ok [OF env builtin] step_ok [OF env])

end
