(* ===== verification/Types.thy ===== *)
theory Types
  imports Chains Scalars "HOL-Library.Word"
begin

text \<open>
  The type objects of \<open>src/src/types.rs\<close>: what a \<open>Type\<close> object says, the payload it is stored
  as, the definitions a named type points to, and the substitution of region and type
  parameters that makes an instance of a generic definition. A type is a hash throughout; a
  specification names its parts by their hashes.

  The substitutions follow the stored types down to their leaves and the code bounds that walk by
  nothing: \<open>fuel\<close> bounds the depth here, and \<open>unfolds\<close> says what depth is enough.
\<close>

subsection \<open>Specifications and definitions\<close>

record type_field_spec =
  tf_name :: string
  tf_type :: string

datatype type_spec =
    TsBuiltin string
  | TsNamed string "string list" "string list"
  | TsTypeParam "32 word"
  | TsReference string bool string
  | TsRawPointer bool string
  | TsBox string
  | TsVec string
  | TsString
  | TsSlice string bool string
  | TsFixedArray string "64 word"
  | TsRecord "type_field_spec list"
  | TsEnum "type_field_spec list"

record region_param_def =
  rp_region :: string
  rp_name :: string

record type_param_def =
  tp_name :: string

record type_member_def =
  tm_symbol :: string
  tm_name :: string
  tm_type :: string

datatype type_definition =
    TdRecord (td_symbol: string) (td_region_params: "region_param_def list")
      (td_type_params: "type_param_def list") (td_members: "type_member_def list")
  | TdEnum (td_symbol: string) (td_region_params: "region_param_def list")
      (td_type_params: "type_param_def list") (td_members: "type_member_def list")

subsection \<open>Checks of hashes and names\<close>

definition validate_region_arg :: "string \<Rightarrow> unit res" where
  "validate_region_arg arg =
     ensure (starts_with ''sha256:'' arg) (Bail ''region argument must be a region hash'' [])"

definition validate_region_args :: "string list \<Rightarrow> unit res" where
  "validate_region_args args = res_fold (\<lambda>arg _. validate_region_arg arg) args ()"

definition validate_type_hash :: "string \<Rightarrow> string \<Rightarrow> unit res" where
  "validate_type_hash label hash =
     ensure (starts_with ''sha256:'' hash) (Bail ''{} type must be a hash'' [label])"

definition validate_type_hashes :: "string \<Rightarrow> string list \<Rightarrow> unit res" where
  "validate_type_hashes label hashes = res_fold (\<lambda>hash _. validate_type_hash label hash) hashes ()"

definition push_type_field ::
    "string \<Rightarrow> type_field_spec \<Rightarrow> string list \<times> type_field_spec list
      \<Rightarrow> (string list \<times> type_field_spec list) res" where
  "push_type_field label field = (\<lambda>(names, out).
     res_bind (validate_projection_identifier label (tf_name field)) (\<lambda>_.
       if tf_name field \<in> set names then Inl (Bail ''duplicate {} {}'' [label, tf_name field])
       else Inr (bset_insert (tf_name field) names, out @ [field])))"

definition canonical_type_fields :: "string \<Rightarrow> type_field_spec list \<Rightarrow> type_field_spec list res" where
  "canonical_type_fields label fs =
     (if fs = [] then Inl (Bail ''{}s must not be empty'' [label])
      else res_bind (res_fold (push_type_field label) fs ([], [])) (\<lambda>(_, out).
        Inr (sort_key tf_name out)))"

definition validate_region_params :: "region_param_def list \<Rightarrow> unit res" where
  "validate_region_params params =
     res_bind (res_fold (\<lambda>param (names, symbols).
         res_bind (validate_projection_identifier ''region parameter'' (rp_name param)) (\<lambda>_.
           if rp_name param \<in> set names
           then Inl (Bail ''duplicate region parameter {}'' [rp_name param])
           else if \<not> starts_with ''sha256:'' (rp_region param)
           then Inl (Bail ''region parameter symbol must be a hash'' [])
           else if rp_region param \<in> set symbols
           then Inl (Bail ''duplicate region parameter symbol {}'' [rp_region param])
           else Inr (bset_insert (rp_name param) names, bset_insert (rp_region param) symbols)))
       params ([], [])) (\<lambda>_. Inr ())"

definition validate_type_params :: "type_param_def list \<Rightarrow> unit res" where
  "validate_type_params params =
     res_bind (res_fold (\<lambda>param seen.
         res_bind (validate_projection_identifier ''type parameter'' (tp_name param)) (\<lambda>_.
           if tp_name param \<in> set seen
           then Inl (Bail ''duplicate type parameter {}'' [tp_name param])
           else Inr (bset_insert (tp_name param) seen)))
       params []) (\<lambda>_. Inr ())"

definition validate_member_defs :: "string \<Rightarrow> type_member_def list \<Rightarrow> unit res" where
  "validate_member_defs label members =
     (if members = [] then Inl (Bail ''{}s must not be empty'' [label])
      else
        res_bind (res_fold (\<lambda>member (names, symbols).
            res_bind (validate_projection_identifier label (tm_name member)) (\<lambda>_.
              if tm_name member \<in> set names
              then Inl (Bail ''duplicate {} {}'' [label, tm_name member])
              else if \<not> starts_with ''sha256:'' (tm_symbol member)
              then Inl (Bail ''{} symbol must be a hash'' [label])
              else if tm_symbol member \<in> set symbols
              then Inl (Bail ''duplicate {} symbol {}'' [label, tm_symbol member])
              else if \<not> starts_with ''sha256:'' (tm_type member)
              then Inl (Bail ''{} type must be a hash'' [label])
              else Inr (bset_insert (tm_name member) names, bset_insert (tm_symbol member) symbols)))
          members ([], [])) (\<lambda>_. Inr ()))"

subsection \<open>Payloads\<close>

text \<open>\<open>as_bool\<close> and \<open>as_u64\<close> of a JSON value.\<close>

fun as_bool :: "json \<Rightarrow> bool option" where
  "as_bool (JBool b) = Some b"
| "as_bool _ = None"

fun as_u64 :: "json \<Rightarrow> 64 word option" where
  "as_u64 (JInt i) = (if 0 \<le> i \<and> i < 2 ^ 64 then Some (word_of_int i) else None)"
| "as_u64 _ = None"

definition get_str :: "string \<Rightarrow> json \<Rightarrow> error \<Rightarrow> string res" where
  "get_str k payload e = ok_or (Option.bind (json_get k payload) as_str) e"

definition str_array :: "string list \<Rightarrow> json" where
  "str_array ss = JArr (map JStr ss)"

definition fields_json :: "type_field_spec list \<Rightarrow> json" where
  "fields_json fs = JArr (map (\<lambda>field. JObj [(''name'', JStr (tf_name field)), (''type'', JStr (tf_type field))]) fs)"

fun type_payload_for_spec :: "type_spec \<Rightarrow> json res" where
  "type_payload_for_spec (TsBuiltin kind) = Inr (JObj [(''type_kind'', JStr kind)])"
| "type_payload_for_spec (TsNamed type_symbol region_args type_args) =
     res_bind (validate_region_args region_args) (\<lambda>_.
     res_bind (validate_type_hashes ''named type argument'' type_args) (\<lambda>_.
       Inr (JObj ([(''type_kind'', JStr ''Named''), (''type_symbol'', JStr type_symbol),
                   (''region_args'', str_array region_args)]
                  @ (if type_args = [] then [] else [(''type_args'', str_array type_args)])))))"
| "type_payload_for_spec (TsTypeParam index) =
     Inr (JObj [(''type_kind'', JStr ''TypeParam''), (''index'', JInt (uint index))])"
| "type_payload_for_spec (TsReference region mutable referent) =
     res_bind (validate_region_arg region) (\<lambda>_.
     res_bind (validate_type_hash ''reference referent'' referent) (\<lambda>_.
       Inr (JObj [(''type_kind'', JStr ''Reference''), (''region'', JStr region),
                  (''mutable'', JBool mutable), (''referent'', JStr referent)])))"
| "type_payload_for_spec (TsRawPointer mutable pointee) =
     res_bind (validate_type_hash ''raw pointer pointee'' pointee) (\<lambda>_.
       Inr (JObj [(''type_kind'', JStr ''RawPointer''), (''mutable'', JBool mutable),
                  (''pointee'', JStr pointee)]))"
| "type_payload_for_spec (TsBox element) =
     res_bind (validate_type_hash ''box element'' element) (\<lambda>_.
       Inr (JObj [(''type_kind'', JStr ''Box''), (''element'', JStr element)]))"
| "type_payload_for_spec (TsVec element) =
     res_bind (validate_type_hash ''vec element'' element) (\<lambda>_.
       Inr (JObj [(''type_kind'', JStr ''Vec''), (''element'', JStr element)]))"
| "type_payload_for_spec TsString = Inr (JObj [(''type_kind'', JStr ''String'')])"
| "type_payload_for_spec (TsSlice region mutable element) =
     res_bind (validate_region_arg region) (\<lambda>_.
     res_bind (validate_type_hash ''slice element'' element) (\<lambda>_.
       Inr (JObj [(''type_kind'', JStr ''Slice''), (''region'', JStr region),
                  (''mutable'', JBool mutable), (''element'', JStr element)])))"
| "type_payload_for_spec (TsFixedArray element len) =
     res_bind (validate_type_hash ''fixed array element'' element) (\<lambda>_.
       Inr (JObj [(''type_kind'', JStr ''FixedArray''), (''element'', JStr element),
                  (''len'', JInt (uint len))]))"
| "type_payload_for_spec (TsRecord fs) =
     res_bind (canonical_type_fields ''record field'' fs) (\<lambda>fs.
       Inr (JObj [(''type_kind'', JStr ''Record''), (''fields'', fields_json fs)]))"
| "type_payload_for_spec (TsEnum variants) =
     res_bind (canonical_type_fields ''enum variant'' variants) (\<lambda>variants.
       Inr (JObj [(''type_kind'', JStr ''Enum''), (''variants'', fields_json variants)]))"

definition type_fields_from_payload :: "string \<Rightarrow> json option \<Rightarrow> type_field_spec list res" where
  "type_fields_from_payload label val =
     res_bind (ok_or (Option.bind val as_array) (Bail ''{}s must be an array'' [label])) (\<lambda>entries.
     res_bind (res_map (\<lambda>entry.
         res_bind (get_str ''name'' entry (Bail ''{} missing name'' [label])) (\<lambda>name.
         res_bind (validate_projection_identifier label name) (\<lambda>_.
         res_bind (get_str ''type'' entry (Bail ''{} missing type'' [label])) (\<lambda>type_hash.
           Inr \<lparr>tf_name = name, tf_type = type_hash\<rparr>)))) entries)
       (canonical_type_fields label))"

definition strings_from_payload :: "json option \<Rightarrow> error \<Rightarrow> error \<Rightarrow> string list res" where
  "strings_from_payload val not_string not_array =
     (case val of
        None \<Rightarrow> Inr []
      | Some (JArr vs) \<Rightarrow> res_map (\<lambda>v. ok_or (as_str v) not_string) vs
      | Some _ \<Rightarrow> Inl not_array)"

definition type_spec_from_payload :: "json \<Rightarrow> type_spec res" where
  "type_spec_from_payload payload =
     res_bind (get_str ''type_kind'' payload (Bail ''Type object missing type_kind'' [])) (\<lambda>kind.
       if kind = ''Bool'' then Inr (TsBuiltin ''Bool'')
       else if kind = ''Unit'' then Inr (TsBuiltin ''Unit'')
       else if scalar_int_type_of kind \<noteq> None then Inr (TsBuiltin kind)
       else if kind = ''Named'' then
         res_bind (get_str ''type_symbol'' payload (Bail ''Named Type object missing type_symbol'' [])) (\<lambda>type_symbol.
         res_bind (strings_from_payload (json_get ''region_args'' payload)
             (Bail ''Named Type region arg must be string'' [])
             (Bail ''Named Type region_args must be an array'' [])) (\<lambda>region_args.
         res_bind (validate_region_args region_args) (\<lambda>_.
         res_bind (strings_from_payload (json_get ''type_args'' payload)
             (Bail ''Named Type type arg must be string'' [])
             (Bail ''Named Type type_args must be an array'' [])) (\<lambda>type_args.
         res_bind (validate_type_hashes ''named type argument'' type_args) (\<lambda>_.
           Inr (TsNamed type_symbol region_args type_args))))))
       else if kind = ''TypeParam'' then
         res_bind (ok_or (Option.bind (json_get ''index'' payload) as_u64)
             (Bail ''TypeParam Type object missing index'' [])) (\<lambda>index.
           if uint index < 2 ^ 32 then Inr (TsTypeParam (ucast index))
           else Inl (Bail ''TypeParam index {} out of range'' [dec_int (uint index)]))
       else if kind = ''Reference'' then
         res_bind (get_str ''region'' payload (Bail ''Reference Type object missing region'' [])) (\<lambda>region.
         res_bind (validate_region_arg region) (\<lambda>_.
         res_bind (ok_or (Option.bind (json_get ''mutable'' payload) as_bool)
             (Bail ''Reference Type object missing mutable'' [])) (\<lambda>mutable.
         res_bind (get_str ''referent'' payload (Bail ''Reference Type object missing referent'' [])) (\<lambda>referent.
         res_bind (validate_type_hash ''reference referent'' referent) (\<lambda>_.
           Inr (TsReference region mutable referent))))))
       else if kind = ''RawPointer'' then
         res_bind (ok_or (Option.bind (json_get ''mutable'' payload) as_bool)
             (Bail ''RawPointer Type object missing mutable'' [])) (\<lambda>mutable.
         res_bind (get_str ''pointee'' payload (Bail ''RawPointer Type object missing pointee'' [])) (\<lambda>pointee.
         res_bind (validate_type_hash ''raw pointer pointee'' pointee) (\<lambda>_.
           Inr (TsRawPointer mutable pointee))))
       else if kind = ''Box'' then
         res_bind (get_str ''element'' payload (Bail ''Box Type object missing element'' [])) (\<lambda>element.
         res_bind (validate_type_hash ''box element'' element) (\<lambda>_. Inr (TsBox element)))
       else if kind = ''Vec'' then
         res_bind (get_str ''element'' payload (Bail ''Vec Type object missing element'' [])) (\<lambda>element.
         res_bind (validate_type_hash ''vec element'' element) (\<lambda>_. Inr (TsVec element)))
       else if kind = ''String'' then Inr TsString
       else if kind = ''Slice'' then
         res_bind (get_str ''region'' payload (Bail ''Slice Type object missing region'' [])) (\<lambda>region.
         res_bind (validate_region_arg region) (\<lambda>_.
         res_bind (ok_or (Option.bind (json_get ''mutable'' payload) as_bool)
             (Bail ''Slice Type object missing mutable'' [])) (\<lambda>mutable.
         res_bind (get_str ''element'' payload (Bail ''Slice Type object missing element'' [])) (\<lambda>element.
         res_bind (validate_type_hash ''slice element'' element) (\<lambda>_.
           Inr (TsSlice region mutable element))))))
       else if kind = ''FixedArray'' then
         res_bind (get_str ''element'' payload (Bail ''FixedArray Type object missing element'' [])) (\<lambda>element.
         res_bind (validate_type_hash ''fixed array element'' element) (\<lambda>_.
         res_bind (ok_or (Option.bind (json_get ''len'' payload) as_u64)
             (Bail ''FixedArray Type object missing len'' [])) (\<lambda>len.
           Inr (TsFixedArray element len))))
       else if kind = ''Record'' then
         res_bind (type_fields_from_payload ''record field'' (json_get ''fields'' payload)) (\<lambda>fs.
           Inr (TsRecord fs))
       else if kind = ''Enum'' then
         res_bind (type_fields_from_payload ''enum variant'' (json_get ''variants'' payload)) (\<lambda>variants.
           Inr (TsEnum variants))
       else Inl (Bail ''unknown Type object kind {}'' [kind]))"

definition region_params_from_payload :: "json option \<Rightarrow> region_param_def list res" where
  "region_params_from_payload val =
     res_bind (case val of
         None \<Rightarrow> Inr []
       | Some (JArr vs) \<Rightarrow>
           res_map (\<lambda>entry.
             res_bind (get_str ''region'' entry (Bail ''region parameter missing region'' [])) (\<lambda>region.
             res_bind (get_str ''name'' entry (Bail ''region parameter missing name'' [])) (\<lambda>name.
               Inr \<lparr>rp_region = region, rp_name = name\<rparr>))) vs
       | Some _ \<Rightarrow> Inl (Bail ''region_params must be an array'' [])) (\<lambda>params.
     res_bind (validate_region_params params) (\<lambda>_. Inr params))"

definition type_params_from_payload :: "json option \<Rightarrow> type_param_def list res" where
  "type_params_from_payload val =
     res_bind (case val of
         None \<Rightarrow> Inr []
       | Some (JArr vs) \<Rightarrow>
           res_map (\<lambda>entry.
             res_bind (get_str ''name'' entry (Bail ''type parameter missing name'' [])) (\<lambda>name.
               Inr \<lparr>tp_name = name\<rparr>)) vs
       | Some _ \<Rightarrow> Inl (Bail ''type_params must be an array'' [])) (\<lambda>params.
     res_bind (validate_type_params params) (\<lambda>_. Inr params))"

definition member_defs_from_payload :: "string \<Rightarrow> string \<Rightarrow> json option \<Rightarrow> type_member_def list res" where
  "member_defs_from_payload label symbol_field val =
     res_bind (ok_or (Option.bind val as_array) (Bail ''{}s must be an array'' [label])) (\<lambda>entries.
     res_bind (res_map (\<lambda>entry.
         res_bind (get_str symbol_field entry (Bail ''{} missing symbol'' [label])) (\<lambda>member_symbol.
         res_bind (get_str ''name'' entry (Bail ''{} missing name'' [label])) (\<lambda>name.
         res_bind (get_str ''type'' entry (Bail ''{} missing type'' [label])) (\<lambda>type_hash.
           Inr \<lparr>tm_symbol = member_symbol, tm_name = name, tm_type = type_hash\<rparr>)))) entries) (\<lambda>members.
     res_bind (validate_member_defs label members) (\<lambda>_. Inr members)))"

subsection \<open>Type objects of the store\<close>

definition get_kind :: "objects \<Rightarrow> string \<Rightarrow> string res" where
  "get_kind objects hash =
     ok_or (map_option or_kind (row_by or_hash hash objects)) (Bail ''missing object {}'' [hash])"

definition type_hash_for :: "env \<Rightarrow> string \<Rightarrow> string" where
  "type_hash_for env kind = hash_object env ''Type'' (JObj [(''type_kind'', JStr kind)])"

definition static_region_hash :: "env \<Rightarrow> string" where
  "static_region_hash env =
     hash_object env ''SymbolBirth''
       (JObj [(''symbol_kind'', JStr ''region_param''), (''birth_history_hash'', JStr ''genesis''),
              (''local_nonce'', JStr ''builtin:static'')])"

definition is_static_region :: "env \<Rightarrow> string \<Rightarrow> bool" where
  "is_static_region env region \<longleftrightarrow> region = static_region_hash env"

definition hash_for_type_spec :: "env \<Rightarrow> type_spec \<Rightarrow> string res" where
  "hash_for_type_spec env spec =
     res_bind (type_payload_for_spec spec) (\<lambda>payload. Inr (hash_object env ''Type'' payload))"

definition put_structural_type :: "env \<Rightarrow> type_spec \<Rightarrow> objects \<Rightarrow> (string \<times> objects) res" where
  "put_structural_type env spec objects =
     res_bind (type_payload_for_spec spec) (\<lambda>payload. Inr (put_object env ''Type'' payload objects))"

definition scalar_int_type_by_hash :: "env \<Rightarrow> string \<Rightarrow> scalar_int_type option" where
  "scalar_int_type_by_hash env hash =
     List.find (\<lambda>t. hash = type_hash_for env (int_name t)) SCALAR_INT_TYPES"

definition type_spec_of :: "env \<Rightarrow> objects \<Rightarrow> string \<Rightarrow> type_spec res" where
  "type_spec_of env objects hash =
     (case scalar_int_type_by_hash env hash of
        Some t \<Rightarrow> Inr (TsBuiltin (int_name t))
      | None \<Rightarrow>
          if hash = type_hash_for env ''Bool'' then Inr (TsBuiltin ''Bool'')
          else if hash = type_hash_for env ''Unit'' then Inr (TsBuiltin ''Unit'')
          else
            res_bind (get_kind objects hash) (\<lambda>kind.
              if kind \<noteq> ''Type'' then Inl (Bail ''type hash points to non-Type object {}'' [hash])
              else res_bind (get_payload objects hash) type_spec_from_payload))"

subsection \<open>Definitions of named types\<close>

definition record_definition :: "objects \<Rightarrow> string \<Rightarrow> string \<Rightarrow> type_definition res" where
  "record_definition objects expected_type_symbol record_def_hash =
     res_bind (get_kind objects record_def_hash) (\<lambda>kind.
       if kind \<noteq> ''RecordDef''
       then Inl (Bail ''record definition hash points to non-RecordDef object {}'' [record_def_hash])
       else
         res_bind (get_payload objects record_def_hash) (\<lambda>payload.
         res_bind (get_str ''type_symbol'' payload (Bail ''RecordDef missing type_symbol'' [])) (\<lambda>type_symbol.
           if type_symbol \<noteq> expected_type_symbol
           then Inl (Bail ''RecordDef type_symbol does not match TypeDef'' [])
           else
             res_bind (region_params_from_payload (json_get ''region_params'' payload)) (\<lambda>region_params.
             res_bind (type_params_from_payload (json_get ''type_params'' payload)) (\<lambda>type_params.
             res_bind (member_defs_from_payload ''record field'' ''field_symbol'' (json_get ''fields'' payload)) (\<lambda>fs.
             res_bind (validate_region_params region_params) (\<lambda>_.
             res_bind (validate_member_defs ''record field'' fs) (\<lambda>_.
               Inr (TdRecord type_symbol region_params type_params fs)))))))))"

definition enum_definition :: "objects \<Rightarrow> string \<Rightarrow> string \<Rightarrow> type_definition res" where
  "enum_definition objects expected_type_symbol enum_def_hash =
     res_bind (get_kind objects enum_def_hash) (\<lambda>kind.
       if kind \<noteq> ''EnumDef''
       then Inl (Bail ''enum definition hash points to non-EnumDef object {}'' [enum_def_hash])
       else
         res_bind (get_payload objects enum_def_hash) (\<lambda>payload.
         res_bind (get_str ''type_symbol'' payload (Bail ''EnumDef missing type_symbol'' [])) (\<lambda>type_symbol.
           if type_symbol \<noteq> expected_type_symbol
           then Inl (Bail ''EnumDef type_symbol does not match TypeDef'' [])
           else
             res_bind (region_params_from_payload (json_get ''region_params'' payload)) (\<lambda>region_params.
             res_bind (type_params_from_payload (json_get ''type_params'' payload)) (\<lambda>type_params.
             res_bind (member_defs_from_payload ''enum variant'' ''variant_symbol'' (json_get ''variants'' payload)) (\<lambda>variants.
             res_bind (validate_region_params region_params) (\<lambda>_.
             res_bind (validate_member_defs ''enum variant'' variants) (\<lambda>_.
               Inr (TdEnum type_symbol region_params type_params variants)))))))))"

definition type_definition :: "objects \<Rightarrow> string \<Rightarrow> type_definition res" where
  "type_definition objects type_def_hash =
     res_bind (get_kind objects type_def_hash) (\<lambda>kind.
       if kind \<noteq> ''TypeDef''
       then Inl (Bail ''type definition hash points to non-TypeDef object {}'' [type_def_hash])
       else
         res_bind (get_payload objects type_def_hash) (\<lambda>type_def.
         res_bind (get_str ''type_symbol'' type_def (Bail ''TypeDef missing type_symbol'' [])) (\<lambda>type_symbol.
         res_bind (get_str ''type_kind'' type_def (Bail ''TypeDef missing type_kind'' [])) (\<lambda>type_kind.
         res_bind (get_str ''definition'' type_def (Bail ''TypeDef missing definition'' [])) (\<lambda>definition_hash.
           if type_kind = ''record'' then record_definition objects type_symbol definition_hash
           else if type_kind = ''enum'' then enum_definition objects type_symbol definition_hash
           else Inl (Bail ''unknown TypeDef type_kind {}'' [type_kind]))))))"

definition root_type :: "program_root \<Rightarrow> string \<Rightarrow> root_type_payload option" where
  "root_type root type_symbol = List.find (\<lambda>entry. rt_type_symbol entry = type_symbol) (types root)"

definition named_type_definition_with_args ::
    "objects \<Rightarrow> program_root \<Rightarrow> string \<Rightarrow> string list \<Rightarrow> string list
      \<Rightarrow> (type_definition \<times> (string \<times> string) list \<times> string list) res" where
  "named_type_definition_with_args objects root type_symbol region_args type_args =
     res_bind (ok_or (root_type root type_symbol)
         (Bail ''named type missing from root {}'' [type_symbol])) (\<lambda>entry.
     res_bind (type_definition objects (rt_type_def entry)) (\<lambda>def.
       if length (td_region_params def) \<noteq> length region_args
       then Inl (Bail ''named type {} expects {} region args, got {}''
              [type_symbol, dec_nat (length (td_region_params def)), dec_nat (length region_args)])
       else if length (td_type_params def) \<noteq> length type_args
       then Inl (Bail ''named type {} expects {} type args, got {}''
              [type_symbol, dec_nat (length (td_type_params def)), dec_nat (length type_args)])
       else Inr (def,
              fold (\<lambda>(p, a). bmap_insert (rp_region p) a) (zip (td_region_params def) region_args) [],
              type_args)))"

subsection \<open>Substitution\<close>

definition NO_FUEL :: error where
  "NO_FUEL = Bail ''out of fuel'' []"

definition substitute_region_hash :: "string \<Rightarrow> (string \<times> string) list \<Rightarrow> string" where
  "substitute_region_hash region regions = (case map_of regions region of Some r \<Rightarrow> r | None \<Rightarrow> region)"

definition type_param_arg :: "32 word \<Rightarrow> string list \<Rightarrow> string res" where
  "type_param_arg index param_args =
     ok_or (if unat index < length param_args then Some (param_args ! unat index) else None)
       (Bail ''type parameter {} has no substitution argument'' [dec_nat (unat index)])"

fun substitute_type_hash ::
    "nat \<Rightarrow> env \<Rightarrow> objects \<Rightarrow> string \<Rightarrow> (string \<times> string) list \<Rightarrow> string list \<Rightarrow> string res" where
  "substitute_type_hash 0 env objects type_hash regions param_args = Inl NO_FUEL"
| "substitute_type_hash (Suc fuel) env objects type_hash regions param_args =
     (if regions = [] \<and> param_args = [] then Inr type_hash
      else
        res_bind (type_spec_of env objects type_hash) (\<lambda>spec.
          case spec of
            TsBuiltin _ \<Rightarrow> Inr type_hash
          | TsTypeParam index \<Rightarrow> type_param_arg index param_args
          | TsNamed type_symbol region_args type_args \<Rightarrow>
              res_bind (res_map (\<lambda>arg. substitute_type_hash fuel env objects arg regions param_args) type_args) (\<lambda>type_args.
                hash_for_type_spec env
                  (TsNamed type_symbol (map (\<lambda>r. substitute_region_hash r regions) region_args) type_args))
          | TsReference region mutable referent \<Rightarrow>
              res_bind (substitute_type_hash fuel env objects referent regions param_args) (\<lambda>referent.
                hash_for_type_spec env (TsReference (substitute_region_hash region regions) mutable referent))
          | TsRawPointer mutable pointee \<Rightarrow>
              res_bind (substitute_type_hash fuel env objects pointee regions param_args) (\<lambda>pointee.
                hash_for_type_spec env (TsRawPointer mutable pointee))
          | TsBox element \<Rightarrow>
              res_bind (substitute_type_hash fuel env objects element regions param_args) (\<lambda>element.
                hash_for_type_spec env (TsBox element))
          | TsVec element \<Rightarrow>
              res_bind (substitute_type_hash fuel env objects element regions param_args) (\<lambda>element.
                hash_for_type_spec env (TsVec element))
          | TsString \<Rightarrow> hash_for_type_spec env TsString
          | TsSlice region mutable element \<Rightarrow>
              res_bind (substitute_type_hash fuel env objects element regions param_args) (\<lambda>element.
                hash_for_type_spec env (TsSlice (substitute_region_hash region regions) mutable element))
          | TsFixedArray element len \<Rightarrow>
              res_bind (substitute_type_hash fuel env objects element regions param_args) (\<lambda>element.
                hash_for_type_spec env (TsFixedArray element len))
          | TsRecord fs \<Rightarrow>
              res_bind (res_map (\<lambda>field.
                  res_bind (substitute_type_hash fuel env objects (tf_type field) regions param_args) (\<lambda>t.
                    Inr \<lparr>tf_name = tf_name field, tf_type = t\<rparr>)) fs) (\<lambda>fs.
                hash_for_type_spec env (TsRecord fs))
          | TsEnum variants \<Rightarrow>
              res_bind (res_map (\<lambda>variant.
                  res_bind (substitute_type_hash fuel env objects (tf_type variant) regions param_args) (\<lambda>t.
                    Inr \<lparr>tf_name = tf_name variant, tf_type = t\<rparr>)) variants) (\<lambda>variants.
                hash_for_type_spec env (TsEnum variants))))"

text \<open>A loop that stores objects on the way: each step returns its result and the new table.\<close>

fun put_map :: "('a \<Rightarrow> objects \<Rightarrow> ('b \<times> objects) res) \<Rightarrow> 'a list \<Rightarrow> objects \<Rightarrow> ('b list \<times> objects) res" where
  "put_map f [] objects = Inr ([], objects)"
| "put_map f (x # xs) objects =
     res_bind (f x objects) (\<lambda>(y, objects).
     res_bind (put_map f xs objects) (\<lambda>(ys, objects). Inr (y # ys, objects)))"

lemma put_map_cong [fundef_cong]:
  "objs = objs' \<Longrightarrow> xs = ys \<Longrightarrow> (\<And>x objs. x \<in> set ys \<Longrightarrow> f x objs = g x objs) \<Longrightarrow> put_map f xs objs = put_map g ys objs'"
  by (induction ys arbitrary: xs objs objs') (auto intro!: res_bind_cong)

fun put_substituted_type ::
    "nat \<Rightarrow> env \<Rightarrow> string \<Rightarrow> (string \<times> string) list \<Rightarrow> string list \<Rightarrow> objects \<Rightarrow> (string \<times> objects) res" where
  "put_substituted_type 0 env type_hash regions param_args objects = Inl NO_FUEL"
| "put_substituted_type (Suc fuel) env type_hash regions param_args objects =
     (if regions = [] \<and> param_args = [] then Inr (type_hash, objects)
      else
        res_bind (type_spec_of env objects type_hash) (\<lambda>spec.
          case spec of
            TsBuiltin _ \<Rightarrow> Inr (type_hash, objects)
          | TsTypeParam index \<Rightarrow> res_bind (type_param_arg index param_args) (\<lambda>h. Inr (h, objects))
          | TsNamed type_symbol region_args type_args \<Rightarrow>
              res_bind (put_map (\<lambda>arg. put_substituted_type fuel env arg regions param_args) type_args objects) (\<lambda>(type_args, objects).
                put_structural_type env
                  (TsNamed type_symbol (map (\<lambda>r. substitute_region_hash r regions) region_args) type_args) objects)
          | TsReference region mutable referent \<Rightarrow>
              res_bind (put_substituted_type fuel env referent regions param_args objects) (\<lambda>(referent, objects).
                put_structural_type env (TsReference (substitute_region_hash region regions) mutable referent) objects)
          | TsRawPointer mutable pointee \<Rightarrow>
              res_bind (put_substituted_type fuel env pointee regions param_args objects) (\<lambda>(pointee, objects).
                put_structural_type env (TsRawPointer mutable pointee) objects)
          | TsBox element \<Rightarrow>
              res_bind (put_substituted_type fuel env element regions param_args objects) (\<lambda>(element, objects).
                put_structural_type env (TsBox element) objects)
          | TsVec element \<Rightarrow>
              res_bind (put_substituted_type fuel env element regions param_args objects) (\<lambda>(element, objects).
                put_structural_type env (TsVec element) objects)
          | TsString \<Rightarrow> put_structural_type env TsString objects
          | TsSlice region mutable element \<Rightarrow>
              res_bind (put_substituted_type fuel env element regions param_args objects) (\<lambda>(element, objects).
                put_structural_type env (TsSlice (substitute_region_hash region regions) mutable element) objects)
          | TsFixedArray element len \<Rightarrow>
              res_bind (put_substituted_type fuel env element regions param_args objects) (\<lambda>(element, objects).
                put_structural_type env (TsFixedArray element len) objects)
          | TsRecord fs \<Rightarrow>
              res_bind (put_map (\<lambda>field objects.
                  res_bind (put_substituted_type fuel env (tf_type field) regions param_args objects) (\<lambda>(t, objects).
                    Inr (\<lparr>tf_name = tf_name field, tf_type = t\<rparr>, objects))) fs objects) (\<lambda>(fs, objects).
                put_structural_type env (TsRecord fs) objects)
          | TsEnum variants \<Rightarrow>
              res_bind (put_map (\<lambda>variant objects.
                  res_bind (put_substituted_type fuel env (tf_type variant) regions param_args objects) (\<lambda>(t, objects).
                    Inr (\<lparr>tf_name = tf_name variant, tf_type = t\<rparr>, objects))) variants objects) (\<lambda>(variants, objects).
                put_structural_type env (TsEnum variants) objects)))"

definition substitute_members ::
    "nat \<Rightarrow> env \<Rightarrow> objects \<Rightarrow> type_member_def list \<Rightarrow> (string \<times> string) list \<Rightarrow> string list
      \<Rightarrow> type_field_spec list res" where
  "substitute_members fuel env objects members regions param_args =
     res_map (\<lambda>member.
       res_bind (substitute_type_hash fuel env objects (tm_type member) regions param_args) (\<lambda>t.
         Inr \<lparr>tf_name = tm_name member, tf_type = t\<rparr>)) members"

definition type_spec_in_root :: "nat \<Rightarrow> env \<Rightarrow> objects \<Rightarrow> program_root \<Rightarrow> string \<Rightarrow> type_spec res" where
  "type_spec_in_root fuel env objects root type_hash =
     res_bind (type_spec_of env objects type_hash) (\<lambda>spec.
       case spec of
         TsNamed type_symbol region_args type_args \<Rightarrow>
           res_bind (named_type_definition_with_args objects root type_symbol region_args type_args)
             (\<lambda>(def, regions, param_args).
               case def of
                 TdRecord _ _ _ members \<Rightarrow>
                   res_bind (substitute_members fuel env objects members regions param_args) (\<lambda>fs. Inr (TsRecord fs))
               | TdEnum _ _ _ members \<Rightarrow>
                   res_bind (substitute_members fuel env objects members regions param_args) (\<lambda>fs. Inr (TsEnum fs)))
       | _ \<Rightarrow> Inr spec)"

subsection \<open>The payload decides the specification\<close>

lemma as_norm [simp]:
  "as_str (json_norm v) = as_str v" "as_bool (json_norm v) = as_bool v" "as_u64 (json_norm v) = as_u64 v"
  "as_array (json_norm v) = map_option (map json_norm) (as_array v)"
  by (cases v; simp)+

lemma json_get_norm: "json_ok v \<Longrightarrow> json_get k (json_norm v) = map_option json_norm (json_get k v)"
proof (cases v)
  case (JObj m)
  assume "json_ok v"
  then have "map_of (sort_key fst m) = map_of m"
    by (intro map_of_inject_set [THEN iffD2]) (auto simp: JObj distinct_map)
  then show ?thesis by (simp add: JObj map_of_map)
qed simp_all

lemma json_ok_get: "json_ok v \<Longrightarrow> json_get k v = Some w \<Longrightarrow> json_ok w"
  by (cases v) (auto dest: map_of_SomeD)

lemma json_ok_array: "json_ok v \<Longrightarrow> as_array v = Some vs \<Longrightarrow> list_all json_ok vs"
  by (cases v) (auto simp: list_all_iff)

lemma get_str_norm: "json_ok v \<Longrightarrow> get_str k (json_norm v) e = get_str k v e"
  by (cases "json_get k v") (simp_all add: get_str_def json_get_norm)

lemma res_map_map: "res_map f (map g xs) = res_map (\<lambda>x. f (g x)) xs"
  by (induction xs) auto

lemma strings_from_payload_norm:
  "strings_from_payload (map_option json_norm val) e e' = strings_from_payload val e e'"
  by (cases val) (auto simp: strings_from_payload_def res_map_map split: json.split)

lemma type_fields_from_payload_norm:
  assumes "pred_option json_ok val"
  shows "type_fields_from_payload label (map_option json_norm val) = type_fields_from_payload label val"
proof (cases "Option.bind val as_array")
  case None
  then have "Option.bind (map_option json_norm val) as_array = None" by (cases val) auto
  with None show ?thesis by (simp add: type_fields_from_payload_def)
next
  case (Some vs)
  then have "Option.bind (map_option json_norm val) as_array = Some (map json_norm vs)"
    and "list_all json_ok vs" using assms by (auto simp: bind_eq_Some_conv dest: json_ok_array)
  with Some show ?thesis
    by (auto simp: type_fields_from_payload_def res_map_map list_all_iff get_str_norm cong: res_map_cong)
qed

lemma type_spec_from_payload_norm:
  assumes "json_ok v"
  shows "type_spec_from_payload (json_norm v) = type_spec_from_payload v"
proof -
  have "Option.bind (json_get k (json_norm v)) as_bool = Option.bind (json_get k v) as_bool"
    and "Option.bind (json_get k (json_norm v)) as_u64 = Option.bind (json_get k v) as_u64"
    and "strings_from_payload (json_get k (json_norm v)) e e' = strings_from_payload (json_get k v) e e'"
    and "type_fields_from_payload l (json_get k (json_norm v)) = type_fields_from_payload l (json_get k v)"
    for k e e' l
    using json_ok_get [OF assms, of k]
    by (cases "json_get k v"; simp add: json_get_norm [OF assms] strings_from_payload_norm
        strings_from_payload_norm [of "Some _", simplified] type_fields_from_payload_norm [of "Some _", simplified]
        type_fields_from_payload_norm)+
  note this [simp]
  show ?thesis unfolding type_spec_from_payload_def get_str_norm [OF assms] by (simp cong del: if_weak_cong)
qed

lemma same_payload_same_spec:
  "json_ok v \<Longrightarrow> json_ok w \<Longrightarrow> json_norm v = json_norm w \<Longrightarrow> type_spec_from_payload v = type_spec_from_payload w"
  by (metis type_spec_from_payload_norm)

subsection \<open>Round trip of a specification\<close>

definition fields_ok :: "type_field_spec list \<Rightarrow> bool" where
  "fields_ok fs \<longleftrightarrow> fs \<noteq> [] \<and> list_all (\<lambda>field. is_projection_identifier (tf_name field)) fs
     \<and> distinct (map tf_name fs)"

lemma canonical_fields_loop:
  "res_fold (push_type_field label) fs (ns, out) = Inr r \<longleftrightarrow>
     list_all (\<lambda>field. is_projection_identifier (tf_name field)) fs \<and> distinct (map tf_name fs) \<and>
     set (map tf_name fs) \<inter> set ns = {} \<and> r = (fold (\<lambda>field. bset_insert (tf_name field)) fs ns, out @ fs)"
proof (induction fs arbitrary: ns out)
  case (Cons a fs)
  then show ?case by (auto simp: push_type_field_def validate_projection_identifier_def)
qed auto

lemma canonical_type_fields_ok:
  "canonical_type_fields label fs = Inr gs \<longleftrightarrow> fields_ok fs \<and> gs = sort_key tf_name fs"
  by (auto simp: canonical_type_fields_def fields_ok_def canonical_fields_loop)

lemma fields_ok_sort [simp]: "fields_ok (sort_key tf_name fs) \<longleftrightarrow> fields_ok fs"
proof -
  have "mset (map tf_name (sort_key tf_name fs)) = mset (map tf_name fs)" by simp
  then have "distinct (map tf_name (sort_key tf_name fs)) = distinct (map tf_name fs)"
    by (metis mset_eq_imp_distinct_iff)
  moreover have "sort_key tf_name fs = [] \<longleftrightarrow> fs = []" by (metis length_0_conv length_sort)
  ultimately show ?thesis by (simp add: fields_ok_def list_all_iff)
qed

lemma fields_json_read:
  "fields_ok fs \<Longrightarrow> type_fields_from_payload label (Some (fields_json fs)) = Inr (sort_key tf_name fs)"
proof -
  assume ok: "fields_ok fs"
  then have "res_map (\<lambda>field. res_bind (validate_projection_identifier label (tf_name field)) (\<lambda>_.
      Inr \<lparr>tf_name = tf_name field, tf_type = tf_type field\<rparr>)) fs = res_map Inr fs"
    by (intro res_map_cong) (auto simp: fields_ok_def list_all_iff validate_projection_identifier_def)
  with ok show ?thesis
    by (simp add: type_fields_from_payload_def fields_json_def res_map_map get_str_def
        canonical_type_fields_ok res_map_pure [of "\<lambda>x. x", simplified])
qed

text \<open>The order of the fields of a record or enum in a \<open>Type\<close> object is that of their names.\<close>

fun canonical_spec :: "type_spec \<Rightarrow> type_spec" where
  "canonical_spec (TsRecord fs) = TsRecord (sort_key tf_name fs)"
| "canonical_spec (TsEnum fs) = TsEnum (sort_key tf_name fs)"
| "canonical_spec spec = spec"

definition builtin_kind :: "string \<Rightarrow> bool" where
  "builtin_kind kind \<longleftrightarrow> kind = ''Bool'' \<or> kind = ''Unit'' \<or> scalar_int_type_of kind \<noteq> None"

fun known_builtin :: "type_spec \<Rightarrow> bool" where
  "known_builtin (TsBuiltin kind) = builtin_kind kind"
| "known_builtin _ = True"

lemma builtin_kind_iff:
  "builtin_kind kind \<longleftrightarrow> kind \<in> {''Bool'', ''Unit'', ''I8'', ''I16'', ''I32'', ''I64'', ''U8'', ''U16'', ''U32'', ''U64''}"
  by (auto simp: builtin_kind_def scalar_int_type_of_def find_eq_None_iff SCALAR_INT_TYPES_def)

lemma not_builtin_kind [simp]:
  "scalar_int_type_of ''Named'' = None"
  "scalar_int_type_of ''TypeParam'' = None"
  "scalar_int_type_of ''Reference'' = None"
  "scalar_int_type_of ''RawPointer'' = None"
  "scalar_int_type_of ''Box'' = None"
  "scalar_int_type_of ''Vec'' = None"
  "scalar_int_type_of ''String'' = None"
  "scalar_int_type_of ''Slice'' = None"
  "scalar_int_type_of ''FixedArray'' = None"
  "scalar_int_type_of ''Record'' = None"
  "scalar_int_type_of ''Enum'' = None"
  by code_simp+

lemma strings_from_str_array [simp]: "strings_from_payload (Some (str_array ss)) e e' = Inr ss"
  by (simp add: strings_from_payload_def str_array_def res_map_map res_map_pure [of "\<lambda>x. x", simplified])

lemma uint_bounds [simp]:
  "uint (w :: 64 word) < 18446744073709551616" "uint (v :: 32 word) < 18446744073709551616"
    "uint (v :: 32 word) < 4294967296"
  using uint_lt2p [of w] uint_lt2p [of v] by simp_all

lemma ucast_index [simp]:
  "uint (ucast (i :: 32 word) :: 64 word) = uint i" "ucast (ucast (i :: 32 word) :: 64 word) = i"
   apply (simp add: unsigned_ucast_eq take_bit_int_eq_self)
  by (transfer, simp add: take_bit_take_bit)

lemma type_kind_head [simp]: "get_str ''type_kind'' (JObj ((''type_kind'', JStr k) # m)) e = Inr k"
  by (simp add: get_str_def)

lemma read_kind:
  "get_str ''type_kind'' payload (Bail ''Type object missing type_kind'' []) = Inr k \<Longrightarrow> k = ''Bool'' \<Longrightarrow>
    type_spec_from_payload payload = Inr (TsBuiltin ''Bool'')"
  "get_str ''type_kind'' payload (Bail ''Type object missing type_kind'' []) = Inr k \<Longrightarrow> k = ''Unit'' \<Longrightarrow>
    type_spec_from_payload payload = Inr (TsBuiltin ''Unit'')"
  "get_str ''type_kind'' payload (Bail ''Type object missing type_kind'' []) = Inr k \<Longrightarrow> scalar_int_type_of k \<noteq> None \<Longrightarrow>
    k \<noteq> ''Bool'' \<Longrightarrow> k \<noteq> ''Unit'' \<Longrightarrow> type_spec_from_payload payload = Inr (TsBuiltin k)"
  by (simp_all add: type_spec_from_payload_def del: res_bind_eq_Inr)

lemmas read_simps = type_spec_from_payload_def get_str_def strings_from_payload_def [of None]

lemma type_payload_read:
  assumes "type_payload_for_spec spec = Inr payload" and "known_builtin spec"
  shows "type_spec_from_payload payload = Inr (canonical_spec spec)"
proof (cases spec)
  case (TsBuiltin kind)
  with assms have "builtin_kind kind" and p: "payload = JObj [(''type_kind'', JStr kind)]" by auto
  then show ?thesis
    by (cases "kind = ''Bool''"; cases "kind = ''Unit''") (auto simp: TsBuiltin read_kind builtin_kind_def)
next
  case (TsNamed s rs ts)
  with assms(1) have ok: "validate_region_args rs = Inr ()" "validate_type_hashes ''named type argument'' ts = Inr ()"
    by (auto simp: canonical_type_fields_ok)
  with assms(1) TsNamed show ?thesis
    by (auto simp: read_simps simp del: res_bind_eq_Inr)
next
  case (TsReference r m t)
  with assms(1) have ok: "validate_region_arg r = Inr ()" "validate_type_hash ''reference referent'' t = Inr ()"
    by (auto simp: canonical_type_fields_ok)
  with assms(1) TsReference show ?thesis
    by (auto simp: read_simps simp del: res_bind_eq_Inr)
next
  case (TsRawPointer m t)
  with assms(1) have ok: "validate_type_hash ''raw pointer pointee'' t = Inr ()"
    by (auto simp: canonical_type_fields_ok)
  with assms(1) TsRawPointer show ?thesis
    by (auto simp: read_simps simp del: res_bind_eq_Inr)
next
  case (TsBox t)
  with assms(1) have ok: "validate_type_hash ''box element'' t = Inr ()"
    by (auto simp: canonical_type_fields_ok)
  with assms(1) TsBox show ?thesis
    by (auto simp: read_simps simp del: res_bind_eq_Inr)
next
  case (TsVec t)
  with assms(1) have ok: "validate_type_hash ''vec element'' t = Inr ()"
    by (auto simp: canonical_type_fields_ok)
  with assms(1) TsVec show ?thesis
    by (auto simp: read_simps simp del: res_bind_eq_Inr)
next
  case (TsSlice r m t)
  with assms(1) have ok: "validate_region_arg r = Inr ()" "validate_type_hash ''slice element'' t = Inr ()"
    by (auto simp: canonical_type_fields_ok)
  with assms(1) TsSlice show ?thesis
    by (auto simp: read_simps simp del: res_bind_eq_Inr)
next
  case (TsFixedArray t n)
  with assms(1) have ok: "validate_type_hash ''fixed array element'' t = Inr ()"
    by (auto simp: canonical_type_fields_ok)
  with assms(1) TsFixedArray show ?thesis
    by (auto simp: read_simps simp del: res_bind_eq_Inr)
next
  case (TsRecord fs)
  with assms(1) have "fields_ok fs" and "canonical_type_fields ''record field'' fs = Inr (sort_key tf_name fs)"
    by (auto simp: canonical_type_fields_ok)
  with assms(1) TsRecord show ?thesis
    by (auto simp: read_simps fields_json_read sort_key_id_if_sorted simp del: res_bind_eq_Inr)
next
  case (TsEnum fs)
  with assms(1) have "fields_ok fs" and "canonical_type_fields ''enum variant'' fs = Inr (sort_key tf_name fs)"
    by (auto simp: canonical_type_fields_ok)
  with assms(1) TsEnum show ?thesis
    by (auto simp: read_simps fields_json_read sort_key_id_if_sorted simp del: res_bind_eq_Inr)
next
  case (TsTypeParam i)
  note ok = TsTypeParam
  with assms(1) TsTypeParam show ?thesis
    by (auto simp: read_simps simp del: res_bind_eq_Inr)
next
  case TsString
  note ok = TsString
  with assms(1) TsString show ?thesis
    by (auto simp: read_simps simp del: res_bind_eq_Inr)
qed

subsection \<open>Stored types\<close>

lemma payload_json_ok: "type_payload_for_spec spec = Inr payload \<Longrightarrow> json_ok payload"
  by (cases spec) (auto simp: str_array_def fields_json_def split: if_splits)

lemma type_kind_no_nul: "CHR 0x00 \<notin> set ''Type''"
  by simp

text \<open>A stored object is found under its hash, with its kind and its payload up to the order of entries.\<close>

lemma put_object_found:
  assumes env: "env_ok env" and objs: "list_all (object_row_ok env) objs"
    and put: "put_object env kind payload objs = (h, objs')" and "json_ok payload" "CHR 0x00 \<notin> set kind"
  shows "\<exists>row. row_by or_hash h objs' = Some row \<and> or_kind row = kind \<and> json_ok (or_payload row)
    \<and> json_norm (or_payload row) = json_norm payload"
proof -
  let ?row = "\<lparr>or_hash = h, or_kind = kind, or_payload = payload\<rparr>"
  have adds: "adds env objs objs'" by (rule put_object_adds [OF put]) fact+
  have h: "h = hash_object env kind payload" and "h \<in> or_hash ` set objs'"
    using put by (auto simp: put_object_def Let_def insert_or_ignore_def)
  then obtain a where a: "row_by or_hash h objs' = Some a"
    by (cases "row_by or_hash h objs'") (auto simp: row_by_def find_eq_None_iff)
  then have ok: "object_row_ok env a" and "or_hash a = h"
    using adds_objects_ok [OF adds objs] by (auto simp: list_all_iff dest: row_by_Some)
  then have "hash_object env (or_kind a) (or_payload a) = hash_object env kind payload"
    using h by (simp add: object_row_ok_def)
  then have "or_kind a = kind \<and> json_norm (or_payload a) = json_norm payload"
    using object_hash_determines [OF env_okD(2,1) [OF env], of "or_payload a" payload "or_kind a" kind] ok assms(4,5)
    by (simp add: hash_object_def object_row_ok_def)
  with a ok show ?thesis by (auto simp: object_row_ok_def)
qed

lemma type_hash_for_eq:
  assumes env: "env_ok env" and "type_payload_for_spec spec = Inr payload" "known_builtin spec"
    and "hash_object env ''Type'' payload = type_hash_for env kind" and kind: "builtin_kind kind"
  shows "spec = TsBuiltin kind"
proof -
  have "type_payload_for_spec (TsBuiltin kind) = Inr (JObj [(''type_kind'', JStr kind)])" by simp
  note builtin = payload_json_ok [OF this] type_payload_read [OF this]
  have "json_norm payload = json_norm (JObj [(''type_kind'', JStr kind)])"
    using assms(4) object_hash_determines [OF env_okD(2,1) [OF env] payload_json_ok [OF assms(2)] builtin(1)
        type_kind_no_nul type_kind_no_nul]
    by (simp add: hash_object_def type_hash_for_def)
  then have "type_spec_from_payload payload = type_spec_from_payload (JObj [(''type_kind'', JStr kind)])"
    by (intro same_payload_same_spec payload_json_ok [OF assms(2)] builtin(1))
  then have "canonical_spec spec = TsBuiltin kind"
    using type_payload_read [OF assms(2,3)] builtin(2) kind by simp
  then show ?thesis by (cases spec) auto
qed

lemma scalar_kind: "t \<in> set SCALAR_INT_TYPES \<Longrightarrow> scalar_int_type_of (int_name t) = Some t"
proof -
  have "list_all (\<lambda>t. scalar_int_type_of (int_name t) = Some t) SCALAR_INT_TYPES" by code_simp
  then show "t \<in> set SCALAR_INT_TYPES \<Longrightarrow> scalar_int_type_of (int_name t) = Some t"
    by (simp add: list_all_iff)
qed

lemma scalar_of_Some: "scalar_int_type_of kind = Some t \<Longrightarrow> t \<in> set SCALAR_INT_TYPES \<and> int_name t = kind"
  by (auto simp: scalar_int_type_of_def dest: find_Some_in)

lemma type_hash_inject:
  "env_ok env \<Longrightarrow> builtin_kind k \<Longrightarrow> builtin_kind k' \<Longrightarrow> type_hash_for env k = type_hash_for env k' \<longleftrightarrow> k = k'"
  using type_hash_for_eq [of env "TsBuiltin k" "JObj [(''type_kind'', JStr k)]" k'] by (auto simp: type_hash_for_def)

lemma by_hash_scalar:
  assumes "env_ok env" "builtin_kind kind"
  shows "scalar_int_type_by_hash env (type_hash_for env kind) = scalar_int_type_of kind"
proof -
  have "type_hash_for env kind = type_hash_for env (int_name t) \<longleftrightarrow> int_name t = kind"
    if "t \<in> set SCALAR_INT_TYPES" for t
    using type_hash_inject [OF assms(1,2), of "int_name t"] scalar_kind [OF that] by (auto simp: builtin_kind_def)
  then show ?thesis by (auto simp: scalar_int_type_by_hash_def scalar_int_type_of_def intro!: find_cong)
qed

lemma type_spec_builtin:
  assumes "env_ok env" "builtin_kind kind"
  shows "type_spec_of env objs (type_hash_for env kind) = Inr (TsBuiltin kind)"
proof (cases "scalar_int_type_of kind")
  case (Some t)
  then show ?thesis using scalar_of_Some [OF Some] by (simp add: type_spec_of_def by_hash_scalar [OF assms])
next
  case None
  have neq: "type_hash_for env ''Unit'' \<noteq> type_hash_for env ''Bool''"
    using type_hash_inject [OF assms(1), of "''Unit''" "''Bool''"] by (simp add: builtin_kind_def)
  from None assms(2) consider "kind = ''Bool''" | "kind = ''Unit''" by (auto simp: builtin_kind_def)
  then show ?thesis
    using by_hash_scalar [OF assms] None neq by cases (auto simp: type_spec_of_def)
qed

text \<open>A hash is not that of a builtin type unless it is the hash of its payload.\<close>

lemma type_spec_stored:
  assumes env: "env_ok env" and spec: "type_payload_for_spec spec = Inr payload" "known_builtin spec"
    and row: "row_by or_hash (hash_object env ''Type'' payload) objs = Some row" "or_kind row = ''Type''"
      "json_ok (or_payload row)" "json_norm (or_payload row) = json_norm payload"
  shows "type_spec_of env objs (hash_object env ''Type'' payload) = Inr (canonical_spec spec)"
proof (cases "\<exists>kind. builtin_kind kind \<and> hash_object env ''Type'' payload = type_hash_for env kind")
  case True
  then obtain kind where kind: "builtin_kind kind" "hash_object env ''Type'' payload = type_hash_for env kind"
    by blast
  from type_hash_for_eq [OF env spec kind(2,1)] kind type_spec_builtin [OF env kind(1)] show ?thesis by simp
next
  case False
  have "scalar_int_type_by_hash env (hash_object env ''Type'' payload) = None"
    using False scalar_kind unfolding scalar_int_type_by_hash_def find_eq_None_iff builtin_kind_def
    by (metis option.discI)
  moreover have "hash_object env ''Type'' payload \<noteq> type_hash_for env ''Bool''"
    "hash_object env ''Type'' payload \<noteq> type_hash_for env ''Unit''"
    using False by (auto simp: builtin_kind_def)
  moreover have "type_spec_from_payload (or_payload row) = Inr (canonical_spec spec)"
    using same_payload_same_spec [OF row(3) payload_json_ok [OF spec(1)] row(4)] type_payload_read [OF spec] by simp
  ultimately show ?thesis using row(1,2) by (simp add: type_spec_of_def get_kind_def get_payload_def)
qed

lemma put_structural_type_loads:
  assumes env: "env_ok env" and objs: "list_all (object_row_ok env) objs" and "known_builtin spec"
    and put: "put_structural_type env spec objs = Inr (h, objs')"
  shows "type_spec_of env objs' h = Inr (canonical_spec spec)" and "adds env objs objs'"
    and "hash_for_type_spec env spec = Inr h"
proof -
  from put obtain payload where p: "type_payload_for_spec spec = Inr payload"
    and put': "put_object env ''Type'' payload objs = (h, objs')" by (auto simp: put_structural_type_def)
  then have h: "h = hash_object env ''Type'' payload" by (simp add: put_object_def Let_def)
  show "hash_for_type_spec env spec = Inr h" using p h by (simp add: hash_for_type_spec_def)
  show "adds env objs objs'" by (rule put_object_adds [OF put' payload_json_ok [OF p]]) simp
  from put_object_found [OF env objs put' payload_json_ok [OF p]] type_spec_stored [OF env p assms(3)] h
  show "type_spec_of env objs' h = Inr (canonical_spec spec)" by auto
qed

text \<open>Adding objects does not change what is stored already.\<close>

lemma type_spec_extends: "extends objs objs' \<Longrightarrow> type_spec_of env objs h = Inr spec \<Longrightarrow> type_spec_of env objs' h = Inr spec"
  by (auto simp: type_spec_of_def get_kind_def get_payload_def dest: extends_row_by split: option.splits if_splits)

subsection \<open>Well-formed types\<close>

text \<open>
  The parts of a specification, and the specification with its regions renamed and its parts
  replaced. Both substitutions are the same walk over these.
\<close>

fun spec_parts :: "type_spec \<Rightarrow> string list" where
  "spec_parts (TsNamed _ _ type_args) = type_args"
| "spec_parts (TsReference _ _ referent) = [referent]"
| "spec_parts (TsRawPointer _ pointee) = [pointee]"
| "spec_parts (TsBox element) = [element]"
| "spec_parts (TsVec element) = [element]"
| "spec_parts (TsSlice _ _ element) = [element]"
| "spec_parts (TsFixedArray element _) = [element]"
| "spec_parts (TsRecord fs) = map tf_type fs"
| "spec_parts (TsEnum fs) = map tf_type fs"
| "spec_parts _ = []"

definition retype :: "type_field_spec list \<Rightarrow> string list \<Rightarrow> type_field_spec list" where
  "retype fs ts = map2 (\<lambda>field t. \<lparr>tf_name = tf_name field, tf_type = t\<rparr>) fs ts"

fun spec_rebuild :: "(string \<times> string) list \<Rightarrow> type_spec \<Rightarrow> string list \<Rightarrow> type_spec" where
  "spec_rebuild regions (TsNamed s rs _) ts = TsNamed s (map (\<lambda>r. substitute_region_hash r regions) rs) ts"
| "spec_rebuild regions (TsReference r m _) ts = TsReference (substitute_region_hash r regions) m (hd ts)"
| "spec_rebuild regions (TsRawPointer m _) ts = TsRawPointer m (hd ts)"
| "spec_rebuild regions (TsBox _) ts = TsBox (hd ts)"
| "spec_rebuild regions (TsVec _) ts = TsVec (hd ts)"
| "spec_rebuild regions (TsSlice r m _) ts = TsSlice (substitute_region_hash r regions) m (hd ts)"
| "spec_rebuild regions (TsFixedArray _ n) ts = TsFixedArray (hd ts) n"
| "spec_rebuild regions (TsRecord fs) ts = TsRecord (retype fs ts)"
| "spec_rebuild regions (TsEnum fs) ts = TsEnum (retype fs ts)"
| "spec_rebuild regions spec ts = spec"

text \<open>
  A well-formed type below \<open>np\<close> type parameters: it loads, its hash is that of its specification,
  and so are its parts, down to a depth of at most \<open>n\<close>.
\<close>

fun param_in_scope :: "nat \<Rightarrow> type_spec \<Rightarrow> bool" where
  "param_in_scope np (TsTypeParam index) \<longleftrightarrow> unat index < np"
| "param_in_scope np _ \<longleftrightarrow> True"

fun wf_type :: "env \<Rightarrow> objects \<Rightarrow> nat \<Rightarrow> nat \<Rightarrow> string \<Rightarrow> bool" where
  "wf_type env objects np 0 h \<longleftrightarrow> False"
| "wf_type env objects np (Suc n) h \<longleftrightarrow>
     (case type_spec_of env objects h of
        Inl _ \<Rightarrow> False
      | Inr spec \<Rightarrow> hash_for_type_spec env spec = Inr h \<and> param_in_scope np spec
          \<and> list_all (wf_type env objects np n) (spec_parts spec))"

lemma wf_type_Suc:
  "wf_type env objs np n h \<Longrightarrow> wf_type env objs np (Suc n) h"
proof (induction n arbitrary: h)
  case (Suc n)
  from Suc.prems obtain spec where s: "type_spec_of env objs h = Inr spec" "hash_for_type_spec env spec = Inr h"
    "param_in_scope np spec" "list_all (wf_type env objs np n) (spec_parts spec)"
    by (auto split: sum.splits)
  then have "list_all (wf_type env objs np (Suc n)) (spec_parts spec)"
    using Suc.IH unfolding list_all_iff by blast
  with s show ?case by (subst wf_type.simps) simp
qed simp

lemma wf_type_mono: "n \<le> m \<Longrightarrow> wf_type env objs np n h \<Longrightarrow> wf_type env objs np m h"
  by (induction rule: dec_induct) (auto intro: wf_type_Suc simp del: wf_type.simps)

lemma wf_type_extends:
  "extends objs objs' \<Longrightarrow> wf_type env objs np n h \<Longrightarrow> wf_type env objs' np n h"
proof (induction n arbitrary: h)
  case (Suc n)
  then show ?case by (auto simp: list_all_iff type_spec_extends split: sum.splits)
qed simp

lemma hash_prefix: "prefix ''sha256:'' (hash_object env kind payload)"
  by (simp add: hash_object_def hash_object_canonical_def)

lemma hash_for_spec_prefix: "hash_for_type_spec env spec = Inr h \<Longrightarrow> prefix ''sha256:'' h"
  using hash_prefix by (auto simp: hash_for_type_spec_def)

lemma wf_type_prefix: "wf_type env objs np n h \<Longrightarrow> prefix ''sha256:'' h"
  by (cases n) (auto split: sum.splits dest: hash_for_spec_prefix)

text \<open>What a specification needs to have a payload.\<close>

lemma validate_list [simp]:
  "validate_region_args rs = Inr u \<longleftrightarrow> list_all (prefix ''sha256:'') rs"
  "validate_type_hashes l ts = Inr u \<longleftrightarrow> list_all (prefix ''sha256:'') ts"
  by (induction rs; simp add: validate_region_args_def validate_region_arg_def)
    (induction ts; simp add: validate_type_hashes_def validate_type_hash_def)

fun spec_regions :: "type_spec \<Rightarrow> string list" where
  "spec_regions (TsNamed _ rs _) = rs"
| "spec_regions (TsReference r _ _) = [r]"
| "spec_regions (TsSlice r _ _) = [r]"
| "spec_regions _ = []"

fun spec_fields :: "type_spec \<Rightarrow> type_field_spec list option" where
  "spec_fields (TsRecord fs) = Some fs"
| "spec_fields (TsEnum fs) = Some fs"
| "spec_fields _ = None"

lemma payload_exists_iff:
  "(\<exists>payload. type_payload_for_spec spec = Inr payload) \<longleftrightarrow>
     list_all (prefix ''sha256:'') (spec_regions spec) \<and>
     (case spec_fields spec of Some fs \<Rightarrow> fields_ok fs | None \<Rightarrow> list_all (prefix ''sha256:'') (spec_parts spec))"
  by (cases spec) (auto simp: validate_region_arg_def validate_type_hash_def canonical_type_fields_ok)

lemma hash_for_spec_iff:
  "(\<exists>h. hash_for_type_spec env spec = Inr h) \<longleftrightarrow>
     list_all (prefix ''sha256:'') (spec_regions spec) \<and>
     (case spec_fields spec of Some fs \<Rightarrow> fields_ok fs | None \<Rightarrow> list_all (prefix ''sha256:'') (spec_parts spec))"
  using payload_exists_iff [of spec] by (simp add: hash_for_type_spec_def)

lemma retype_names: "length ts = length fs \<Longrightarrow> map tf_name (retype fs ts) = map tf_name fs"
  by (induction fs ts rule: list_induct2') (auto simp: retype_def)

lemma retype_types: "length ts = length fs \<Longrightarrow> map tf_type (retype fs ts) = ts"
  by (induction fs ts rule: list_induct2') (auto simp: retype_def)

lemma fields_ok_names: "fields_ok fs \<longleftrightarrow> map tf_name fs \<noteq> [] \<and> list_all is_projection_identifier (map tf_name fs)
    \<and> distinct (map tf_name fs)"
  by (auto simp: fields_ok_def list_all_iff)

lemma rebuild_hash:
  assumes "hash_for_type_spec env spec = Inr h" and "length ts = length (spec_parts spec)"
    and "list_all (prefix ''sha256:'') ts" and regions: "list_all (\<lambda>(_, r). prefix ''sha256:'' r) regions"
  shows "\<exists>h'. hash_for_type_spec env (spec_rebuild regions spec ts) = Inr h'"
proof -
  have sub: "prefix ''sha256:'' (substitute_region_hash r regions)" if "prefix ''sha256:'' r" for r
    using that regions by (auto simp: substitute_region_hash_def list_all_iff dest!: map_of_SomeD split: option.split)
  have "list_all (prefix ''sha256:'') (spec_regions spec) \<and>
     (case spec_fields spec of Some fs \<Rightarrow> fields_ok fs | None \<Rightarrow> list_all (prefix ''sha256:'') (spec_parts spec))"
    using assms(1) hash_for_spec_iff by blast
  then show ?thesis unfolding hash_for_spec_iff using assms(2,3) sub
    by (cases spec) (auto simp: list_all_iff length_Suc_conv fields_ok_names retype_names simp del: list.map)
qed

subsection \<open>Substitution is total, and its storing twin agrees with it\<close>

lemma res_bind_assoc: "res_bind (res_bind m f) g = res_bind m (\<lambda>x. res_bind (f x) g)"
  by (cases m) auto

lemma res_map_fields:
  "res_bind (res_map (\<lambda>field. res_bind (f (tf_type field)) (\<lambda>t. Inr \<lparr>tf_name = tf_name field, tf_type = t\<rparr>)) fs) k
     = res_bind (res_map f (map tf_type fs)) (\<lambda>ts. k (retype fs ts))"
proof (induction fs arbitrary: k)
  case (Cons a fs)
  show ?case
  proof (cases "f (tf_type a)")
    case (Inr t)
    then show ?thesis
      using Cons.IH [of "\<lambda>fs. k (\<lparr>tf_name = tf_name a, tf_type = t\<rparr> # fs)"]
      by (simp add: retype_def res_bind_assoc)
  qed simp
qed (simp add: retype_def)

lemma put_map_fields:
  "res_bind (put_map (\<lambda>field objs. res_bind (f (tf_type field) objs) (\<lambda>(t, objs).
        Inr (\<lparr>tf_name = tf_name field, tf_type = t\<rparr>, objs))) fs objs) (\<lambda>(fs, objs). k fs objs)
     = res_bind (put_map f (map tf_type fs) objs) (\<lambda>(ts, objs). k (retype fs ts) objs)"
proof (induction fs arbitrary: k objs)
  case (Cons a fs)
  show ?case
  proof (cases "f (tf_type a) objs")
    case (Inr r)
    then show ?thesis
      using Cons.IH [of "snd r" "\<lambda>fs. k (\<lparr>tf_name = tf_name a, tf_type = fst r\<rparr> # fs)"]
      by (simp add: retype_def res_bind_assoc case_prod_unfold)
  qed simp
qed (simp add: retype_def)

text \<open>One step of the walk on a type that is neither builtin nor a parameter.\<close>

fun is_leaf :: "type_spec \<Rightarrow> bool" where
  "is_leaf (TsBuiltin _) = True"
| "is_leaf (TsTypeParam _) = True"
| "is_leaf _ = False"

lemma substitute_parts:
  assumes "type_spec_of env objs h = Inr spec" and "\<not> (regions = [] \<and> args = [])" and "\<not> is_leaf spec"
  shows "substitute_type_hash (Suc n) env objs h regions args =
     res_bind (res_map (\<lambda>t. substitute_type_hash n env objs t regions args) (spec_parts spec)) (\<lambda>ts.
       hash_for_type_spec env (spec_rebuild regions spec ts))"
proof -
  note step = substitute_type_hash.simps(2) [of n env objs h regions args] assms(1) if_not_P [OF assms(2)]
    res_bind_simps type_spec.case
  show ?thesis
  proof (cases spec)
    case (TsRecord fs)
    show ?thesis unfolding step TsRecord spec_parts.simps spec_rebuild.simps
      by (rule res_map_fields [of "\<lambda>t. substitute_type_hash n env objs t regions args" fs])
  next
    case (TsEnum fs)
    show ?thesis unfolding step TsEnum spec_parts.simps spec_rebuild.simps
      by (rule res_map_fields [of "\<lambda>t. substitute_type_hash n env objs t regions args" fs])
  qed (use assms in \<open>auto simp: res_bind_assoc\<close>)
qed

lemma put_parts:
  assumes "type_spec_of env objs h = Inr spec" and "\<not> (regions = [] \<and> args = [])" and "\<not> is_leaf spec"
  shows "put_substituted_type (Suc n) env h regions args objs =
     res_bind (put_map (\<lambda>t. put_substituted_type n env t regions args) (spec_parts spec) objs) (\<lambda>(ts, objs).
       put_structural_type env (spec_rebuild regions spec ts) objs)"
proof -
  note step = put_substituted_type.simps(2) [of n env h regions args objs] assms(1) if_not_P [OF assms(2)]
    res_bind_simps type_spec.case
  show ?thesis
  proof (cases spec)
    case (TsRecord fs)
    show ?thesis unfolding step TsRecord spec_parts.simps spec_rebuild.simps
      by (rule put_map_fields [of "\<lambda>t. put_substituted_type n env t regions args" fs objs "\<lambda>fs. put_structural_type env (TsRecord fs)"])
  next
    case (TsEnum fs)
    show ?thesis unfolding step TsEnum spec_parts.simps spec_rebuild.simps
      by (rule put_map_fields [of "\<lambda>t. put_substituted_type n env t regions args" fs objs "\<lambda>fs. put_structural_type env (TsEnum fs)"])
  qed (use assms in \<open>auto simp: res_bind_assoc case_prod_unfold\<close>)
qed

text \<open>What the two substitutions of a well-formed type deliver.\<close>

definition substituted ::
    "nat \<Rightarrow> nat \<Rightarrow> env \<Rightarrow> objects \<Rightarrow> (string \<times> string) list \<Rightarrow> string list \<Rightarrow> nat \<Rightarrow> string \<Rightarrow> objects \<Rightarrow> string \<Rightarrow> objects \<Rightarrow> bool" where
  "substituted n np env objs regions args k h cur h' cur' \<longleftrightarrow>
     substitute_type_hash n env objs h regions args = Inr h' \<and>
     put_substituted_type n env h regions args cur = Inr (h', cur') \<and>
     adds env cur cur' \<and> wf_type env cur' np k h'"

lemma put_map_collect:
  assumes "\<And>x cur. x \<in> set xs \<Longrightarrow> adds env objs cur \<Longrightarrow>
      \<exists>y cur'. g x = Inr y \<and> f x cur = Inr (y, cur') \<and> adds env cur cur' \<and> P cur' y"
    and mono: "\<And>cur cur' y. P cur y \<Longrightarrow> adds env cur cur' \<Longrightarrow> P cur' y"
    and "adds env objs cur"
  shows "\<exists>ys cur'. res_map g xs = Inr ys \<and> put_map f xs cur = Inr (ys, cur') \<and> adds env cur cur'
    \<and> length ys = length xs \<and> list_all (P cur') ys"
  using assms(1,3)
proof (induction xs arbitrary: cur)
  case (Cons x xs)
  from Cons.prems obtain y c1 where y: "g x = Inr y" "f x cur = Inr (y, c1)" "adds env cur c1" "P c1 y"
    by (meson list.set_intros(1))
  from Cons.IH [of c1] Cons.prems y(3) obtain ys c2
    where ys: "res_map g xs = Inr ys" "put_map f xs c1 = Inr (ys, c2)" "adds env c1 c2" "length ys = length xs"
      "list_all (P c2) ys"
    by (meson adds_trans list.set_intros(2))
  from y ys show ?case by (auto intro: adds_trans mono)
qed auto

lemma rebuild_parts:
  "length ts = length (spec_parts spec) \<Longrightarrow> \<not> is_leaf spec \<Longrightarrow> spec_parts (spec_rebuild regions spec ts) = ts"
  by (cases spec) (auto simp: length_Suc_conv retype_types)

lemma rebuild_known [simp]: "known_builtin (spec_rebuild regions spec ts) = known_builtin spec"
  by (cases spec) auto

lemma rebuild_param [simp]: "\<not> is_leaf spec \<Longrightarrow> param_in_scope np (spec_rebuild regions spec ts)"
  by (cases spec) auto

lemma canonical_parts: "set (spec_parts (canonical_spec spec)) = set (spec_parts spec)"
  by (cases spec) auto

lemma canonical_param [simp]: "param_in_scope np (canonical_spec spec) = param_in_scope np spec"
  by (cases spec) auto

lemma fields_ok_inj: "fields_ok fs \<Longrightarrow> inj_on tf_name (set fs)"
  by (simp add: fields_ok_def distinct_map)

lemma canonical_hash: "hash_for_type_spec env spec = Inr h \<Longrightarrow> hash_for_type_spec env (canonical_spec spec) = Inr h"
  by (cases spec) (auto simp: hash_for_type_spec_def canonical_type_fields_ok sort_key_id_if_sorted)

text \<open>A type that was just stored is well-formed when its parts are.\<close>

lemma put_structural_type_wf:
  assumes "env_ok env" "list_all (object_row_ok env) objs" "known_builtin spec" "param_in_scope np spec"
    and put: "put_structural_type env spec objs = Inr (h, objs')"
    and parts: "list_all (wf_type env objs np k) (spec_parts spec)"
  shows "wf_type env objs' np (Suc k) h"
proof -
  note stored = put_structural_type_loads [OF assms(1-3) put]
  have "list_all (wf_type env objs' np k) (spec_parts spec)"
    using parts wf_type_extends [OF adds_extends [OF stored(2)]] by (simp add: list_all_iff)
  then show ?thesis
    using stored(1) canonical_hash [OF stored(3)] assms(4) by (simp add: list_all_iff canonical_parts)
qed

lemma put_structural_type_ok: "hash_for_type_spec env spec = Inr h \<Longrightarrow> \<exists>objs'. put_structural_type env spec objs = Inr (h, objs')"
  by (auto simp: hash_for_type_spec_def put_structural_type_def put_object_def Let_def)

lemma substitute_wf:
  assumes env: "env_ok env" and objs: "list_all (object_row_ok env) objs"
    and regions: "list_all (\<lambda>(_, r). prefix ''sha256:'' r) regions"
    and args: "list_all (wf_type env objs np m) args"
    and nonempty: "\<not> (regions = [] \<and> args = [])"
  shows "wf_type env objs (length args) n h \<Longrightarrow> adds env objs cur \<Longrightarrow> n \<le> fuel \<Longrightarrow>
    \<exists>h' cur'. substituted fuel np env objs regions args (n + m) h cur h' cur'"
proof (induction n arbitrary: h cur fuel)
  case (Suc n)
  then obtain f where f: "fuel = Suc f" "n \<le> f" by (cases fuel) auto
  from Suc.prems(1) obtain spec where s: "type_spec_of env objs h = Inr spec"
    "hash_for_type_spec env spec = Inr h" "param_in_scope (length args) spec"
    "list_all (wf_type env objs (length args) n) (spec_parts spec)"
    by (auto split: sum.splits)
  have ext: "extends objs cur" using Suc.prems(2) by (rule adds_extends)
  note s' = type_spec_extends [OF ext s(1)]
  have cur: "list_all (object_row_ok env) cur" using adds_objects_ok Suc.prems(2) objs by blast
  show ?case
  proof (cases "is_leaf spec")
    case True
    then consider k where "spec = TsBuiltin k" | i where "spec = TsTypeParam i" by (cases spec) auto
    then show ?thesis
    proof cases
      case (1 k)
      have "wf_type env cur np (Suc n + m) h" using 1 s' s(2) by simp
      then have "substituted fuel np env objs regions args (Suc n + m) h cur h cur"
        unfolding f substituted_def using 1 s s' nonempty by auto
      then show ?thesis by blast
    next
      case (2 i)
      then have i: "unat i < length args" using s(3) by simp
      then have "wf_type env cur np m (args ! unat i)"
        using args wf_type_extends [OF ext] by (simp add: list_all_length)
      then have "wf_type env cur np (Suc n + m) (args ! unat i)" by (rule wf_type_mono [rotated]) simp
      then have "substituted fuel np env objs regions args (Suc n + m) h cur (args ! unat i) cur"
        unfolding f substituted_def using 2 s s' nonempty i by (auto simp: type_param_arg_def)
      then show ?thesis by blast
    qed
  next
    case False
    let ?sub = "\<lambda>t. substitute_type_hash f env objs t regions args"
    have "\<exists>ts cur'. res_map ?sub (spec_parts spec) = Inr ts
      \<and> put_map (\<lambda>t. put_substituted_type f env t regions args) (spec_parts spec) cur = Inr (ts, cur')
      \<and> adds env cur cur' \<and> length ts = length (spec_parts spec) \<and> list_all (wf_type env cur' np (n + m)) ts"
      by (rule put_map_collect [where objs = objs])
        (use Suc.IH [OF _ _ f(2)] s(4) Suc.prems(2) in
          \<open>auto simp: substituted_def list_all_iff intro: wf_type_extends adds_extends\<close>)
    then obtain ts c where ts: "res_map ?sub (spec_parts spec) = Inr ts"
      "put_map (\<lambda>t. put_substituted_type f env t regions args) (spec_parts spec) cur = Inr (ts, c)"
      "adds env cur c" "length ts = length (spec_parts spec)" "list_all (wf_type env c np (n + m)) ts" by blast
    have "list_all (prefix ''sha256:'') ts" using ts(5) wf_type_prefix by (auto simp: list_all_iff)
    from rebuild_hash [OF s(2) ts(4) this regions] obtain h'
      where h': "hash_for_type_spec env (spec_rebuild regions spec ts) = Inr h'" by blast
    then obtain c' where c': "put_structural_type env (spec_rebuild regions spec ts) c = Inr (h', c')"
      using put_structural_type_ok by blast
    have ok: "list_all (object_row_ok env) c" using adds_objects_ok ts(3) cur by blast
    have known: "known_builtin (spec_rebuild regions spec ts)" using False by (cases spec) auto
    have "wf_type env c' np (Suc (n + m)) h'"
      by (rule put_structural_type_wf [OF env ok known _ c']) (use False ts in \<open>simp_all add: rebuild_parts\<close>)
    moreover have "adds env cur c'"
      using put_structural_type_loads(2) [OF env ok known c'] ts(3) adds_trans by blast
    ultimately have "substituted fuel np env objs regions args (Suc n + m) h cur h' c'"
      unfolding f substituted_def
      using substitute_parts [OF s(1) nonempty False] put_parts [OF s' nonempty False] ts h' c' by simp
    then show ?thesis by blast
  qed
qed simp

text \<open>A result does not change with more fuel or more objects.\<close>

lemma res_map_mono: "(\<And>x y. x \<in> set xs \<Longrightarrow> f x = Inr y \<Longrightarrow> g x = Inr y) \<Longrightarrow> res_map f xs = Inr ys \<Longrightarrow> res_map g xs = Inr ys"
  by (induction xs arbitrary: ys) auto

lemma leaf_cases:
  assumes "is_leaf spec"
  obtains k where "spec = TsBuiltin k" | i where "spec = TsTypeParam i"
  using assms by (cases spec) auto

lemma substitute_leaf:
  assumes "type_spec_of env objs h = Inr spec" and "\<not> (regions = [] \<and> args = [])"
  shows "spec = TsBuiltin k \<Longrightarrow> substitute_type_hash (Suc n) env objs h regions args = Inr h"
    and "spec = TsTypeParam i \<Longrightarrow> substitute_type_hash (Suc n) env objs h regions args = type_param_arg i args"
  using assms by auto

lemma substitute_empty: "regions = [] \<and> args = [] \<Longrightarrow> substitute_type_hash (Suc n) env objs h regions args = Inr h"
  by simp

declare substitute_type_hash.simps(2) [simp del] put_substituted_type.simps(2) [simp del]

lemma substitute_mono:
  assumes ext: "extends objs objs'"
  shows "n \<le> m \<Longrightarrow> substitute_type_hash n env objs h regions args = Inr h' \<Longrightarrow>
    substitute_type_hash m env objs' h regions args = Inr h'"
proof (induction n arbitrary: m h h')
  case (Suc n)
  then obtain m' where m: "m = Suc m'" "n \<le> m'" by (cases m) auto
  show ?case
  proof (cases "regions = [] \<and> args = []")
    case False
    with Suc.prems(2) obtain spec where s: "type_spec_of env objs h = Inr spec"
      by (auto simp: substitute_type_hash.simps(2))
    note s' = type_spec_extends [OF ext s]
    show ?thesis
    proof (cases "is_leaf spec")
      case True
      then show ?thesis
        using Suc.prems(2) substitute_leaf [OF s False] substitute_leaf [OF s' False] unfolding m
        by (cases rule: leaf_cases) simp_all
    next
      case leaf: False
      from Suc.prems(2) [unfolded substitute_parts [OF s False leaf]] obtain ts
        where ts: "res_map (\<lambda>t. substitute_type_hash n env objs t regions args) (spec_parts spec) = Inr ts"
          "hash_for_type_spec env (spec_rebuild regions spec ts) = Inr h'" by auto
      have "res_map (\<lambda>t. substitute_type_hash m' env objs' t regions args) (spec_parts spec) = Inr ts"
        by (rule res_map_mono [OF _ ts(1)]) (use Suc.IH m in blast)
      then show ?thesis unfolding m substitute_parts [OF s' False leaf] by (simp add: ts)
    qed
  qed (use Suc.prems m in \<open>simp add: substitute_empty\<close>)
qed simp

subsection \<open>Ground types, and substitutions one after the other\<close>

lemma rebuild_same:
  assumes "\<And>r. substitute_region_hash r regions = r"
  shows "spec_rebuild regions spec (spec_parts spec) = spec"
proof -
  have "retype fs (map tf_type fs) = fs" for fs by (induction fs) (auto simp: retype_def)
  then show ?thesis using assms by (cases spec) (auto simp: map_idI)
qed

lemma substitute_ground:
  assumes "\<And>r. substitute_region_hash r regions = r"
  shows "wf_type env objs 0 n h \<Longrightarrow> n \<le> fuel \<Longrightarrow> substitute_type_hash fuel env objs h regions args = Inr h"
proof (induction n arbitrary: h fuel)
  case (Suc n)
  then obtain f where f: "fuel = Suc f" "n \<le> f" by (cases fuel) auto
  from Suc.prems(1) obtain spec where s: "type_spec_of env objs h = Inr spec"
    "hash_for_type_spec env spec = Inr h" "param_in_scope 0 spec" "list_all (wf_type env objs 0 n) (spec_parts spec)"
    by (auto split: sum.splits)
  show ?case
  proof (cases "is_leaf spec \<or> regions = [] \<and> args = []")
    case True
    then show ?thesis unfolding f using s(3) substitute_leaf [OF s(1)] substitute_empty
      by (cases "regions = [] \<and> args = []") (auto elim!: leaf_cases)
  next
    case False
    have "res_map (\<lambda>t. substitute_type_hash f env objs t regions args) (spec_parts spec) = res_map Inr (spec_parts spec)"
      by (rule res_map_cong) (use Suc.IH [OF _ f(2)] s(4) in \<open>auto simp: list_all_iff\<close>)
    then have "res_map (\<lambda>t. substitute_type_hash f env objs t regions args) (spec_parts spec) = Inr (spec_parts spec)"
      using res_map_pure [of "\<lambda>x. x" "spec_parts spec"] by simp
    then show ?thesis unfolding f using False s rebuild_same [OF assms] by (subst substitute_parts) auto
  qed
qed simp

lemma read_canonical: "type_spec_from_payload v = Inr spec \<Longrightarrow> canonical_spec spec = spec"
  by (auto simp: type_spec_from_payload_def type_fields_from_payload_def canonical_type_fields_ok sort_key_id_if_sorted
      split: if_splits)

lemma loaded_canonical: "type_spec_of env objs h = Inr spec \<Longrightarrow> canonical_spec spec = spec"
  by (auto simp: type_spec_of_def read_canonical split: option.splits if_splits)

lemma rebuild_canonical:
  assumes "canonical_spec spec = spec" and "hash_for_type_spec env spec = Inr h" and "length ts = length (spec_parts spec)"
  shows "canonical_spec (spec_rebuild regions spec ts) = spec_rebuild regions spec ts"
proof -
  have "sort_key tf_name (retype fs ts) = retype fs ts"
    if "sort_key tf_name fs = fs" "length ts = length fs" for fs
    using that by (intro sort_key_id_if_sorted) (metis retype_names sorted_sort_key)
  then show ?thesis using assms by (cases spec) auto
qed

lemma rebuild_compose:
  assumes "\<And>r. substitute_region_hash r composed = substitute_region_hash (substitute_region_hash r first) second"
    and "\<not> is_leaf spec" and "length ts = length (spec_parts spec)" and "length us = length (spec_parts spec)"
  shows "spec_rebuild second (spec_rebuild first spec ts) us = spec_rebuild composed spec us"
proof -
  have "retype (retype fs ts) us = retype fs us" if "length ts = length fs" "length us = length fs" for fs
    using that by (auto simp: retype_def intro!: nth_equalityI)
  then show ?thesis using assms by (cases spec) auto
qed

lemma loaded_known: "type_spec_of env objs h = Inr spec \<Longrightarrow> known_builtin spec"
proof -
  have "known_builtin spec" if "type_spec_from_payload v = Inr spec" for v
    using that by (auto simp: type_spec_from_payload_def builtin_kind_def split: if_splits)
  moreover have "builtin_kind (int_name t)" if "scalar_int_type_by_hash env h = Some t" for t
    using that scalar_kind by (auto simp: scalar_int_type_by_hash_def builtin_kind_def dest: find_Some_in)
  ultimately show "type_spec_of env objs h = Inr spec \<Longrightarrow> known_builtin spec"
    by (auto simp: type_spec_of_def builtin_kind_def split: option.splits if_splits)
qed

text \<open>Specifications with the same hash are the same up to the order of their fields.\<close>

lemma hash_for_spec_inject:
  assumes env: "env_ok env" and "hash_for_type_spec env spec = Inr h" "hash_for_type_spec env spec' = Inr h"
    and "known_builtin spec" "known_builtin spec'"
  shows "canonical_spec spec = canonical_spec spec'"
proof -
  from assms(2,3) obtain p p' where p: "type_payload_for_spec spec = Inr p" "type_payload_for_spec spec' = Inr p'"
    and "hash_object env ''Type'' p = hash_object env ''Type'' p'" by (auto simp: hash_for_type_spec_def)
  then have "json_norm p = json_norm p'"
    using object_hash_determines [OF env_okD(2,1) [OF env] payload_json_ok [OF p(1)] payload_json_ok [OF p(2)]
        type_kind_no_nul type_kind_no_nul] by (simp add: hash_object_def)
  from same_payload_same_spec [OF payload_json_ok [OF p(1)] payload_json_ok [OF p(2)] this] show ?thesis
    using type_payload_read [OF p(1) assms(4)] type_payload_read [OF p(2) assms(5)] by simp
qed

lemma substitute_det:
  assumes "substitute_type_hash n env objs h regions args = Inr x" "substitute_type_hash m env objs h regions args = Inr y"
  shows "x = y"
  using substitute_mono [OF extends_refl _ assms(1), of "max n m"] substitute_mono [OF extends_refl _ assms(2), of "max n m"]
  by simp

lemma wf_typeD:
  assumes "wf_type env objs np n h"
  obtains spec m where "n = Suc m" "type_spec_of env objs h = Inr spec" "hash_for_type_spec env spec = Inr h"
    "param_in_scope np spec" "list_all (wf_type env objs np m) (spec_parts spec)"
  using assms by (cases n) (auto split: sum.splits)

lemma substitute_compose:
  assumes env: "env_ok env" and ext: "extends objs big"
    and first: "\<not> (regions = [] \<and> args = [])" and second: "\<not> (regions' = [] \<and> args' = [])"
    and both: "\<not> (composed = [] \<and> args'' = [])"
    and compose: "\<And>r. substitute_region_hash r composed = substitute_region_hash (substitute_region_hash r regions) regions'"
    and args: "list_all2 (\<lambda>a b. substitute_type_hash f env big a regions' args' = Inr b) args args''"
  shows "wf_type env objs (length args) n h \<Longrightarrow> substitute_type_hash f1 env objs h regions args = Inr h1 \<Longrightarrow>
    wf_type env big np k h1 \<Longrightarrow> substitute_type_hash f2 env big h1 regions' args' = Inr h2 \<Longrightarrow> n \<le> f3 \<Longrightarrow>
    substitute_type_hash f3 env objs h composed args'' = Inr h2"
proof (induction n arbitrary: h h1 h2 k f1 f2 f3)
  case (Suc n)
  from Suc.prems(2,4,5) obtain e1 e2 e3 where f: "f1 = Suc e1" "f2 = Suc e2" "f3 = Suc e3" "n \<le> e3"
    by (cases f1; cases f2; cases f3) auto
  from Suc.prems(1) obtain spec where s: "type_spec_of env objs h = Inr spec" "hash_for_type_spec env spec = Inr h"
    "param_in_scope (length args) spec" "list_all (wf_type env objs (length args) n) (spec_parts spec)"
    by (auto elim: wf_typeD simp del: wf_type.simps)
  show ?case
  proof (cases "is_leaf spec")
    case True
    then show ?thesis
    proof (cases rule: leaf_cases)
      case (1 b)
      then show ?thesis
        using Suc.prems(2,4) substitute_leaf(1) [OF s(1) first 1] substitute_leaf(1) [OF s(1) both 1]
          substitute_leaf(1) [OF type_spec_extends [OF ext s(1)] second 1] by (simp add: f)
    next
      case (2 i)
      with s(3) have i: "unat i < length args" "unat i < length args''" using args by (auto dest: list_all2_lengthD)
      then have "h1 = args ! unat i" using Suc.prems(2) substitute_leaf(2) [OF s(1) first 2]
        by (simp add: f type_param_arg_def)
      then have "args'' ! unat i = h2"
        using substitute_det Suc.prems(4) list_all2_nthD [OF args i(1)] by metis
      then show ?thesis using substitute_leaf(2) [OF s(1) both 2] i by (simp add: f type_param_arg_def)
    qed
  next
    case leaf: False
    from Suc.prems(2) obtain ts where ts: "list_all2 (\<lambda>t t'. substitute_type_hash e1 env objs t regions args = Inr t') (spec_parts spec) ts"
      "hash_for_type_spec env (spec_rebuild regions spec ts) = Inr h1"
      by (auto simp: f substitute_parts [OF s(1) first leaf] res_map_Inr_iff)
    note len = list_all2_lengthD [OF ts(1), symmetric]
    from Suc.prems(3) obtain spec1 k' where s1: "type_spec_of env big h1 = Inr spec1" "hash_for_type_spec env spec1 = Inr h1"
      "list_all (wf_type env big np k') (spec_parts spec1)" by (auto elim: wf_typeD simp del: wf_type.simps)
    have spec1: "spec1 = spec_rebuild regions spec ts"
      using hash_for_spec_inject [OF env s1(2) ts(2) loaded_known [OF s1(1)]] loaded_known [OF s(1)]
        loaded_canonical [OF s1(1)] rebuild_canonical [OF loaded_canonical [OF s(1)] s(2) len, of regions] by simp
    have leaf1: "\<not> is_leaf spec1" using leaf unfolding spec1 by (cases spec) auto
    have parts: "spec_parts spec1 = ts" unfolding spec1 by (rule rebuild_parts [OF len leaf])
    from Suc.prems(4) obtain us where us: "list_all2 (\<lambda>t t'. substitute_type_hash e2 env big t regions' args' = Inr t') ts us"
      "hash_for_type_spec env (spec_rebuild regions' spec1 us) = Inr h2"
      by (auto simp: f substitute_parts [OF s1(1) second leaf1] res_map_Inr_iff parts)
    have "list_all2 (\<lambda>t u. substitute_type_hash e3 env objs t composed args'' = Inr u) (spec_parts spec) us"
      using ts(1) us(1) s(4) s1(3) Suc.IH [OF _ _ _ _ f(4)]
      unfolding list_all2_conv_all_nth list_all_length parts by (metis (no_types, lifting))
    then have "res_map (\<lambda>t. substitute_type_hash e3 env objs t composed args'') (spec_parts spec) = Inr us"
      by (simp add: res_map_Inr_iff)
    moreover have "spec_rebuild regions' spec1 us = spec_rebuild composed spec us"
      unfolding spec1 using list_all2_lengthD [OF us(1)] len by (intro rebuild_compose compose leaf) simp_all
    ultimately show ?thesis using us(2) by (simp add: f substitute_parts [OF s(1) both leaf])
  qed
qed simp

subsection \<open>What the component promises\<close>

lemma wf_type_params: "np \<le> np' \<Longrightarrow> wf_type env objs np n h \<Longrightarrow> wf_type env objs np' n h"
proof (induction n arbitrary: h)
  case (Suc n)
  have "param_in_scope np' spec" if "param_in_scope np spec" for spec
    using that Suc.prems(1) by (cases spec) auto
  with Suc show ?case by (auto simp: list_all_iff split: sum.splits)
qed simp

text \<open>C13. A \<open>Type\<close> object is read back as it was written: after a specification is stored, its hash is
  that of the specification, and loading the hash gives the specification, its fields in the
  order of their names. This holds whatever the store held before, a builtin type included.\<close>

theorem stored_type_loads:
  assumes "env_ok env" and "list_all (object_row_ok env) objs" and "known_builtin spec"
    and "put_structural_type env spec objs = Inr (h, objs')"
  shows "type_spec_of env objs' h = Inr (canonical_spec spec) \<and> hash_for_type_spec env spec = Inr h
    \<and> adds env objs objs'"
  using put_structural_type_loads [OF assms] by simp

text \<open>C14. Instantiating a generic type is total and its two implementations agree: for a well-formed
  type whose parameters all get a well-formed argument, a depth of fuel is enough, the
  substitution that only computes a hash and the one that stores every intermediate object
  return the same hash, only objects are added, and the instance is a well-formed type, no deeper
  than the type and its arguments together.\<close>

theorem instances_exist:
  assumes env: "env_ok env" and objs: "list_all (object_row_ok env) objs"
    and regions: "list_all (\<lambda>(_, r). prefix ''sha256:'' r) regions"
    and args: "list_all (wf_type env objs np m) args"
    and type: "wf_type env objs (length args) n h" and "n \<le> fuel"
  shows "\<exists>h' objs'. substitute_type_hash fuel env objs h regions args = Inr h'
    \<and> put_substituted_type fuel env h regions args objs = Inr (h', objs')
    \<and> adds env objs objs' \<and> wf_type env objs' np (n + m) h'"
proof (cases "regions = [] \<and> args = []")
  case True
  from type assms(6) obtain f where "fuel = Suc f" by (cases n; cases fuel) auto
  moreover have "wf_type env objs np (n + m) h"
    using wf_type_params [of 0 np] wf_type_mono [of n "n + m"] type True by simp
  ultimately show ?thesis
    using True by (auto simp: substitute_type_hash.simps(2) put_substituted_type.simps(2))
next
  case False
  from substitute_wf [OF env objs regions args False type adds_refl assms(6)] show ?thesis
    unfolding substituted_def by blast
qed

text \<open>C15. Instantiating in two steps is instantiating once with the composed arguments: if the instance
  of \<open>h\<close> at \<open>args\<close> was stored, substituting \<open>args'\<close> in it gives the hash of the instance of \<open>h\<close> at
  the arguments substituted in turn. So a generic definition used inside another has one
  identity, however its instance is reached.\<close>

theorem instances_compose:
  assumes env: "env_ok env" and objs: "list_all (object_row_ok env) objs"
    and regions: "list_all (\<lambda>(_, r). prefix ''sha256:'' r) regions" 
    and args: "list_all (wf_type env objs np m) args" and type: "wf_type env objs (length args) n h"
    and ne: "\<not> (regions = [] \<and> args = [])" "\<not> (regions' = [] \<and> args' = [])" "\<not> (composed = [] \<and> args'' = [])"
    and "\<forall>r. substitute_region_hash r composed = substitute_region_hash (substitute_region_hash r regions) regions'"
    and stored: "put_substituted_type n env h regions args objs = Inr (h1, objs1)"
    and args'': "res_map (\<lambda>a. substitute_type_hash k env objs1 a regions' args') args = Inr args''"
    and second: "substitute_type_hash l env objs1 h1 regions' args' = Inr h2"
  shows "substitute_type_hash n env objs h composed args'' = Inr h2"
proof -
  from substitute_wf [OF env objs regions args ne(1) type adds_refl order_refl] stored
  have "substitute_type_hash n env objs h regions args = Inr h1" "adds env objs objs1" "wf_type env objs1 np (n + m) h1"
    by (auto simp: substituted_def)
  then show ?thesis
    using substitute_compose [OF env adds_extends ne _ _ type] assms(9) args'' second
    by (auto simp: res_map_Inr_iff)
qed

end
