(* ===== verification/TypeParser.thy ===== *)
theory TypeParser
  imports Types
begin

text \<open>
  The source form of types, \<open>src/src/types.rs\<close>: the lexer, the recursive descent parser and the
  binding of type parameters. The parser's position is the list of tokens that are left; its
  recursion consumes tokens, which \<open>fuel\<close> bounds, and \<open>parse_fuel\<close> shows that one unit per token
  is enough.
\<close>

subsection \<open>Tokens\<close>

datatype type_token =
    TtIdent string
  | TtNumber string
  | TtSymbol string
  | TtEof

text \<open>The first character of a UTF-8 string and the rest, by the class of its first byte.\<close>

definition utf8_width :: "char \<Rightarrow> nat" where
  "utf8_width c = (if c < CHR 0x80 then 1 else if c < CHR 0xE0 then 2 else if c < CHR 0xF0 then 3 else 4)"

definition is_ident_start :: "char \<Rightarrow> bool" where
  "is_ident_start c \<longleftrightarrow> is_ascii_alphabetic c \<or> c = CHR ''_''"

definition is_ident_char :: "char \<Rightarrow> bool" where
  "is_ident_char c \<longleftrightarrow> is_ascii_alphanumeric c \<or> c = CHR ''_''"

function lex_type :: "string \<Rightarrow> type_token list" where
  "lex_type [] = [TtEof]"
| "lex_type (c # s) =
     (let ch = take (utf8_width c) (c # s)
      in if ch \<in> set whitespace_chars then lex_type (drop (utf8_width c - 1) s)
         else if is_ident_start c
         then TtIdent (c # takeWhile is_ident_char s) # lex_type (dropWhile is_ident_char s)
         else if is_ascii_digit c
         then TtNumber (c # takeWhile is_ascii_digit s) # lex_type (dropWhile is_ascii_digit s)
         else TtSymbol ch # lex_type (drop (utf8_width c - 1) s))"
  by pat_completeness auto
termination
  by (relation "measure length") (auto simp: less_Suc_eq_le length_dropWhile_le)

subsection \<open>Parsed types\<close>

datatype parsed_type_spec =
    PtBuiltin string
  | PtNamed string "string list" "parsed_type_spec list"
  | PtTypeParam "32 word"
  | PtReference string bool parsed_type_spec
  | PtRawPointer bool parsed_type_spec
  | PtBox parsed_type_spec
  | PtVec parsed_type_spec
  | PtString
  | PtSlice string bool parsed_type_spec
  | PtFixedArray parsed_type_spec "64 word"
  | PtRecord "(string \<times> parsed_type_spec) list"
  | PtEnum "(string \<times> parsed_type_spec) list"

subsection \<open>Token access\<close>

text \<open>A debug-formatted token in an error is kept as its text.\<close>

fun token_text :: "type_token \<Rightarrow> string" where
  "token_text (TtIdent s) = s"
| "token_text (TtNumber s) = s"
| "token_text (TtSymbol s) = s"
| "token_text TtEof = []"

fun tt_peek :: "type_token list \<Rightarrow> type_token" where
  "tt_peek [] = TtEof"
| "tt_peek (t # ts) = t"

fun tt_next :: "type_token list \<Rightarrow> type_token \<times> type_token list" where
  "tt_next [] = (TtEof, [])"
| "tt_next (TtEof # ts) = (TtEof, TtEof # ts)"
| "tt_next (t # ts) = (t, ts)"

definition tt_peek_symbol :: "string \<Rightarrow> type_token list \<Rightarrow> bool" where
  "tt_peek_symbol expected ts \<longleftrightarrow> tt_peek ts = TtSymbol expected"

definition tt_consume_symbol :: "string \<Rightarrow> type_token list \<Rightarrow> bool \<times> type_token list" where
  "tt_consume_symbol expected ts = (if tt_peek ts = TtSymbol expected then (True, tl ts) else (False, ts))"

definition tt_consume_ident_value :: "string \<Rightarrow> type_token list \<Rightarrow> bool \<times> type_token list" where
  "tt_consume_ident_value expected ts = (if tt_peek ts = TtIdent expected then (True, tl ts) else (False, ts))"

definition tt_expect_ident :: "type_token list \<Rightarrow> (string \<times> type_token list) res" where
  "tt_expect_ident ts =
     (case tt_next ts of
        (TtIdent v, ts) \<Rightarrow> Inr (v, ts)
      | (other, _) \<Rightarrow> Inl (Bail ''expected identifier, got {:?}'' [token_text other]))"

definition parse_u64 :: "string \<Rightarrow> 64 word option" where
  "parse_u64 s = (if read_dec s < 2 ^ 64 then Some (word_of_nat (read_dec s)) else None)"

definition tt_expect_number :: "type_token list \<Rightarrow> (64 word \<times> type_token list) res" where
  "tt_expect_number ts =
     (case tt_next ts of
        (TtNumber v, ts) \<Rightarrow>
          res_bind (ok_or (parse_u64 v) (Bail ''invalid array length {}'' [v])) (\<lambda>n. Inr (n, ts))
      | (other, _) \<Rightarrow> Inl (Bail ''expected number, got {:?}'' [token_text other]))"

definition tt_expect_symbol :: "string \<Rightarrow> type_token list \<Rightarrow> type_token list res" where
  "tt_expect_symbol expected ts =
     (case tt_next ts of
        (TtSymbol v, ts) \<Rightarrow>
          if v = expected then Inr ts else Inl (Bail ''expected symbol {}, got {:?}'' [expected, v])
      | (other, _) \<Rightarrow> Inl (Bail ''expected symbol {}, got {:?}'' [expected, token_text other]))"

definition tt_expect_eof :: "type_token list \<Rightarrow> unit res" where
  "tt_expect_eof ts =
     (if tt_peek ts = TtEof then Inr ()
      else Inl (Bail ''unexpected token at end of type: {:?}'' [token_text (tt_peek ts)]))"

text \<open>\<open>finish_name_path\<close>: the segments of a dotted name.\<close>

fun finish_name_path :: "string \<Rightarrow> type_token list \<Rightarrow> (string \<times> type_token list) res" where
  "finish_name_path first (TtSymbol dot # ts) =
     (if dot = ''.'' then
        (case ts of
           TtIdent seg # ts \<Rightarrow> finish_name_path (first @ ''.'' @ seg) ts
         | _ \<Rightarrow> Inl (Bail ''expected identifier, got {:?}'' [token_text (tt_peek ts)]))
      else Inr (first, TtSymbol dot # ts))"
| "finish_name_path first ts = Inr (first, ts)"

definition validate_region_name :: "string \<Rightarrow> string \<Rightarrow> unit res" where
  "validate_region_name label name =
     (if name = ''static'' then Inr () else validate_projection_identifier label name)"

definition validate_parsed_type_fields ::
    "string \<Rightarrow> (string \<times> parsed_type_spec) list \<Rightarrow> (string \<times> parsed_type_spec) list res" where
  "validate_parsed_type_fields label fs =
     res_bind (res_fold (\<lambda>(name, _) names.
         if name \<in> set names then Inl (Bail ''duplicate {} {}'' [label, name])
         else Inr (bset_insert name names)) fs [])
       (\<lambda>_. Inr (sort_key fst fs))"

subsection \<open>The parser\<close>

text \<open>
  The methods of the parser call \<open>parse_type\<close> through the parser they share; \<open>parse\<close> is that
  call, with the fuel that is left. A loop takes one unit per round.
\<close>

type_synonym type_parser = "type_token list \<Rightarrow> (parsed_type_spec \<times> type_token list) res"

definition parse_reference_type :: "type_parser \<Rightarrow> type_parser" where
  "parse_reference_type parse ts =
     res_bind (tt_expect_symbol [CHR 0x27] ts) (\<lambda>ts.
     res_bind (tt_expect_ident ts) (\<lambda>(region, ts).
     res_bind (validate_region_name ''reference region'' region) (\<lambda>_.
     case tt_consume_ident_value ''mut'' ts of (mutable, ts) \<Rightarrow>
     res_bind (parse ts) (\<lambda>(referent, ts). Inr (PtReference region mutable referent, ts)))))"

definition parse_single_type_arg :: "type_parser \<Rightarrow> type_parser" where
  "parse_single_type_arg parse ts =
     res_bind (tt_expect_symbol ''<'' ts) (\<lambda>ts.
     res_bind (parse ts) (\<lambda>(ty, ts).
     res_bind (tt_expect_symbol ''>'' ts) (\<lambda>ts. Inr (ty, ts))))"

definition parse_slice_type :: "type_parser \<Rightarrow> bool \<Rightarrow> type_parser" where
  "parse_slice_type parse mutable ts =
     res_bind (tt_expect_symbol ''<'' ts) (\<lambda>ts.
     res_bind (tt_expect_symbol [CHR 0x27] ts) (\<lambda>ts.
     res_bind (tt_expect_ident ts) (\<lambda>(region, ts).
     res_bind (validate_region_name ''slice region'' region) (\<lambda>_.
     res_bind (tt_expect_symbol '','' ts) (\<lambda>ts.
     res_bind (parse ts) (\<lambda>(element, ts).
     res_bind (tt_expect_symbol ''>'' ts) (\<lambda>ts.
       Inr (PtSlice region mutable element, ts))))))))"

definition parse_fixed_array_type :: "type_parser \<Rightarrow> type_parser" where
  "parse_fixed_array_type parse ts =
     res_bind (tt_expect_symbol ''<'' ts) (\<lambda>ts.
     res_bind (parse ts) (\<lambda>(element, ts).
     res_bind (tt_expect_symbol '','' ts) (\<lambda>ts.
     res_bind (tt_expect_number ts) (\<lambda>(len, ts).
     res_bind (tt_expect_symbol ''>'' ts) (\<lambda>ts.
       Inr (PtFixedArray element len, ts))))))"

fun parse_fields_loop ::
    "nat \<Rightarrow> type_parser \<Rightarrow> string \<Rightarrow> type_token list \<Rightarrow> ((string \<times> parsed_type_spec) list \<times> type_token list) res" where
  "parse_fields_loop 0 parse label ts = Inl NO_FUEL"
| "parse_fields_loop (Suc rounds) parse label ts =
     res_bind (tt_expect_ident ts) (\<lambda>(name, ts).
     res_bind (validate_projection_identifier label name) (\<lambda>_.
     res_bind (tt_expect_symbol '':'' ts) (\<lambda>ts.
     res_bind (parse ts) (\<lambda>(ty, ts).
     case tt_consume_symbol ''}'' ts of
       (True, ts) \<Rightarrow> Inr ([(name, ty)], ts)
     | (False, ts) \<Rightarrow>
         res_bind (tt_expect_symbol '','' ts) (\<lambda>ts.
         res_bind (parse_fields_loop rounds parse label ts) (\<lambda>(fs, ts). Inr ((name, ty) # fs, ts)))))))"

definition parse_fields ::
    "nat \<Rightarrow> type_parser \<Rightarrow> string \<Rightarrow> type_token list \<Rightarrow> ((string \<times> parsed_type_spec) list \<times> type_token list) res" where
  "parse_fields rounds parse label ts =
     res_bind (tt_expect_symbol ''{'' ts) (\<lambda>ts.
     case tt_consume_symbol ''}'' ts of
       (True, _) \<Rightarrow> Inl (Bail ''{}s must not be empty'' [label])
     | (False, ts) \<Rightarrow>
         res_bind (parse_fields_loop rounds parse label ts) (\<lambda>(fs, ts).
         res_bind (validate_parsed_type_fields label fs) (\<lambda>fs. Inr (fs, ts))))"

fun parse_args_loop ::
    "nat \<Rightarrow> type_parser \<Rightarrow> string list \<Rightarrow> parsed_type_spec list \<Rightarrow> type_token list
      \<Rightarrow> ((string list \<times> parsed_type_spec list) \<times> type_token list) res" where
  "parse_args_loop 0 parse region_args type_args ts = Inl NO_FUEL"
| "parse_args_loop (Suc rounds) parse region_args type_args ts =
     res_bind
       (if tt_peek_symbol [CHR 0x27] ts then
          if type_args \<noteq> [] then Inl (Bail ''region arguments must come before type arguments'' [])
          else
            res_bind (tt_expect_symbol [CHR 0x27] ts) (\<lambda>ts.
            res_bind (tt_expect_ident ts) (\<lambda>(name, ts).
            res_bind (validate_region_name ''region argument'' name) (\<lambda>_.
              Inr ((region_args @ [name], type_args), ts))))
        else
          res_bind (parse ts) (\<lambda>(ty, ts). Inr ((region_args, type_args @ [ty]), ts)))
       (\<lambda>((region_args, type_args), ts).
          case tt_consume_symbol ''>'' ts of
            (True, ts) \<Rightarrow> Inr ((region_args, type_args), ts)
          | (False, ts) \<Rightarrow>
              res_bind (tt_expect_symbol '','' ts) (\<lambda>ts.
                parse_args_loop rounds parse region_args type_args ts))"

definition parse_optional_type_args ::
    "nat \<Rightarrow> type_parser \<Rightarrow> type_token list \<Rightarrow> ((string list \<times> parsed_type_spec list) \<times> type_token list) res" where
  "parse_optional_type_args rounds parse ts =
     (case tt_consume_symbol ''<'' ts of
        (False, ts) \<Rightarrow> Inr (([], []), ts)
      | (True, ts) \<Rightarrow>
          (case tt_consume_symbol ''>'' ts of
             (True, _) \<Rightarrow> Inl (Bail ''type/region argument list must not be empty'' [])
           | (False, ts) \<Rightarrow> parse_args_loop rounds parse [] [] ts))"

definition parse_ident_type :: "nat \<Rightarrow> type_parser \<Rightarrow> string \<Rightarrow> type_parser" where
  "parse_ident_type rounds parse v ts =
     (case scalar_int_name_for_source v of
        Some name \<Rightarrow> Inr (PtBuiltin name, ts)
      | None \<Rightarrow>
          if v = ''bool'' \<or> v = ''Bool'' then Inr (PtBuiltin ''Bool'', ts)
          else if v = ''unit'' \<or> v = ''Unit'' then Inr (PtBuiltin ''Unit'', ts)
          else if v = ''string'' \<or> v = ''String'' then Inr (PtString, ts)
          else if v = ''record'' then
            res_bind (parse_fields rounds parse ''record field'' ts) (\<lambda>(fs, ts). Inr (PtRecord fs, ts))
          else if v = ''enum'' then
            res_bind (parse_fields rounds parse ''enum variant'' ts) (\<lambda>(fs, ts). Inr (PtEnum fs, ts))
          else if v = ''raw_ptr'' then
            res_bind (parse_single_type_arg parse ts) (\<lambda>(ty, ts). Inr (PtRawPointer False ty, ts))
          else if v = ''raw_mut_ptr'' then
            res_bind (parse_single_type_arg parse ts) (\<lambda>(ty, ts). Inr (PtRawPointer True ty, ts))
          else if v = ''box'' then
            res_bind (parse_single_type_arg parse ts) (\<lambda>(ty, ts). Inr (PtBox ty, ts))
          else if v = ''vec'' then
            res_bind (parse_single_type_arg parse ts) (\<lambda>(ty, ts). Inr (PtVec ty, ts))
          else if v = ''slice'' then parse_slice_type parse False ts
          else if v = ''mut_slice'' then parse_slice_type parse True ts
          else if v = ''array'' then parse_fixed_array_type parse ts
          else
            res_bind (finish_name_path v ts) (\<lambda>(name, ts).
            res_bind (parse_optional_type_args rounds parse ts) (\<lambda>((region_args, type_args), ts).
              Inr (PtNamed name region_args type_args, ts))))"

primrec parse_type :: "nat \<Rightarrow> type_parser" where
  "parse_type 0 = (\<lambda>ts. Inl NO_FUEL)"
| "parse_type (Suc fuel) = (\<lambda>ts.
     case tt_next ts of
       (TtSymbol v, ts) \<Rightarrow>
         if v = ''&'' then parse_reference_type (parse_type fuel) ts
         else if v = ''('' then
           res_bind (tt_expect_symbol '')'' ts) (\<lambda>ts. Inr (PtBuiltin ''Unit'', ts))
         else Inl (Bail ''expected type, got {:?}'' [v])
     | (TtIdent v, ts) \<Rightarrow> parse_ident_type fuel (parse_type fuel) v ts
     | (other, _) \<Rightarrow> Inl (Bail ''expected type, got {:?}'' [token_text other]))"

definition parse_type_source :: "string \<Rightarrow> parsed_type_spec res" where
  "parse_type_source source =
     (let ts = lex_type source
      in res_bind (parse_type (Suc (length ts)) ts) (\<lambda>(spec, ts).
         res_bind (tt_expect_eof ts) (\<lambda>_. Inr spec)))"

subsection \<open>Type parameters\<close>

fun bind_type_params :: "parsed_type_spec \<Rightarrow> string list \<Rightarrow> parsed_type_spec res" where
  "bind_type_params (PtNamed name region_args type_args) params =
     (case position (\<lambda>candidate. candidate = name) params of
        Some index \<Rightarrow>
          if region_args \<noteq> [] \<or> type_args \<noteq> []
          then Inl (Bail ''type parameter {} cannot take type or region arguments'' [name])
          else Inr (PtTypeParam (word_of_nat index))
      | None \<Rightarrow>
          res_bind (res_map (\<lambda>ty. bind_type_params ty params) type_args) (\<lambda>type_args.
            Inr (PtNamed name region_args type_args)))"
| "bind_type_params (PtTypeParam index) params = Inr (PtTypeParam index)"
| "bind_type_params (PtReference region mutable referent) params =
     res_bind (bind_type_params referent params) (\<lambda>referent. Inr (PtReference region mutable referent))"
| "bind_type_params (PtRawPointer mutable pointee) params =
     res_bind (bind_type_params pointee params) (\<lambda>pointee. Inr (PtRawPointer mutable pointee))"
| "bind_type_params (PtBox element) params =
     res_bind (bind_type_params element params) (\<lambda>element. Inr (PtBox element))"
| "bind_type_params (PtVec element) params =
     res_bind (bind_type_params element params) (\<lambda>element. Inr (PtVec element))"
| "bind_type_params (PtSlice region mutable element) params =
     res_bind (bind_type_params element params) (\<lambda>element. Inr (PtSlice region mutable element))"
| "bind_type_params (PtFixedArray element len) params =
     res_bind (bind_type_params element params) (\<lambda>element. Inr (PtFixedArray element len))"
| "bind_type_params (PtRecord fs) params =
     res_bind (res_map (\<lambda>(name, ty). res_bind (bind_type_params ty params) (\<lambda>ty. Inr (name, ty))) fs) (\<lambda>fs.
       Inr (PtRecord fs))"
| "bind_type_params (PtEnum variants) params =
     res_bind (res_map (\<lambda>(name, ty). res_bind (bind_type_params ty params) (\<lambda>ty. Inr (name, ty))) variants) (\<lambda>variants.
       Inr (PtEnum variants))"
| "bind_type_params (PtBuiltin kind) params = Inr (PtBuiltin kind)"
| "bind_type_params PtString params = Inr PtString"

subsection \<open>Every step consumes tokens\<close>

named_theorems consumes "what is left after a step is no longer than what it was given"

lemma tt_next_consumes [consumes]: "tt_next ts = (t, ts') \<Longrightarrow> t \<noteq> TtEof \<Longrightarrow> length ts' < length ts"
  by (cases ts rule: tt_next.cases) auto

lemma expect_consumes [consumes]:
  "tt_expect_ident ts = Inr (v, ts') \<Longrightarrow> length ts' < length ts"
  "tt_expect_number ts = Inr (n, ts') \<Longrightarrow> length ts' < length ts"
  "tt_expect_symbol s ts = Inr ts' \<Longrightarrow> length ts' < length ts"
  by (auto simp: tt_expect_ident_def tt_expect_number_def tt_expect_symbol_def
      split: prod.splits type_token.splits if_splits dest!: tt_next_consumes)

lemma consume_consumes [consumes]:
  "tt_consume_symbol s ts = (b, ts') \<Longrightarrow> length ts' \<le> length ts"
  "tt_consume_ident_value s ts = (b, ts') \<Longrightarrow> length ts' \<le> length ts"
  by (auto simp: tt_consume_symbol_def tt_consume_ident_value_def split: if_splits)

lemma finish_name_path_consumes [consumes]:
  "finish_name_path v ts = Inr (name, ts') \<Longrightarrow> length ts' \<le> length ts"
  by (induction v ts rule: finish_name_path.induct) (auto split: if_splits list.splits type_token.splits)

definition consuming :: "type_parser \<Rightarrow> bool" where
  "consuming parse \<longleftrightarrow> (\<forall>ts r ts'. parse ts = Inr (r, ts') \<longrightarrow> length ts' < length ts)"

lemma consumingD [consumes]: "consuming parse \<Longrightarrow> parse ts = Inr (r, ts') \<Longrightarrow> length ts' < length ts"
  by (auto simp: consuming_def)

lemma fields_loop_consumes [consumes]:
  "consuming parse \<Longrightarrow> parse_fields_loop n parse label ts = Inr (fs, ts') \<Longrightarrow> length ts' < length ts"
proof (induction n arbitrary: ts fs ts')
  case (Suc n)
  note loop = Suc.IH [OF Suc.prems(1)]
  show ?case using Suc.prems(2)
    by (auto simp: tt_consume_symbol_def split: if_splits dest!: consumes consumingD [OF Suc.prems(1)] loop)
qed simp

lemma args_loop_consumes [consumes]:
  "consuming parse \<Longrightarrow> parse_args_loop n parse rs args ts = Inr (r, ts') \<Longrightarrow> length ts' < length ts"
proof (induction n arbitrary: rs args ts r ts')
  case (Suc n)
  note loop = Suc.IH [OF Suc.prems(1)]
  show ?case using Suc.prems(2)
    by (auto simp: tt_consume_symbol_def split: if_splits dest!: consumes consumingD [OF Suc.prems(1)] loop)
qed simp

lemma methods_consume:
  assumes "consuming parse"
  shows "parse_reference_type parse ts = Inr (r, ts') \<Longrightarrow> length ts' < length ts"
    and "parse_single_type_arg parse ts = Inr (r, ts') \<Longrightarrow> length ts' < length ts"
    and "parse_slice_type parse b ts = Inr (r, ts') \<Longrightarrow> length ts' < length ts"
    and "parse_fixed_array_type parse ts = Inr (r, ts') \<Longrightarrow> length ts' < length ts"
    and "parse_fields n parse label ts = Inr (fs, ts') \<Longrightarrow> length ts' < length ts"
    and "parse_optional_type_args n parse ts = Inr (a, ts') \<Longrightarrow> length ts' \<le> length ts"
  by (auto simp: parse_reference_type_def parse_single_type_arg_def parse_slice_type_def parse_fixed_array_type_def
      parse_fields_def parse_optional_type_args_def tt_consume_symbol_def tt_consume_ident_value_def split: if_splits
      dest!: consumes consumingD [OF assms] fields_loop_consumes [OF assms] args_loop_consumes [OF assms])

lemma ident_consumes:
  assumes "consuming parse"
  shows "parse_ident_type n parse v ts = Inr (r, ts') \<Longrightarrow> length ts' \<le> length ts"
  by (auto simp: parse_ident_type_def split: option.splits if_splits
      dest!: methods_consume [OF assms] finish_name_path_consumes)

lemma parse_consuming: "consuming (parse_type n)"
proof (induction n)
  case (Suc n)
  have "length ts' < length ts" if "parse_type (Suc n) ts = Inr (r, ts')" for ts r ts'
    using that
    by (auto split: prod.splits type_token.splits if_splits
        dest!: consumes methods_consume [OF Suc] ident_consumes [OF Suc])
  then show ?case by (simp add: consuming_def)
qed (simp add: consuming_def)

subsection \<open>The fuel is enough\<close>

definition agree :: "nat \<Rightarrow> type_parser \<Rightarrow> type_parser \<Rightarrow> bool" where
  "agree k p q \<longleftrightarrow> consuming p \<and> consuming q \<and> (\<forall>ts. length ts < k \<longrightarrow> p ts = q ts \<and> p ts \<noteq> Inl NO_FUEL)"

lemma agreeD: "agree k p q \<Longrightarrow> length ts < k \<Longrightarrow> p ts = q ts"
  and agree_fuel: "agree k p q \<Longrightarrow> length ts < k \<Longrightarrow> q ts = Inl NO_FUEL \<longleftrightarrow> False"
  and agree_consuming: "agree k p q \<Longrightarrow> p ts = Inr (r, ts') \<Longrightarrow> length ts' < length ts"
    "agree k p q \<Longrightarrow> q ts = Inr (r, ts') \<Longrightarrow> length ts' < length ts"
  by (auto simp: agree_def consuming_def)

lemma expect_fuel [simp]:
  "tt_expect_ident ts = Inl NO_FUEL \<longleftrightarrow> False" "tt_expect_number ts = Inl NO_FUEL \<longleftrightarrow> False"
  "tt_expect_symbol s ts = Inl NO_FUEL \<longleftrightarrow> False" "validate_region_name l v = Inl NO_FUEL \<longleftrightarrow> False"
  "validate_projection_identifier l v = Inl NO_FUEL \<longleftrightarrow> False"
  by (auto simp: tt_expect_ident_def tt_expect_number_def tt_expect_symbol_def NO_FUEL_def res_bind_eq_Inl ok_or_def
      validate_region_name_def validate_projection_identifier_def
      split: prod.splits type_token.splits option.splits if_splits)

lemma validate_parsed_fuel [simp]: "validate_parsed_type_fields label fs = Inl NO_FUEL \<longleftrightarrow> False"
proof -
  have "res_fold (\<lambda>(name, _) names. if name \<in> set names then Inl (Bail ''duplicate {} {}'' [label, name])
         else Inr (bset_insert name names)) fs ns \<noteq> Inl NO_FUEL" for ns
    by (induction fs arbitrary: ns) (auto simp: NO_FUEL_def res_bind_eq_Inl split: if_splits)
  then show ?thesis by (auto simp: validate_parsed_type_fields_def res_bind_eq_Inl)
qed

lemma fields_loop_agree:
  assumes "agree k p q"
  shows "length ts < n \<Longrightarrow> length ts < m \<Longrightarrow> length ts \<le> k \<Longrightarrow>
    parse_fields_loop n p label ts = parse_fields_loop m q label ts \<and> parse_fields_loop m q label ts \<noteq> Inl NO_FUEL"
proof (induction n arbitrary: m ts)
  case (Suc n)
  then obtain m' where m: "m = Suc m'" by (cases m) auto
  have "parse_fields_loop n p label us = parse_fields_loop m' q label us \<and> parse_fields_loop m' q label us \<noteq> Inl NO_FUEL"
    if "length us < length ts" for us
    by (rule Suc.IH) (use Suc.prems that m in simp_all)
  then have step: "length us < length ts \<Longrightarrow> parse_fields_loop n p label us = parse_fields_loop m' q label us"
    "length us < length ts \<Longrightarrow> parse_fields_loop m' q label us = Inl NO_FUEL \<longleftrightarrow> False" for us by blast+
  have parse: "p us = q us" "q us = Inl NO_FUEL \<longleftrightarrow> False" if "length us < length ts" for us
    using agreeD [OF assms, of us] agree_fuel [OF assms, of us] that Suc.prems(3) by simp_all
  show ?case unfolding m
    by (auto simp: tt_consume_symbol_def res_bind_eq_Inl step parse intro!: res_bind_cong
        dest!: expect_consumes agree_consuming [OF assms])
qed simp

lemma args_loop_agree:
  assumes "agree k p q"
  shows "length ts < n \<Longrightarrow> length ts < m \<Longrightarrow> length ts < k \<Longrightarrow>
    parse_args_loop n p rs args ts = parse_args_loop m q rs args ts \<and> parse_args_loop m q rs args ts \<noteq> Inl NO_FUEL"
proof (induction n arbitrary: m rs args ts)
  case (Suc n)
  then obtain m' where m: "m = Suc m'" by (cases m) auto
  have "parse_args_loop n p rs args us = parse_args_loop m' q rs args us \<and> parse_args_loop m' q rs args us \<noteq> Inl NO_FUEL"
    if "length us < length ts" for us rs args
    by (rule Suc.IH) (use Suc.prems that m in simp_all)
  then have step: "length us < length ts \<Longrightarrow> parse_args_loop n p rs args us = parse_args_loop m' q rs args us"
    "length us < length ts \<Longrightarrow> parse_args_loop m' q rs args us = Inl NO_FUEL \<longleftrightarrow> False" for rs args us by blast+
  have parse: "p us = q us" "q us = Inl NO_FUEL \<longleftrightarrow> False" if "length us \<le> length ts" for us
    using agreeD [OF assms, of us] agree_fuel [OF assms, of us] that Suc.prems(3) by simp_all
  show ?case unfolding m
    by (auto simp: tt_consume_symbol_def res_bind_eq_Inl step parse NO_FUEL_def [symmetric] intro!: res_bind_cong
        dest!: expect_consumes agree_consuming [OF assms]) (simp_all add: NO_FUEL_def)
qed simp

lemma finish_fuel [simp]: "finish_name_path v ts = Inl NO_FUEL \<longleftrightarrow> False"
  by (induction v ts rule: finish_name_path.induct) (auto simp: NO_FUEL_def split: list.splits type_token.splits)

lemma methods_agree:
  assumes "agree k p q" and "length ts < k"
  shows "parse_reference_type p ts = parse_reference_type q ts \<and> parse_reference_type q ts \<noteq> Inl NO_FUEL"
    and "parse_single_type_arg p ts = parse_single_type_arg q ts \<and> parse_single_type_arg q ts \<noteq> Inl NO_FUEL"
    and "parse_slice_type p b ts = parse_slice_type q b ts \<and> parse_slice_type q b ts \<noteq> Inl NO_FUEL"
    and "parse_fixed_array_type p ts = parse_fixed_array_type q ts \<and> parse_fixed_array_type q ts \<noteq> Inl NO_FUEL"
proof -
  have parse: "p us = q us" "q us = Inl NO_FUEL \<longleftrightarrow> False" if "length us \<le> length ts" for us
    using agreeD [OF assms(1), of us] agree_fuel [OF assms(1), of us] that assms(2) by simp_all
  note used = tt_consume_ident_value_def res_bind_eq_Inl parse
  note consumed = expect_consumes agree_consuming [OF assms(1)]
  show "parse_reference_type p ts = parse_reference_type q ts \<and> parse_reference_type q ts \<noteq> Inl NO_FUEL"
    by (auto simp: parse_reference_type_def used intro!: res_bind_cong dest!: consumed)
  show "parse_single_type_arg p ts = parse_single_type_arg q ts \<and> parse_single_type_arg q ts \<noteq> Inl NO_FUEL"
    by (auto simp: parse_single_type_arg_def used intro!: res_bind_cong dest!: consumed)
  show "parse_slice_type p b ts = parse_slice_type q b ts \<and> parse_slice_type q b ts \<noteq> Inl NO_FUEL"
    by (auto simp: parse_slice_type_def used intro!: res_bind_cong dest!: consumed)
  show "parse_fixed_array_type p ts = parse_fixed_array_type q ts \<and> parse_fixed_array_type q ts \<noteq> Inl NO_FUEL"
    by (auto simp: parse_fixed_array_type_def used intro!: res_bind_cong dest!: consumed)
qed

lemma fields_agree:
  assumes "agree k p q" and "length ts < k" "length ts \<le> n" "length ts \<le> m"
  shows "parse_fields n p label ts = parse_fields m q label ts \<and> parse_fields m q label ts \<noteq> Inl NO_FUEL"
proof -
  have "parse_fields_loop n p label us = parse_fields_loop m q label us \<and> parse_fields_loop m q label us \<noteq> Inl NO_FUEL"
    if "length us < length ts" for us
    by (rule fields_loop_agree [OF assms(1)]) (use assms(2-) that in simp_all)
  then have loop: "length us < length ts \<Longrightarrow> parse_fields_loop n p label us = parse_fields_loop m q label us"
    "length us < length ts \<Longrightarrow> parse_fields_loop m q label us = Inl NO_FUEL \<longleftrightarrow> False" for us by blast+
  show ?thesis
    by (auto simp: parse_fields_def tt_consume_symbol_def res_bind_eq_Inl loop intro!: res_bind_cong
        dest!: expect_consumes) (simp_all add: NO_FUEL_def)
qed

lemma optional_args_agree:
  assumes "agree k p q" and "length ts < k" "length ts \<le> n" "length ts \<le> m"
  shows "parse_optional_type_args n p ts = parse_optional_type_args m q ts
    \<and> parse_optional_type_args m q ts \<noteq> Inl NO_FUEL"
proof -
  have "parse_args_loop n p [] [] us = parse_args_loop m q [] [] us \<and> parse_args_loop m q [] [] us \<noteq> Inl NO_FUEL"
    if "length us < length ts" for us
    by (rule args_loop_agree [OF assms(1)]) (use assms(2-) that in simp_all)
  then have loop: "length us < length ts \<Longrightarrow> parse_args_loop n p [] [] us = parse_args_loop m q [] [] us"
    "length us < length ts \<Longrightarrow> parse_args_loop m q [] [] us = Inl NO_FUEL \<longleftrightarrow> False" for us by blast+
  have "length (tl ts) < length ts" if "tt_peek ts = TtSymbol s" for s using that by (cases ts) auto
  then show ?thesis
    by (auto simp: parse_optional_type_args_def tt_consume_symbol_def loop split: if_splits) (simp_all add: NO_FUEL_def)
qed

lemma ident_agree:
  assumes "agree k p q" and "length ts < k" "length ts \<le> n" "length ts \<le> m"
  shows "parse_ident_type n p v ts = parse_ident_type m q v ts \<and> parse_ident_type m q v ts \<noteq> Inl NO_FUEL"
proof -
  note parts = methods_agree [OF assms(1,2)] fields_agree [OF assms]
  have opt: "parse_optional_type_args n p us = parse_optional_type_args m q us
      \<and> parse_optional_type_args m q us \<noteq> Inl NO_FUEL" if "length us \<le> length ts" for us
    by (rule optional_args_agree [OF assms(1)]) (use assms(2-) that in simp_all)
  let ?named = "\<lambda>n p. res_bind (finish_name_path v ts) (\<lambda>(name, ts).
    res_bind (parse_optional_type_args n p ts) (\<lambda>((region_args, type_args), ts).
      Inr (PtNamed name region_args type_args, ts)))"
  have named: "?named n p = ?named m q" "?named m q \<noteq> Inl NO_FUEL"
    using opt by (auto simp: res_bind_eq_Inl intro!: res_bind_cong dest!: finish_name_path_consumes)
  have eqs: "parse_single_type_arg p ts = parse_single_type_arg q ts"
    "parse_slice_type p b ts = parse_slice_type q b ts" "parse_fixed_array_type p ts = parse_fixed_array_type q ts"
    "parse_fields n p l ts = parse_fields m q l ts" for b l
    using parts by blast+
  have "parse_ident_type n p v ts = parse_ident_type m q v ts"
    unfolding parse_ident_type_def named(1) eqs by (rule refl)
  moreover have "parse_ident_type m q v ts \<noteq> Inl NO_FUEL"
  proof -
    have finished: "res_bind r (\<lambda>(x, ts). Inr (f x, ts)) \<noteq> Inl NO_FUEL" if "r \<noteq> Inl NO_FUEL"
      for r :: "('x \<times> type_token list) res" and f :: "'x \<Rightarrow> parsed_type_spec"
      using that by (auto simp: res_bind_eq_Inl)
    have parts': "parse_single_type_arg q ts \<noteq> Inl NO_FUEL" "parse_slice_type q b ts \<noteq> Inl NO_FUEL"
      "parse_fixed_array_type q ts \<noteq> Inl NO_FUEL" "parse_fields m q l ts \<noteq> Inl NO_FUEL" for b l
      using parts by blast+
    have if_ne: "(if c then x else y) \<noteq> z" if "x \<noteq> z" "y \<noteq> z" for c and x y z :: "(parsed_type_spec \<times> type_token list) res"
      using that by simp
    show ?thesis
    proof (cases "scalar_int_name_for_source v")
      case None
      show ?thesis unfolding parse_ident_type_def None option.case
        by (intro if_ne finished parts' named(2)) simp_all
    qed (simp add: parse_ident_type_def)
  qed
  ultimately show ?thesis by blast
qed

lemma parse_type_agree:
  "length ts < n \<Longrightarrow> length ts < m \<Longrightarrow> parse_type n ts = parse_type m ts \<and> parse_type m ts \<noteq> Inl NO_FUEL"
proof (induction n arbitrary: m ts)
  case (Suc n)
  then obtain m' where m: "m = Suc m'" by (cases m) auto
  have agree: "agree (length ts) (parse_type n) (parse_type m')"
  proof -
    have "parse_type n us = parse_type m' us \<and> parse_type m' us \<noteq> Inl NO_FUEL" if "length us < length ts" for us
      by (rule Suc.IH) (use Suc.prems that m in simp_all)
    then show ?thesis unfolding agree_def using parse_consuming by metis
  qed
  obtain t us where nxt: "tt_next ts = (t, us)" by fastforce
  show ?case
  proof (cases "t = TtEof")
    case False
    with nxt have us: "length us < length ts" by (auto dest: tt_next_consumes)
    then have len: "length us \<le> n" "length us \<le> m'" using Suc.prems m by simp_all
    show ?thesis
    proof (cases t)
      case (TtIdent v)
      with ident_agree [OF agree us len] show ?thesis unfolding m by (simp add: nxt)
    next
      case (TtSymbol v)
      with methods_agree [OF agree us] show ?thesis unfolding m
        by (auto simp: nxt res_bind_eq_Inl) (simp add: NO_FUEL_def)
    qed (use False in \<open>auto simp: m nxt NO_FUEL_def\<close>)
  qed (simp add: m nxt NO_FUEL_def)
qed simp

text \<open>C16. The type parser returns: with one unit of fuel per token it never runs out, and any more
  fuel gives the same result, so the bound on its recursion is one the tokens set and not one the
  parser imposes.\<close>

theorem type_parser_returns:
  "length ts < n \<Longrightarrow> parse_type n ts \<noteq> Inl NO_FUEL \<and> parse_type n ts = parse_type (Suc (length ts)) ts"
  using parse_type_agree [of ts n "Suc (length ts)"] parse_type_agree [of ts "Suc (length ts)" n] by simp

theorem type_parser_returns_witness:
  "parse_type 9 (lex_type ''box<i64>'') = Inr (PtBox (PtBuiltin ''I64''), [TtEof])"
proof -
  have "parse_type 9 (lex_type ''box<i64>'') = parse_type (Suc (length (lex_type ''box<i64>''))) (lex_type ''box<i64>'')"
    by (rule type_parser_returns [THEN conjunct2]) code_simp
  also have "\<dots> = Inr (PtBox (PtBuiltin ''I64''), [TtEof])" by code_simp
  finally show ?thesis .
qed

end
