(* ===== verification/ExprParser.thy ===== *)
theory ExprParser
  imports TypeParser Raw Ops Hex
begin

text \<open>
  The source form of expressions, \<open>src/src/expr.rs\<close>: the lexer and the recursive descent parser
  with its loop over binary operators. The parser's position is the list of tokens that are
  left. \<open>bitor_terminates\<close> is set and restored around calls, so it is an argument, \<open>bar\<close>. The
  recursion consumes tokens, and \<open>rounds\<close> or \<open>fuel\<close>, one unit per token, bounds it.
\<close>

subsection \<open>Tokens\<close>

datatype etoken =
    TkIdent string
  | TkNumber string
  | TkString string
  | TkByteString "8 word list"
  | TkComment string
  | TkSymbol string
  | TkEof

text \<open>The text of a string literal after its quote, and what follows the closing one.\<close>

fun lex_string :: "string \<Rightarrow> (string \<times> string) res" where
  "lex_string [] = Inl (Bail ''unterminated string literal'' [])"
| "lex_string (c # s) =
     (if c = CHR 0x22 then Inr ([], s)
      else if c = CHR 0x5C \<and> s \<noteq> [] then
        (case s of
           e # s' \<Rightarrow>
             res_bind
               (if e = CHR 0x22 \<or> e = CHR 0x5C then Inr e
                else if e = CHR ''n'' then Inr (CHR 0x0A)
                else if e = CHR ''t'' then Inr (CHR 0x09)
                else Inl (Bail ''unsupported string escape'' [take (utf8_width e) s]))
               (\<lambda>ch. res_bind (lex_string s') (\<lambda>(text, rest). Inr (ch # text, rest))))
      else res_bind (lex_string s) (\<lambda>(text, rest). Inr (c # text, rest)))"

text \<open>The value of a hex digit; the character is given as its text, several bytes outside ASCII.\<close>

definition projection_hex_value :: "string \<Rightarrow> 8 word res" where
  "projection_hex_value ch =
     (let c = hd ch
      in if is_ascii_digit c then Inr (of_char c - of_char (CHR ''0''))
         else if CHR ''a'' \<le> c \<and> c \<le> CHR ''f'' then Inr (of_char c - of_char (CHR ''a'') + 10)
         else if CHR ''A'' \<le> c \<and> c \<le> CHR ''F'' then Inr (of_char c - of_char (CHR ''A'') + 10)
         else Inl (Bail ''invalid hex digit {:?}'' [ch]))"

fun lex_byte_string :: "string \<Rightarrow> (8 word list \<times> string) res" where
  "lex_byte_string [] = Inl (Bail ''unterminated byte string literal'' [])"
| "lex_byte_string (c # s) =
     (if c = CHR 0x22 then Inr ([], s)
      else if c = CHR 0x5C \<and> s \<noteq> [] then
        (case s of
           e # s' \<Rightarrow>
             if e = CHR ''x'' then
               (case s' of
                  hi # lo # s'' \<Rightarrow>
                    if drop (utf8_width hi) s' = [] then Inl (Bail ''byte escape requires two hex digits'' [])
                    else
                    res_bind (projection_hex_value (take (utf8_width hi) s')) (\<lambda>h.
                    res_bind (projection_hex_value (take (utf8_width lo) (lo # s''))) (\<lambda>l.
                    res_bind (lex_byte_string s'') (\<lambda>(bytes, rest). Inr ((push_bit 4 h OR l) # bytes, rest))))
                | _ \<Rightarrow> Inl (Bail ''byte escape requires two hex digits'' []))
             else
               res_bind
                 (if e = CHR 0x22 then Inr (0x22 :: 8 word)
                  else if e = CHR 0x5C then Inr 0x5C
                  else if e = CHR ''n'' then Inr 0x0A
                  else if e = CHR ''t'' then Inr 0x09
                  else if e = CHR ''0'' then Inr 0
                  else Inl (Bail ''unsupported byte escape'' [take (utf8_width e) s]))
                 (\<lambda>b. res_bind (lex_byte_string s') (\<lambda>(bytes, rest). Inr (b # bytes, rest))))
      else if c < CHR 0x80 then
        res_bind (lex_byte_string s) (\<lambda>(bytes, rest). Inr (of_char c # bytes, rest))
      else Inl (Bail ''byte string contains non-ascii character {:?}'' [take (utf8_width c) (c # s)]))"

definition TWO_CHAR_SYMBOLS :: "string list" where
  "TWO_CHAR_SYMBOLS = [''->'', ''=='', ''!='', ''<='', ''>='', ''&&'', ''||'', ''::'', ''=>'', ''..'']"

lemma lex_string_rest: "lex_string s = Inr (v, rest) \<Longrightarrow> length rest < length s"
  by (induction s arbitrary: v rest rule: lex_string.induct)
    (fastforce split: if_splits list.splits)+

lemma lex_byte_string_rest: "lex_byte_string s = Inr (v, rest) \<Longrightarrow> length rest < length s"
  by (induction s arbitrary: v rest rule: lex_byte_string.induct)
    (fastforce split: if_splits list.splits)+

function lex :: "string \<Rightarrow> etoken list res" where
  "lex [] = Inr [TkEof]"
| "lex (c # s) =
     (let ch = take (utf8_width c) (c # s); after = drop (utf8_width c - 1) s
      in if ch \<in> set whitespace_chars then lex after
         else if c = CHR ''b'' \<and> s \<noteq> [] \<and> hd s = CHR 0x22 then
           (case lex_byte_string (tl s) of
              Inl e \<Rightarrow> Inl e
            | Inr (bytes, rest) \<Rightarrow> res_bind (lex rest) (\<lambda>ts. Inr (TkByteString bytes # ts)))
         else if is_ident_start c then
           res_bind (lex (dropWhile is_ident_char s)) (\<lambda>ts. Inr (TkIdent (c # takeWhile is_ident_char s) # ts))
         else if is_ascii_digit c then
           if c = CHR ''0'' \<and> s \<noteq> [] \<and> (hd s = CHR ''x'' \<or> hd s = CHR ''X'') then
             res_bind (lex (dropWhile is_ascii_hexdigit (tl s))) (\<lambda>ts.
               Inr (TkNumber (c # hd s # takeWhile is_ascii_hexdigit (tl s)) # ts))
           else
             res_bind (lex (dropWhile is_ascii_digit s)) (\<lambda>ts. Inr (TkNumber (c # takeWhile is_ascii_digit s) # ts))
         else if c = CHR 0x22 then
           (case lex_string s of
              Inl e \<Rightarrow> Inl e
            | Inr (v, rest) \<Rightarrow> res_bind (lex rest) (\<lambda>ts. Inr (TkString v # ts)))
         else if c = CHR ''/'' \<and> s \<noteq> [] \<and> hd s = CHR ''/'' then
           res_bind (lex (dropWhile (\<lambda>c. c \<noteq> CHR 0x0A) (tl s))) (\<lambda>ts.
             Inr (TkComment (takeWhile (\<lambda>c. c \<noteq> CHR 0x0A) (tl s)) # ts))
         else if s \<noteq> [] \<and> [c, hd s] \<in> set TWO_CHAR_SYMBOLS then
           res_bind (lex (tl s)) (\<lambda>ts. Inr (TkSymbol [c, hd s] # ts))
         else res_bind (lex after) (\<lambda>ts. Inr (TkSymbol ch # ts)))"
  by pat_completeness auto
termination
  by (relation "measure length")
    (auto simp: less_Suc_eq_le length_dropWhile_le dest!: lex_string_rest lex_byte_string_rest
      intro: le_trans [OF length_dropWhile_le])

subsection \<open>Token access\<close>

text \<open>A debug-formatted token in an error is kept as its text.\<close>

fun etoken_text :: "etoken \<Rightarrow> string" where
  "etoken_text (TkIdent s) = s"
| "etoken_text (TkNumber s) = s"
| "etoken_text (TkString s) = s"
| "etoken_text (TkByteString b) = bytes_to_hex b"
| "etoken_text (TkComment s) = s"
| "etoken_text (TkSymbol s) = s"
| "etoken_text TkEof = []"

fun is_comment :: "etoken \<Rightarrow> bool" where
  "is_comment (TkComment _) = True"
| "is_comment _ = False"

definition skip_comments :: "etoken list \<Rightarrow> etoken list" where
  "skip_comments ts = dropWhile is_comment ts"

fun first_token :: "etoken list \<Rightarrow> etoken" where
  "first_token [] = TkEof"
| "first_token (t # ts) = t"

text \<open>\<open>peek\<close> moves the position past comments, so what is left after it is returned as well.\<close>

definition tk_peek :: "etoken list \<Rightarrow> etoken \<times> etoken list" where
  "tk_peek ts = (let ts = skip_comments ts in (first_token ts, ts))"

definition tk_next :: "etoken list \<Rightarrow> etoken \<times> etoken list" where
  "tk_next ts = (let ts = skip_comments ts in (first_token ts, if first_token ts = TkEof then ts else tl ts))"

definition peek_second :: "etoken list \<Rightarrow> etoken" where
  "peek_second ts = first_token (skip_comments (tl (skip_comments ts)))"

definition tk_expect_ident :: "etoken list \<Rightarrow> (string \<times> etoken list) res" where
  "tk_expect_ident ts =
     (case tk_next ts of
        (TkIdent v, ts) \<Rightarrow> Inr (v, ts)
      | (other, _) \<Rightarrow> Inl (Bail ''expected identifier, got {:?}'' [etoken_text other]))"

definition tk_expect_number :: "etoken list \<Rightarrow> (string \<times> etoken list) res" where
  "tk_expect_number ts =
     (case tk_next ts of
        (TkNumber v, ts) \<Rightarrow> Inr (v, ts)
      | (other, _) \<Rightarrow> Inl (Bail ''expected number, got {:?}'' [etoken_text other]))"

definition tk_expect_ident_value :: "string \<Rightarrow> etoken list \<Rightarrow> etoken list res" where
  "tk_expect_ident_value expected ts =
     (case tk_next ts of (t, ts) \<Rightarrow>
        if t = TkIdent expected then Inr ts
        else Inl (Bail ''expected {}, got {:?}'' [expected, etoken_text t]))"

definition tk_expect_symbol :: "string \<Rightarrow> etoken list \<Rightarrow> etoken list res" where
  "tk_expect_symbol expected ts =
     (case tk_next ts of (t, ts) \<Rightarrow>
        if t = TkSymbol expected then Inr ts
        else Inl (Bail ''expected symbol {}, got {:?}'' [expected, etoken_text t]))"

definition tk_consume_ident_value :: "string \<Rightarrow> etoken list \<Rightarrow> bool \<times> etoken list" where
  "tk_consume_ident_value expected ts =
     (case tk_peek ts of (t, ts) \<Rightarrow> if t = TkIdent expected then (True, tl ts) else (False, ts))"

definition tk_consume_symbol :: "string \<Rightarrow> etoken list \<Rightarrow> bool \<times> etoken list" where
  "tk_consume_symbol expected ts =
     (case tk_peek ts of (t, ts) \<Rightarrow> if t = TkSymbol expected then (True, tl ts) else (False, ts))"

definition tk_consume_symbol_raw :: "string \<Rightarrow> etoken list \<Rightarrow> bool \<times> etoken list" where
  "tk_consume_symbol_raw expected ts = (if first_token ts = TkSymbol expected then (True, tl ts) else (False, ts))"

definition tk_expect_eof :: "etoken list \<Rightarrow> unit res" where
  "tk_expect_eof ts =
     (case tk_peek ts of (t, _) \<Rightarrow>
        if t = TkEof then Inr () else Inl (Bail ''unexpected token at end: {:?}'' [etoken_text t]))"

text \<open>\<open>parts.join(".")\<close>, collected from the left.\<close>

fun finish_path :: "nat \<Rightarrow> string \<Rightarrow> etoken list \<Rightarrow> (string \<times> etoken list) res" where
  "finish_path 0 path ts = Inl NO_FUEL"
| "finish_path (Suc rounds) path ts =
     (case tk_consume_symbol_raw ''.'' ts of
        (True, ts) \<Rightarrow> res_bind (tk_expect_ident ts) (\<lambda>(seg, ts). finish_path rounds (path @ ''.'' @ seg) ts)
      | (False, ts) \<Rightarrow> Inr (path, ts))"

subsection \<open>Type annotations\<close>

text \<open>Types are read and rendered again, in one spelling; \<open>parse\<close> is the call back into the parser.\<close>

type_synonym source_parser = "etoken list \<Rightarrow> (string \<times> etoken list) res"

fun type_fields_loop :: "nat \<Rightarrow> source_parser \<Rightarrow> etoken list \<Rightarrow> (string list \<times> etoken list) res" where
  "type_fields_loop 0 parse ts = Inl NO_FUEL"
| "type_fields_loop (Suc rounds) parse ts =
     res_bind (tk_expect_ident ts) (\<lambda>(name, ts).
     res_bind (tk_expect_symbol '':'' ts) (\<lambda>ts.
     res_bind (parse ts) (\<lambda>(ty, ts).
     case tk_consume_symbol ''}'' ts of
       (True, ts) \<Rightarrow> Inr ([name @ '': '' @ ty], ts)
     | (False, ts) \<Rightarrow>
         res_bind (tk_expect_symbol '','' ts) (\<lambda>ts.
         res_bind (type_fields_loop rounds parse ts) (\<lambda>(fs, ts). Inr ((name @ '': '' @ ty) # fs, ts))))))"

definition parse_type_fields :: "nat \<Rightarrow> source_parser \<Rightarrow> etoken list \<Rightarrow> (string list \<times> etoken list) res" where
  "parse_type_fields rounds parse ts =
     res_bind (tk_expect_symbol ''{'' ts) (\<lambda>ts.
     case tk_consume_symbol ''}'' ts of
       (True, _) \<Rightarrow> Inl (Bail ''type fields must not be empty'' [])
     | (False, ts) \<Rightarrow> res_bind (type_fields_loop rounds parse ts) (\<lambda>(fs, ts). Inr (sort fs, ts)))"

fun type_args_loop :: "nat \<Rightarrow> source_parser \<Rightarrow> bool \<Rightarrow> etoken list \<Rightarrow> (string list \<times> etoken list) res" where
  "type_args_loop 0 parse seen_type ts = Inl NO_FUEL"
| "type_args_loop (Suc rounds) parse seen_type ts =
     res_bind
       (case tk_consume_symbol_raw [CHR 0x27] ts of
          (True, ts) \<Rightarrow>
            if seen_type then Inl (Bail ''region arguments must come before type arguments'' [])
            else res_bind (tk_expect_ident ts) (\<lambda>(region, ts). Inr ((CHR 0x27 # region, False), ts))
        | (False, ts) \<Rightarrow> res_bind (parse ts) (\<lambda>(ty, ts). Inr ((ty, True), ts)))
       (\<lambda>((arg, seen_type), ts).
          case tk_consume_symbol_raw ''>'' ts of
            (True, ts) \<Rightarrow> Inr ([arg], ts)
          | (False, ts) \<Rightarrow>
              res_bind (tk_expect_symbol '','' ts) (\<lambda>ts.
              res_bind (type_args_loop rounds parse seen_type ts) (\<lambda>(args, ts). Inr (arg # args, ts))))"

definition parse_optional_type_source_args ::
    "nat \<Rightarrow> source_parser \<Rightarrow> etoken list \<Rightarrow> (string list \<times> etoken list) res" where
  "parse_optional_type_source_args rounds parse ts =
     (case tk_consume_symbol_raw ''<'' ts of
        (False, ts) \<Rightarrow> Inr ([], ts)
      | (True, ts) \<Rightarrow>
          (case tk_consume_symbol_raw ''>'' ts of
             (True, _) \<Rightarrow> Inl (Bail ''type/region argument list must not be empty'' [])
           | (False, ts) \<Rightarrow> type_args_loop rounds parse False ts))"

definition single_type_arg :: "source_parser \<Rightarrow> string \<Rightarrow> source_parser" where
  "single_type_arg parse name ts =
     res_bind (tk_expect_symbol ''<'' ts) (\<lambda>ts.
     res_bind (parse ts) (\<lambda>(ty, ts).
     res_bind (tk_expect_symbol ''>'' ts) (\<lambda>ts. Inr (name @ ''<'' @ ty @ ''>'', ts))))"

definition slice_type_args :: "source_parser \<Rightarrow> string \<Rightarrow> source_parser" where
  "slice_type_args parse name ts =
     res_bind (tk_expect_symbol ''<'' ts) (\<lambda>ts.
     res_bind (tk_expect_symbol [CHR 0x27] ts) (\<lambda>ts.
     res_bind (tk_expect_ident ts) (\<lambda>(region, ts).
     res_bind (tk_expect_symbol '','' ts) (\<lambda>ts.
     res_bind (parse ts) (\<lambda>(element, ts).
     res_bind (tk_expect_symbol ''>'' ts) (\<lambda>ts.
       Inr (name @ ''<'' @ CHR 0x27 # region @ '', '' @ element @ ''>'', ts)))))))"

definition array_type_args :: "source_parser \<Rightarrow> source_parser" where
  "array_type_args parse ts =
     res_bind (tk_expect_symbol ''<'' ts) (\<lambda>ts.
     res_bind (parse ts) (\<lambda>(element, ts).
     res_bind (tk_expect_symbol '','' ts) (\<lambda>ts.
     res_bind (tk_expect_number ts) (\<lambda>(len, ts).
     res_bind (tk_expect_symbol ''>'' ts) (\<lambda>ts.
       Inr (''array<'' @ element @ '', '' @ len @ ''>'', ts))))))"

definition parse_type_source_after_ident :: "nat \<Rightarrow> source_parser \<Rightarrow> string \<Rightarrow> source_parser" where
  "parse_type_source_after_ident rounds parse name ts =
     (case scalar_int_name_for_source name of
        Some scalar \<Rightarrow> Inr (to_ascii_lowercase scalar, ts)
      | None \<Rightarrow>
          if name = ''bool'' \<or> name = ''Bool'' then Inr (''bool'', ts)
          else if name = ''unit'' \<or> name = ''Unit'' then Inr (''unit'', ts)
          else if name = ''string'' \<or> name = ''String'' then Inr (''string'', ts)
          else if name = ''record'' then
            res_bind (parse_type_fields rounds parse ts) (\<lambda>(fs, ts). Inr (''record {'' @ join_with '', '' fs @ ''}'', ts))
          else if name = ''enum'' then
            res_bind (parse_type_fields rounds parse ts) (\<lambda>(fs, ts). Inr (''enum {'' @ join_with '', '' fs @ ''}'', ts))
          else if name \<in> {''raw_ptr'', ''raw_mut_ptr'', ''box'', ''vec''} then single_type_arg parse name ts
          else if name \<in> {''slice'', ''mut_slice''} then slice_type_args parse name ts
          else if name = ''array'' then array_type_args parse ts
          else
            res_bind (finish_path rounds name ts) (\<lambda>(path, ts).
            res_bind (parse_optional_type_source_args rounds parse ts) (\<lambda>(args, ts).
              Inr (if args = [] then path else path @ ''<'' @ join_with '', '' args @ ''>'', ts))))"

definition reference_type :: "source_parser \<Rightarrow> source_parser" where
  "reference_type parse ts =
     res_bind (tk_expect_symbol [CHR 0x27] ts) (\<lambda>ts.
     res_bind (tk_expect_ident ts) (\<lambda>(region, ts).
     case tk_consume_ident_value ''mut'' ts of (mutable, ts) \<Rightarrow>
     res_bind (parse ts) (\<lambda>(referent, ts).
       Inr ((if mutable then CHR ''&'' # CHR 0x27 # region @ '' mut '' @ referent
             else CHR ''&'' # CHR 0x27 # region @ '' '' @ referent), ts))))"

primrec type_source :: "nat \<Rightarrow> source_parser" where
  "type_source 0 = (\<lambda>ts. Inl NO_FUEL)"
| "type_source (Suc fuel) = (\<lambda>ts.
     case tk_next ts of
       (TkSymbol v, ts) \<Rightarrow>
         if v = ''&'' then reference_type (type_source fuel) ts
         else if v = ''('' then res_bind (tk_expect_symbol '')'' ts) (\<lambda>ts. Inr (''unit'', ts))
         else Inl (Bail ''expected type, got {:?}'' [v])
     | (TkIdent v, ts) \<Rightarrow> parse_type_source_after_ident (Suc fuel) (type_source fuel) v ts
     | (other, _) \<Rightarrow> Inl (Bail ''expected type, got {:?}'' [etoken_text other]))"

subsection \<open>The arms of a case\<close>

text \<open>
  The methods of the parser call \<open>parse_expr\<close> through the parser they share; \<open>parse\<close> is that
  call, under the setting of \<open>bitor_terminates\<close> it is made with.
\<close>

type_synonym expr_parser = "bool \<Rightarrow> etoken list \<Rightarrow> (raw_expr \<times> etoken list) res"

fun parse_case_pattern :: "nat \<Rightarrow> etoken list \<Rightarrow> (raw_pattern \<times> etoken list) res" where
  "parse_case_pattern 0 ts = Inl NO_FUEL"
| "parse_case_pattern (Suc rounds) ts =
     (case tk_consume_ident_value ''_'' ts of
        (True, ts) \<Rightarrow> Inr (PWildcard, ts)
      | (False, ts) \<Rightarrow>
          res_bind (tk_expect_ident ts) (\<lambda>(ident, ts).
          case tk_consume_symbol ''('' ts of
            (True, ts) \<Rightarrow>
              res_bind (parse_case_pattern rounds ts) (\<lambda>(sub, ts).
              res_bind (tk_expect_symbol '')'' ts) (\<lambda>ts. Inr (PVariant ident sub, ts)))
          | (False, ts) \<Rightarrow> Inr (PBinding ident, ts)))"

definition parse_optional_case_guard :: "expr_parser \<Rightarrow> bool \<Rightarrow> etoken list \<Rightarrow> (raw_expr option \<times> etoken list) res" where
  "parse_optional_case_guard parse bar ts =
     (case tk_consume_ident_value ''if'' ts of
        (True, ts) \<Rightarrow> res_bind (parse bar ts) (\<lambda>(guard, ts). Inr (Some guard, ts))
      | (False, ts) \<Rightarrow> Inr (None, ts))"

definition try_parse_scalar_literal_pattern :: "etoken list \<Rightarrow> (raw_expr option \<times> etoken list) res" where
  "try_parse_scalar_literal_pattern ts =
     (case tk_peek ts of (t, ts) \<Rightarrow>
        (case t of
           TkNumber v \<Rightarrow> Inr (Some (LiteralI64 v), tl ts)
         | TkSymbol s \<Rightarrow>
             if s = ''-'' then
               res_bind (tk_expect_number (tl ts)) (\<lambda>(v, ts). Inr (Some (LiteralI64 (CHR ''-'' # v)), ts))
             else Inr (None, ts)
         | TkIdent name \<Rightarrow>
             if name = ''true'' \<or> name = ''false'' then Inr (Some (LiteralBool (name = ''true'')), tl ts)
             else Inr (None, ts)
         | _ \<Rightarrow> Inr (None, ts)))"

text \<open>The guard, the arrow and the body, which ends at a bar.\<close>

definition parse_arm_tail :: "expr_parser \<Rightarrow> bool \<Rightarrow> etoken list \<Rightarrow> ((raw_expr option \<times> raw_expr) \<times> etoken list) res" where
  "parse_arm_tail parse bar ts =
     res_bind (parse_optional_case_guard parse bar ts) (\<lambda>(guard, ts).
     res_bind (tk_expect_symbol ''=>'' ts) (\<lambda>ts.
     res_bind (parse True ts) (\<lambda>(body, ts). Inr ((guard, body), ts))))"

definition consume_wildcard :: "etoken list \<Rightarrow> bool \<times> etoken list" where
  "consume_wildcard ts =
     (case tk_consume_ident_value ''else'' ts of
        (True, ts) \<Rightarrow> (True, ts)
      | (False, ts) \<Rightarrow>
          (case tk_consume_ident_value ''default'' ts of
             (True, ts) \<Rightarrow> (True, ts)
           | (False, ts) \<Rightarrow> tk_consume_ident_value ''_'' ts))"

definition parse_range_arm :: "expr_parser \<Rightarrow> bool \<Rightarrow> raw_expr \<Rightarrow> etoken list \<Rightarrow> (raw_case_arm \<times> etoken list) res" where
  "parse_range_arm parse bar literal ts =
     (case literal of
        LiteralI64 _ \<Rightarrow>
          (case tk_consume_symbol ''='' ts of (inclusive, ts) \<Rightarrow>
           res_bind (try_parse_scalar_literal_pattern ts) (\<lambda>(upper, ts).
           res_bind
             (case upper of
                Some (LiteralI64 v) \<Rightarrow> Inr (LiteralI64 v)
              | _ \<Rightarrow> Inl (Bail ''range case pattern upper bound must be an integer'' [])) (\<lambda>hi.
           res_bind (parse_arm_tail parse bar ts) (\<lambda>((guard, body), ts).
             Inr (RawCaseArm None None (Some (RawCaseRange literal hi inclusive)) False None guard None body, ts)))))
      | _ \<Rightarrow> Inl (Bail ''range case pattern requires integer bounds'' []))"

definition parse_literal_arm :: "expr_parser \<Rightarrow> bool \<Rightarrow> raw_expr \<Rightarrow> etoken list \<Rightarrow> (raw_case_arm \<times> etoken list) res" where
  "parse_literal_arm parse bar literal ts =
     (case tk_consume_symbol ''..'' ts of
        (True, ts) \<Rightarrow> parse_range_arm parse bar literal ts
      | (False, ts) \<Rightarrow>
          res_bind (parse_arm_tail parse bar ts) (\<lambda>((guard, body), ts).
            Inr (RawCaseArm None (Some literal) None False None guard None body, ts)))"

definition parse_variant_arm :: "nat \<Rightarrow> expr_parser \<Rightarrow> bool \<Rightarrow> etoken list \<Rightarrow> (raw_case_arm \<times> etoken list) res" where
  "parse_variant_arm rounds parse bar ts =
     res_bind (tk_expect_ident ts) (\<lambda>(variant, ts).
     res_bind
       (case tk_consume_symbol ''('' ts of
          (True, ts) \<Rightarrow>
            res_bind (parse_case_pattern rounds ts) (\<lambda>(pattern, ts).
            res_bind (tk_expect_symbol '')'' ts) (\<lambda>ts.
              Inr (case pattern of
                PBinding name \<Rightarrow> ((Some name, None), ts)
              | PWildcard \<Rightarrow> ((None, None), ts)
              | PVariant _ _ \<Rightarrow> ((None, Some pattern), ts))))
        | (False, ts) \<Rightarrow> Inr ((None, None), ts)) (\<lambda>((binding, payload_pattern), ts).
     res_bind (parse_arm_tail parse bar ts) (\<lambda>((guard, body), ts).
       Inr (RawCaseArm (Some variant) None None False binding guard payload_pattern body, ts))))"

text \<open>An arm, and whether it is the catch-all, which has to be the last.\<close>

definition parse_case_arm :: "nat \<Rightarrow> expr_parser \<Rightarrow> bool \<Rightarrow> etoken list \<Rightarrow> ((raw_case_arm \<times> bool) \<times> etoken list) res" where
  "parse_case_arm rounds parse bar ts =
     (case consume_wildcard ts of
        (True, ts) \<Rightarrow>
          res_bind (parse_arm_tail parse bar ts) (\<lambda>((guard, body), ts).
            Inr ((RawCaseArm None None None True None guard None body, guard = None), ts))
      | (False, ts) \<Rightarrow>
          res_bind (try_parse_scalar_literal_pattern ts) (\<lambda>(literal, ts).
          res_bind
            (case literal of
               Some literal \<Rightarrow> parse_literal_arm parse bar literal ts
             | None \<Rightarrow> parse_variant_arm rounds parse bar ts) (\<lambda>(arm, ts).
            Inr ((arm, False), ts))))"

fun parse_case_arms :: "nat \<Rightarrow> expr_parser \<Rightarrow> bool \<Rightarrow> etoken list \<Rightarrow> (raw_case_arm list \<times> etoken list) res" where
  "parse_case_arms 0 parse bar ts = Inl NO_FUEL"
| "parse_case_arms (Suc rounds) parse bar ts =
     res_bind (parse_case_arm (Suc rounds) parse bar ts) (\<lambda>((arm, catch_all), ts).
     case tk_consume_symbol ''|'' ts of
       (True, ts) \<Rightarrow>
         if catch_all then Inl (Bail ''default case arm must be last'' [])
         else res_bind (parse_case_arms rounds parse bar ts) (\<lambda>(arms, ts). Inr (arm # arms, ts))
     | (False, ts) \<Rightarrow> Inr ([arm], ts))"

subsection \<open>Primary expressions\<close>

text \<open>Elements up to a closing symbol, with a comma after each but the last.\<close>

fun elements_loop :: "nat \<Rightarrow> (etoken list \<Rightarrow> ('a \<times> etoken list) res) \<Rightarrow> string \<Rightarrow> etoken list \<Rightarrow> ('a list \<times> etoken list) res" where
  "elements_loop 0 element closing ts = Inl NO_FUEL"
| "elements_loop (Suc rounds) element closing ts =
     res_bind (element ts) (\<lambda>(e, ts).
     case tk_consume_symbol closing ts of
       (True, ts) \<Rightarrow> Inr ([e], ts)
     | (False, ts) \<Rightarrow>
         res_bind (tk_expect_symbol '','' ts) (\<lambda>ts.
         res_bind (elements_loop rounds element closing ts) (\<lambda>(es, ts). Inr (e # es, ts))))"

definition parse_call_args :: "nat \<Rightarrow> expr_parser \<Rightarrow> etoken list \<Rightarrow> (raw_expr list \<times> etoken list) res" where
  "parse_call_args rounds parse ts =
     (case tk_consume_symbol '')'' ts of
        (True, ts) \<Rightarrow> Inr ([], ts)
      | (False, ts) \<Rightarrow> elements_loop rounds (parse False) '')'' ts)"

definition parse_record_field :: "expr_parser \<Rightarrow> etoken list \<Rightarrow> (raw_record_field \<times> etoken list) res" where
  "parse_record_field parse ts =
     res_bind (tk_expect_ident ts) (\<lambda>(name, ts).
     res_bind (tk_expect_symbol '':'' ts) (\<lambda>ts.
     res_bind (parse False ts) (\<lambda>(v, ts). Inr (RawRecordField name v, ts))))"

definition parse_record :: "nat \<Rightarrow> expr_parser \<Rightarrow> etoken list \<Rightarrow> (raw_expr \<times> etoken list) res" where
  "parse_record rounds parse ts =
     (case tk_consume_symbol ''}'' ts of
        (True, _) \<Rightarrow> Inl (Bail ''record literal must have at least one field'' [])
      | (False, ts) \<Rightarrow>
          res_bind (elements_loop rounds (parse_record_field parse) ''}'' ts) (\<lambda>(fs, ts). Inr (RecordE fs, ts)))"

definition parse_array :: "nat \<Rightarrow> expr_parser \<Rightarrow> etoken list \<Rightarrow> (raw_expr \<times> etoken list) res" where
  "parse_array rounds parse ts =
     (case tk_consume_symbol '']'' ts of
        (True, _) \<Rightarrow> Inl (Bail ''array literal must have at least one element'' [])
      | (False, ts) \<Rightarrow>
          res_bind (parse False ts) (\<lambda>(first, ts).
          case tk_consume_symbol '';'' ts of
            (True, ts) \<Rightarrow>
              res_bind (parse False ts) (\<lambda>(size_expr, ts).
              case size_expr of
                LiteralI64 n \<Rightarrow> res_bind (tk_expect_symbol '']'' ts) (\<lambda>ts. Inr (ArrayFill first n, ts))
              | _ \<Rightarrow> Inl (Bail ''array fill count must be an integer literal'' []))
          | (False, ts) \<Rightarrow>
              (case tk_consume_symbol '']'' ts of
                 (True, ts) \<Rightarrow> Inr (ArrayE [first], ts)
               | (False, ts) \<Rightarrow>
                   res_bind (tk_expect_symbol '','' ts) (\<lambda>ts.
                   res_bind (elements_loop rounds (parse False) '']'' ts) (\<lambda>(es, ts).
                     Inr (ArrayE (first # es), ts))))))"

text \<open>The variant after \<open>::\<close>, with its payload in parentheses or none.\<close>

definition parse_enum_tail :: "expr_parser \<Rightarrow> string \<Rightarrow> etoken list \<Rightarrow> (raw_expr \<times> etoken list) res" where
  "parse_enum_tail parse enum_type ts =
     res_bind (tk_expect_ident ts) (\<lambda>(variant, ts).
     case tk_consume_symbol ''('' ts of
       (True, ts) \<Rightarrow>
         res_bind (parse False ts) (\<lambda>(v, ts).
         res_bind (tk_expect_symbol '')'' ts) (\<lambda>ts. Inr (EnumConstruct enum_type variant v, ts)))
     | (False, ts) \<Rightarrow> Inr (EnumConstruct enum_type variant UnitE, ts))"

definition field_access_from_path :: "string \<Rightarrow> raw_expr" where
  "field_access_from_path path =
     (case split_on (CHR ''.'') path of
        [] \<Rightarrow> ParamName []
      | first # fs \<Rightarrow> fold (\<lambda>field e. FieldAccess e field) fs (ParamName first))"

definition parse_ident_primary :: "nat \<Rightarrow> expr_parser \<Rightarrow> string \<Rightarrow> etoken list \<Rightarrow> (raw_expr \<times> etoken list) res" where
  "parse_ident_primary rounds parse name ts =
     (case tk_peek ts of (t, peeked) \<Rightarrow>
      if name = ''enum'' \<and> t = TkSymbol ''{'' then
        res_bind (parse_type_source_after_ident rounds (type_source rounds) name peeked) (\<lambda>(enum_type, ts).
        res_bind (tk_expect_symbol ''::'' ts) (\<lambda>ts. parse_enum_tail parse enum_type ts))
      else
        res_bind (finish_path rounds name (if name = ''enum'' then peeked else ts)) (\<lambda>(path, ts).
        case tk_consume_symbol ''::'' ts of
          (True, ts) \<Rightarrow> parse_enum_tail parse path ts
        | (False, ts) \<Rightarrow>
            (case tk_consume_symbol ''('' ts of
               (True, ts) \<Rightarrow> res_bind (parse_call_args rounds parse ts) (\<lambda>(args, ts). Inr (Call path args, ts))
             | (False, ts) \<Rightarrow>
                 if CHR ''.'' \<in> set path then Inr (field_access_from_path path, ts)
                 else Inr (ParamName path, ts))))"

definition parse_primary :: "nat \<Rightarrow> expr_parser \<Rightarrow> etoken list \<Rightarrow> (raw_expr \<times> etoken list) res" where
  "parse_primary rounds parse ts =
     (case tk_next ts of
        (TkNumber v, ts) \<Rightarrow> Inr (LiteralI64 v, ts)
      | (TkString v, ts) \<Rightarrow> Inr (LiteralString v, ts)
      | (TkByteString bytes, ts) \<Rightarrow> Inr (LiteralBytes (bytes_to_hex bytes), ts)
      | (TkIdent name, ts) \<Rightarrow>
          if name = ''true'' then Inr (LiteralBool True, ts)
          else if name = ''false'' then Inr (LiteralBool False, ts)
          else parse_ident_primary rounds parse name ts
      | (TkSymbol s, ts) \<Rightarrow>
          if s = ''('' then
            (case tk_consume_symbol '')'' ts of
               (True, ts) \<Rightarrow> Inr (UnitE, ts)
             | (False, ts) \<Rightarrow>
                 res_bind (parse False ts) (\<lambda>(e, ts).
                 res_bind (tk_expect_symbol '')'' ts) (\<lambda>ts. Inr (e, ts))))
          else if s = ''{'' then parse_record rounds parse ts
          else if s = ''['' then parse_array rounds parse ts
          else Inl (Bail ''unexpected token in expression: {:?}'' [s])
      | (other, _) \<Rightarrow> Inl (Bail ''unexpected token in expression: {:?}'' [etoken_text other]))"

subsection \<open>Operators\<close>

fun postfix_loop :: "nat \<Rightarrow> expr_parser \<Rightarrow> bool \<Rightarrow> raw_expr \<Rightarrow> etoken list \<Rightarrow> (raw_expr \<times> etoken list) res" where
  "postfix_loop 0 parse bar e ts = Inl NO_FUEL"
| "postfix_loop (Suc rounds) parse bar e ts =
     (case tk_consume_symbol ''['' ts of
        (True, ts) \<Rightarrow>
          res_bind (parse bar ts) (\<lambda>(index, ts).
          res_bind (tk_expect_symbol '']'' ts) (\<lambda>ts. postfix_loop rounds parse bar (Index e index) ts))
      | (False, ts) \<Rightarrow>
          (case tk_consume_symbol ''.'' ts of
             (True, ts) \<Rightarrow>
               res_bind (tk_expect_ident ts) (\<lambda>(field, ts). postfix_loop rounds parse bar (FieldAccess e field) ts)
           | (False, ts) \<Rightarrow> Inr (e, ts)))"

definition parse_postfix :: "nat \<Rightarrow> expr_parser \<Rightarrow> expr_parser" where
  "parse_postfix rounds parse bar ts =
     res_bind (parse_primary rounds parse ts) (\<lambda>(e, ts). postfix_loop rounds parse bar e ts)"

fun parse_unary :: "nat \<Rightarrow> expr_parser \<Rightarrow> expr_parser" where
  "parse_unary 0 parse bar ts = Inl NO_FUEL"
| "parse_unary (Suc rounds) parse bar ts =
     (case tk_peek ts of (t, peeked) \<Rightarrow>
      if t \<in> {TkSymbol ''-'', TkSymbol ''!'', TkSymbol ''~''} then
        res_bind (parse_unary rounds parse bar (tl peeked)) (\<lambda>(e, ts). Inr (Unary (etoken_text t) e, ts))
      else if t = TkSymbol ''&'' then
        res_bind
          (case tk_consume_symbol [CHR 0x27] (tl peeked) of
             (True, ts) \<Rightarrow> res_bind (tk_expect_ident ts) (\<lambda>(region, ts). Inr (Some region, ts))
           | (False, ts) \<Rightarrow> Inr (None, ts)) (\<lambda>(region, ts).
        case tk_consume_ident_value ''mut'' ts of
          (True, ts) \<Rightarrow> res_bind (parse_unary rounds parse bar ts) (\<lambda>(e, ts). Inr (BorrowMut region e, ts))
        | (False, ts) \<Rightarrow> res_bind (parse_unary rounds parse bar ts) (\<lambda>(e, ts). Inr (BorrowShared region e, ts)))
      else parse_postfix (Suc rounds) parse bar peeked)"

text \<open>The operator at the position: two adjacent angles are a shift, a bar may end the expression.\<close>

definition peek_op :: "bool \<Rightarrow> etoken list \<Rightarrow> string option" where
  "peek_op bar ts =
     (case fst (tk_peek ts) of
        TkSymbol s \<Rightarrow>
          if s = ''<'' then Some (if peek_second ts = TkSymbol ''<'' then ''<<'' else ''<'')
          else if s = ''>'' then Some (if peek_second ts = TkSymbol ''>'' then ''>>'' else ''>'')
          else if s = ''|'' \<and> bar then None
          else if is_source_binary_op s then Some s
          else None
      | _ \<Rightarrow> None)"

definition after_op :: "string \<Rightarrow> etoken list \<Rightarrow> etoken list" where
  "after_op op ts = (if op = ''<<'' \<or> op = ''>>'' then snd (tk_next (snd (tk_next ts))) else snd (tk_next ts))"

fun parse_binary_prec :: "nat \<Rightarrow> expr_parser \<Rightarrow> bool \<Rightarrow> nat \<Rightarrow> etoken list \<Rightarrow> (raw_expr \<times> etoken list) res"
  and binary_loop :: "nat \<Rightarrow> expr_parser \<Rightarrow> bool \<Rightarrow> nat \<Rightarrow> raw_expr \<Rightarrow> etoken list \<Rightarrow> (raw_expr \<times> etoken list) res" where
  "parse_binary_prec 0 parse bar min_prec ts = Inl NO_FUEL"
| "parse_binary_prec (Suc rounds) parse bar min_prec ts =
     res_bind (parse_unary (Suc rounds) parse bar ts) (\<lambda>(left, ts). binary_loop rounds parse bar min_prec left ts)"
| "binary_loop 0 parse bar min_prec left ts = Inl NO_FUEL"
| "binary_loop (Suc rounds) parse bar min_prec left ts =
     (case peek_op bar ts of
        None \<Rightarrow> Inr (left, skip_comments ts)
      | Some op \<Rightarrow>
          if binary_precedence op < min_prec then Inr (left, skip_comments ts)
          else
            res_bind (parse_binary_prec rounds parse bar (binary_precedence op + 1) (after_op op ts)) (\<lambda>(right, ts).
              binary_loop rounds parse bar min_prec (Binary op left right) ts))"

subsection \<open>Expressions\<close>

definition parse_assignment :: "nat \<Rightarrow> expr_parser \<Rightarrow> expr_parser" where
  "parse_assignment rounds parse bar ts =
     res_bind (parse_binary_prec rounds parse bar 1 ts) (\<lambda>(target, ts).
     case tk_consume_symbol ''='' ts of
       (True, ts) \<Rightarrow> res_bind (parse bar ts) (\<lambda>(v, ts). Inr (Assign target v, ts))
     | (False, ts) \<Rightarrow> Inr (target, ts))"

definition parse_case :: "nat \<Rightarrow> expr_parser \<Rightarrow> expr_parser" where
  "parse_case rounds parse bar ts =
     (case tk_consume_ident_value ''case'' ts of
        (True, ts) \<Rightarrow>
          res_bind (parse bar ts) (\<lambda>(e, ts).
          res_bind (tk_expect_ident_value ''of'' ts) (\<lambda>ts.
          res_bind (parse_case_arms rounds parse bar ts) (\<lambda>(arms, ts). Inr (CaseE e arms, ts))))
      | (False, ts) \<Rightarrow> parse_assignment rounds parse bar ts)"

definition parse_loop :: "nat \<Rightarrow> expr_parser \<Rightarrow> expr_parser" where
  "parse_loop rounds parse bar ts =
     (case tk_consume_ident_value ''loop'' ts of
        (True, ts) \<Rightarrow>
          res_bind (tk_expect_ident ts) (\<lambda>(acc, ts).
          res_bind (tk_expect_symbol ''='' ts) (\<lambda>ts.
          res_bind (parse bar ts) (\<lambda>(init, ts).
          res_bind (tk_expect_ident_value ''while'' ts) (\<lambda>ts.
          res_bind (parse bar ts) (\<lambda>(cond, ts).
          res_bind (tk_expect_ident_value ''do'' ts) (\<lambda>ts.
          res_bind (parse bar ts) (\<lambda>(body, ts). Inr (LoopE acc init cond body, ts))))))))
      | (False, ts) \<Rightarrow> parse_case rounds parse bar ts)"

definition parse_fold :: "nat \<Rightarrow> expr_parser \<Rightarrow> expr_parser" where
  "parse_fold rounds parse bar ts =
     (case tk_consume_ident_value ''fold'' ts of
        (True, ts) \<Rightarrow>
          res_bind (tk_expect_ident ts) (\<lambda>(item, ts).
          res_bind (tk_expect_ident_value ''in'' ts) (\<lambda>ts.
          res_bind (parse bar ts) (\<lambda>(target, ts).
          res_bind (tk_expect_ident_value ''with'' ts) (\<lambda>ts.
          res_bind (tk_expect_ident ts) (\<lambda>(acc, ts).
          res_bind (tk_expect_symbol ''='' ts) (\<lambda>ts.
          res_bind (parse bar ts) (\<lambda>(init, ts).
          res_bind (tk_expect_ident_value ''do'' ts) (\<lambda>ts.
          res_bind (parse bar ts) (\<lambda>(body, ts). Inr (FoldE item target acc init body, ts))))))))))
      | (False, ts) \<Rightarrow> parse_loop rounds parse bar ts)"

definition parse_if :: "nat \<Rightarrow> expr_parser \<Rightarrow> expr_parser" where
  "parse_if rounds parse bar ts =
     (case tk_consume_ident_value ''if'' ts of
        (True, ts) \<Rightarrow>
          res_bind (parse bar ts) (\<lambda>(cond, ts).
          res_bind (tk_expect_ident_value ''then'' ts) (\<lambda>ts.
          res_bind (parse bar ts) (\<lambda>(then_expr, ts).
          res_bind (tk_expect_ident_value ''else'' ts) (\<lambda>ts.
          res_bind (parse bar ts) (\<lambda>(else_expr, ts). Inr (IfE cond then_expr else_expr, ts))))))
      | (False, ts) \<Rightarrow> parse_fold rounds parse bar ts)"

definition parse_return :: "nat \<Rightarrow> expr_parser \<Rightarrow> expr_parser" where
  "parse_return rounds parse bar ts =
     (case tk_consume_ident_value ''return'' ts of
        (True, ts) \<Rightarrow> res_bind (parse bar ts) (\<lambda>(v, ts). Inr (Return v, ts))
      | (False, ts) \<Rightarrow> parse_if rounds parse bar ts)"

definition parse_let :: "nat \<Rightarrow> expr_parser \<Rightarrow> expr_parser" where
  "parse_let rounds parse bar ts =
     (case tk_consume_ident_value ''let'' ts of
        (True, ts) \<Rightarrow>
          res_bind (tk_expect_ident ts) (\<lambda>(name, ts).
          res_bind (tk_expect_symbol '':'' ts) (\<lambda>ts.
          res_bind (type_source rounds ts) (\<lambda>(ty, ts).
          res_bind (tk_expect_symbol ''='' ts) (\<lambda>ts.
          res_bind (parse bar ts) (\<lambda>(v, ts).
          res_bind (tk_expect_ident_value ''in'' ts) (\<lambda>ts.
          res_bind (parse bar ts) (\<lambda>(body, ts). Inr (LetE name ty v body, ts))))))))
      | (False, ts) \<Rightarrow> parse_return rounds parse bar ts)"

primrec parse_expr :: "nat \<Rightarrow> expr_parser" where
  "parse_expr 0 = (\<lambda>bar ts. Inl NO_FUEL)"
| "parse_expr (Suc fuel) = parse_let (Suc fuel) (parse_expr fuel)"

definition parse_expr_source :: "string \<Rightarrow> raw_expr res" where
  "parse_expr_source source =
     res_bind (lex source) (\<lambda>ts.
     res_bind (parse_expr (Suc (length ts)) False ts) (\<lambda>(e, ts).
     res_bind (tk_expect_eof ts) (\<lambda>_. Inr e)))"

end
