(* ===== verification/ExprFuel.thy ===== *)
theory ExprFuel
  imports ExprParser
begin

text \<open>
  The parser of expressions returns: every method consumes tokens, so one unit of fuel per token
  is enough, and more gives the same result. \<open>same k x y\<close> compares what a step returns under two
  amounts of fuel: the results agree, neither runs out, and fewer than \<open>k\<close> tokens are left. Its
  rules follow the structure of the methods.
\<close>

definition same :: "nat \<Rightarrow> ('a \<times> etoken list) res \<Rightarrow> ('a \<times> etoken list) res \<Rightarrow> bool" where
  "same k x y \<longleftrightarrow> x = y \<and> y \<noteq> Inl NO_FUEL \<and> (\<forall>r ts. y = Inr (r, ts) \<longrightarrow> length ts < k)"

named_theorems same_rules "how the steps of a method keep two runs the same"

lemma same_ret [same_rules]: "length ts < k \<Longrightarrow> same k (Inr (r, ts)) (Inr (r, ts))"
  by (simp add: same_def)

lemma same_bail: "Bail m args \<noteq> NO_FUEL \<Longrightarrow> same k (Inl (Bail m args)) (Inl (Bail m args))"
  by (simp add: same_def)

lemma same_bind:
  assumes "same j x y" and "\<And>r ts. length ts < j \<Longrightarrow> same k (f r ts) (g r ts)"
  shows "same k (res_bind x (\<lambda>(r, ts). f r ts)) (res_bind y (\<lambda>(r, ts). g r ts))"
proof (cases y)
  case (Inr r)
  with assms show ?thesis by (cases r) (auto simp: same_def)
qed (use assms in \<open>simp add: same_def\<close>)

lemma same_weaken: "same j x y \<Longrightarrow> j \<le> k \<Longrightarrow> same k x y"
  by (force simp: same_def)

lemma same_if [same_rules]:
  "(P \<Longrightarrow> same k x y) \<Longrightarrow> (\<not> P \<Longrightarrow> same k x' y') \<Longrightarrow> same k (if P then x else x') (if P then y else y')"
  by simp

lemma same_prod:
  "(\<And>a b. same k (f a b) (g a b)) \<Longrightarrow> same k (case r of (a, b) \<Rightarrow> f a b) (case r of (a, b) \<Rightarrow> g a b)"
  by (cases r) simp

lemma same_pair [same_rules]:
  "(\<And>a b. same k (f a b ts) (g a b ts)) \<Longrightarrow> same k ((case r of (a, b) \<Rightarrow> f a b) ts) ((case r of (a, b) \<Rightarrow> g a b) ts)"
  by (cases r) simp

lemma same_option [same_rules]:
  "same k x y \<Longrightarrow> (\<And>a. same k (f a) (g a)) \<Longrightarrow>
    same k (case r of None \<Rightarrow> x | Some a \<Rightarrow> f a) (case r of None \<Rightarrow> y | Some a \<Rightarrow> g a)"
  by (cases r) simp_all

lemma skip_length: "length (skip_comments ts) \<le> length ts"
  by (simp add: skip_comments_def length_dropWhile_le)

lemma tk_next_length: "tk_next ts = (t, us) \<Longrightarrow> length us \<le> length ts \<and> (t \<noteq> TkEof \<longrightarrow> length us < length ts)"
proof -
  have "first_token us \<noteq> TkEof \<Longrightarrow> length (tl us) < length us" for us by (cases us) auto
  with skip_length [of ts] show "tk_next ts = (t, us) \<Longrightarrow> ?thesis"
    by (fastforce simp: tk_next_def Let_def intro: le_trans less_le_trans split: if_splits)
qed

lemma same_expect:
  "same (length ts) (tk_expect_ident ts) (tk_expect_ident ts)"
  "same (length ts) (tk_expect_number ts) (tk_expect_number ts)"
  by (auto simp: same_def tk_expect_ident_def tk_expect_number_def NO_FUEL_def
      split: prod.splits etoken.splits dest!: tk_next_length)

lemmas same_expects [same_rules] = same_bind [OF same_expect(1)] same_bind [OF same_expect(2)]

lemma same_expect_symbol [same_rules]:
  assumes "\<And>us. length us < length ts \<Longrightarrow> same k (f us) (g us)"
  shows "same k (res_bind (tk_expect_symbol s ts) f) (res_bind (tk_expect_symbol s ts) g)"
    and "same k (res_bind (tk_expect_ident_value s ts) f) (res_bind (tk_expect_ident_value s ts) g)"
proof -
  obtain t us where n: "tk_next ts = (t, us)" by fastforce
  from tk_next_length [OF this] assms show "same k (res_bind (tk_expect_symbol s ts) f) (res_bind (tk_expect_symbol s ts) g)"
    "same k (res_bind (tk_expect_ident_value s ts) f) (res_bind (tk_expect_ident_value s ts) g)"
    by (auto simp: tk_expect_symbol_def tk_expect_ident_value_def n intro!: same_bail) (simp_all add: NO_FUEL_def)
qed

lemma consume_length:
  "tk_consume_symbol s ts = (b, us) \<Longrightarrow> length us \<le> length ts \<and> (b \<longrightarrow> length us < length ts)"
  "tk_consume_ident_value s ts = (b, us) \<Longrightarrow> length us \<le> length ts \<and> (b \<longrightarrow> length us < length ts)"
  "tk_consume_symbol_raw s ts = (b, us) \<Longrightarrow> length us \<le> length ts \<and> (b \<longrightarrow> length us < length ts)"
  using skip_length [of ts]
  by (cases "skip_comments ts"; cases ts; auto simp: tk_consume_symbol_def tk_consume_ident_value_def tk_consume_symbol_raw_def
      tk_peek_def Let_def split: if_splits)+

lemma wildcard_length: "consume_wildcard ts = (b, us) \<Longrightarrow> length us \<le> length ts \<and> (b \<longrightarrow> length us < length ts)"
  by (auto simp: consume_wildcard_def split: prod.splits bool.splits dest!: consume_length)

lemma same_consumes [same_rules]:
  assumes "\<And>us. length us < length ts \<Longrightarrow> same k (f us) (g us)" "\<And>us. length us \<le> length ts \<Longrightarrow> same k (f' us) (g' us)"
  shows "same k (case tk_consume_symbol s ts of (True, us) \<Rightarrow> f us | (False, us) \<Rightarrow> f' us)
      (case tk_consume_symbol s ts of (True, us) \<Rightarrow> g us | (False, us) \<Rightarrow> g' us)"
    and "same k (case tk_consume_ident_value s ts of (True, us) \<Rightarrow> f us | (False, us) \<Rightarrow> f' us)
      (case tk_consume_ident_value s ts of (True, us) \<Rightarrow> g us | (False, us) \<Rightarrow> g' us)"
    and "same k (case tk_consume_symbol_raw s ts of (True, us) \<Rightarrow> f us | (False, us) \<Rightarrow> f' us)
      (case tk_consume_symbol_raw s ts of (True, us) \<Rightarrow> g us | (False, us) \<Rightarrow> g' us)"
    and "same k (case consume_wildcard ts of (True, us) \<Rightarrow> f us | (False, us) \<Rightarrow> f' us)
      (case consume_wildcard ts of (True, us) \<Rightarrow> g us | (False, us) \<Rightarrow> g' us)"
  using assms by (auto dest!: consume_length wildcard_length split: prod.splits bool.splits)

lemma same_flag [same_rules]:
  assumes "\<And>b us. length us \<le> length ts \<Longrightarrow> same k (f b us) (g b us)"
  shows "same k (case tk_consume_symbol s ts of (b, us) \<Rightarrow> f b us) (case tk_consume_symbol s ts of (b, us) \<Rightarrow> g b us)"
    and "same k (case tk_consume_ident_value s ts of (b, us) \<Rightarrow> f b us) (case tk_consume_ident_value s ts of (b, us) \<Rightarrow> g b us)"
  using assms by (auto dest!: consume_length split: prod.splits)

subsection \<open>Type annotations\<close>

lemma finish_path_same:
  "length ts < n \<Longrightarrow> length ts < m \<Longrightarrow> same (Suc (length ts)) (finish_path n v ts) (finish_path m v ts)"
proof (induction n arbitrary: m v ts)
  case (Suc n)
  then obtain m' where m: "m = Suc m'" by (cases m) auto
  have step: "length us < length ts \<Longrightarrow> same (Suc (length ts)) (finish_path n w us) (finish_path m' w us)" for w us
    by (rule same_weaken [OF Suc.IH]) (use Suc.prems m in simp_all)
  show ?case unfolding m finish_path.simps
    by (intro same_rules same_bind [OF step] step) simp_all
qed simp

text \<open>Two calls back into the parser, under different amounts of fuel.\<close>

definition agree_on :: "nat \<Rightarrow> (etoken list \<Rightarrow> ('a \<times> etoken list) res) \<Rightarrow> (etoken list \<Rightarrow> ('a \<times> etoken list) res) \<Rightarrow> bool" where
  "agree_on k p q \<longleftrightarrow> (\<forall>ts. length ts < k \<longrightarrow> same (length ts) (p ts) (q ts))"

lemma agree_onD: "agree_on k p q \<Longrightarrow> length ts < k \<Longrightarrow> same (length ts) (p ts) (q ts)"
  by (simp add: agree_on_def)

lemma agree_mono: "agree_on k p q \<Longrightarrow> j \<le> k \<Longrightarrow> agree_on j p q"
  by (simp add: agree_on_def)

lemma fields_loop_same:
  assumes "agree_on k p q"
  shows "length ts < n \<Longrightarrow> length ts < m \<Longrightarrow> length ts \<le> k \<Longrightarrow>
    same (length ts) (type_fields_loop n p ts) (type_fields_loop m q ts)"
proof (induction n arbitrary: m ts)
  case (Suc n)
  then obtain m' where m: "m = Suc m'" by (cases m) auto
  have step: "length us < length ts \<Longrightarrow> same (length us) (type_fields_loop n p us) (type_fields_loop m' q us)" for us
    by (rule Suc.IH) (use Suc.prems m in simp_all)
  show ?case unfolding m type_fields_loop.simps
    by (intro same_rules same_bind [OF step] same_bind [OF agree_onD [OF assms]]) (use Suc.prems in simp_all)
qed simp

lemma type_args_loop_same:
  assumes "agree_on k p q"
  shows "length ts < n \<Longrightarrow> length ts < m \<Longrightarrow> length ts < k \<Longrightarrow>
    same (length ts) (type_args_loop n p b ts) (type_args_loop m q b ts)"
proof (induction n arbitrary: m b ts)
  case (Suc n)
  then obtain m' where m: "m = Suc m'" by (cases m) auto
  have step: "length us < length ts \<Longrightarrow> same (length us) (type_args_loop n p b us) (type_args_loop m' q b us)" for b us
    by (rule Suc.IH) (use Suc.prems m in simp_all)
  show ?case unfolding m type_args_loop.simps
    by (intro same_rules same_bind [OF step] same_bind [OF agree_onD [OF assms]] same_bind [of "length ts"] same_bail) (use Suc.prems in \<open>simp_all add: NO_FUEL_def\<close>)
qed simp

lemma type_methods_same:
  assumes "agree_on k p q" "length ts \<le> k"
  shows "same (length ts) (single_type_arg p v ts) (single_type_arg q v ts)"
    and "same (length ts) (slice_type_args p v ts) (slice_type_args q v ts)"
    and "same (length ts) (array_type_args p ts) (array_type_args q ts)"
    and "same (length ts) (reference_type p ts) (reference_type q ts)"
  unfolding single_type_arg_def slice_type_args_def array_type_args_def reference_type_def
  by (intro same_rules same_bind [OF agree_onD [OF assms(1)]]; use assms(2) in simp)+

lemma type_fields_same:
  assumes "agree_on k p q" "length ts \<le> k" "length ts \<le> n" "length ts \<le> m"
  shows "same (length ts) (parse_type_fields n p ts) (parse_type_fields m q ts)"
  unfolding parse_type_fields_def
  by (intro same_rules same_bail same_bind [OF fields_loop_same [OF assms(1)]])
    (use assms(2-) in \<open>simp_all add: NO_FUEL_def\<close>)

lemma optional_args_same:
  assumes "agree_on k p q" "length ts \<le> k" "length ts \<le> n" "length ts \<le> m"
  shows "same (Suc (length ts)) (parse_optional_type_source_args n p ts) (parse_optional_type_source_args m q ts)"
  unfolding parse_optional_type_source_args_def
  by (intro same_rules same_bail same_weaken [OF type_args_loop_same [OF assms(1)]])
    (use assms(2-) in \<open>simp_all add: NO_FUEL_def\<close>)

lemma after_ident_same:
  assumes "agree_on k p q" "length ts < k" "length ts < n" "length ts < m"
  shows "same (Suc (length ts)) (parse_type_source_after_ident n p v ts) (parse_type_source_after_ident m q v ts)"
  unfolding parse_type_source_after_ident_def
  by (intro same_rules same_weaken [OF type_methods_same(1) [OF assms(1)]] same_weaken [OF type_methods_same(2) [OF assms(1)]]
      same_weaken [OF type_methods_same(3) [OF assms(1)]] same_bind [OF type_fields_same [OF assms(1)]]
      same_bind [OF finish_path_same] same_bind [OF optional_args_same [OF assms(1)]])
    (use assms(2-) in simp_all)

lemma type_source_same:
  "length ts < n \<Longrightarrow> length ts < m \<Longrightarrow> same (length ts) (type_source n ts) (type_source m ts)"
proof (induction n arbitrary: m ts)
  case (Suc n)
  then obtain m' where m: "m = Suc m'" by (cases m) auto
  have agree_on: "agree_on (length ts) (type_source n) (type_source m')"
    unfolding agree_on_def by (auto intro!: Suc.IH) (use Suc.prems m in simp_all)
  obtain t us where t: "tk_next ts = (t, us)" by fastforce
  have us: "length us < length ts" if "t \<noteq> TkEof" using tk_next_length [OF t] that by simp
  show ?case
  proof (cases t)
    case (TkSymbol v)
    with us have us: "length us < length ts" by simp
    have "same (length ts) (if v = ''&'' then reference_type (type_source n) us
        else if v = ''('' then res_bind (tk_expect_symbol '')'' us) (\<lambda>ts. Inr (''unit'', ts))
        else Inl (Bail ''expected type, got {:?}'' [v]))
      (if v = ''&'' then reference_type (type_source m') us
        else if v = ''('' then res_bind (tk_expect_symbol '')'' us) (\<lambda>ts. Inr (''unit'', ts))
        else Inl (Bail ''expected type, got {:?}'' [v]))"
      by (intro same_rules same_bail same_weaken [OF type_methods_same(4) [OF agree_on]]) (use us in \<open>simp_all add: NO_FUEL_def\<close>)
    then show ?thesis by (simp add: m t TkSymbol)
  next
    case (TkIdent v)
    with us have us: "length us < length ts" by simp
    show ?thesis
      using same_weaken [OF after_ident_same [OF agree_on us, of "Suc n" "Suc m'" v], of "length ts"] us Suc.prems
      by (simp add: m t TkIdent)
  qed (simp_all add: m t same_def NO_FUEL_def)
qed simp

subsection \<open>The arms of a case\<close>

lemma pattern_same:
  "length ts < n \<Longrightarrow> length ts < m \<Longrightarrow> same (length ts) (parse_case_pattern n ts) (parse_case_pattern m ts)"
proof (induction n arbitrary: m ts)
  case (Suc n)
  then obtain m' where m: "m = Suc m'" by (cases m) auto
  have step: "length us < length ts \<Longrightarrow> same (length us) (parse_case_pattern n us) (parse_case_pattern m' us)" for us
    by (rule Suc.IH) (use Suc.prems m in simp_all)
  show ?case unfolding m parse_case_pattern.simps
    by (intro same_rules same_bind [OF step]) (use Suc.prems in simp_all)
qed simp

definition agree_exprs :: "nat \<Rightarrow> expr_parser \<Rightarrow> expr_parser \<Rightarrow> bool" where
  "agree_exprs k p q \<longleftrightarrow> (\<forall>bar. agree_on k (p bar) (q bar))"

lemma agree_exprsD: "agree_exprs k p q \<Longrightarrow> length ts < k \<Longrightarrow> same (length ts) (p bar ts) (q bar ts)"
  by (simp add: agree_exprs_def agree_on_def)

lemma guard_same:
  assumes "agree_exprs k p q" "length ts \<le> k"
  shows "same (Suc (length ts)) (parse_optional_case_guard p bar ts) (parse_optional_case_guard q bar ts)"
  unfolding parse_optional_case_guard_def
  by (intro same_rules same_bind [OF agree_exprsD [OF assms(1)]]) (use assms(2) in simp_all)

lemma literal_same:
  "same (Suc (length ts)) (try_parse_scalar_literal_pattern ts) (try_parse_scalar_literal_pattern ts)"
proof -
  have tail: "length (tl (skip_comments ts)) \<le> length ts" "length (skip_comments ts) \<le> length ts"
    using skip_length [of ts] by simp_all
  have "same (Suc (length ts)) (res_bind (tk_expect_number us) (\<lambda>(v, ts). Inr (f v, ts))) (res_bind (tk_expect_number us) (\<lambda>(v, ts). Inr (f v, ts)))"
    if "length us \<le> length ts" for us :: "etoken list" and f :: "string \<Rightarrow> raw_expr option"
    by (intro same_rules) (use that in simp)
  with tail show ?thesis
    by (auto simp: try_parse_scalar_literal_pattern_def tk_peek_def Let_def less_Suc_eq_le intro!: same_rules split: etoken.splits)
qed

lemma arm_tail_same:
  assumes "agree_exprs k p q" "length ts \<le> k"
  shows "same (length ts) (parse_arm_tail p bar ts) (parse_arm_tail q bar ts)"
  unfolding parse_arm_tail_def
  by (intro same_rules same_bind [OF guard_same [OF assms(1)]] same_bind [OF agree_exprsD [OF assms(1)]]) (use assms(2) in simp_all)

lemma range_arm_same:
  assumes "agree_exprs k p q" "length ts \<le> k"
  shows "same (length ts) (parse_range_arm p bar e ts) (parse_range_arm q bar e ts)"
proof (cases "\<exists>v. e = LiteralI64 v")
  case True
  have step: "same (length ts) (res_bind r (\<lambda>hi. res_bind (parse_arm_tail p bar us) (\<lambda>((guard, body), ts). Inr (f hi guard body, ts))))
      (res_bind r (\<lambda>hi. res_bind (parse_arm_tail q bar us) (\<lambda>((guard, body), ts). Inr (f hi guard body, ts))))"
    if "length us \<le> length ts" and "r \<noteq> Inl NO_FUEL" for r us f
  proof (cases r)
    case (Inr hi)
    then show ?thesis unfolding Inr res_bind_simps
      by (intro same_rules same_bind [OF arm_tail_same [OF assms(1)]]) (use that assms(2) in simp_all)
  qed (use that in \<open>simp add: same_def\<close>)
  from True show ?thesis unfolding parse_range_arm_def
    by (elim exE, simp) (intro same_rules same_bind [OF literal_same] step; auto simp: NO_FUEL_def split: option.splits raw_expr.splits)
next
  case False
  then have "parse_range_arm r bar e ts = Inl (Bail ''range case pattern requires integer bounds'' [])" for r
    by (cases e) (simp_all add: parse_range_arm_def)
  then show ?thesis by (simp add: same_def NO_FUEL_def)
qed

lemma literal_arm_same:
  assumes "agree_exprs k p q" "length ts \<le> k"
  shows "same (length ts) (parse_literal_arm p bar e ts) (parse_literal_arm q bar e ts)"
  unfolding parse_literal_arm_def
  by (intro same_rules same_weaken [OF range_arm_same [OF assms(1)]] same_bind [OF arm_tail_same [OF assms(1)]])
    (use assms(2) in simp_all)

lemma variant_arm_same:
  assumes "agree_exprs k p q" "length ts \<le> k" "length ts \<le> n" "length ts \<le> m"
  shows "same (length ts) (parse_variant_arm n p bar ts) (parse_variant_arm m q bar ts)"
proof -
  have bound: "same (Suc (length us))
      (case tk_consume_symbol ''('' us of
          (True, ts) \<Rightarrow>
            res_bind (parse_case_pattern n ts) (\<lambda>(pattern, ts).
            res_bind (tk_expect_symbol '')'' ts) (\<lambda>ts.
              Inr (case pattern of
                PBinding name \<Rightarrow> ((Some name, None), ts)
              | PWildcard \<Rightarrow> ((None, None), ts)
              | PVariant _ _ \<Rightarrow> ((None, Some pattern), ts))))
        | (False, ts) \<Rightarrow> Inr ((None, None), ts))
      (case tk_consume_symbol ''('' us of
          (True, ts) \<Rightarrow>
            res_bind (parse_case_pattern m ts) (\<lambda>(pattern, ts).
            res_bind (tk_expect_symbol '')'' ts) (\<lambda>ts.
              Inr (case pattern of
                PBinding name \<Rightarrow> ((Some name, None), ts)
              | PWildcard \<Rightarrow> ((None, None), ts)
              | PVariant _ _ \<Rightarrow> ((None, Some pattern), ts))))
        | (False, ts) \<Rightarrow> Inr ((None, None), ts))" if "length us < length ts" for us
    by (intro same_rules same_bind [OF pattern_same])
      (use that assms in \<open>auto simp: same_def NO_FUEL_def split: raw_pattern.splits\<close>)
  show ?thesis unfolding parse_variant_arm_def
    by (intro same_rules same_bind [OF bound] same_bind [OF arm_tail_same [OF assms(1)]]) (use assms(2) in simp_all)
qed

lemma arm_same:
  assumes "agree_exprs k p q" "length ts \<le> k" "length ts \<le> n" "length ts \<le> m"
  shows "same (length ts) (parse_case_arm n p bar ts) (parse_case_arm m q bar ts)"
proof -
  have pick: "same (length us)
      (case l of Some e \<Rightarrow> parse_literal_arm p bar e us | None \<Rightarrow> parse_variant_arm n p bar us)
      (case l of Some e \<Rightarrow> parse_literal_arm q bar e us | None \<Rightarrow> parse_variant_arm m q bar us)"
    if "length us \<le> length ts" for l us
    using literal_arm_same [OF assms(1), of us] variant_arm_same [OF assms(1), of us] that assms(2-)
    by (cases l) simp_all
  show ?thesis unfolding parse_case_arm_def
    by (intro same_rules same_bind [OF arm_tail_same [OF assms(1)]] same_bind [OF literal_same] same_bind [OF pick])
      (use assms(2) in simp_all)
qed

lemma arms_same:
  assumes "agree_exprs k p q"
  shows "length ts < n \<Longrightarrow> length ts < m \<Longrightarrow> length ts \<le> k \<Longrightarrow>
    same (length ts) (parse_case_arms n p bar ts) (parse_case_arms m q bar ts)"
proof (induction n arbitrary: m ts)
  case (Suc n)
  then obtain m' where m: "m = Suc m'" by (cases m) auto
  have step: "length us < length ts \<Longrightarrow> same (length us) (parse_case_arms n p bar us) (parse_case_arms m' q bar us)" for us
    by (rule Suc.IH) (use Suc.prems m in simp_all)
  show ?case unfolding m parse_case_arms.simps
    by (intro same_rules same_bind [OF arm_same [OF assms]] same_bind [OF step] same_bail)
      (use Suc.prems m in \<open>simp_all add: NO_FUEL_def\<close>)
qed simp

subsection \<open>Primary expressions\<close>

lemma elements_same:
  assumes "agree_on k f g"
  shows "length ts < n \<Longrightarrow> length ts < m \<Longrightarrow> length ts < k \<Longrightarrow>
    same (length ts) (elements_loop n f c ts) (elements_loop m g c ts)"
proof (induction n arbitrary: m ts)
  case (Suc n)
  then obtain m' where m: "m = Suc m'" by (cases m) auto
  have step: "length us < length ts \<Longrightarrow> same (length us) (elements_loop n f c us) (elements_loop m' g c us)" for us
    by (rule Suc.IH) (use Suc.prems m in simp_all)
  show ?case unfolding m elements_loop.simps
    by (intro same_rules same_bind [OF agree_onD [OF assms]] same_bind [OF step]) (use Suc.prems in simp_all)
qed simp

lemma agrees_at: "agree_exprs k p q \<Longrightarrow> agree_on k (p bar) (q bar)"
  by (simp add: agree_exprs_def)

lemma record_field_agree:
  assumes "agree_exprs k p q"
  shows "agree_on k (parse_record_field p) (parse_record_field q)"
  unfolding agree_on_def parse_record_field_def
  by (intro allI impI same_rules same_bind [OF agree_exprsD [OF assms]]) simp_all

lemma call_args_same:
  assumes pq: "agree_exprs k p q" and "length ts < k" "length ts < n" "length ts < m"
  shows "same (length ts) (parse_call_args n p ts) (parse_call_args m q ts)"
  unfolding parse_call_args_def
  by (intro same_rules same_weaken [OF elements_same [OF agrees_at [OF pq]]]) (use assms(2-) in simp_all)

lemma record_same:
  assumes pq: "agree_exprs k p q" and "length ts < k" "length ts < n" "length ts < m"
  shows "same (length ts) (parse_record n p ts) (parse_record m q ts)"
  unfolding parse_record_def
  by (intro same_rules same_bail same_bind [OF elements_same [OF agrees_at [OF pq]]]
      same_bind [OF elements_same [OF record_field_agree [OF pq]]] same_bind [OF agree_exprsD [OF pq]]) (use assms(2-) in \<open>simp_all add: NO_FUEL_def\<close>)

lemma array_same:
  assumes pq: "agree_exprs k p q" and "length ts < k" "length ts < n" "length ts < m"
  shows "same (length ts) (parse_array n p ts) (parse_array m q ts)"
proof -
  have fill: "same (length ts)
      (case e of LiteralI64 v \<Rightarrow> res_bind (tk_expect_symbol '']'' us) (\<lambda>ts. Inr (ArrayFill e' v, ts))
        | _ \<Rightarrow> Inl (Bail ''array fill count must be an integer literal'' []))
      (case e of LiteralI64 v \<Rightarrow> res_bind (tk_expect_symbol '']'' us) (\<lambda>ts. Inr (ArrayFill e' v, ts))
        | _ \<Rightarrow> Inl (Bail ''array fill count must be an integer literal'' []))" if "length us < length ts" for e e' us
    using that by (cases e) (auto intro!: same_rules same_bail simp: NO_FUEL_def)
  show ?thesis unfolding parse_array_def
    by (intro same_rules same_bail same_bind [OF elements_same [OF agrees_at [OF pq]]]
      same_bind [OF elements_same [OF record_field_agree [OF pq]]] same_bind [OF agree_exprsD [OF pq]] fill)
    (use assms(2-) in \<open>simp_all add: NO_FUEL_def\<close>)
qed

lemma enum_tail_same:
  assumes pq: "agree_exprs k p q" and "length ts \<le> k"
  shows "same (length ts) (parse_enum_tail p v ts) (parse_enum_tail q v ts)"
  unfolding parse_enum_tail_def
  by (intro same_rules same_bind [OF elements_same [OF agrees_at [OF pq]]]
      same_bind [OF elements_same [OF record_field_agree [OF pq]]] same_bind [OF agree_exprsD [OF pq]]) (use assms(2) in simp_all)

lemma ident_primary_same:
  assumes pq: "agree_exprs k p q" and "length ts < k" "length ts < n" "length ts < m"
  shows "same (Suc (length ts)) (parse_ident_primary n p v ts) (parse_ident_primary m q v ts)"
proof -
  obtain t us where t: "tk_peek ts = (t, us)" by fastforce
  then have us: "length us \<le> length ts" using skip_length [of ts] by (auto simp: tk_peek_def Let_def)
  have types: "agree_on (length ts + 1) (type_source n) (type_source m)"
    unfolding agree_on_def using type_source_same assms(2-) by auto
  show ?thesis unfolding parse_ident_primary_def t split
    by (intro same_rules same_bind [OF after_ident_same [OF types]] same_bind [OF finish_path_same] same_weaken [OF enum_tail_same [OF pq]]
        same_bind [OF call_args_same [OF pq]]) (use assms(2-) us in \<open>simp_all split: if_splits\<close>)
qed

lemma primary_same:
  assumes pq: "agree_exprs k p q" and "length ts \<le> k" "length ts \<le> n" "length ts \<le> m"
  shows "same (length ts) (parse_primary n p ts) (parse_primary m q ts)"
proof -
  obtain t us where t: "tk_next ts = (t, us)" by fastforce
  have us: "t \<noteq> TkEof \<Longrightarrow> length us < length ts" using tk_next_length [OF t] by simp
  have symbol: "same (length ts)
      (if s = ''('' then
            (case tk_consume_symbol '')'' us of
               (True, ts) \<Rightarrow> Inr (UnitE, ts)
             | (False, ts) \<Rightarrow>
                 res_bind (p False ts) (\<lambda>(e, ts).
                 res_bind (tk_expect_symbol '')'' ts) (\<lambda>ts. Inr (e, ts))))
          else if s = ''{'' then parse_record n p us
          else if s = ''['' then parse_array n p us
          else Inl (Bail ''unexpected token in expression: {:?}'' [s]))
      (if s = ''('' then
            (case tk_consume_symbol '')'' us of
               (True, ts) \<Rightarrow> Inr (UnitE, ts)
             | (False, ts) \<Rightarrow>
                 res_bind (q False ts) (\<lambda>(e, ts).
                 res_bind (tk_expect_symbol '')'' ts) (\<lambda>ts. Inr (e, ts))))
          else if s = ''{'' then parse_record m q us
          else if s = ''['' then parse_array m q us
          else Inl (Bail ''unexpected token in expression: {:?}'' [s]))" if "t = TkSymbol s" for s
    by (intro same_rules same_bail same_bind [OF elements_same [OF agrees_at [OF pq]]]
      same_bind [OF elements_same [OF record_field_agree [OF pq]]] same_bind [OF agree_exprsD [OF pq]] same_weaken [OF record_same [OF pq]] same_weaken [OF array_same [OF pq]])
      (use that us assms(2-) in \<open>simp_all add: NO_FUEL_def\<close>)
  have ident: "same (length ts) (parse_ident_primary n p v us) (parse_ident_primary m q v us)" if "t = TkIdent v" for v
    by (rule same_weaken [OF ident_primary_same [OF pq]]) (use that us assms(2-) in simp_all)
  show ?thesis
  proof (cases t)
    case (TkSymbol s)
    with symbol show ?thesis by (simp add: parse_primary_def t)
  next
    case (TkIdent v)
    with ident us show ?thesis by (auto simp: parse_primary_def t intro: same_ret)
  qed (use us in \<open>auto simp: parse_primary_def t intro!: same_ret same_bail\<close>, simp_all add: NO_FUEL_def)
qed

subsection \<open>Operators\<close>

lemma postfix_same:
  assumes pq: "agree_exprs k p q"
  shows "length ts < n \<Longrightarrow> length ts < m \<Longrightarrow> length ts \<le> k \<Longrightarrow>
    same (Suc (length ts)) (postfix_loop n p bar e ts) (postfix_loop m q bar e ts)"
proof (induction n arbitrary: m e ts)
  case (Suc n)
  then obtain m' where m: "m = Suc m'" by (cases m) auto
  have step: "length us < length ts \<Longrightarrow> same (Suc (length ts)) (postfix_loop n p bar e us) (postfix_loop m' q bar e us)" for e us
    by (rule same_weaken [OF Suc.IH]) (use Suc.prems m in simp_all)
  show ?case unfolding m postfix_loop.simps
    by (intro same_rules same_bind [OF agree_exprsD [OF pq]] step) (use Suc.prems in simp_all)
qed simp

lemma parse_postfix_same:
  assumes pq: "agree_exprs k p q" and "length ts \<le> k" "length ts \<le> n" "length ts \<le> m"
  shows "same (length ts) (parse_postfix n p bar ts) (parse_postfix m q bar ts)"
  unfolding parse_postfix_def
  by (intro same_bind [OF primary_same [OF pq]] same_weaken [OF postfix_same [OF pq]]) (use assms(2-) in simp_all)

lemma unary_same:
  assumes pq: "agree_exprs k p q"
  shows "length ts < n \<Longrightarrow> length ts < m \<Longrightarrow> length ts \<le> k \<Longrightarrow> same (length ts) (parse_unary n p bar ts) (parse_unary m q bar ts)"
proof (induction n arbitrary: m ts)
  case (Suc n)
  then obtain m' where m: "m = Suc m'" by (cases m) auto
  obtain t us where t: "tk_peek ts = (t, us)" by fastforce
  have us: "length us \<le> length ts" using t skip_length [of ts] by (auto simp: tk_peek_def Let_def)
  have tl: "length (tl us) < length ts" if "t = TkSymbol s" for s
  proof -
    have "us = skip_comments ts" "first_token us = TkSymbol s" using t that by (auto simp: tk_peek_def Let_def)
    then have "us \<noteq> []" by auto
    then show ?thesis using us by (cases us) simp_all
  qed
  have step: "length us < length ts \<Longrightarrow> same (length us) (parse_unary n p bar us) (parse_unary m' q bar us)" for us
    by (rule Suc.IH) (use Suc.prems m in simp_all)
  have region: "same (Suc (length vs))
      (case tk_consume_symbol [CHR 0x27] vs of
         (True, ts) \<Rightarrow> res_bind (tk_expect_ident ts) (\<lambda>(region, ts). Inr (Some region, ts))
       | (False, ts) \<Rightarrow> Inr (None, ts))
      (case tk_consume_symbol [CHR 0x27] vs of
         (True, ts) \<Rightarrow> res_bind (tk_expect_ident ts) (\<lambda>(region, ts). Inr (Some region, ts))
       | (False, ts) \<Rightarrow> Inr (None, ts))" for vs
    by (intro same_rules) simp_all
  show ?case unfolding m parse_unary.simps t split
    by (intro same_rules same_bind [OF step] same_bind [OF region] same_weaken [OF parse_postfix_same [OF pq]])
      (use us tl Suc.prems m in auto)
qed simp

lemma peek_op_after:
  assumes "peek_op bar ts = Some op"
  shows "length (after_op op ts) < length ts"
proof -
  obtain t us where t: "tk_next ts = (t, us)" by fastforce
  obtain t' vs where t': "tk_next us = (t', vs)" by fastforce
  have "t \<noteq> TkEof" using assms t by (auto simp: peek_op_def tk_peek_def tk_next_def Let_def split: etoken.splits)
  with tk_next_length [OF t] tk_next_length [OF t'] show ?thesis by (auto simp: after_op_def t t')
qed

lemma binary_same:
  assumes pq: "agree_exprs k p q"
  shows "length ts < n \<Longrightarrow> length ts < m \<Longrightarrow> length ts \<le> k \<Longrightarrow>
      same (length ts) (parse_binary_prec n p bar prec ts) (parse_binary_prec m q bar prec ts)"
    and "length ts < n \<Longrightarrow> length ts < m \<Longrightarrow> length ts \<le> k \<Longrightarrow>
      same (Suc (length ts)) (binary_loop n p bar prec e ts) (binary_loop m q bar prec e ts)"
proof (induction n arbitrary: m ts prec e)
  case (Suc n)
  {
    case 1
    then obtain m' where m: "m = Suc m'" by (cases m) auto
    have step: "length us < length ts \<Longrightarrow> same (length ts) (binary_loop n p bar prec e us) (binary_loop m' q bar prec e us)" for us e
      by (rule same_weaken [OF Suc.IH(2)]) (use 1 m in simp_all)
    show ?case unfolding m parse_binary_prec.simps
      by (intro same_bind [OF unary_same [OF pq]] step) (use 1 m in simp_all)
  next
    case 2
    then obtain m' where m: "m = Suc m'" by (cases m) auto
    have step: "length us < length ts \<Longrightarrow> same (Suc (length ts)) (binary_loop n p bar prec e us) (binary_loop m' q bar prec e us)" for us e
      by (rule same_weaken [OF Suc.IH(2)]) (use 2 m in simp_all)
    have skip: "length (skip_comments ts) < Suc (length ts)" using skip_length [of ts] by simp
    show ?case
    proof (cases "peek_op bar ts")
      case (Some op)
      from peek_op_after [OF this] have after: "length (after_op op ts) < length ts" .
      have right: "same (length ts) (parse_binary_prec n p bar prec' (after_op op ts)) (parse_binary_prec m' q bar prec' (after_op op ts))" for prec'
        by (rule same_weaken [OF Suc.IH(1)]) (use 2 m after in simp_all)
      show ?thesis unfolding m binary_loop.simps Some option.case
        by (intro same_rules same_bind [OF right] step) (use skip in simp_all)
    qed (simp add: m same_ret skip)
  }
qed simp_all

subsection \<open>Expressions\<close>

lemma assignment_same:
  assumes pq: "agree_exprs k p q" and "length ts \<le> k" "length ts < n" "length ts < m"
  shows "same (length ts) (parse_assignment n p bar ts) (parse_assignment m q bar ts)"
  unfolding parse_assignment_def
  by (intro same_rules same_bind [OF agree_exprsD [OF pq]] same_bind [OF binary_same(1) [OF pq]]) (use assms(2-) in simp_all)

lemma case_same:
  assumes pq: "agree_exprs k p q" and "length ts \<le> k" "length ts < n" "length ts < m"
  shows "same (length ts) (parse_case n p bar ts) (parse_case m q bar ts)"
  unfolding parse_case_def
  by (intro same_rules same_bind [OF agree_exprsD [OF pq]] same_bind [OF arms_same [OF pq]] same_weaken [OF assignment_same [OF pq]]) (use assms(2-) in simp_all)

lemma loop_same:
  assumes pq: "agree_exprs k p q" and "length ts \<le> k" "length ts < n" "length ts < m"
  shows "same (length ts) (parse_loop n p bar ts) (parse_loop m q bar ts)"
  unfolding parse_loop_def
  by (intro same_rules same_bind [OF agree_exprsD [OF pq]] same_weaken [OF case_same [OF pq]]) (use assms(2-) in simp_all)

lemma fold_same:
  assumes pq: "agree_exprs k p q" and "length ts \<le> k" "length ts < n" "length ts < m"
  shows "same (length ts) (parse_fold n p bar ts) (parse_fold m q bar ts)"
  unfolding parse_fold_def
  by (intro same_rules same_bind [OF agree_exprsD [OF pq]] same_weaken [OF loop_same [OF pq]]) (use assms(2-) in simp_all)

lemma if_same:
  assumes pq: "agree_exprs k p q" and "length ts \<le> k" "length ts < n" "length ts < m"
  shows "same (length ts) (parse_if n p bar ts) (parse_if m q bar ts)"
  unfolding parse_if_def
  by (intro same_rules same_bind [OF agree_exprsD [OF pq]] same_weaken [OF fold_same [OF pq]]) (use assms(2-) in simp_all)

lemma return_same:
  assumes pq: "agree_exprs k p q" and "length ts \<le> k" "length ts < n" "length ts < m"
  shows "same (length ts) (parse_return n p bar ts) (parse_return m q bar ts)"
  unfolding parse_return_def
  by (intro same_rules same_bind [OF agree_exprsD [OF pq]] same_weaken [OF if_same [OF pq]]) (use assms(2-) in simp_all)

lemma let_same:
  assumes pq: "agree_exprs k p q" and "length ts \<le> k" "length ts < n" "length ts < m"
  shows "same (length ts) (parse_let n p bar ts) (parse_let m q bar ts)"
  unfolding parse_let_def
  by (intro same_rules same_bind [OF agree_exprsD [OF pq]] same_bind [OF type_source_same] same_weaken [OF return_same [OF pq]]) (use assms(2-) in simp_all)

lemma expr_same: "length ts < n \<Longrightarrow> length ts < m \<Longrightarrow> same (length ts) (parse_expr n bar ts) (parse_expr m bar ts)"
proof (induction n arbitrary: m bar ts)
  case (Suc n)
  then obtain m' where m: "m = Suc m'" by (cases m) auto
  have "agree_exprs (length ts) (parse_expr n) (parse_expr m')"
    unfolding agree_exprs_def agree_on_def by (auto intro!: Suc.IH) (use Suc.prems m in simp_all)
  from let_same [OF this] show ?case unfolding m parse_expr.simps
    using Suc.prems m by simp
qed simp

text \<open>C40. The expression parser returns on every list of tokens: with one unit of fuel per token it never
  runs out, any more fuel gives the same result, and an expression it reads takes at least one token, so
  no loop of the parser (arms, arguments, postfix and binary operators) can run forever.\<close>

theorem expr_parser_returns:
  "length ts < n \<Longrightarrow> parse_expr n bar ts \<noteq> Inl NO_FUEL \<and> parse_expr n bar ts = parse_expr (Suc (length ts)) bar ts
    \<and> (\<forall>e rest. parse_expr n bar ts = Inr (e, rest) \<longrightarrow> length rest < length ts)"
  using expr_same [of ts n n bar] expr_same [of ts n "Suc (length ts)" bar] by (auto simp: same_def)

theorem expr_parser_returns_witness:
  "parse_expr 9 False [TkIdent ''return'', TkSymbol ''-'', TkNumber ''1'', TkEof]
    = Inr (Return (Unary ''-'' (LiteralI64 ''1'')), [TkEof])"
proof -
  let ?ts = "[TkIdent ''return'', TkSymbol ''-'', TkNumber ''1'', TkEof]"
  have "parse_expr 9 False ?ts = parse_expr (Suc (length ?ts)) False ?ts"
    by (rule expr_parser_returns [THEN conjunct2, THEN conjunct1]) simp
  also have "\<dots> = Inr (Return (Unary ''-'' (LiteralI64 ''1'')), [TkEof])" by code_simp
  finally show ?thesis .
qed

end
