(* ===== verification/ExprGrammar.thy ===== *)
theory ExprGrammar
  imports ExprFuel
begin

text \<open>
  The grammar the expression parser is meant to read; \<open>ExprComplete\<close> shows that it does. The levels are
  those of the parser: expressions, binary operators by precedence, unary and postfix operators,
  primaries. Every level has the flag \<open>bar\<close> that an arm body sets, and an expression has a flag
  for whether it ends in a case that is open, after which a bar would start another arm.
\<close>

subsection \<open>Types\<close>

fun path_toks :: "string list \<Rightarrow> etoken list" where
  "path_toks [] = []"
| "path_toks [s] = [TkIdent s]"
| "path_toks (s # t # ss) = TkIdent s # TkSymbol ''.'' # path_toks (t # ss)"

definition TYPE_WORDS :: "string set" where
  "TYPE_WORDS = {''bool'', ''Bool'', ''unit'', ''Unit'', ''string'', ''String'', ''record'', ''enum'', ''raw_ptr'',
     ''raw_mut_ptr'', ''box'', ''vec'', ''slice'', ''mut_slice'', ''array''}"

inductive src_type :: "string \<Rightarrow> etoken list \<Rightarrow> bool"
  and src_type_fields :: "string list \<Rightarrow> etoken list \<Rightarrow> bool"
  and src_type_args :: "bool \<Rightarrow> string list \<Rightarrow> etoken list \<Rightarrow> bool" where
  type_scalar: "scalar_int_name_for_source v = Some s \<Longrightarrow> src_type (to_ascii_lowercase s) [TkIdent v]"
| type_bool: "v \<in> {''bool'', ''Bool''} \<Longrightarrow> src_type ''bool'' [TkIdent v]"
| type_unit: "v \<in> {''unit'', ''Unit''} \<Longrightarrow> src_type ''unit'' [TkIdent v]"
| type_string: "v \<in> {''string'', ''String''} \<Longrightarrow> src_type ''string'' [TkIdent v]"
| type_parens: "src_type ''unit'' [TkSymbol ''('', TkSymbol '')'']"
| type_ref: "src_type ty ts \<Longrightarrow> hd ts \<noteq> TkIdent ''mut'' \<Longrightarrow>
    src_type (CHR ''&'' # CHR 0x27 # r @ '' '' @ ty) (TkSymbol ''&'' # TkSymbol [CHR 0x27] # TkIdent r # ts)"
| type_ref_mut: "src_type ty ts \<Longrightarrow>
    src_type (CHR ''&'' # CHR 0x27 # r @ '' mut '' @ ty) (TkSymbol ''&'' # TkSymbol [CHR 0x27] # TkIdent r # TkIdent ''mut'' # ts)"
| type_members: "v \<in> {''record'', ''enum''} \<Longrightarrow> src_type_fields fs ts \<Longrightarrow>
    src_type (v @ '' {'' @ join_with '', '' (sort fs) @ ''}'') (TkIdent v # TkSymbol ''{'' # ts @ [TkSymbol ''}''])"
| type_single: "v \<in> {''raw_ptr'', ''raw_mut_ptr'', ''box'', ''vec''} \<Longrightarrow> src_type ty ts \<Longrightarrow>
    src_type (v @ ''<'' @ ty @ ''>'') (TkIdent v # TkSymbol ''<'' # ts @ [TkSymbol ''>''])"
| type_slice: "v \<in> {''slice'', ''mut_slice''} \<Longrightarrow> src_type ty ts \<Longrightarrow>
    src_type (v @ ''<'' @ CHR 0x27 # r @ '', '' @ ty @ ''>'')
      (TkIdent v # TkSymbol ''<'' # TkSymbol [CHR 0x27] # TkIdent r # TkSymbol '','' # ts @ [TkSymbol ''>''])"
| type_array: "src_type ty ts \<Longrightarrow>
    src_type (''array<'' @ ty @ '', '' @ n @ ''>'')
      (TkIdent ''array'' # TkSymbol ''<'' # ts @ [TkSymbol '','', TkNumber n, TkSymbol ''>''])"
| type_named: "scalar_int_name_for_source v = None \<Longrightarrow> v \<notin> TYPE_WORDS \<Longrightarrow>
    src_type (join_with ''.'' (v # vs)) (path_toks (v # vs))"
| type_applied: "scalar_int_name_for_source v = None \<Longrightarrow> v \<notin> TYPE_WORDS \<Longrightarrow> src_type_args False args ts \<Longrightarrow>
    src_type (join_with ''.'' (v # vs) @ ''<'' @ join_with '', '' args @ ''>'')
      (path_toks (v # vs) @ TkSymbol ''<'' # ts @ [TkSymbol ''>''])"
| field_last: "src_type ty ts \<Longrightarrow> src_type_fields [name @ '': '' @ ty] (TkIdent name # TkSymbol '':'' # ts)"
| field_more: "src_type ty ts \<Longrightarrow> src_type_fields fs us \<Longrightarrow>
    src_type_fields ((name @ '': '' @ ty) # fs) (TkIdent name # TkSymbol '':'' # ts @ TkSymbol '','' # us)"
| arg_region_last: "src_type_args False [CHR 0x27 # r] [TkSymbol [CHR 0x27], TkIdent r]"
| arg_region: "src_type_args False args us \<Longrightarrow>
    src_type_args False ((CHR 0x27 # r) # args) (TkSymbol [CHR 0x27] # TkIdent r # TkSymbol '','' # us)"
| arg_type_last: "src_type ty ts \<Longrightarrow> src_type_args seen [ty] ts"
| arg_type: "src_type ty ts \<Longrightarrow> src_type_args True args us \<Longrightarrow> src_type_args seen (ty # args) (ts @ TkSymbol '','' # us)"

subsection \<open>Expressions\<close>

definition LEADING_WORDS :: "string set" where
  "LEADING_WORDS = {''let'', ''return'', ''if'', ''fold'', ''loop'', ''case''}"

definition op_toks :: "string \<Rightarrow> etoken list" where
  "op_toks op = (if op = ''<<'' then [TkSymbol ''<'', TkSymbol ''<'']
     else if op = ''>>'' then [TkSymbol ''>'', TkSymbol ''>''] else [TkSymbol op])"

fun borrow_region :: "string option \<Rightarrow> etoken list" where
  "borrow_region None = []"
| "borrow_region (Some r) = [TkSymbol [CHR 0x27], TkIdent r]"

fun pattern_toks :: "raw_pattern \<Rightarrow> etoken list" where
  "pattern_toks PWildcard = [TkIdent ''_'']"
| "pattern_toks (PBinding x) = [TkIdent x]"
| "pattern_toks (PVariant v p) = TkIdent v # TkSymbol ''('' # pattern_toks p @ [TkSymbol '')'']"

fun pattern_ok :: "raw_pattern \<Rightarrow> bool" where
  "pattern_ok PWildcard \<longleftrightarrow> True"
| "pattern_ok (PBinding x) \<longleftrightarrow> x \<noteq> ''_''"
| "pattern_ok (PVariant v p) \<longleftrightarrow> v \<noteq> ''_'' \<and> pattern_ok p"

text \<open>A scalar literal of an arm.\<close>

inductive src_literal :: "raw_expr \<Rightarrow> etoken list \<Rightarrow> bool" where
  lit_number: "src_literal (LiteralI64 v) [TkNumber v]"
| lit_negative: "src_literal (LiteralI64 (CHR ''-'' # v)) [TkSymbol ''-'', TkNumber v]"
| lit_bool: "src_literal (LiteralBool b) [TkIdent (if b then ''true'' else ''false'')]"

text \<open>What an arm matches, before its guard: the arm with its guard and body left open.\<close>

inductive src_match :: "bool \<Rightarrow> (raw_expr option \<Rightarrow> raw_expr \<Rightarrow> raw_case_arm) \<Rightarrow> etoken list \<Rightarrow> bool" where
  match_default: "v \<in> {''else'', ''default'', ''_''} \<Longrightarrow>
    src_match True (\<lambda>guard body. RawCaseArm None None None True None guard None body) [TkIdent v]"
| match_literal: "src_literal e ts \<Longrightarrow>
    src_match False (\<lambda>guard body. RawCaseArm None (Some e) None False None guard None body) ts"
| match_range: "src_literal (LiteralI64 lo) ts \<Longrightarrow> src_literal (LiteralI64 hi) us \<Longrightarrow>
    src_match False (\<lambda>guard body. RawCaseArm None None
        (Some (RawCaseRange (LiteralI64 lo) (LiteralI64 hi) inclusive)) False None guard None body)
      (ts @ TkSymbol ''..'' # (if inclusive then [TkSymbol ''=''] else []) @ us)"
| match_variant: "v \<notin> {''else'', ''default'', ''_'', ''true'', ''false''} \<Longrightarrow>
    src_match False (\<lambda>guard body. RawCaseArm (Some v) None None False None guard None body) [TkIdent v]"
| match_payload: "v \<notin> {''else'', ''default'', ''_'', ''true'', ''false''} \<Longrightarrow> pattern_ok p \<Longrightarrow>
    src_match False (\<lambda>guard body. RawCaseArm (Some v) None None False
        (case p of PBinding x \<Rightarrow> Some x | _ \<Rightarrow> None) guard (case p of PVariant _ _ \<Rightarrow> Some p | _ \<Rightarrow> None) body)
      (TkIdent v # TkSymbol ''('' # pattern_toks p @ [TkSymbol '')''])"

inductive src_primary :: "raw_expr \<Rightarrow> etoken list \<Rightarrow> bool"
  and src_list :: "raw_expr list \<Rightarrow> etoken list \<Rightarrow> bool"
  and src_fields :: "raw_record_field list \<Rightarrow> etoken list \<Rightarrow> bool"
  and src_payload :: "raw_expr \<Rightarrow> etoken list \<Rightarrow> bool"
  and src_postfix :: "bool \<Rightarrow> raw_expr \<Rightarrow> etoken list \<Rightarrow> bool"
  and src_unary :: "bool \<Rightarrow> raw_expr \<Rightarrow> etoken list \<Rightarrow> bool"
  and src_binary :: "bool \<Rightarrow> nat \<Rightarrow> raw_expr \<Rightarrow> etoken list \<Rightarrow> bool"
  and src_tail :: "bool \<Rightarrow> bool \<Rightarrow> raw_expr option \<Rightarrow> raw_expr \<Rightarrow> etoken list \<Rightarrow> bool"
  and src_arms :: "bool \<Rightarrow> raw_case_arm list \<Rightarrow> etoken list \<Rightarrow> bool"
  and src_expr :: "bool \<Rightarrow> bool \<Rightarrow> raw_expr \<Rightarrow> etoken list \<Rightarrow> bool" where
  primary_number: "src_primary (LiteralI64 v) [TkNumber v]"
| primary_string: "src_primary (LiteralString v) [TkString v]"
| primary_bytes: "src_primary (LiteralBytes (bytes_to_hex b)) [TkByteString b]"
| primary_bool: "src_primary (LiteralBool b) [TkIdent (if b then ''true'' else ''false'')]"
| primary_unit: "src_primary UnitE [TkSymbol ''('', TkSymbol '')'']"
| primary_parens: "src_expr False d e ts \<Longrightarrow> src_primary e (TkSymbol ''('' # ts @ [TkSymbol '')''])"
| primary_path: "v \<notin> {''true'', ''false''} \<Longrightarrow> list_all (\<lambda>s. CHR ''.'' \<notin> set s) (v # vs) \<Longrightarrow>
    src_primary (fold (\<lambda>field e. FieldAccess e field) vs (ParamName v)) (path_toks (v # vs))"
| primary_call_none: "v \<notin> {''true'', ''false''} \<Longrightarrow>
    src_primary (Call (join_with ''.'' (v # vs)) []) (path_toks (v # vs) @ [TkSymbol ''('', TkSymbol '')''])"
| primary_call: "v \<notin> {''true'', ''false''} \<Longrightarrow> src_list es ts \<Longrightarrow>
    src_primary (Call (join_with ''.'' (v # vs)) es) (path_toks (v # vs) @ TkSymbol ''('' # ts @ [TkSymbol '')''])"
| primary_enum: "v \<notin> {''true'', ''false''} \<Longrightarrow> src_payload e ts \<Longrightarrow>
    src_primary (EnumConstruct (join_with ''.'' (v # vs)) w e) (path_toks (v # vs) @ TkSymbol ''::'' # TkIdent w # ts)"
| primary_enum_type: "src_type_fields fs us \<Longrightarrow> src_payload e ts \<Longrightarrow>
    src_primary (EnumConstruct (''enum {'' @ join_with '', '' (sort fs) @ ''}'') w e)
      (TkIdent ''enum'' # TkSymbol ''{'' # us @ TkSymbol ''}'' # TkSymbol ''::'' # TkIdent w # ts)"
| primary_record: "src_fields fs ts \<Longrightarrow> src_primary (RecordE fs) (TkSymbol ''{'' # ts @ [TkSymbol ''}''])"
| primary_array: "src_list es ts \<Longrightarrow> src_primary (ArrayE es) (TkSymbol ''['' # ts @ [TkSymbol '']''])"
| primary_fill: "src_expr False d e ts \<Longrightarrow> src_expr False d' (LiteralI64 n) us \<Longrightarrow>
    src_primary (ArrayFill e n) (TkSymbol ''['' # ts @ TkSymbol '';'' # us @ [TkSymbol '']''])"
| payload_none: "src_payload UnitE []"
| payload_some: "src_expr False d e ts \<Longrightarrow> src_payload e (TkSymbol ''('' # ts @ [TkSymbol '')''])"
| list_last: "src_expr False d e ts \<Longrightarrow> src_list [e] ts"
| list_more: "src_expr False d e ts \<Longrightarrow> src_list es us \<Longrightarrow> src_list (e # es) (ts @ TkSymbol '','' # us)"
| fields_last: "src_expr False d e ts \<Longrightarrow> src_fields [RawRecordField name e] (TkIdent name # TkSymbol '':'' # ts)"
| fields_more: "src_expr False d e ts \<Longrightarrow> src_fields fs us \<Longrightarrow>
    src_fields (RawRecordField name e # fs) (TkIdent name # TkSymbol '':'' # ts @ TkSymbol '','' # us)"
| postfix_primary: "src_primary e ts \<Longrightarrow> src_postfix bar e ts"
| postfix_index: "src_postfix bar e ts \<Longrightarrow> src_expr bar d i us \<Longrightarrow>
    src_postfix bar (Index e i) (ts @ TkSymbol ''['' # us @ [TkSymbol '']''])"
| postfix_field: "src_postfix bar e ts \<Longrightarrow> \<not> (\<exists>v vs. ts = path_toks (v # vs) \<and> v \<notin> {''true'', ''false''}) \<Longrightarrow>
    src_postfix bar (FieldAccess e f) (ts @ [TkSymbol ''.'', TkIdent f])"
| unary_postfix: "src_postfix bar e ts \<Longrightarrow> src_unary bar e ts"
| unary_op: "src_unary bar e ts \<Longrightarrow> op \<in> {''-'', ''!'', ''~''} \<Longrightarrow> src_unary bar (Unary op e) (TkSymbol op # ts)"
| unary_borrow: "src_unary bar e ts \<Longrightarrow> hd ts \<noteq> TkIdent ''mut'' \<Longrightarrow>
    src_unary bar (BorrowShared r e) (TkSymbol ''&'' # borrow_region r @ ts)"
| unary_borrow_mut: "src_unary bar e ts \<Longrightarrow>
    src_unary bar (BorrowMut r e) (TkSymbol ''&'' # borrow_region r @ TkIdent ''mut'' # ts)"
| binary_unary: "src_unary bar e ts \<Longrightarrow> src_binary bar p e ts"
| binary_op: "src_binary bar (binary_precedence op) l ts \<Longrightarrow> src_binary bar (binary_precedence op + 1) r us \<Longrightarrow>
    is_source_binary_op op \<Longrightarrow> p \<le> binary_precedence op \<Longrightarrow> \<not> (op = ''|'' \<and> bar) \<Longrightarrow>
    src_binary bar p (Binary op l r) (ts @ op_toks op @ us)"
| tail_body: "src_expr True d e ts \<Longrightarrow> src_tail bar d None e (TkSymbol ''=>'' # ts)"
| tail_guard: "src_expr bar d' g us \<Longrightarrow> src_expr True d e ts \<Longrightarrow>
    src_tail bar d (Some g) e (TkIdent ''if'' # us @ TkSymbol ''=>'' # ts)"
| arms_last: "src_match c arm ts \<Longrightarrow> src_tail bar d g e us \<Longrightarrow> src_arms bar [arm g e] (ts @ us)"
| arms_more: "src_match c arm ts \<Longrightarrow> src_tail bar False g e us \<Longrightarrow> \<not> (c \<and> g = None) \<Longrightarrow> src_arms bar as vs \<Longrightarrow>
    src_arms bar (arm g e # as) (ts @ us @ TkSymbol ''|'' # vs)"
| expr_let: "src_type ty tts \<Longrightarrow> src_expr bar d' v us \<Longrightarrow> src_expr bar d e ts \<Longrightarrow>
    src_expr bar d (LetE x ty v e)
      (TkIdent ''let'' # TkIdent x # TkSymbol '':'' # tts @ TkSymbol ''='' # us @ TkIdent ''in'' # ts)"
| expr_return: "src_expr bar d e ts \<Longrightarrow> src_expr bar d (Return e) (TkIdent ''return'' # ts)"
| expr_if: "src_expr bar d1 c us \<Longrightarrow> src_expr bar d2 t vs \<Longrightarrow> src_expr bar d e ts \<Longrightarrow>
    src_expr bar d (IfE c t e) (TkIdent ''if'' # us @ TkIdent ''then'' # vs @ TkIdent ''else'' # ts)"
| expr_fold: "src_expr bar d1 t us \<Longrightarrow> src_expr bar d2 i vs \<Longrightarrow> src_expr bar d e ts \<Longrightarrow>
    src_expr bar d (FoldE x t a i e) (TkIdent ''fold'' # TkIdent x # TkIdent ''in'' # us @
      TkIdent ''with'' # TkIdent a # TkSymbol ''='' # vs @ TkIdent ''do'' # ts)"
| expr_loop: "src_expr bar d1 i us \<Longrightarrow> src_expr bar d2 c vs \<Longrightarrow> src_expr bar d e ts \<Longrightarrow>
    src_expr bar d (LoopE a i c e) (TkIdent ''loop'' # TkIdent a # TkSymbol ''='' # us @
      TkIdent ''while'' # vs @ TkIdent ''do'' # ts)"
| expr_case: "src_expr bar d' e us \<Longrightarrow> src_arms bar as ts \<Longrightarrow>
    src_expr bar True (CaseE e as) (TkIdent ''case'' # us @ TkIdent ''of'' # ts)"
| expr_assign: "src_binary bar 1 t ts \<Longrightarrow> hd ts \<notin> TkIdent ` LEADING_WORDS \<Longrightarrow> src_expr bar d e us \<Longrightarrow>
    src_expr bar d (Assign t e) (ts @ TkSymbol ''='' # us)"
| expr_binary: "src_binary bar 1 e ts \<Longrightarrow> hd ts \<notin> TkIdent ` LEADING_WORDS \<Longrightarrow> src_expr bar False e ts"

end
