(* ===== verification/ExprReads.thy ===== *)
theory ExprReads
  imports ExprGrammar
begin

text \<open>
  The parser reads what the grammar derives. A level of the grammar is \<open>read\<close> by its method when,
  in front of any tokens that do not continue it, the method returns the tree and those tokens.
  Each rule of the grammar keeps this, and induction over the derivation puts the rules together.
\<close>

subsection \<open>Tokens in front\<close>

named_theorems token_simps "token access on a list whose first token is known"

lemma skip_front [token_simps]: "\<not> is_comment (first_token ts) \<Longrightarrow> skip_comments ts = ts"
  by (cases ts) (simp_all add: skip_comments_def)

lemma consume_front [token_simps]:
  assumes "\<not> is_comment (first_token ts)"
  shows "tk_consume_symbol s ts = (if first_token ts = TkSymbol s then (True, tl ts) else (False, ts))"
    and "tk_consume_ident_value s ts = (if first_token ts = TkIdent s then (True, tl ts) else (False, ts))"
    and "tk_peek ts = (first_token ts, ts)"
    and "tk_next ts = (first_token ts, if first_token ts = TkEof then ts else tl ts)"
  using assms by (simp_all add: tk_consume_symbol_def tk_consume_ident_value_def tk_peek_def tk_next_def skip_front)

lemma expect_front [token_simps]:
  "tk_expect_ident (TkIdent v # ts) = Inr (v, ts)" "tk_expect_number (TkNumber v # ts) = Inr (v, ts)"
  "tk_expect_symbol s (TkSymbol s # ts) = Inr ts" "tk_expect_ident_value v (TkIdent v # ts) = Inr ts"
  by (simp_all add: tk_expect_ident_def tk_expect_number_def tk_expect_symbol_def tk_expect_ident_value_def token_simps)

lemma raw_front [token_simps]:
  "tk_consume_symbol_raw s ts = (if first_token ts = TkSymbol s then (True, tl ts) else (False, ts))"
  by (simp add: tk_consume_symbol_raw_def)

lemma first_append [simp]: "ts \<noteq> [] \<Longrightarrow> first_token (ts @ us) = first_token ts" "ts \<noteq> [] \<Longrightarrow> tl (ts @ us) = tl ts @ us"
  by (cases ts; simp)+

lemma path_first [simp]: "first_token (path_toks (v # vs)) = TkIdent v" "path_toks (v # vs) \<noteq> []"
  by (cases vs; simp)+

lemma path_tl: "tl (path_toks (v # vs)) = concat (map (\<lambda>s. [TkSymbol ''.'', TkIdent s]) vs)"
proof (induction vs arbitrary: v)
  case (Cons w vs)
  from Cons [of w] path_first [of w vs] show ?case by (cases "path_toks (w # vs)") auto
qed simp

lemma finish_path_reads:
  assumes "first_token rest \<noteq> TkSymbol ''.''"
  shows "length (concat (map (\<lambda>s. [TkSymbol ''.'', TkIdent s]) vs) @ rest) < n \<Longrightarrow>
    finish_path n v (concat (map (\<lambda>s. [TkSymbol ''.'', TkIdent s]) vs) @ rest) = Inr (join_with ''.'' (v # vs), rest)"
proof (induction vs arbitrary: n v)
  case Nil
  then obtain n' where "n = Suc n'" by (cases n) auto
  with assms show ?case by (simp add: token_simps)
next
  case (Cons w vs)
  then obtain n' where "n = Suc n'" by (cases n) auto
  with Cons.IH [of n' "v @ ''.'' @ w"] Cons.prems show ?case
    by (cases vs) (simp_all add: token_simps join_with_Cons)
qed

subsection \<open>Types\<close>

definition type_ends :: "etoken list \<Rightarrow> bool" where
  "type_ends rest \<longleftrightarrow> \<not> is_comment (first_token rest) \<and> first_token rest \<notin> {TkSymbol ''.'', TkSymbol ''<''}"

definition type_start :: "etoken \<Rightarrow> bool" where
  "type_start t \<longleftrightarrow> (\<exists>v. t = TkIdent v) \<or> t \<in> {TkSymbol ''&'', TkSymbol ''(''}"

definition reads_type :: "string \<Rightarrow> etoken list \<Rightarrow> bool" where
  "reads_type ty ts \<longleftrightarrow> ts \<noteq> [] \<and> type_start (first_token ts)
     \<and> (\<forall>n rest. length (ts @ rest) < n \<longrightarrow> type_ends rest \<longrightarrow> type_source n (ts @ rest) = Inr (ty, rest))"

definition reads_fields :: "string list \<Rightarrow> etoken list \<Rightarrow> bool" where
  "reads_fields fs ts \<longleftrightarrow> ts \<noteq> [] \<and> (\<exists>v. first_token ts = TkIdent v)
     \<and> (\<forall>n m rest. length (ts @ rest) < n \<longrightarrow> length (ts @ rest) < m \<longrightarrow>
          type_fields_loop n (type_source m) (ts @ TkSymbol ''}'' # rest) = Inr (fs, rest))"

definition reads_args :: "bool \<Rightarrow> string list \<Rightarrow> etoken list \<Rightarrow> bool" where
  "reads_args seen args ts \<longleftrightarrow> ts \<noteq> [] \<and> args \<noteq> [] \<and> (type_start (first_token ts) \<or> first_token ts = TkSymbol [CHR 0x27])
     \<and> (\<forall>n m rest. length (ts @ rest) < n \<longrightarrow> Suc (length (ts @ rest)) < m \<longrightarrow>
          type_args_loop n (type_source m) seen (ts @ TkSymbol ''>'' # rest) = Inr (args, rest))"

lemma reads_typeD:
  "reads_type ty ts \<Longrightarrow> type_ends rest \<Longrightarrow> length (ts @ rest) < n \<Longrightarrow> type_source n (ts @ rest) = Inr (ty, rest)"
  by (simp add: reads_type_def)

lemma type_ends_symbol [simp]: "type_ends (TkSymbol s # rest) \<longleftrightarrow> s \<notin> {''.'', ''<''}"
  by (simp add: type_ends_def)

lemma type_start_simps [simp]: "type_start (TkIdent v)" "type_start (TkSymbol s) \<longleftrightarrow> s \<in> {''&'', ''(''}"
  by (auto simp: type_start_def)

lemma start_not_comment: "type_start t \<Longrightarrow> \<not> is_comment t" "type_start t \<Longrightarrow> t \<noteq> TkSymbol ''}''"
    "type_start t \<Longrightarrow> t \<noteq> TkSymbol ''>''" "type_start t \<Longrightarrow> t \<noteq> TkSymbol [CHR 0x27]"
  by (auto simp: type_start_def)

lemma reads_typeI:
  assumes "ts \<noteq> []" "type_start (first_token ts)"
    and "\<And>k rest. length (ts @ rest) \<le> k \<Longrightarrow> type_ends rest \<Longrightarrow> type_source (Suc k) (ts @ rest) = Inr (ty, rest)"
  shows "reads_type ty ts"
  unfolding reads_type_def
proof (intro conjI allI impI assms(1,2))
  fix n rest assume "length (ts @ rest) < n" "type_ends rest"
  with assms(3) [of rest "n - 1"] show "type_source n (ts @ rest) = Inr (ty, rest)" by (cases n) auto
qed

lemma type_ident:
  assumes "\<And>k rest. Suc (length (ts @ rest)) \<le> k \<Longrightarrow> type_ends rest \<Longrightarrow>
    parse_type_source_after_ident (Suc k) (type_source k) v (ts @ rest) = Inr (ty, rest)"
  shows "reads_type ty (TkIdent v # ts)"
  by (rule reads_typeI) (use assms in \<open>simp_all add: token_simps\<close>)

lemma scalar_length: "scalar_int_name_for_source v = Some s \<Longrightarrow> length v \<le> 3"
proof -
  assume "scalar_int_name_for_source v = Some s"
  then obtain t where "List.find (\<lambda>t. to_ascii_lowercase (int_name t) = to_ascii_lowercase v) SCALAR_INT_TYPES = Some t"
    by (auto simp: scalar_int_name_for_source_def)
  then have "t \<in> set SCALAR_INT_TYPES" "to_ascii_lowercase (int_name t) = to_ascii_lowercase v"
    by (auto simp: find_Some_iff)
  from this(1) arg_cong [OF this(2), of length] show ?thesis
    by (auto simp: SCALAR_INT_TYPES_def to_ascii_lowercase_def)
qed

lemma word_not_scalar: "v \<in> TYPE_WORDS \<Longrightarrow> scalar_int_name_for_source v = None"
proof -
  have "scalar_int_name_for_source ''box'' = None" "scalar_int_name_for_source ''vec'' = None" by code_simp+
  then show "v \<in> TYPE_WORDS \<Longrightarrow> scalar_int_name_for_source v = None"
    using scalar_length [of v] by (cases "scalar_int_name_for_source v") (auto simp: TYPE_WORDS_def)
qed

lemma after_ident_words:
  "v \<in> {''bool'', ''Bool''} \<Longrightarrow> parse_type_source_after_ident n p v ts = Inr (''bool'', ts)"
  "v \<in> {''unit'', ''Unit''} \<Longrightarrow> parse_type_source_after_ident n p v ts = Inr (''unit'', ts)"
  "v \<in> {''string'', ''String''} \<Longrightarrow> parse_type_source_after_ident n p v ts = Inr (''string'', ts)"
  "v \<in> {''record'', ''enum''} \<Longrightarrow> parse_type_source_after_ident n p v ts =
     res_bind (parse_type_fields n p ts) (\<lambda>(fs, ts). Inr (v @ '' {'' @ join_with '', '' fs @ ''}'', ts))"
  "v \<in> {''raw_ptr'', ''raw_mut_ptr'', ''box'', ''vec''} \<Longrightarrow> parse_type_source_after_ident n p v ts = single_type_arg p v ts"
  "v \<in> {''slice'', ''mut_slice''} \<Longrightarrow> parse_type_source_after_ident n p v ts = slice_type_args p v ts"
  "parse_type_source_after_ident n p ''array'' ts = array_type_args p ts"
  "scalar_int_name_for_source v = None \<Longrightarrow> v \<notin> TYPE_WORDS \<Longrightarrow> parse_type_source_after_ident n p v ts =
     res_bind (finish_path n v ts) (\<lambda>(path, ts).
     res_bind (parse_optional_type_source_args n p ts) (\<lambda>(args, ts).
       Inr (if args = [] then path else path @ ''<'' @ join_with '', '' args @ ''>'', ts)))"
proof -
  have "v \<in> TYPE_WORDS \<Longrightarrow> parse_type_source_after_ident n p v ts =
      (if v = ''bool'' \<or> v = ''Bool'' then Inr (''bool'', ts)
          else if v = ''unit'' \<or> v = ''Unit'' then Inr (''unit'', ts)
          else if v = ''string'' \<or> v = ''String'' then Inr (''string'', ts)
          else if v = ''record'' then
            res_bind (parse_type_fields n p ts) (\<lambda>(fs, ts). Inr (''record {'' @ join_with '', '' fs @ ''}'', ts))
          else if v = ''enum'' then
            res_bind (parse_type_fields n p ts) (\<lambda>(fs, ts). Inr (''enum {'' @ join_with '', '' fs @ ''}'', ts))
          else if v \<in> {''raw_ptr'', ''raw_mut_ptr'', ''box'', ''vec''} then single_type_arg p v ts
          else if v \<in> {''slice'', ''mut_slice''} then slice_type_args p v ts
          else array_type_args p ts)" for v
    using word_not_scalar [of v] by (simp add: parse_type_source_after_ident_def) (auto simp: TYPE_WORDS_def)
  note word = this
  show "v \<in> {''bool'', ''Bool''} \<Longrightarrow> parse_type_source_after_ident n p v ts = Inr (''bool'', ts)"
    "v \<in> {''unit'', ''Unit''} \<Longrightarrow> parse_type_source_after_ident n p v ts = Inr (''unit'', ts)"
    "v \<in> {''string'', ''String''} \<Longrightarrow> parse_type_source_after_ident n p v ts = Inr (''string'', ts)"
    "v \<in> {''record'', ''enum''} \<Longrightarrow> parse_type_source_after_ident n p v ts =
     res_bind (parse_type_fields n p ts) (\<lambda>(fs, ts). Inr (v @ '' {'' @ join_with '', '' fs @ ''}'', ts))"
    "v \<in> {''raw_ptr'', ''raw_mut_ptr'', ''box'', ''vec''} \<Longrightarrow> parse_type_source_after_ident n p v ts = single_type_arg p v ts"
    "v \<in> {''slice'', ''mut_slice''} \<Longrightarrow> parse_type_source_after_ident n p v ts = slice_type_args p v ts"
    "parse_type_source_after_ident n p ''array'' ts = array_type_args p ts"
    by (auto simp add: word TYPE_WORDS_def)
  show "scalar_int_name_for_source v = None \<Longrightarrow> v \<notin> TYPE_WORDS \<Longrightarrow> parse_type_source_after_ident n p v ts =
     res_bind (finish_path n v ts) (\<lambda>(path, ts).
     res_bind (parse_optional_type_source_args n p ts) (\<lambda>(args, ts).
       Inr (if args = [] then path else path @ ''<'' @ join_with '', '' args @ ''>'', ts)))"
    by (simp add: parse_type_source_after_ident_def TYPE_WORDS_def)
qed

lemma reads_plain:
  shows reads_scalar: "scalar_int_name_for_source v = Some s \<Longrightarrow> reads_type (to_ascii_lowercase s) [TkIdent v]"
    and reads_bool: "v \<in> {''bool'', ''Bool''} \<Longrightarrow> reads_type ''bool'' [TkIdent v]"
    and reads_unit: "v \<in> {''unit'', ''Unit''} \<Longrightarrow> reads_type ''unit'' [TkIdent v]"
    and reads_string: "v \<in> {''string'', ''String''} \<Longrightarrow> reads_type ''string'' [TkIdent v]"
  by (rule type_ident; simp only: after_ident_words append_Nil; simp add: parse_type_source_after_ident_def)+

lemma reads_parens: "reads_type ''unit'' [TkSymbol ''('', TkSymbol '')'']"
  by (rule reads_typeI) (simp_all add: token_simps)

lemma reads_front: "reads_type ty ts \<Longrightarrow> ts \<noteq> []" "reads_type ty ts \<Longrightarrow> \<not> is_comment (first_token ts)"
    "reads_type ty ts \<Longrightarrow> s \<notin> {''&'', ''(''} \<Longrightarrow> first_token ts \<noteq> TkSymbol s"
  by (auto simp: reads_type_def type_start_def)

lemma hd_first: "ts \<noteq> [] \<Longrightarrow> hd ts = first_token ts"
  by (cases ts) auto

lemma reads_ref:
  assumes ty: "reads_type ty ts"
  shows "hd ts \<noteq> TkIdent ''mut'' \<Longrightarrow>
      reads_type (CHR ''&'' # CHR 0x27 # r @ '' '' @ ty) (TkSymbol ''&'' # TkSymbol [CHR 0x27] # TkIdent r # ts)"
    and "reads_type (CHR ''&'' # CHR 0x27 # r @ '' mut '' @ ty)
      (TkSymbol ''&'' # TkSymbol [CHR 0x27] # TkIdent r # TkIdent ''mut'' # ts)"
  by (rule reads_typeI; simp add: reference_type_def token_simps reads_front [OF ty] reads_typeD [OF ty] hd_first)+

lemma reads_one_arg:
  assumes "v \<in> {''raw_ptr'', ''raw_mut_ptr'', ''box'', ''vec''}" and ty: "reads_type ty ts"
  shows "reads_type (v @ ''<'' @ ty @ ''>'') (TkIdent v # TkSymbol ''<'' # ts @ [TkSymbol ''>''])"
  by (rule type_ident) (simp only: after_ident_words(5) [OF assms(1)]; simp add: single_type_arg_def token_simps
    reads_typeD [OF ty] del: res_bind_eq_Inr type_fields_loop.simps finish_path.simps type_args_loop.simps)

lemma reads_slice:
  assumes "v \<in> {''slice'', ''mut_slice''}" and ty: "reads_type ty ts"
  shows "reads_type (v @ ''<'' @ CHR 0x27 # r @ '', '' @ ty @ ''>'')
      (TkIdent v # TkSymbol ''<'' # TkSymbol [CHR 0x27] # TkIdent r # TkSymbol '','' # ts @ [TkSymbol ''>''])"
  by (rule type_ident) (simp only: after_ident_words(6) [OF assms(1)]; simp add: slice_type_args_def token_simps
    reads_typeD [OF ty] del: res_bind_eq_Inr type_fields_loop.simps finish_path.simps type_args_loop.simps)

lemma reads_array:
  assumes ty: "reads_type ty ts"
  shows "reads_type (''array<'' @ ty @ '', '' @ n @ ''>'')
      (TkIdent ''array'' # TkSymbol ''<'' # ts @ [TkSymbol '','', TkNumber n, TkSymbol ''>''])"
  by (rule type_ident) (simp add: after_ident_words(7) array_type_args_def token_simps reads_typeD [OF ty] del: res_bind_eq_Inr type_fields_loop.simps finish_path.simps type_args_loop.simps)

lemma reads_members:
  assumes "v \<in> {''record'', ''enum''}" and fs: "reads_fields fs ts"
  shows "reads_type (v @ '' {'' @ join_with '', '' (sort fs) @ ''}'') (TkIdent v # TkSymbol ''{'' # ts @ [TkSymbol ''}''])"
proof -
  from fs obtain w where w: "ts \<noteq> []" "first_token ts = TkIdent w"
    and run: "\<And>n m rest. length (ts @ rest) < n \<Longrightarrow> length (ts @ rest) < m \<Longrightarrow>
      type_fields_loop n (type_source m) (ts @ TkSymbol ''}'' # rest) = Inr (fs, rest)"
    by (auto simp: reads_fields_def)
  show ?thesis
    by (rule type_ident) (simp only: after_ident_words(4) [OF assms(1)]; simp add: parse_type_fields_def token_simps
      w run del: res_bind_eq_Inr type_fields_loop.simps finish_path.simps type_args_loop.simps)
qed

lemma reads_path_type:
  assumes "scalar_int_name_for_source v = None" "v \<notin> TYPE_WORDS"
  shows "reads_type (join_with ''.'' (v # vs)) (path_toks (v # vs))"
    and "reads_args False args ts \<Longrightarrow> reads_type (join_with ''.'' (v # vs) @ ''<'' @ join_with '', '' args @ ''>'')
      (path_toks (v # vs) @ TkSymbol ''<'' # ts @ [TkSymbol ''>''])"
proof -
  have path: "path_toks (v # vs) = TkIdent v # concat (map (\<lambda>s. [TkSymbol ''.'', TkIdent s]) vs)"
    using path_first [of v vs] path_tl [of v vs] by (cases "path_toks (v # vs)") auto
  note words = after_ident_words(8) [OF assms] parse_optional_type_source_args_def
  show "reads_type (join_with ''.'' (v # vs)) (path_toks (v # vs))"
    unfolding path by (rule type_ident) (simp add: words finish_path_reads type_ends_def token_simps del: res_bind_eq_Inr type_fields_loop.simps finish_path.simps type_args_loop.simps)
  assume "reads_args False args ts"
  then have args: "ts \<noteq> []" "args \<noteq> []" "first_token ts \<noteq> TkSymbol ''>''"
    and run: "\<And>n m rest. length (ts @ rest) < n \<Longrightarrow> Suc (length (ts @ rest)) < m \<Longrightarrow>
      type_args_loop n (type_source m) False (ts @ TkSymbol ''>'' # rest) = Inr (args, rest)"
    by (auto simp: reads_args_def type_start_def)
  show "reads_type (join_with ''.'' (v # vs) @ ''<'' @ join_with '', '' args @ ''>'')
      (path_toks (v # vs) @ TkSymbol ''<'' # ts @ [TkSymbol ''>''])"
    unfolding path append_Cons
    by (rule type_ident) (simp add: words finish_path_reads args token_simps run del: res_bind_eq_Inr type_fields_loop.simps finish_path.simps type_args_loop.simps)
qed

lemma reads_fieldsI:
  assumes "ts \<noteq> []" "\<exists>v. first_token ts = TkIdent v"
    and "\<And>k m rest. length (ts @ rest) \<le> k \<Longrightarrow> length (ts @ rest) < m \<Longrightarrow>
      type_fields_loop (Suc k) (type_source m) (ts @ TkSymbol ''}'' # rest) = Inr (fs, rest)"
  shows "reads_fields fs ts"
  unfolding reads_fields_def
proof (intro conjI allI impI assms(1,2))
  fix n m rest assume "length (ts @ rest) < n" "length (ts @ rest) < m"
  with assms(3) [of rest "n - 1" m] show "type_fields_loop n (type_source m) (ts @ TkSymbol ''}'' # rest) = Inr (fs, rest)"
    by (cases n) auto
qed

lemma reads_field:
  assumes ty: "reads_type ty ts"
  shows "reads_fields [name @ '': '' @ ty] (TkIdent name # TkSymbol '':'' # ts)"
    and "reads_fields fs us \<Longrightarrow> reads_fields ((name @ '': '' @ ty) # fs) (TkIdent name # TkSymbol '':'' # ts @ TkSymbol '','' # us)"
proof -
  show "reads_fields [name @ '': '' @ ty] (TkIdent name # TkSymbol '':'' # ts)"
    by (rule reads_fieldsI) (simp_all add: token_simps reads_typeD [OF ty] del: res_bind_eq_Inr)
  assume "reads_fields fs us"
  then have run: "\<And>n m rest. length (us @ rest) < n \<Longrightarrow> length (us @ rest) < m \<Longrightarrow>
      type_fields_loop n (type_source m) (us @ TkSymbol ''}'' # rest) = Inr (fs, rest)"
    by (simp add: reads_fields_def)
  show "reads_fields ((name @ '': '' @ ty) # fs) (TkIdent name # TkSymbol '':'' # ts @ TkSymbol '','' # us)"
    by (rule reads_fieldsI) (simp_all add: token_simps reads_typeD [OF ty] run del: res_bind_eq_Inr)
qed

lemma reads_argsI:
  assumes "ts \<noteq> []" "args \<noteq> []" "type_start (first_token ts) \<or> first_token ts = TkSymbol [CHR 0x27]"
    and "\<And>k m rest. length (ts @ rest) \<le> k \<Longrightarrow> Suc (length (ts @ rest)) < m \<Longrightarrow>
      type_args_loop (Suc k) (type_source m) seen (ts @ TkSymbol ''>'' # rest) = Inr (args, rest)"
  shows "reads_args seen args ts"
  unfolding reads_args_def
proof (intro conjI allI impI assms(1-3))
  fix n m rest assume "length (ts @ rest) < n" "Suc (length (ts @ rest)) < m"
  with assms(4) [of rest "n - 1" m] show "type_args_loop n (type_source m) seen (ts @ TkSymbol ''>'' # rest) = Inr (args, rest)"
    by (cases n) auto
qed

lemma reads_argsD:
  "reads_args seen args ts \<Longrightarrow> length (ts @ rest) < n \<Longrightarrow> Suc (length (ts @ rest)) < m \<Longrightarrow>
    type_args_loop n (type_source m) seen (ts @ TkSymbol ''>'' # rest) = Inr (args, rest)"
  by (simp add: reads_args_def)

lemma reads_region_arg:
  "reads_args False [CHR 0x27 # r] [TkSymbol [CHR 0x27], TkIdent r]"
  "reads_args False args us \<Longrightarrow> reads_args False ((CHR 0x27 # r) # args) (TkSymbol [CHR 0x27] # TkIdent r # TkSymbol '','' # us)"
  by (rule reads_argsI; simp add: token_simps reads_argsD del: res_bind_eq_Inr)+

lemma reads_type_arg:
  assumes ty: "reads_type ty ts"
  shows "reads_args seen [ty] ts"
    and "reads_args True args us \<Longrightarrow> reads_args seen (ty # args) (ts @ TkSymbol '','' # us)"
proof -
  from ty have start: "type_start (first_token ts)" "ts \<noteq> []" by (auto simp: reads_type_def)
  note front = start reads_front [OF ty] reads_typeD [OF ty] start_not_comment
  show "reads_args seen [ty] ts"
    by (rule reads_argsI) (simp_all add: token_simps front del: res_bind_eq_Inr)
  show "reads_args True args us \<Longrightarrow> reads_args seen (ty # args) (ts @ TkSymbol '','' # us)"
    by (rule reads_argsI) (simp_all add: token_simps front reads_argsD del: res_bind_eq_Inr)
qed

lemma types_read:
  "src_type ty ts \<Longrightarrow> reads_type ty ts"
  "src_type_fields fs us \<Longrightarrow> reads_fields fs us"
  "src_type_args seen args vs \<Longrightarrow> reads_args seen args vs"
  by (induction rule: src_type_src_type_fields_src_type_args.inducts)
    (intro reads_plain reads_parens reads_ref reads_members reads_one_arg reads_slice reads_array reads_path_type
      reads_field reads_region_arg reads_type_arg; assumption)+

subsection \<open>What may follow\<close>

fun starts :: "etoken \<Rightarrow> bool" where
  "starts (TkSymbol s) \<longleftrightarrow> s \<in> {''('', ''{'', ''['', ''-'', ''!'', ''~'', ''&''}"
| "starts (TkComment _) \<longleftrightarrow> False"
| "starts TkEof \<longleftrightarrow> False"
| "starts _ \<longleftrightarrow> True"

fun opens_expr :: "etoken \<Rightarrow> bool" where
  "opens_expr (TkSymbol s) \<longleftrightarrow> s \<in> {''('', ''{'', ''[''}"
| "opens_expr (TkComment _) \<longleftrightarrow> False"
| "opens_expr TkEof \<longleftrightarrow> False"
| "opens_expr _ \<longleftrightarrow> True"

lemma opens_starts: "opens_expr t \<Longrightarrow> starts t" "opens_expr t \<Longrightarrow> t \<notin> {TkSymbol ''-'', TkSymbol ''!'', TkSymbol ''~'', TkSymbol ''&''}"
  by (cases t; auto)+

definition dotted :: "etoken list \<Rightarrow> bool" where
  "dotted ts \<longleftrightarrow> (\<exists>v vs. ts = path_toks (v # vs) \<and> v \<notin> {''true'', ''false''})"

definition calm :: "etoken list \<Rightarrow> bool" where
  "calm rest \<longleftrightarrow> \<not> is_comment (first_token rest) \<and> first_token rest \<notin> {TkSymbol ''('', TkSymbol ''::'', TkSymbol ''{''}"

definition halts :: "etoken list \<Rightarrow> bool" where
  "halts rest \<longleftrightarrow> calm rest \<and> first_token rest \<notin> {TkSymbol ''['', TkSymbol ''.''}"

definition ends_expr :: "bool \<Rightarrow> bool \<Rightarrow> etoken list \<Rightarrow> bool" where
  "ends_expr bar d rest \<longleftrightarrow>
     (case first_token rest of
        TkSymbol s \<Rightarrow> s \<in> {'')'', '']'', ''}'', '','', '';'', ''=>''} \<or> (s = ''|'' \<and> bar \<and> \<not> d)
      | TkComment _ \<Rightarrow> False
      | _ \<Rightarrow> True)"

lemma ends_simps [simp]:
  "ends_expr bar d (TkSymbol s # rest) \<longleftrightarrow> s \<in> {'')'', '']'', ''}'', '','', '';'', ''=>''} \<or> (s = ''|'' \<and> bar \<and> \<not> d)"
  "ends_expr bar d (TkIdent v # rest)" "ends_expr bar d []" "ends_expr bar d (TkEof # rest)"
  by (simp_all add: ends_expr_def)

lemma operator_names: "is_source_binary_op op \<Longrightarrow> op \<in> fst ` set precedence_table"
proof -
  assume "is_source_binary_op op"
  then obtain e where "e \<in> set build_ops" "oe_category e = BinaryOp" "oe_source_op e = op"
    by (auto simp: is_source_binary_op_def list_ex_iff)
  with precedence_table_rows [OF this(1,2)] show ?thesis by (auto dest!: map_of_SomeD simp: rev_image_eqI)
qed

lemma not_operators: "op \<in> {'')'', '']'', ''}'', '','', '';'', ''=>'', ''='', ''['', ''.'', ''('', ''::'', ''{''} \<Longrightarrow> \<not> is_source_binary_op op"
  by (auto simp: precedence_table_def dest!: operator_names)

lemma peek_op_front:
  "\<not> is_comment (first_token ts) \<Longrightarrow> peek_op bar ts = (case first_token ts of
     TkSymbol s \<Rightarrow>
       if s = ''<'' then Some (if peek_second ts = TkSymbol ''<'' then ''<<'' else ''<'')
       else if s = ''>'' then Some (if peek_second ts = TkSymbol ''>'' then ''>>'' else ''>'')
       else if s = ''|'' \<and> bar then None else if is_source_binary_op s then Some s else None
   | _ \<Rightarrow> None)"
  by (simp add: peek_op_def token_simps)

lemma ends_stops:
  assumes "ends_expr bar d rest"
  shows "halts rest" and "peek_op bar rest = None" and "first_token rest \<noteq> TkSymbol ''=''" and "\<not> is_comment (first_token rest)"
    and "first_token rest \<noteq> TkSymbol s \<or> s \<in> {'')'', '']'', ''}'', '','', '';'', ''=>'', ''|''}"
proof -
  show front: "\<not> is_comment (first_token rest)" using assms by (auto simp: ends_expr_def split: etoken.splits)
  then show "halts rest" "first_token rest \<noteq> TkSymbol ''=''"
    "first_token rest \<noteq> TkSymbol s \<or> s \<in> {'')'', '']'', ''}'', '','', '';'', ''=>'', ''|''}"
    using assms by (auto simp: ends_expr_def halts_def calm_def split: etoken.splits)
  show "peek_op bar rest = None"
    using assms by (auto simp: ends_expr_def peek_op_front [OF front] not_operators split: etoken.splits)
qed

lemma ends_True: "ends_expr bar True rest \<Longrightarrow> ends_expr bar' d rest"
  by (auto simp: ends_expr_def split: etoken.splits)

lemma starts_front: "starts t \<Longrightarrow> \<not> is_comment t" "starts t \<Longrightarrow> s \<notin> {''('', ''{'', ''['', ''-'', ''!'', ''~'', ''&''} \<Longrightarrow> t \<noteq> TkSymbol s"
    "starts t \<Longrightarrow> t \<noteq> TkEof"
  by (cases t; auto)+

subsection \<open>What each level promises\<close>

definition reads_expr :: "bool \<Rightarrow> bool \<Rightarrow> raw_expr \<Rightarrow> etoken list \<Rightarrow> bool" where
  "reads_expr bar d e ts \<longleftrightarrow> ts \<noteq> [] \<and> starts (first_token ts) \<and>
     (\<forall>n rest. length (ts @ rest) < n \<longrightarrow> ends_expr bar d rest \<longrightarrow> parse_expr n bar (ts @ rest) = Inr (e, rest))"

definition reads_primary :: "raw_expr \<Rightarrow> etoken list \<Rightarrow> bool" where
  "reads_primary e ts \<longleftrightarrow> ts \<noteq> [] \<and> opens_expr (first_token ts) \<and>
     (\<forall>n r rest. length (ts @ rest) \<le> n \<longrightarrow> length (ts @ rest) \<le> r \<longrightarrow> calm rest \<longrightarrow>
        (dotted ts \<longrightarrow> first_token rest \<noteq> TkSymbol ''.'') \<longrightarrow>
        parse_primary r (parse_expr n) (ts @ rest) = Inr (e, rest))"

definition reads_list :: "raw_expr list \<Rightarrow> etoken list \<Rightarrow> bool" where
  "reads_list es ts \<longleftrightarrow> ts \<noteq> [] \<and> starts (first_token ts) \<and>
     (\<forall>n r rest. Suc (length (ts @ rest)) < n \<longrightarrow> length (ts @ rest) < r \<longrightarrow>
        (\<forall>c \<in> {'')'', '']''}. elements_loop r (parse_expr n False) c (ts @ TkSymbol c # rest) = Inr (es, rest)) \<and>
        parse_array r (parse_expr n) (ts @ TkSymbol '']'' # rest) = Inr (ArrayE es, rest))"

definition reads_record :: "raw_record_field list \<Rightarrow> etoken list \<Rightarrow> bool" where
  "reads_record fs ts \<longleftrightarrow> ts \<noteq> [] \<and> (\<exists>v. first_token ts = TkIdent v) \<and>
     (\<forall>n r rest. length (ts @ rest) < n \<longrightarrow> length (ts @ rest) < r \<longrightarrow>
        elements_loop r (parse_record_field (parse_expr n)) ''}'' (ts @ TkSymbol ''}'' # rest) = Inr (fs, rest))"

definition reads_payload :: "raw_expr \<Rightarrow> etoken list \<Rightarrow> bool" where
  "reads_payload e ts \<longleftrightarrow>
     (\<forall>n ty w rest. length (ts @ rest) \<le> n \<longrightarrow> calm rest \<longrightarrow>
        parse_enum_tail (parse_expr n) ty (TkIdent w # ts @ rest) = Inr (EnumConstruct ty w e, rest))"

definition reads_postfix :: "bool \<Rightarrow> raw_expr \<Rightarrow> etoken list \<Rightarrow> bool" where
  "reads_postfix bar e ts \<longleftrightarrow> ts \<noteq> [] \<and> opens_expr (first_token ts) \<and>
     (\<forall>n r rest. length (ts @ rest) \<le> n \<longrightarrow> length (ts @ rest) \<le> r \<longrightarrow> calm rest \<longrightarrow>
        (dotted ts \<longrightarrow> first_token rest \<noteq> TkSymbol ''.'') \<longrightarrow>
        (\<exists>k. length rest < k \<and> parse_postfix r (parse_expr n) bar (ts @ rest) = postfix_loop k (parse_expr n) bar e rest))"

definition reads_unary :: "bool \<Rightarrow> raw_expr \<Rightarrow> etoken list \<Rightarrow> bool" where
  "reads_unary bar e ts \<longleftrightarrow> ts \<noteq> [] \<and> starts (first_token ts) \<and>
     (\<forall>n r rest. length (ts @ rest) \<le> n \<longrightarrow> length (ts @ rest) < r \<longrightarrow> halts rest \<longrightarrow>
        parse_unary r (parse_expr n) bar (ts @ rest) = Inr (e, rest))"

definition reads_binary :: "bool \<Rightarrow> nat \<Rightarrow> raw_expr \<Rightarrow> etoken list \<Rightarrow> bool" where
  "reads_binary bar p e ts \<longleftrightarrow> ts \<noteq> [] \<and> starts (first_token ts) \<and>
     (\<forall>n r q rest. length (ts @ rest) \<le> n \<longrightarrow> length (ts @ rest) < r \<longrightarrow> q \<le> p \<longrightarrow> halts rest \<longrightarrow>
        (\<forall>op. peek_op bar rest = Some op \<longrightarrow> binary_precedence op \<le> p) \<longrightarrow>
        (\<exists>k. length rest < k \<and>
          parse_binary_prec r (parse_expr n) bar q (ts @ rest) = binary_loop k (parse_expr n) bar q e rest))"

definition tail_start :: "etoken \<Rightarrow> bool" where
  "tail_start t \<longleftrightarrow> t \<in> {TkSymbol ''=>'', TkIdent ''if''}"

definition reads_tail :: "bool \<Rightarrow> bool \<Rightarrow> raw_expr option \<Rightarrow> raw_expr \<Rightarrow> etoken list \<Rightarrow> bool" where
  "reads_tail bar d g e ts \<longleftrightarrow> ts \<noteq> [] \<and> tail_start (first_token ts) \<and>
     (\<forall>n rest. length (ts @ rest) \<le> n \<longrightarrow> ends_expr True d rest \<longrightarrow>
        parse_arm_tail (parse_expr n) bar (ts @ rest) = Inr ((g, e), rest))"

definition reads_arms :: "bool \<Rightarrow> raw_case_arm list \<Rightarrow> etoken list \<Rightarrow> bool" where
  "reads_arms bar as ts \<longleftrightarrow>
     (\<forall>n r rest. length (ts @ rest) \<le> n \<longrightarrow> length (ts @ rest) < r \<longrightarrow> ends_expr bar True rest \<longrightarrow>
        parse_case_arms r (parse_expr n) bar (ts @ rest) = Inr (as, rest))"

subsection \<open>Primary expressions\<close>

lemma reads_exprD:
  "reads_expr bar d e ts \<Longrightarrow> ends_expr bar d rest \<Longrightarrow> length (ts @ rest) < n \<Longrightarrow> parse_expr n bar (ts @ rest) = Inr (e, rest)"
  by (simp add: reads_expr_def)

lemma expr_front:
  assumes "reads_expr bar d e ts"
  shows "ts \<noteq> []" "starts (first_token ts)" "\<not> is_comment (first_token ts)"
    "s \<notin> {''('', ''{'', ''['', ''-'', ''!'', ''~'', ''&''} \<Longrightarrow> first_token ts \<noteq> TkSymbol s"
  using assms starts_front(1,2) [of "first_token ts"] by (auto simp: reads_expr_def)

lemma reads_primaryI:
  assumes "ts \<noteq> []" "opens_expr (first_token ts)"
    and "\<And>n r rest. length (ts @ rest) \<le> n \<Longrightarrow> length (ts @ rest) \<le> r \<Longrightarrow> calm rest \<Longrightarrow>
      (dotted ts \<Longrightarrow> first_token rest \<noteq> TkSymbol ''.'') \<Longrightarrow> parse_primary r (parse_expr n) (ts @ rest) = Inr (e, rest)"
  shows "reads_primary e ts"
  using assms by (simp add: reads_primary_def)

lemma calm_front: "calm rest \<Longrightarrow> \<not> is_comment (first_token rest)" "calm rest \<Longrightarrow> s \<in> {''('', ''::'', ''{''} \<Longrightarrow> first_token rest \<noteq> TkSymbol s"
  by (auto simp: calm_def)

lemma reads_atoms:
  "reads_primary (LiteralI64 v) [TkNumber v]" "reads_primary (LiteralString v) [TkString v]"
  "reads_primary (LiteralBytes (bytes_to_hex b)) [TkByteString b]"
  "reads_primary (LiteralBool c) [TkIdent (if c then ''true'' else ''false'')]"
  "reads_primary UnitE [TkSymbol ''('', TkSymbol '')'']"
  by (rule reads_primaryI; simp add: parse_primary_def token_simps)+

lemma reads_primary_parens:
  assumes e: "reads_expr False d e ts"
  shows "reads_primary e (TkSymbol ''('' # ts @ [TkSymbol '')''])"
  by (rule reads_primaryI)
    (simp_all add: parse_primary_def token_simps expr_front [OF e] reads_exprD [OF e] del: res_bind_eq_Inr)

lemma path_split: "path_toks (v # vs) = TkIdent v # concat (map (\<lambda>s. [TkSymbol ''.'', TkIdent s]) vs)"
  using path_first [of v vs] path_tl [of v vs] by (cases "path_toks (v # vs)") auto

lemma split_join: "list_all (\<lambda>s. CHR ''.'' \<notin> set s) (v # vs) \<Longrightarrow> split_on (CHR ''.'') (join_with ''.'' (v # vs)) = v # vs"
  by (induction vs arbitrary: v) (simp_all add: split_on_no_sep split_on_append join_with_Cons split: if_splits)

lemma join_dot: "vs \<noteq> [] \<Longrightarrow> CHR ''.'' \<in> set (join_with ''.'' (v # vs))"
  by (cases vs) (simp_all add: join_with_Cons)

text \<open>The method behind a name, when the tokens after the path are known.\<close>

lemma primary_ident:
  assumes "v \<notin> {''true'', ''false''}" and "length (path_toks (v # vs) @ us) \<le> r"
    and "first_token us \<noteq> TkSymbol ''.''" and "first_token us \<noteq> TkSymbol ''{''" and "\<not> is_comment (first_token us)"
  shows "parse_primary r p (path_toks (v # vs) @ us) =
     (case tk_consume_symbol ''::'' us of
        (True, ts) \<Rightarrow> parse_enum_tail p (join_with ''.'' (v # vs)) ts
      | (False, ts) \<Rightarrow>
          (case tk_consume_symbol ''('' ts of
             (True, ts) \<Rightarrow> res_bind (parse_call_args r p ts) (\<lambda>(args, ts). Inr (Call (join_with ''.'' (v # vs)) args, ts))
           | (False, ts) \<Rightarrow>
               if CHR ''.'' \<in> set (join_with ''.'' (v # vs)) then Inr (field_access_from_path (join_with ''.'' (v # vs)), ts)
               else Inr (ParamName (join_with ''.'' (v # vs)), ts)))"
proof -
  let ?dots = "concat (map (\<lambda>s. [TkSymbol ''.'', TkIdent s]) vs) :: etoken list"
  have front: "\<not> is_comment (first_token (?dots @ us))" "first_token (?dots @ us) \<noteq> TkSymbol ''{''"
    using assms(4,5) by (cases vs; simp)+
  have "length (?dots @ us) < r" using assms(2) unfolding path_split by simp
  from finish_path_reads [OF assms(3) this, of v] show ?thesis
    using assms(1) front unfolding path_split
    by (simp add: parse_primary_def parse_ident_primary_def token_simps del: append_assoc)
qed

lemma reads_path:
  assumes "v \<notin> {''true'', ''false''}" "list_all (\<lambda>s. CHR ''.'' \<notin> set s) (v # vs)"
  shows "reads_primary (fold (\<lambda>field e. FieldAccess e field) vs (ParamName v)) (path_toks (v # vs))"
proof (rule reads_primaryI)
  fix n r rest assume len: "length (path_toks (v # vs) @ rest) \<le> r" and calm: "calm rest"
    and "dotted (path_toks (v # vs)) \<Longrightarrow> first_token rest \<noteq> TkSymbol ''.''"
  then have "first_token rest \<noteq> TkSymbol ''.''" using assms(1) by (auto simp: dotted_def)
  from primary_ident [OF assms(1) len this] calm_front [OF calm]
  show "parse_primary r (parse_expr n) (path_toks (v # vs) @ rest)
      = Inr (fold (\<lambda>field e. FieldAccess e field) vs (ParamName v), rest)"
    using join_dot [of vs v] split_join [OF assms(2)] assms(2)
    by (cases vs) (simp_all add: token_simps field_access_from_path_def)
qed simp_all

lemma reads_call:
  assumes v: "v \<notin> {''true'', ''false''}"
  shows "reads_primary (Call (join_with ''.'' (v # vs)) []) (path_toks (v # vs) @ [TkSymbol ''('', TkSymbol '')''])"
    and "reads_list es ts \<Longrightarrow>
      reads_primary (Call (join_with ''.'' (v # vs)) es) (path_toks (v # vs) @ TkSymbol ''('' # ts @ [TkSymbol '')''])"
proof -
  show "reads_primary (Call (join_with ''.'' (v # vs)) []) (path_toks (v # vs) @ [TkSymbol ''('', TkSymbol '')''])"
    by (rule reads_primaryI) (simp_all add: primary_ident [OF v] parse_call_args_def token_simps del: res_bind_eq_Inr)
  assume es: "reads_list es ts"
  then have front: "ts \<noteq> []" "\<not> is_comment (first_token ts)" "first_token ts \<noteq> TkSymbol '')''"
    using starts_front [of "first_token ts"] by (auto simp: reads_list_def)
  have run: "elements_loop r (parse_expr n False) '')'' (ts @ TkSymbol '')'' # rest) = Inr (es, rest)"
    if "Suc (length (ts @ rest)) < n" "length (ts @ rest) < r" for n r rest
    using es that by (simp add: reads_list_def)
  show "reads_primary (Call (join_with ''.'' (v # vs)) es) (path_toks (v # vs) @ TkSymbol ''('' # ts @ [TkSymbol '')''])"
  proof (rule reads_primaryI)
    fix n r rest assume len: "length ((path_toks (v # vs) @ TkSymbol ''('' # ts @ [TkSymbol '')'']) @ rest) \<le> n"
      "length ((path_toks (v # vs) @ TkSymbol ''('' # ts @ [TkSymbol '')'']) @ rest) \<le> r"
    have "0 < length (path_toks (v # vs))" by simp
    with len have "Suc (length (ts @ rest)) < n" "length (ts @ rest) < r" by simp_all
    from run [OF this] len
    show "parse_primary r (parse_expr n) ((path_toks (v # vs) @ TkSymbol ''('' # ts @ [TkSymbol '')'']) @ rest)
        = Inr (Call (join_with ''.'' (v # vs)) es, rest)"
      by (simp add: primary_ident [OF v] parse_call_args_def token_simps front del: res_bind_eq_Inr elements_loop.simps)
  qed simp_all
qed

lemma reads_payloadD:
  "reads_payload e ts \<Longrightarrow> length (ts @ rest) \<le> n \<Longrightarrow> calm rest \<Longrightarrow>
    parse_enum_tail (parse_expr n) ty (TkIdent w # ts @ rest) = Inr (EnumConstruct ty w e, rest)"
  by (simp add: reads_payload_def)

lemma reads_payloads:
  "reads_payload UnitE []"
  "reads_expr False d e ts \<Longrightarrow> reads_payload e (TkSymbol ''('' # ts @ [TkSymbol '')''])"
proof -
  show "reads_payload UnitE []"
    by (simp add: reads_payload_def parse_enum_tail_def token_simps calm_front)
  assume e: "reads_expr False d e ts"
  show "reads_payload e (TkSymbol ''('' # ts @ [TkSymbol '')''])"
    unfolding reads_payload_def parse_enum_tail_def
    by (simp add: token_simps expr_front [OF e] reads_exprD [OF e] del: res_bind_eq_Inr)
qed

lemma reads_enum:
  assumes v: "v \<notin> {''true'', ''false''}" and e: "reads_payload e ts"
  shows "reads_primary (EnumConstruct (join_with ''.'' (v # vs)) w e) (path_toks (v # vs) @ TkSymbol ''::'' # TkIdent w # ts)"
  by (rule reads_primaryI)
    (simp_all add: primary_ident [OF v] reads_payloadD [OF e] token_simps del: res_bind_eq_Inr)

lemma reads_enum_type:
  assumes fs: "reads_fields fs us" and e: "reads_payload e ts"
  shows "reads_primary (EnumConstruct (''enum {'' @ join_with '', '' (sort fs) @ ''}'') w e)
      (TkIdent ''enum'' # TkSymbol ''{'' # us @ TkSymbol ''}'' # TkSymbol ''::'' # TkIdent w # ts)"
proof (rule reads_primaryI)
  fix n r rest
  let ?after = "TkSymbol ''::'' # TkIdent w # ts @ rest"
  assume "length ((TkIdent ''enum'' # TkSymbol ''{'' # us @ TkSymbol ''}'' # TkSymbol ''::'' # TkIdent w # ts) @ rest) \<le> n"
    "length ((TkIdent ''enum'' # TkSymbol ''{'' # us @ TkSymbol ''}'' # TkSymbol ''::'' # TkIdent w # ts) @ rest) \<le> r"
    and calm: "calm rest"
  then have len: "length (us @ ?after) < r" "length (ts @ rest) \<le> n" by simp_all
  from fs obtain x where x: "us \<noteq> []" "first_token us = TkIdent x"
    and run: "type_fields_loop r (type_source r) (us @ TkSymbol ''}'' # ?after) = Inr (fs, ?after)"
    using len(1) by (auto simp: reads_fields_def)
  have "parse_type_source_after_ident r (type_source r) ''enum'' (TkSymbol ''{'' # us @ TkSymbol ''}'' # ?after)
      = Inr (''enum {'' @ join_with '', '' (sort fs) @ ''}'', ?after)"
    using x run by (simp add: after_ident_words(4) parse_type_fields_def token_simps del: res_bind_eq_Inr type_fields_loop.simps)
  with reads_payloadD [OF e len(2) calm]
  show "parse_primary r (parse_expr n) ((TkIdent ''enum'' # TkSymbol ''{'' # us @ TkSymbol ''}'' # TkSymbol ''::'' # TkIdent w # ts) @ rest)
      = Inr (EnumConstruct (''enum {'' @ join_with '', '' (sort fs) @ ''}'') w e, rest)"
    by (simp add: parse_primary_def parse_ident_primary_def token_simps del: res_bind_eq_Inr)
qed simp_all

end
