(* ===== verification/ExprComplete.thy ===== *)
theory ExprComplete
  imports ExprReads
begin

text \<open>
  The upper levels of the parser on the grammar: lists, records and arrays, postfix and unary
  operators, binary operators by precedence, the arms of a case, and the expressions that begin
  with a word; then the induction that puts the levels together.
\<close>

subsection \<open>Lists, records and arrays\<close>










subsection \<open>Postfix and unary operators\<close>













subsection \<open>Binary operators\<close>








subsection \<open>The arms of a case\<close>













subsection \<open>Expressions\<close>











subsection \<open>The whole grammar\<close>







end
