(* ===== verification/NameEdits.thy ===== *)
theory NameEdits
  imports Chains Merge
begin

text \<open>
  The properties of the operations on names, exports and tests. A well-formed root has
  identifiers for names, one owner per name and per export, one entry per symbol, and no
  binding to a symbol it does not define. The locale \<open>root_preserving\<close> is the contract of an
  operation that keeps roots well formed, and \<open>root_edit\<close> that of one which in addition does not
  touch what is defined. Every edit interprets one of them, and what the store returns after
  an operation follows from the contract alone.
\<close>

subsection \<open>Well-formed roots\<close>

definition names_once :: "program_root \<Rightarrow> bool" where
  "names_once r \<longleftrightarrow>
     distinct (map (\<lambda>b. (nb_module b, nb_display_name b)) (names r)) \<and>
     distinct (map (\<lambda>b. (tnb_module b, tnb_display_name b)) (type_names r)) \<and>
     distinct (map eb_exported_name (exports r)) \<and> distinct (map tb_name (tests r))"

definition root_closed :: "program_root \<Rightarrow> bool" where
  "root_closed r \<longleftrightarrow>
     nb_symbol ` set (names r) \<subseteq> rs_symbol ` set (symbols r) \<and>
     pn_symbol ` set (param_names r) \<subseteq> rs_symbol ` set (symbols r) \<and>
     eb_symbol ` set (exports r) \<subseteq> rs_symbol ` set (symbols r) \<and>
     tnb_type_symbol ` set (type_names r) \<subseteq> rt_type_symbol ` set (types r)"

definition root_wf :: "program_root \<Rightarrow> bool" where
  "root_wf r \<longleftrightarrow> names_wf r \<and> keyed_once r \<and> distinct (map eb_exported_name (exports r)) \<and> root_closed r"

definition definitions_of where
  "definitions_of r = (mset (symbols r), mset (types r), mset (param_names r),
     mset (recursion_groups r), mset (type_recursion_groups r))"

lemma distinct_map_sort [simp]: "distinct (map f (sort_key g xs)) = distinct (map f xs)"
proof -
  have "mset (map f (sort_key g xs)) = mset (map f xs)" by simp
  then show ?thesis by (rule mset_eq_imp_distinct_iff)
qed

lemma root_wf_normalize [simp]: "root_wf (normalize_root r) = root_wf r"
  by (simp add: root_wf_def names_wf_def keyed_once_def root_closed_def nm.unambiguous_def tnm.unambiguous_def)

lemma names_once_normalize [simp]: "names_once (normalize_root r) = names_once r"
  by (simp add: names_once_def)

lemma definitions_normalize [simp]: "definitions_of (normalize_root r) = definitions_of r"
  by (simp add: definitions_of_def)

lemma root_wf_synchronize [simp]: "root_wf (synchronize_module_metadata r) = root_wf r"
  by (simp add: root_wf_def names_wf_def keyed_once_def root_closed_def synchronize_module_metadata_def Let_def)

lemma names_once_synchronize [simp]: "names_once (synchronize_module_metadata r) = names_once r"
  by (simp add: names_once_def synchronize_module_metadata_def Let_def)

lemma definitions_synchronize [simp]: "definitions_of (synchronize_module_metadata r) = definitions_of r"
  by (simp add: definitions_of_def synchronize_module_metadata_def Let_def)

subsection \<open>The contract of an edit\<close>

locale root_preserving =
  fixes edit :: "program_root \<Rightarrow> program_root res"
  assumes keeps_wf: "edit r = Inr r' \<Longrightarrow> root_wf r \<Longrightarrow> root_wf r'"
    and keeps_root_ok: "edit r = Inr r' \<Longrightarrow> root_ok r \<Longrightarrow> root_ok r'"
begin

lemma stored_root:
  assumes env: "env_ok env" and objs: "list_all (object_row_ok env) objs"
    and load: "load_root env objs h = Inr r" and edit: "edit r = Inr r'"
    and store: "store_root env check r' objs = Inr (h', objs')"
  shows "load_root env objs' h' = Inr (normalize_root r')" and "adds env objs objs'"
    and "validate_export_map (normalize_root r') = Inr ()"
  by (rule store_root_result [OF env objs store keeps_root_ok [OF edit load_root_ok [OF env load]]])+

lemma stored_wf:
  assumes env: "env_ok env" and objs: "list_all (object_row_ok env) objs"
    and load: "load_root env objs h = Inr r" and edit: "edit r = Inr r'"
    and store: "store_root env check r' objs = Inr (h', objs')" and wf: "root_wf r"
  shows "\<exists>r'. load_root env objs' h' = Inr r' \<and> root_wf r' \<and> validate_export_map r' = Inr ()"
  using stored_root [OF env objs load edit store] keeps_wf [OF edit wf]
  by (intro exI [of _ "normalize_root r'"]) simp

end

locale root_edit = root_preserving +
  assumes keeps_definitions: "edit r = Inr r' \<Longrightarrow> definitions_of r' = definitions_of r"
begin

lemma stored:
  assumes env: "env_ok env" and objs: "list_all (object_row_ok env) objs"
    and load: "load_root env objs h = Inr r" and edit: "edit r = Inr r'"
    and store: "store_root env check r' objs = Inr (h', objs')" and wf: "root_wf r"
  shows "\<exists>r'. load_root env objs' h' = Inr r' \<and> root_wf r' \<and> definitions_of r' = definitions_of r
    \<and> validate_export_map r' = Inr ()"
  using stored_root [OF env objs load edit store] keeps_wf [OF edit wf] keeps_definitions [OF edit]
  by (intro exI [of _ "normalize_root r'"]) simp

end

lemma root_wf_names:
  "root_wf r \<Longrightarrow> names_wf (r\<lparr>names := ns\<rparr>) \<Longrightarrow> nb_symbol ` set ns \<subseteq> rs_symbol ` set (symbols r)
   \<Longrightarrow> root_wf (r\<lparr>names := ns\<rparr>)"
  by (simp add: root_wf_def keyed_once_def root_closed_def)

lemma names_wf_names:
  "names_wf r \<Longrightarrow> names_wf (r\<lparr>names := ns\<rparr>) \<longleftrightarrow> nm.unambiguous ns \<and>
     (\<forall>b \<in> set ns. validate_module_path ''module'' (nb_module b) = Inr () \<and> is_projection_identifier (nb_display_name b))"
  by (auto simp: names_wf_def)

lemma root_wf_type_names:
  "root_wf r \<Longrightarrow> names_wf (r\<lparr>type_names := ns\<rparr>) \<Longrightarrow> tnb_type_symbol ` set ns \<subseteq> rt_type_symbol ` set (types r)
   \<Longrightarrow> root_wf (r\<lparr>type_names := ns\<rparr>)"
  by (simp add: root_wf_def keyed_once_def root_closed_def)

lemma names_wf_type_names:
  "names_wf r \<Longrightarrow> names_wf (r\<lparr>type_names := ns\<rparr>) \<longleftrightarrow> tnm.unambiguous ns \<and>
     (\<forall>b \<in> set ns. validate_module_path ''module'' (tnb_module b) = Inr () \<and> is_projection_identifier (tnb_display_name b))"
  by (auto simp: names_wf_def)

lemma module_label: "validate_module_path l m = Inr () \<longleftrightarrow> validate_module_path l' m = Inr ()"
  by (simp add: validate_module_path_ok)

lemma root_wf_parts:
  "root_wf r \<Longrightarrow> names_wf r" "root_wf r \<Longrightarrow> nm.unambiguous (names r)" "root_wf r \<Longrightarrow> tnm.unambiguous (type_names r)"
  "root_wf r \<Longrightarrow> nb_symbol ` set (names r) \<subseteq> rs_symbol ` set (symbols r)"
  "root_wf r \<Longrightarrow> tnb_type_symbol ` set (type_names r) \<subseteq> rt_type_symbol ` set (types r)"
  "root_wf r \<Longrightarrow> b \<in> set (names r) \<Longrightarrow> validate_module_path ''module'' (nb_module b) = Inr ()"
  "root_wf r \<Longrightarrow> b \<in> set (names r) \<Longrightarrow> is_projection_identifier (nb_display_name b)"
  "root_wf r \<Longrightarrow> t \<in> set (type_names r) \<Longrightarrow> validate_module_path ''module'' (tnb_module t) = Inr ()"
  "root_wf r \<Longrightarrow> t \<in> set (type_names r) \<Longrightarrow> is_projection_identifier (tnb_display_name t)"
  by (auto simp: root_wf_def names_wf_def root_closed_def)

text \<open>
  Renaming and moving rewrite some bindings of one symbol. The table stays unambiguous when no
  other symbol has a name that a rewritten binding takes.
\<close>

context name_table begin

lemma rewrite_unambiguous:
  assumes un: "unambiguous bs"
    and shape: "\<And>b. b \<in> set bs \<Longrightarrow> f b = b \<or> target (f b) = s \<and> target b = s \<and>
      (\<forall>c \<in> set bs. modl c = modl (f b) \<and> disp c = disp (f b) \<longrightarrow> target c = s)"
  shows "unambiguous (map f bs)"
  unfolding unambiguous_def
proof (intro ballI impI)
  fix x y assume xy: "x \<in> set (map f bs)" "y \<in> set (map f bs)" and eq: "modl x = modl y \<and> disp x = disp y"
  then obtain b c where b: "b \<in> set bs" "x = f b" and c: "c \<in> set bs" "y = f c" by auto
  consider "x = b \<and> y = c" | "target x = s \<and> target y = s" | "f b = b" "f c \<noteq> c" | "f b \<noteq> b" "f c = c"
    using shape [OF b(1)] shape [OF c(1)] b(2) c(2) by blast
  then show "target x = target y"
  proof cases
    case 1
    with eq b(1) c(1) un show ?thesis unfolding unambiguous_def by blast
  next
    case 3
    with shape [OF c(1)] eq b c show ?thesis by auto
  next
    case 4
    with shape [OF b(1)] eq b c show ?thesis by auto
  qed simp
qed

lemma filter_unambiguous: "unambiguous bs \<Longrightarrow> unambiguous (filter P bs)"
  by (auto simp: unambiguous_def)

lemma append_unambiguous:
  "unambiguous bs \<Longrightarrow> \<not> (\<exists>c \<in> set bs. modl c = modl b \<and> disp c = disp b) \<Longrightarrow> unambiguous (bs @ [b])"
  unfolding unambiguous_def
proof (intro ballI impI)
  assume un: "\<forall>a \<in> set bs. \<forall>b \<in> set bs. modl a = modl b \<and> disp a = disp b \<longrightarrow> target a = target b"
    and fresh: "\<not> (\<exists>c \<in> set bs. modl c = modl b \<and> disp c = disp b)"
  fix x y assume xy: "x \<in> set (bs @ [b])" "y \<in> set (bs @ [b])" and eq: "modl x = modl y \<and> disp x = disp y"
  consider "x \<in> set bs" "y \<in> set bs" | "x = b" "y = b" | "x \<in> set bs" "y = b" | "x = b" "y \<in> set bs"
    using xy by auto
  then show "target x = target y"
  proof cases
    case 1
    with un eq show ?thesis by blast
  next
    case 3
    with fresh eq show ?thesis by blast
  next
    case 4
    with fresh eq show ?thesis by metis
  qed simp
qed

end

subsection \<open>The edits meet the contract\<close>

definition rename_checked :: "string \<Rightarrow> string \<Rightarrow> string \<Rightarrow> string \<Rightarrow> program_root \<Rightarrow> program_root res" where
  "rename_checked m s a n r =
     res_bind (validate_module_path ''module'' m) (\<lambda>_.
     res_bind (validate_projection_identifier ''function name'' n) (\<lambda>_. rename_symbol r m s a n))"

definition rename_type_checked :: "string \<Rightarrow> string \<Rightarrow> string \<Rightarrow> string \<Rightarrow> program_root \<Rightarrow> program_root res" where
  "rename_type_checked m s a n r =
     res_bind (validate_module_path ''module'' m) (\<lambda>_.
     res_bind (validate_projection_identifier ''type name'' n) (\<lambda>_. rename_type r m s a n))"

definition move_checked :: "string \<Rightarrow> string \<Rightarrow> string \<Rightarrow> string \<Rightarrow> program_root \<Rightarrow> program_root res" where
  "move_checked m s n new_m r =
     res_bind (validate_module_path ''module'' m) (\<lambda>_.
     res_bind (validate_module_path ''new module'' new_m) (\<lambda>_. move_symbol r m s n new_m))"

definition move_type_checked :: "string \<Rightarrow> string \<Rightarrow> string \<Rightarrow> string \<Rightarrow> program_root \<Rightarrow> program_root res" where
  "move_type_checked m s n new_m r =
     res_bind (validate_module_path ''module'' m) (\<lambda>_.
     res_bind (validate_module_path ''new module'' new_m) (\<lambda>_. move_type r m s n new_m))"

definition alias_checked :: "string \<Rightarrow> string \<Rightarrow> string \<Rightarrow> string \<Rightarrow> program_root \<Rightarrow> program_root res" where
  "alias_checked m s n a r =
     res_bind (validate_projection_identifier ''alias'' a) (\<lambda>_. create_alias r m s n a)"

definition export_checked :: "string \<Rightarrow> string \<Rightarrow> string \<Rightarrow> string \<Rightarrow> program_root \<Rightarrow> program_root res" where
  "export_checked m s n e r =
     res_bind (validate_exported_abi_name e) (\<lambda>_. set_export r m s n e)"

text \<open>The rewritten binding of a renaming and of a move.\<close>

definition renamed :: "string \<Rightarrow> string \<Rightarrow> string \<Rightarrow> string \<Rightarrow> name_binding \<Rightarrow> name_binding" where
  "renamed m s a n b = (if nb_module b = m \<and> nb_display_name b = a \<and> nb_symbol b = s \<and> nb_is_preferred b
     then b\<lparr>nb_display_name := n\<rparr> else b)"

definition type_renamed :: "string \<Rightarrow> string \<Rightarrow> string \<Rightarrow> string \<Rightarrow> type_name_binding \<Rightarrow> type_name_binding" where
  "type_renamed m s a n b = (if tnb_module b = m \<and> tnb_display_name b = a \<and> tnb_type_symbol b = s
     \<and> tnb_is_preferred b then b\<lparr>tnb_display_name := n\<rparr> else b)"

definition moved :: "string \<Rightarrow> string \<Rightarrow> string \<Rightarrow> name_binding \<Rightarrow> name_binding" where
  "moved m s new_m b = (if nb_module b = m \<and> nb_symbol b = s then b\<lparr>nb_module := new_m\<rparr> else b)"

definition type_moved :: "string \<Rightarrow> string \<Rightarrow> string \<Rightarrow> type_name_binding \<Rightarrow> type_name_binding" where
  "type_moved m s new_m b = (if tnb_module b = m \<and> tnb_type_symbol b = s then b\<lparr>tnb_module := new_m\<rparr> else b)"

lemma rename_symbol_Inr:
  "rename_symbol r m s a n = Inr r' \<longleftrightarrow>
     (\<forall>b \<in> set (names r). \<not> (nb_module b = m \<and> nb_display_name b = n)) \<and>
     (\<exists>b \<in> set (names r). nb_module b = m \<and> nb_display_name b = a \<and> nb_symbol b = s \<and> nb_is_preferred b) \<and>
     r' = r\<lparr>names := map (renamed m s a n) (names r)\<rparr>"
  by (auto simp: rename_symbol_def Let_def list_ex_iff renamed_def [abs_def])

lemma rename_type_Inr:
  "rename_type r m s a n = Inr r' \<longleftrightarrow>
     (\<forall>b \<in> set (type_names r). \<not> (tnb_module b = m \<and> tnb_display_name b = n)) \<and>
     (\<exists>b \<in> set (type_names r). tnb_module b = m \<and> tnb_display_name b = a \<and> tnb_type_symbol b = s \<and> tnb_is_preferred b) \<and>
     r' = r\<lparr>type_names := map (type_renamed m s a n) (type_names r)\<rparr>"
  by (auto simp: rename_type_def Let_def list_ex_iff type_renamed_def [abs_def])

lemma move_symbol_Inr:
  "move_symbol r m s n new_m = Inr r' \<longleftrightarrow>
     (\<exists>b \<in> set (names r). nb_module b = m \<and> nb_display_name b = n \<and> nb_symbol b = s \<and> nb_is_preferred b) \<and>
     (\<forall>b \<in> set (names r). \<forall>c \<in> set (names r). nb_module b = m \<and> nb_symbol b = s \<and> nb_module c = new_m
        \<and> nb_display_name c = nb_display_name b \<longrightarrow> nb_symbol c = s) \<and>
     r' = synchronize_module_metadata (r\<lparr>names := map (moved m s new_m) (names r)\<rparr>)"
proof (cases "\<exists>b \<in> set (names r). nb_module b = m \<and> nb_display_name b = n \<and> nb_symbol b = s \<and> nb_is_preferred b")
  case True
  let ?owned = "\<lambda>b. nb_module b = m \<and> nb_symbol b = s"
  let ?moved = "bset_of_list (map nb_display_name (filter ?owned (names r)))"
  let ?taken = "\<lambda>x. list_ex (\<lambda>b. nb_module b = new_m \<and> nb_display_name b = x \<and> nb_symbol b \<noteq> s) (names r)"
  have any: "list_ex ?owned (names r)" "?moved \<noteq> []"
    and pref: "list_ex (\<lambda>b. nb_module b = m \<and> nb_display_name b = n \<and> nb_symbol b = s \<and> nb_is_preferred b) (names r)"
    using True by (auto simp: list_ex_iff filter_empty_conv)
  have "res_fold (\<lambda>x (_ :: unit). if ?taken x then Inl (f x) else Inr ()) ?moved () = Inr u \<longleftrightarrow> (\<forall>x \<in> set ?moved. \<not> ?taken x)"
    for f :: "string \<Rightarrow> error" and u
    by (simp add: res_fold_unit) blast
  moreover have "(\<forall>x \<in> set ?moved. \<not> ?taken x) \<longleftrightarrow>
      (\<forall>b \<in> set (names r). \<forall>c \<in> set (names r). nb_module b = m \<and> nb_symbol b = s \<and> nb_module c = new_m
        \<and> nb_display_name c = nb_display_name b \<longrightarrow> nb_symbol c = s)"
    by (simp add: list_ex_iff) blast
  ultimately show ?thesis
    using True any pref unfolding move_symbol_def Let_def moved_def [abs_def]
    by (simp only: if_False if_True not_True_eq_False res_bind_eq_Inr simp_thms ex_simps sum.inject) metis
qed (simp add: move_symbol_def Let_def list_ex_iff)

lemma move_type_Inr:
  "move_type r m s n new_m = Inr r' \<longleftrightarrow>
     (\<exists>b \<in> set (type_names r). tnb_module b = m \<and> tnb_display_name b = n \<and> tnb_type_symbol b = s \<and> tnb_is_preferred b) \<and>
     (\<forall>b \<in> set (type_names r). \<forall>c \<in> set (type_names r). tnb_module b = m \<and> tnb_type_symbol b = s \<and> tnb_module c = new_m
        \<and> tnb_display_name c = tnb_display_name b \<longrightarrow> tnb_type_symbol c = s) \<and>
     r' = synchronize_module_metadata (r\<lparr>type_names := map (type_moved m s new_m) (type_names r)\<rparr>)"
proof (cases "\<exists>b \<in> set (type_names r). tnb_module b = m \<and> tnb_display_name b = n \<and> tnb_type_symbol b = s \<and> tnb_is_preferred b")
  case True
  let ?owned = "\<lambda>b. tnb_module b = m \<and> tnb_type_symbol b = s"
  let ?moved = "bset_of_list (map tnb_display_name (filter ?owned (type_names r)))"
  let ?taken = "\<lambda>x. list_ex (\<lambda>b. tnb_module b = new_m \<and> tnb_display_name b = x \<and> tnb_type_symbol b \<noteq> s) (type_names r)"
  have any: "list_ex ?owned (type_names r)" "?moved \<noteq> []"
    and pref: "list_ex (\<lambda>b. tnb_module b = m \<and> tnb_display_name b = n \<and> tnb_type_symbol b = s \<and> tnb_is_preferred b) (type_names r)"
    using True by (auto simp: list_ex_iff filter_empty_conv)
  have "res_fold (\<lambda>x (_ :: unit). if ?taken x then Inl (f x) else Inr ()) ?moved () = Inr u \<longleftrightarrow> (\<forall>x \<in> set ?moved. \<not> ?taken x)"
    for f :: "string \<Rightarrow> error" and u
    by (simp add: res_fold_unit) blast
  moreover have "(\<forall>x \<in> set ?moved. \<not> ?taken x) \<longleftrightarrow>
      (\<forall>b \<in> set (type_names r). \<forall>c \<in> set (type_names r). tnb_module b = m \<and> tnb_type_symbol b = s \<and> tnb_module c = new_m
        \<and> tnb_display_name c = tnb_display_name b \<longrightarrow> tnb_type_symbol c = s)"
    by (simp add: list_ex_iff) blast
  ultimately show ?thesis
    using True any pref unfolding move_type_def Let_def type_moved_def [abs_def]
    by (simp only: if_False if_True not_True_eq_False res_bind_eq_Inr simp_thms ex_simps sum.inject) metis
qed (simp add: move_type_def Let_def list_ex_iff)

lemma definitions_names [simp]:
  "definitions_of (r\<lparr>names := ns\<rparr>) = definitions_of r"
  "definitions_of (r\<lparr>type_names := ts\<rparr>) = definitions_of r"
  "definitions_of (r\<lparr>exports := es\<rparr>) = definitions_of r"
  "definitions_of (r\<lparr>tests := bs\<rparr>) = definitions_of r"
  by (simp_all add: definitions_of_def)

interpretation rename: root_edit "rename_checked m s a n" for m s a n
proof
  fix r r' assume edit: "rename_checked m s a n r = Inr r'"
  then have n: "is_projection_identifier n" and r': "rename_symbol r m s a n = Inr r'"
    by (auto simp: rename_checked_def validate_projection_identifier_ok)
  note parts = r' [unfolded rename_symbol_Inr]
  show "definitions_of r' = definitions_of r" using parts by simp
  show "root_ok r \<Longrightarrow> root_ok r'" using root_ok_edits(1) r' by blast
  assume wf: "root_wf r"
  have "\<forall>b \<in> set (map (renamed m s a n) (names r)). validate_module_path ''module'' (nb_module b) = Inr ()
      \<and> is_projection_identifier (nb_display_name b)"
    using root_wf_parts(6,7) [OF wf] n by (auto simp: renamed_def)
  moreover have "nm.unambiguous (map (renamed m s a n) (names r))"
    by (rule nm.rewrite_unambiguous [where s = s, OF root_wf_parts(2) [OF wf]])
      (use parts in \<open>auto simp: renamed_def\<close>)
  moreover have "nb_symbol (renamed m s a n b) = nb_symbol b" for b by (simp add: renamed_def)
  ultimately show "root_wf r'"
    using parts root_wf_parts(4) [OF wf]
    by (simp add: root_wf_names [OF wf] names_wf_names [OF root_wf_parts(1) [OF wf]] image_image)
qed

interpretation rename_type: root_edit "rename_type_checked m s a n" for m s a n
proof
  fix r r' assume edit: "rename_type_checked m s a n r = Inr r'"
  then have n: "is_projection_identifier n" and r': "rename_type r m s a n = Inr r'"
    by (auto simp: rename_type_checked_def validate_projection_identifier_ok)
  note parts = r' [unfolded rename_type_Inr]
  show "definitions_of r' = definitions_of r" using parts by simp
  show "root_ok r \<Longrightarrow> root_ok r'" using root_ok_edits(9) r' by blast
  assume wf: "root_wf r"
  have "\<forall>b \<in> set (map (type_renamed m s a n) (type_names r)). validate_module_path ''module'' (tnb_module b) = Inr ()
      \<and> is_projection_identifier (tnb_display_name b)"
    using root_wf_parts(8,9) [OF wf] n by (auto simp: type_renamed_def)
  moreover have "tnm.unambiguous (map (type_renamed m s a n) (type_names r))"
    by (rule tnm.rewrite_unambiguous [where s = s, OF root_wf_parts(3) [OF wf]])
      (use parts in \<open>auto simp: type_renamed_def\<close>)
  moreover have "tnb_type_symbol (type_renamed m s a n b) = tnb_type_symbol b" for b by (simp add: type_renamed_def)
  ultimately show "root_wf r'"
    using parts root_wf_parts(5) [OF wf]
    by (simp add: root_wf_type_names [OF wf] names_wf_type_names [OF root_wf_parts(1) [OF wf]] image_image)
qed

interpretation move: root_edit "move_checked m s n new_m" for m s n new_m
proof
  fix r r' assume edit: "move_checked m s n new_m r = Inr r'"
  then have path: "validate_module_path ''module'' new_m = Inr ()" and r': "move_symbol r m s n new_m = Inr r'"
    using module_label by (auto simp: move_checked_def)
  note parts = r' [unfolded move_symbol_Inr]
  show "definitions_of r' = definitions_of r" using parts by simp
  show "root_ok r \<Longrightarrow> root_ok r'" using root_ok_edits(2) r' by blast
  assume wf: "root_wf r"
  have "\<forall>b \<in> set (map (moved m s new_m) (names r)). validate_module_path ''module'' (nb_module b) = Inr ()
      \<and> is_projection_identifier (nb_display_name b)"
    using root_wf_parts(6,7) [OF wf] path by (auto simp: moved_def)
  moreover have "nm.unambiguous (map (moved m s new_m) (names r))"
  proof (rule nm.rewrite_unambiguous [where s = s, OF root_wf_parts(2) [OF wf]])
    fix b assume b: "b \<in> set (names r)"
    show "moved m s new_m b = b \<or> nb_symbol (moved m s new_m b) = s \<and> nb_symbol b = s \<and>
      (\<forall>c \<in> set (names r). nb_module c = nb_module (moved m s new_m b) \<and> nb_display_name c = nb_display_name (moved m s new_m b)
        \<longrightarrow> nb_symbol c = s)"
    proof (cases "nb_module b = m \<and> nb_symbol b = s")
      case True
      then have new: "moved m s new_m b = b\<lparr>nb_module := new_m\<rparr>" by (simp add: moved_def)
      have "\<forall>c \<in> set (names r). nb_module c = new_m \<and> nb_display_name c = nb_display_name b \<longrightarrow> nb_symbol c = s"
        using parts b True by blast
      with True show ?thesis unfolding new by simp
    qed (auto simp: moved_def)
  qed
  moreover have "nb_symbol (moved m s new_m b) = nb_symbol b" for b by (simp add: moved_def)
  ultimately show "root_wf r'"
    using parts root_wf_parts(4) [OF wf]
    by (simp add: root_wf_names [OF wf] names_wf_names [OF root_wf_parts(1) [OF wf]] image_image)
qed

interpretation move_type: root_edit "move_type_checked m s n new_m" for m s n new_m
proof
  fix r r' assume edit: "move_type_checked m s n new_m r = Inr r'"
  then have path: "validate_module_path ''module'' new_m = Inr ()" and r': "move_type r m s n new_m = Inr r'"
    using module_label by (auto simp: move_type_checked_def)
  note parts = r' [unfolded move_type_Inr]
  show "definitions_of r' = definitions_of r" using parts by simp
  show "root_ok r \<Longrightarrow> root_ok r'" using root_ok_edits(10) r' by blast
  assume wf: "root_wf r"
  have "\<forall>b \<in> set (map (type_moved m s new_m) (type_names r)). validate_module_path ''module'' (tnb_module b) = Inr ()
      \<and> is_projection_identifier (tnb_display_name b)"
    using root_wf_parts(8,9) [OF wf] path by (auto simp: type_moved_def)
  moreover have "tnm.unambiguous (map (type_moved m s new_m) (type_names r))"
  proof (rule tnm.rewrite_unambiguous [where s = s, OF root_wf_parts(3) [OF wf]])
    fix b assume b: "b \<in> set (type_names r)"
    show "type_moved m s new_m b = b \<or> tnb_type_symbol (type_moved m s new_m b) = s \<and> tnb_type_symbol b = s \<and>
      (\<forall>c \<in> set (type_names r). tnb_module c = tnb_module (type_moved m s new_m b) \<and> tnb_display_name c = tnb_display_name (type_moved m s new_m b)
        \<longrightarrow> tnb_type_symbol c = s)"
    proof (cases "tnb_module b = m \<and> tnb_type_symbol b = s")
      case True
      then have new: "type_moved m s new_m b = b\<lparr>tnb_module := new_m\<rparr>" by (simp add: type_moved_def)
      have "\<forall>c \<in> set (type_names r). tnb_module c = new_m \<and> tnb_display_name c = tnb_display_name b \<longrightarrow> tnb_type_symbol c = s"
        using parts b True by blast
      with True show ?thesis unfolding new by simp
    qed (auto simp: type_moved_def)
  qed
  moreover have "tnb_type_symbol (type_moved m s new_m b) = tnb_type_symbol b" for b by (simp add: type_moved_def)
  ultimately show "root_wf r'"
    using parts root_wf_parts(5) [OF wf]
    by (simp add: root_wf_type_names [OF wf] names_wf_type_names [OF root_wf_parts(1) [OF wf]] image_image)
qed

lemma assert_name_points_Inr:
  "assert_name_points r m n s = Inr u \<longleftrightarrow>
     (\<exists>b \<in> set (names r). nb_module b = m \<and> nb_display_name b = n \<and> nb_symbol b = s)"
  by (auto simp: assert_name_points_def list_ex_iff)

abbreviation alias_binding :: "string \<Rightarrow> string \<Rightarrow> string \<Rightarrow> name_binding" where
  "alias_binding m a s \<equiv> \<lparr>nb_module = m, nb_display_name = a, nb_symbol = s, nb_is_preferred = False\<rparr>"

lemma create_alias_Inr:
  "create_alias r m s n a = Inr r' \<longleftrightarrow>
     (\<exists>b \<in> set (names r). nb_module b = m \<and> nb_display_name b = n \<and> nb_symbol b = s) \<and>
     (\<forall>b \<in> set (names r). \<not> (nb_module b = m \<and> nb_display_name b = a)) \<and>
     r' = r\<lparr>names := names r @ [alias_binding m a s]\<rparr>"
  by (auto simp: create_alias_def assert_name_points_Inr list_ex_iff)

interpretation create_alias: root_edit "alias_checked m s n a" for m s n a
proof
  fix r r' assume edit: "alias_checked m s n a r = Inr r'"
  then have a: "is_projection_identifier a" and r': "create_alias r m s n a = Inr r'"
    by (auto simp: alias_checked_def validate_projection_identifier_ok)
  note parts = r' [unfolded create_alias_Inr]
  show "definitions_of r' = definitions_of r" using parts by simp
  show "root_ok r \<Longrightarrow> root_ok r'" using root_ok_edits(4) r' by blast
  assume wf: "root_wf r"
  obtain b where b: "b \<in> set (names r)" "nb_module b = m" "nb_symbol b = s" using parts by blast
  have "nm.unambiguous (names r @ [alias_binding m a s])"
    by (rule nm.append_unambiguous [OF root_wf_parts(2) [OF wf]]) (use parts in auto)
  moreover have "s \<in> rs_symbol ` set (symbols r)" using root_wf_parts(4) [OF wf] b by auto
  moreover have "\<forall>b \<in> set (names r @ [alias_binding m a s]). validate_module_path ''module'' (nb_module b) = Inr ()
      \<and> is_projection_identifier (nb_display_name b)"
    using root_wf_parts(6,7) [OF wf] b a by auto
  ultimately show "root_wf r'"
    using parts root_wf_parts(4) [OF wf]
    by (simp add: root_wf_names [OF wf] names_wf_names [OF root_wf_parts(1) [OF wf]])
qed

lemma length_filter_eq: "length (filter P xs) = length xs \<longleftrightarrow> (\<forall>x \<in> set xs. P x)"
  by (metis filter_True filter_id_conv length_filter_less less_irrefl)

interpretation remove_alias: root_edit "\<lambda>r. remove_alias r m s n a" for m s n a
proof
  fix r r' assume r': "remove_alias r m s n a = Inr r'"
  then obtain P where parts: "r' = r\<lparr>names := filter P (names r)\<rparr>"
    by (auto simp: remove_alias_def Let_def split: if_splits)
  show "definitions_of r' = definitions_of r" using parts by simp
  show "root_ok r \<Longrightarrow> root_ok r'" using root_ok_edits(5) r' by blast
  assume wf: "root_wf r"
  have "nm.unambiguous (filter P (names r))" by (rule nm.filter_unambiguous [OF root_wf_parts(2) [OF wf]])
  then show "root_wf r'"
    using parts root_wf_parts(4,6,7) [OF wf]
    by (auto simp: names_wf_names [OF root_wf_parts(1) [OF wf]] intro!: root_wf_names [OF wf])
qed

lemma set_export_Inr:
  "set_export r m s n e = Inr r' \<longleftrightarrow>
     (\<exists>b \<in> set (names r). nb_module b = m \<and> nb_display_name b = n \<and> nb_symbol b = s) \<and>
     e \<notin> eb_exported_name ` set (exports r) \<and>
     r' = r\<lparr>exports := exports r @ [\<lparr>eb_symbol = s, eb_exported_name = e\<rparr>]\<rparr>"
  by (auto simp: set_export_def assert_name_points_Inr list_ex_iff)

interpretation set_export: root_edit "export_checked m s n e" for m s n e
proof
  fix r r' assume "export_checked m s n e r = Inr r'"
  then have r': "set_export r m s n e = Inr r'" by (auto simp: export_checked_def)
  note parts = r' [unfolded set_export_Inr]
  show "definitions_of r' = definitions_of r" using parts by simp
  show "root_ok r \<Longrightarrow> root_ok r'" using root_ok_edits(6) r' by blast
  assume wf: "root_wf r"
  then have "s \<in> rs_symbol ` set (symbols r)" using root_wf_parts(4) [OF wf] parts by auto
  with wf parts show "root_wf r'"
    by (auto simp: root_wf_def names_wf_def keyed_once_def root_closed_def)
qed

interpretation remove_export: root_edit "\<lambda>r. remove_export r m s n e" for m s n e
proof
  fix r r' assume r': "remove_export r m s n e = Inr r'"
  then obtain P where parts: "r' = r\<lparr>exports := filter P (exports r)\<rparr>"
    by (auto simp: remove_export_def Let_def split: if_splits)
  show "definitions_of r' = definitions_of r" using parts by simp
  show "root_ok r \<Longrightarrow> root_ok r'" using root_ok_edits(7) r' by blast
  assume "root_wf r"
  then show "root_wf r'" using parts
    by (auto simp: root_wf_def names_wf_def keyed_once_def root_closed_def distinct_map_filter)
qed

interpretation delete_test: root_edit "\<lambda>r. delete_test r n t" for n t
proof
  fix r r' assume r': "delete_test r n t = Inr r'"
  then obtain P where parts: "r' = r\<lparr>tests := filter P (tests r)\<rparr>"
    by (auto simp: delete_test_def Let_def split: if_splits)
  show "definitions_of r' = definitions_of r" using parts by simp
  show "root_ok r \<Longrightarrow> root_ok r'" using root_ok_edits(8) r' by blast
  assume "root_wf r"
  then show "root_wf r'" using parts
    by (simp add: root_wf_def names_wf_def keyed_once_def root_closed_def)
qed

interpretation delete_symbol: root_preserving "\<lambda>r. Inr (delete_symbol_entries r s force live)" for s force live
proof
  fix r r' :: program_root assume r': "Inr (delete_symbol_entries r s force live) = (Inr r' :: program_root res)"
  show "root_ok r \<Longrightarrow> root_ok r'" using root_ok_edits(3) r' by auto
  assume "root_wf r"
  then have wf: "names_wf r" "keyed_once r" "distinct (map eb_exported_name (exports r))" "root_closed r"
    by (simp_all add: root_wf_def)
  have r': "r' = delete_symbol_entries r s force live" using r' by simp
  have "names_wf r'" using wf(1) unfolding r' by (simp add: names_wf_def delete_symbol_entries_def nm.filter_unambiguous)
  moreover have "keyed_once r'" using wf(2) unfolding r' by (simp add: keyed_once_def delete_symbol_entries_def distinct_map_filter)
  moreover have "distinct (map eb_exported_name (exports r'))"
    using wf(3) unfolding r' by (simp add: delete_symbol_entries_def distinct_map_filter)
  moreover have "root_closed r'" using wf(4) unfolding r' by (auto simp: root_closed_def delete_symbol_entries_def)
  ultimately show "root_wf r'" by (simp add: root_wf_def)
qed

end
