(* ===== verification/EditSpec.thy ===== *)
theory EditSpec
  imports NameEdits
begin

text \<open>
  What the operations on names, exports and tests mean to a client: a root is seen as four maps
  (names, type names, exports, tests), an operation is an update of the maps, and the code
  refines it. The conditions of the operations are statements on the maps, so that the code's
  own checks can be compared with them.
\<close>

subsection \<open>A list with unique keys as a map\<close>

definition table :: "('a \<Rightarrow> 'k) \<Rightarrow> ('a \<Rightarrow> 'v) \<Rightarrow> 'a list \<Rightarrow> 'k \<rightharpoonup> 'v" where
  "table key val xs k = map_option val (find (\<lambda>x. key x = k) xs)"

lemma table_Some:
  assumes "distinct (map key xs)"
  shows "table key val xs k = Some v \<longleftrightarrow> (\<exists>x \<in> set xs. key x = k \<and> val x = v)"
  unfolding table_def using assms by (induction xs) (auto simp: image_iff)

lemma table_None: "table key val xs k = None \<longleftrightarrow> k \<notin> key ` set xs"
  by (auto simp: table_def find_eq_None_iff)

lemma map_eqI: "(\<And>k v. f k = Some v \<longleftrightarrow> g k = Some v) \<Longrightarrow> f = (g :: _ \<rightharpoonup> _)"
  by (rule ext) (metis option.exhaust)

lemma table_sort [simp]: "distinct (map key xs) \<Longrightarrow> table key val (sort_key f xs) = table key val xs"
  by (rule map_eqI) (simp add: table_Some)

lemma table_append:
  assumes "distinct (map key xs)" and "key x \<notin> key ` set xs"
  shows "table key val (xs @ [x]) = (table key val xs)(key x \<mapsto> val x)"
  using assms by (intro map_eqI) (auto simp: table_Some image_iff)

lemma table_remove:
  assumes dist: "distinct (map key xs)" and x: "x \<in> set xs"
    and P: "\<And>y. y \<in> set xs \<Longrightarrow> P y \<longleftrightarrow> y \<noteq> x"
  shows "table key val (filter P xs) = (table key val xs)(key x := None)"
proof -
  have "distinct (map key (filter P xs))" using dist by (simp add: distinct_map_filter)
  moreover have "y = x" if "y \<in> set xs" "key y = key x" for y
    using dist x that by (auto simp: distinct_map inj_on_def)
  ultimately show ?thesis using dist P by (intro map_eqI) (auto simp: table_Some)
qed

text \<open>Renaming: the entry at \<open>a\<close> goes to \<open>n\<close>, a free key.\<close>

lemma table_rename:
  assumes dist: "distinct (map key xs)" and b: "b \<in> set xs" "key b = a" and free: "n \<notin> key ` set xs"
    and key: "\<And>x. x \<in> set xs \<Longrightarrow> key (f x) = (if x = b then n else key x)"
    and val: "\<And>x. x \<in> set xs \<Longrightarrow> val (f x) = val x"
  shows "distinct (map key (map f xs))"
    and "table key val (map f xs) = (table key val xs)(a := None, n \<mapsto> val b)"
proof -
  have only: "x = y" if "x \<in> set xs" "y \<in> set xs" "key x = key y" for x y
    using dist that by (auto simp: distinct_map inj_on_def)
  have inj: "x = y" if "x \<in> set xs" "y \<in> set xs" "key (f x) = key (f y)" for x y
    using key free only that by (metis imageI)
  then show dist': "distinct (map key (map f xs))"
    using dist by (auto simp: distinct_map inj_on_def)
  show "table key val (map f xs) = (table key val xs)(a := None, n \<mapsto> val b)"
  proof (rule map_eqI)
    fix k v
    have "table key val (map f xs) k = Some v \<longleftrightarrow> (\<exists>x \<in> set xs. key (f x) = k \<and> val x = v)"
      using val by (auto simp: table_Some [OF dist'])
    also have "\<dots> \<longleftrightarrow> (if k = n then v = val b else k \<noteq> a \<and> (\<exists>x \<in> set xs. key x = k \<and> val x = v))"
      using key free b only by (metis imageI)
    also have "\<dots> \<longleftrightarrow> ((table key val xs)(a := None, n \<mapsto> val b)) k = Some v"
      by (auto simp: table_Some [OF dist])
    finally show "table key val (map f xs) k = Some v \<longleftrightarrow> ((table key val xs)(a := None, n \<mapsto> val b)) k = Some v" .
  qed
qed

text \<open>
  Moving: the entries of \<open>s\<close> in module \<open>m\<close> go to another module, under keys that are free.
  The value of an entry is its owner and whether it is preferred.
\<close>

definition owned_by :: "string \<Rightarrow> (string \<times> bool) option \<Rightarrow> bool" where
  "owned_by s entry = (case entry of None \<Rightarrow> False | Some (owner, _) \<Rightarrow> owner = s)"

definition move_entries ::
    "string \<Rightarrow> string \<Rightarrow> string \<Rightarrow> (string \<times> string \<rightharpoonup> string \<times> bool) \<Rightarrow> (string \<times> string \<rightharpoonup> string \<times> bool)" where
  "move_entries m s new_m t = (\<lambda>(md, x).
     if md = new_m \<and> owned_by s (t (m, x)) then t (m, x)
     else if md = m \<and> owned_by s (t (m, x)) then None
     else t (md, x))"

lemma table_move:
  fixes key :: "'a \<Rightarrow> string \<times> string" and val :: "'a \<Rightarrow> string \<times> bool"
  assumes dist: "distinct (map key xs)" and other: "m \<noteq> new_m"
    and free: "\<And>x. x \<in> set xs \<Longrightarrow> fst (key x) = m \<Longrightarrow> fst (val x) = s \<Longrightarrow> (new_m, snd (key x)) \<notin> key ` set xs"
    and key: "\<And>x. x \<in> set xs \<Longrightarrow> key (f x) = (if fst (key x) = m \<and> fst (val x) = s then (new_m, snd (key x)) else key x)"
    and val: "\<And>x. x \<in> set xs \<Longrightarrow> val (f x) = val x"
  shows "distinct (map key (map f xs))"
    and "table key val (map f xs) = move_entries m s new_m (table key val xs)"
proof -
  have only: "x = y" if "x \<in> set xs" "y \<in> set xs" "key x = key y" for x y
    using dist that by (auto simp: distinct_map inj_on_def)
  have inj: "x = y" if "x \<in> set xs" "y \<in> set xs" "key (f x) = key (f y)" for x y
  proof -
    have "key x = key y"
      using key [OF that(1)] key [OF that(2)] that free [OF that(1)] free [OF that(2)]
      by (auto split: if_splits simp: prod_eq_iff) (metis imageI prod.collapse)+
    then show ?thesis by (rule only [OF that(1,2)])
  qed
  then show dist': "distinct (map key (map f xs))"
    using dist by (auto simp: distinct_map inj_on_def)
  have owned: "owned_by s (table key val xs k) \<longleftrightarrow> (\<exists>x \<in> set xs. key x = k \<and> fst (val x) = s)" for k
  proof -
    have "owned_by s t \<longleftrightarrow> (\<exists>v. t = Some v \<and> fst v = s)" for t by (auto simp: owned_by_def split: option.split)
    then show ?thesis by (simp add: table_Some [OF dist] del: split_paired_Ex) blast
  qed
  show "table key val (map f xs) = move_entries m s new_m (table key val xs)"
  proof (rule map_eqI)
    fix k :: "string \<times> string" and v
    obtain md n where k: "k = (md, n)" by (cases k)
    let ?at = "\<lambda>md x. x \<in> set xs \<and> key x = (md, n)"
    have "table key val (map f xs) k = Some v \<longleftrightarrow> (\<exists>x. x \<in> set xs \<and> key (f x) = k \<and> val x = v)"
      using val by (auto simp: table_Some [OF dist'])
    also have "\<dots> \<longleftrightarrow> (\<exists>x. md = new_m \<and> ?at m x \<and> fst (val x) = s \<and> val x = v)
        \<or> (\<exists>x. ?at md x \<and> \<not> (md = m \<and> fst (val x) = s) \<and> val x = v)"
      using key by (auto simp: k prod_eq_iff split: if_splits)
    also have "\<dots> \<longleftrightarrow> (if md = new_m \<and> (\<exists>x. ?at m x \<and> fst (val x) = s) then \<exists>x. ?at m x \<and> val x = v
         else \<not> (md = m \<and> (\<exists>x. ?at m x \<and> fst (val x) = s)) \<and> (\<exists>x. ?at md x \<and> val x = v))"
    proof (cases "\<exists>x. ?at m x \<and> fst (val x) = s")
      case True
      then obtain x0 where x0: "?at m x0" "fst (val x0) = s" by blast
      then have none: "\<not> ?at new_m y" for y using free [of x0] by force
      have "?at m y \<longleftrightarrow> y = x0" for y using only [of y x0] x0(1) by fastforce
      then have "(\<exists>x. ?at m x \<and> P x) \<longleftrightarrow> P x0" for P by simp
      then have single: "(\<exists>x. x \<in> set xs \<and> key x = (m, n) \<and> P x) \<longleftrightarrow> P x0" for P by simp
      consider "md = new_m" | "md \<noteq> new_m" "md = m" | "md \<noteq> new_m" "md \<noteq> m" by blast
      then show ?thesis
      proof cases
        case 1
        with none show ?thesis by (simp only: single x0 simp_thms if_True HOL.conj_assoc)
      next
        case 2
        then show ?thesis by (simp only: single x0 simp_thms if_False HOL.conj_assoc)
      qed simp
    next
      case False
      then have "\<not> (md = m \<and> fst (val x) = s)" if "?at md x" for x using that by blast
      with False show ?thesis by (simp only: if_False simp_thms) blast
    qed
    also have "\<dots> \<longleftrightarrow> move_entries m s new_m (table key val xs) k = Some v"
    proof -
      have "(\<exists>x. ?at m x \<and> fst (val x) = s) \<longleftrightarrow> owned_by s (table key val xs (m, n))"
        and "(\<exists>x. ?at md' x \<and> val x = v) \<longleftrightarrow> table key val xs (md', n) = Some v" for md'
        by (auto simp: owned table_Some [OF dist])
      then show ?thesis by (simp only: k move_entries_def case_prod_conv) simp
    qed
    finally show "table key val (map f xs) k = Some v \<longleftrightarrow> move_entries m s new_m (table key val xs) k = Some v" .
  qed
qed

subsection \<open>The view of a root\<close>

record root_view =
  v_names :: "string \<times> string \<rightharpoonup> string \<times> bool"
  v_types :: "string \<times> string \<rightharpoonup> string \<times> bool"
  v_exports :: "string \<rightharpoonup> string"
  v_tests :: "string \<rightharpoonup> string"

definition name_place :: "name_binding \<Rightarrow> string \<times> string" where
  "name_place b = (nb_module b, nb_display_name b)"

definition type_name_place :: "type_name_binding \<Rightarrow> string \<times> string" where
  "type_name_place b = (tnb_module b, tnb_display_name b)"

definition view_of :: "program_root \<Rightarrow> root_view" where
  "view_of r = \<lparr>v_names = table name_place (\<lambda>b. (nb_symbol b, nb_is_preferred b)) (names r),
     v_types = table type_name_place (\<lambda>b. (tnb_type_symbol b, tnb_is_preferred b)) (type_names r),
     v_exports = table eb_exported_name eb_symbol (exports r),
     v_tests = table tb_name tb_test (tests r)\<rparr>"

lemma names_once_keys:
  "names_once r \<longleftrightarrow> distinct (map name_place (names r)) \<and> distinct (map type_name_place (type_names r)) \<and>
     distinct (map eb_exported_name (exports r)) \<and> distinct (map tb_name (tests r))"
  by (simp add: names_once_def name_place_def [abs_def] type_name_place_def [abs_def])

lemma view_normalize [simp]: "names_once r \<Longrightarrow> view_of (normalize_root r) = view_of r"
  by (simp add: view_of_def names_once_keys)

lemma synchronize_tables [simp]:
  "names (synchronize_module_metadata r) = names r" "type_names (synchronize_module_metadata r) = type_names r"
  "exports (synchronize_module_metadata r) = exports r" "tests (synchronize_module_metadata r) = tests r"
  by (simp_all add: synchronize_module_metadata_def Let_def)

lemma view_synchronize [simp]: "view_of (synchronize_module_metadata r) = view_of r"
  by (simp add: view_of_def)

lemma view_Some:
  assumes "names_once r"
  shows "v_names (view_of r) (m, n) = Some (s, p) \<longleftrightarrow> (\<exists>b \<in> set (names r). nb_module b = m \<and> nb_display_name b = n
      \<and> nb_symbol b = s \<and> nb_is_preferred b = p)"
    and "v_types (view_of r) (m, n) = Some (s, p) \<longleftrightarrow> (\<exists>b \<in> set (type_names r). tnb_module b = m
      \<and> tnb_display_name b = n \<and> tnb_type_symbol b = s \<and> tnb_is_preferred b = p)"
    and "v_exports (view_of r) e = Some s \<longleftrightarrow> (\<exists>b \<in> set (exports r). eb_exported_name b = e \<and> eb_symbol b = s)"
    and "v_tests (view_of r) e = Some s \<longleftrightarrow> (\<exists>b \<in> set (tests r). tb_name b = e \<and> tb_test b = s)"
  using assms by (auto simp: view_of_def names_once_keys table_Some name_place_def type_name_place_def)

lemma view_None:
  "v_names (view_of r) (m, n) = None \<longleftrightarrow> (\<forall>b \<in> set (names r). \<not> (nb_module b = m \<and> nb_display_name b = n))"
  "v_types (view_of r) (m, n) = None \<longleftrightarrow> (\<forall>b \<in> set (type_names r). \<not> (tnb_module b = m \<and> tnb_display_name b = n))"
  "v_exports (view_of r) e = None \<longleftrightarrow> (\<forall>b \<in> set (exports r). eb_exported_name b \<noteq> e)"
  "v_tests (view_of r) e = None \<longleftrightarrow> (\<forall>b \<in> set (tests r). tb_name b \<noteq> e)"
  by (auto simp: view_of_def table_None name_place_def type_name_place_def)

subsection \<open>The operations as updates of the view\<close>

definition edits_view :: "operation \<Rightarrow> bool" where
  "edits_view op = (case op of RenameSymbol _ _ _ _ \<Rightarrow> True | MoveSymbol _ _ _ _ \<Rightarrow> True | CreateAlias _ _ _ _ \<Rightarrow> True
     | RemoveAlias _ _ _ _ \<Rightarrow> True | SetExport _ _ _ _ \<Rightarrow> True | RemoveExport _ _ _ _ \<Rightarrow> True
     | RenameType _ _ _ _ \<Rightarrow> True | MoveType _ _ _ _ \<Rightarrow> True | DeleteTest _ _ \<Rightarrow> True | _ \<Rightarrow> False)"

definition allowed :: "operation \<Rightarrow> root_view \<Rightarrow> bool" where
  "allowed op v = (case op of
     RenameSymbol m s a n \<Rightarrow> v_names v (m, a) = Some (s, True) \<and> v_names v (m, n) = None
   | MoveSymbol m s n new_m \<Rightarrow> v_names v (m, n) = Some (s, True) \<and>
       (m \<noteq> new_m \<longrightarrow> (\<forall>x. owned_by s (v_names v (m, x)) \<longrightarrow> v_names v (new_m, x) = None))
   | CreateAlias m s n a \<Rightarrow> owned_by s (v_names v (m, n)) \<and> v_names v (m, a) = None
   | RemoveAlias m s n a \<Rightarrow> owned_by s (v_names v (m, n)) \<and> v_names v (m, a) = Some (s, False)
   | SetExport m s n e \<Rightarrow> owned_by s (v_names v (m, n)) \<and> v_exports v e = None
   | RemoveExport m s n e \<Rightarrow> owned_by s (v_names v (m, n)) \<and> v_exports v e = Some s
   | RenameType m s a n \<Rightarrow> v_types v (m, a) = Some (s, True) \<and> v_types v (m, n) = None
   | MoveType m s n new_m \<Rightarrow> v_types v (m, n) = Some (s, True) \<and>
       (m \<noteq> new_m \<longrightarrow> (\<forall>x. owned_by s (v_types v (m, x)) \<longrightarrow> v_types v (new_m, x) = None))
   | DeleteTest n t \<Rightarrow> v_tests v n = Some t
   | _ \<Rightarrow> False)"

definition edit_view :: "operation \<Rightarrow> root_view \<Rightarrow> root_view" where
  "edit_view op v = (case op of
     RenameSymbol m s a n \<Rightarrow> v\<lparr>v_names := (v_names v)((m, a) := None, (m, n) \<mapsto> (s, True))\<rparr>
   | MoveSymbol m s n new_m \<Rightarrow> if m = new_m then v else v\<lparr>v_names := move_entries m s new_m (v_names v)\<rparr>
   | CreateAlias m s n a \<Rightarrow> v\<lparr>v_names := (v_names v)((m, a) \<mapsto> (s, False))\<rparr>
   | RemoveAlias m s n a \<Rightarrow> v\<lparr>v_names := (v_names v)((m, a) := None)\<rparr>
   | SetExport m s n e \<Rightarrow> v\<lparr>v_exports := (v_exports v)(e \<mapsto> s)\<rparr>
   | RemoveExport m s n e \<Rightarrow> v\<lparr>v_exports := (v_exports v)(e := None)\<rparr>
   | RenameType m s a n \<Rightarrow> v\<lparr>v_types := (v_types v)((m, a) := None, (m, n) \<mapsto> (s, True))\<rparr>
   | MoveType m s n new_m \<Rightarrow> if m = new_m then v else v\<lparr>v_types := move_entries m s new_m (v_types v)\<rparr>
   | DeleteTest n t \<Rightarrow> v\<lparr>v_tests := (v_tests v)(n := None)\<rparr>
   | _ \<Rightarrow> v)"

text \<open>The edit that the code makes, with its checks of the arguments.\<close>

definition edit_of :: "operation \<Rightarrow> program_root \<Rightarrow> program_root res" where
  "edit_of op = (case op of
     RenameSymbol m s a n \<Rightarrow> rename_checked m s a n
   | MoveSymbol m s n new_m \<Rightarrow> move_checked m s n new_m
   | CreateAlias m s n a \<Rightarrow> alias_checked m s n a
   | RemoveAlias m s n a \<Rightarrow> (\<lambda>r. remove_alias r m s n a)
   | SetExport m s n e \<Rightarrow> export_checked m s n e
   | RemoveExport m s n e \<Rightarrow> (\<lambda>r. remove_export r m s n e)
   | RenameType m s a n \<Rightarrow> rename_type_checked m s a n
   | MoveType m s n new_m \<Rightarrow> move_type_checked m s n new_m
   | DeleteTest n t \<Rightarrow> (\<lambda>r. delete_test r n t)
   | _ \<Rightarrow> (\<lambda>r. Inl (Bail [] [])))"

lemmas edit_cases = edits_view_def allowed_def edit_view_def edit_of_def

lemma edit_of_root_edit: "edits_view op \<Longrightarrow> root_edit (edit_of op)"
  by (cases op) (simp_all add: edit_cases rename.root_edit_axioms move.root_edit_axioms create_alias.root_edit_axioms
      remove_alias.root_edit_axioms set_export.root_edit_axioms remove_export.root_edit_axioms
      rename_type.root_edit_axioms move_type.root_edit_axioms delete_test.root_edit_axioms)

definition stays :: "operation \<Rightarrow> bool" where
  "stays op = (case op of MoveSymbol m _ _ new_m \<Rightarrow> m = new_m | MoveType m _ _ new_m \<Rightarrow> m = new_m | _ \<Rightarrow> False)"

lemma apply_edit:
  assumes "edits_view op" and "load_root env objs h = Inr r" and "\<not> stays op"
    and "apply_operation_to_root env h parent op objs = Inr (h', objs')"
  shows "\<exists>check r'. edit_of op r = Inr r' \<and> store_root env check r' objs = Inr (h', objs')"
  using assms
  by (cases op)
    (auto simp: edit_cases stays_def apply_operation_to_root_def apply_rename_symbol_def apply_move_symbol_def
      apply_create_alias_def apply_remove_alias_def apply_set_export_def apply_remove_export_def
      apply_rename_type_def apply_move_type_def apply_delete_test_def rename_checked_def move_checked_def
      alias_checked_def export_checked_def rename_type_checked_def move_type_checked_def)

lemma apply_stays:
  assumes "stays op" and "apply_operation_to_root env h parent op objs = Inr (h', objs')"
  shows "h' = h \<and> objs' = objs"
  using assms by (cases op) (auto simp: stays_def apply_operation_to_root_def apply_move_symbol_def apply_move_type_def)

subsection \<open>The conditions of the code on the view\<close>

lemma owned_by_iff: "owned_by s t \<longleftrightarrow> (\<exists>p. t = Some (s, p))"
  by (auto simp: owned_by_def split: option.split)

lemma view_owned:
  assumes "names_once r"
  shows "owned_by s (v_names (view_of r) (m, n)) \<longleftrightarrow> name_points_to_symbol r m n s"
    and "owned_by s (v_types (view_of r) (m, n)) \<longleftrightarrow> type_name_points_to_type r m n s"
  by (auto simp: owned_by_iff view_Some [OF assms] name_points_to_symbol_def type_name_points_to_type_def list_ex_iff)

lemma view_preferred:
  assumes "names_once r"
  shows "v_names (view_of r) (m, n) = Some (s, True) \<longleftrightarrow> preferred_name_points_to_symbol r m n s"
    and "v_types (view_of r) (m, n) = Some (s, True) \<longleftrightarrow> preferred_type_name_points_to_type r m n s"
    and "v_names (view_of r) (m, n) = Some (s, False) \<longleftrightarrow> alias_points_to_symbol r m n s"
    and "v_exports (view_of r) n = Some s \<longleftrightarrow> export_points_to_symbol r n s"
    and "v_tests (view_of r) n = Some s \<longleftrightarrow> test_name_points_to_test r n s"
  by (auto simp: view_Some [OF assms] preferred_name_points_to_symbol_def preferred_type_name_points_to_type_def
      alias_points_to_symbol_def export_points_to_symbol_def test_name_points_to_test_def list_ex_iff)

lemma view_absent:
  "v_names (view_of r) (m, n) = None \<longleftrightarrow> \<not> list_ex (\<lambda>b. nb_module b = m \<and> nb_display_name b = n) (names r)"
  "v_types (view_of r) (m, n) = None \<longleftrightarrow> \<not> list_ex (\<lambda>b. tnb_module b = m \<and> tnb_display_name b = n) (type_names r)"
  "v_exports (view_of r) n = None \<longleftrightarrow> \<not> list_ex (\<lambda>b. eb_exported_name b = n) (exports r)"
  "v_tests (view_of r) n = None \<longleftrightarrow> \<not> list_ex (\<lambda>b. tb_name b = n) (tests r)"
  by (auto simp: view_None list_ex_iff)

lemma moved_preconditions:
  assumes "load_root env objs h = Inr r" and "names_once r"
  shows "(\<forall>p \<in> set (moved_name_preconditions env objs h m s n new_m). precondition_holds env objs h r p) \<longleftrightarrow>
      (\<forall>x. owned_by s (v_names (view_of r) (m, x)) \<longrightarrow> v_names (view_of r) (new_m, x) = None)"
    and "(\<forall>p \<in> set (moved_type_name_preconditions env objs h m s n new_m). precondition_holds env objs h r p) \<longleftrightarrow>
      (\<forall>x. owned_by s (v_types (view_of r) (m, x)) \<longrightarrow> v_types (view_of r) (new_m, x) = None)"
  unfolding view_owned [OF assms(2)] view_absent
  by (auto simp: moved_name_preconditions_def moved_type_name_preconditions_def assms(1)
      name_points_to_symbol_def type_name_points_to_type_def list_ex_iff)

lemma preconditions_allowed:
  assumes edit: "edits_view op" and load: "load_root env objs h = Inr r" and once: "names_once r"
  shows "failed_preconditions env objs h (preconditions_for env objs h op) = Inr [] \<longleftrightarrow> allowed op (view_of r)"
proof -
  have "failed_preconditions env objs h (preconditions_for env objs h op) = Inr [] \<longleftrightarrow>
      (\<forall>p \<in> set (preconditions_for env objs h op). precondition_holds env objs h r p)"
    by (simp add: failed_preconditions_def load filter_empty_conv)
  also have "\<dots> \<longleftrightarrow> allowed op (view_of r)"
    using edit by (cases op) (simp_all add: edit_cases preconditions_for_def ball_Un
        moved_preconditions [OF load once] view_owned [OF once] view_preferred [OF once] view_absent)
  finally show ?thesis .
qed

definition fulfilled :: "operation \<Rightarrow> root_view \<Rightarrow> bool" where
  "fulfilled op v = (case op of
     RenameSymbol m s a n \<Rightarrow> owned_by s (v_names v (m, n)) \<and> v_names v (m, a) = None
   | MoveSymbol m s n new_m \<Rightarrow> owned_by s (v_names v (new_m, n)) \<and> (m \<noteq> new_m \<longrightarrow> v_names v (m, n) = None)
   | CreateAlias m s n a \<Rightarrow> owned_by s (v_names v (m, a))
   | RemoveAlias m s n a \<Rightarrow> v_names v (m, a) = None
   | SetExport m s n e \<Rightarrow> v_exports v e = Some s
   | RemoveExport m s n e \<Rightarrow> v_exports v e = None
   | RenameType m s a n \<Rightarrow> owned_by s (v_types v (m, n)) \<and> v_types v (m, a) = None
   | MoveType m s n new_m \<Rightarrow> owned_by s (v_types v (new_m, n)) \<and> (m \<noteq> new_m \<longrightarrow> v_types v (m, n) = None)
   | DeleteTest n t \<Rightarrow> v_tests v n = None \<and> t \<notin> ran (v_tests v)
   | _ \<Rightarrow> False)"

lemma no_failed_postconditions:
  assumes "load_root env objs h = Inr r"
  shows "failed_postconditions env objs h ps = Inr [] \<longleftrightarrow> (\<forall>p \<in> set ps. postcondition_holds env objs h r p = Inr True)"
proof -
  let ?check = "\<lambda>p. res_bind (postcondition_holds env objs h r p) (\<lambda>holds. Inr (if holds then [] else [p]))"
  have "(\<exists>fs. res_map ?check ps = Inr fs \<and> concat fs = []) \<longleftrightarrow> (\<forall>p \<in> set ps. postcondition_holds env objs h r p = Inr True)"
  proof (induction ps)
    case (Cons p ps)
    show ?case
    proof (cases "postcondition_holds env objs h r p")
      case (Inr b)
      with Cons show ?thesis by (cases b; cases "res_map ?check ps") simp_all
    qed simp
  qed simp
  then show ?thesis by (simp add: failed_postconditions_def assms)
qed

lemma postconditions_fulfilled:
  assumes edit: "edits_view op" and load: "load_root env objs h = Inr r" and once: "names_once r"
  shows "failed_postconditions env objs h (postconditions_for env objs h op) = Inr [] \<longleftrightarrow> fulfilled op (view_of r)"
proof -
  have tests: "t \<in> ran (v_tests (view_of r)) \<longleftrightarrow> list_ex (\<lambda>b. tb_test b = t) (tests r)" for t
    by (auto simp: ran_def view_Some [OF once] list_ex_iff)
  have disj: "list_ex (\<lambda>b. P b \<or> Q b) bs \<longleftrightarrow> list_ex P bs \<or> list_ex Q bs" for P Q :: "root_test_binding \<Rightarrow> bool" and bs
    by (auto simp: list_ex_iff)
  show ?thesis
    unfolding no_failed_postconditions [OF load]
    using edit by (cases op) (simp_all add: edit_cases fulfilled_def postconditions_for_def postcondition_holds_def
        tests disj view_owned [OF once] view_preferred [OF once] view_absent)
qed

lemma allowed_fulfilled:
  assumes edit: "edits_view op" and allowed: "allowed op v" and moves: "\<not> stays op"
    and shared: "\<And>n t. op = DeleteTest n t \<Longrightarrow> \<forall>k. v_tests v k = Some t \<longrightarrow> k = n"
  shows "fulfilled op (edit_view op v)" and "edit_view op v \<noteq> v"
proof -
  show fulfilled: "fulfilled op (edit_view op v)"
  proof (cases "\<exists>n t. op = DeleteTest n t")
    case True
    then obtain n t where op: "op = DeleteTest n t" by blast
    with shared have "t \<notin> ran ((v_tests v)(n := None))" by (auto simp: ran_def)
    with op show ?thesis by (simp add: edit_cases fulfilled_def)
  next
    case False
    with edit allowed moves show ?thesis
      by (cases op) (simp_all add: edit_cases fulfilled_def stays_def owned_by_iff move_entries_def ex_bool_eq, auto)
  qed
  have "\<not> fulfilled op v"
    using edit allowed moves by (cases op) (auto simp: edit_cases fulfilled_def stays_def owned_by_iff)
  with fulfilled show "edit_view op v \<noteq> v" by auto
qed

subsection \<open>The code refines the updates\<close>

lemma rename_refines:
  assumes once: "names_once r" and edit: "rename_symbol r m s a n = Inr r'"
  shows "names_once r'"
    and "view_of r' = (view_of r)\<lparr>v_names := (v_names (view_of r))((m, a) := None, (m, n) \<mapsto> (s, True))\<rparr>"
proof -
  note parts = edit [unfolded rename_symbol_Inr]
  obtain b where b: "b \<in> set (names r)" "name_place b = (m, a)" "nb_symbol b = s" "nb_is_preferred b"
    using parts by (auto simp: name_place_def)
  have dist: "distinct (map name_place (names r))" using once by (simp add: names_once_keys)
  have only: "x = b" if "x \<in> set (names r)" "name_place x = (m, a)" for x
    using dist b that by (auto simp: distinct_map inj_on_def)
  have free: "(m, n) \<notin> name_place ` set (names r)" using parts by (auto simp: name_place_def)
  have key: "name_place (renamed m s a n x) = (if x = b then (m, n) else name_place x)" if "x \<in> set (names r)" for x
  proof (cases "x = b")
    case True
    with b(2-4) show ?thesis by (simp add: renamed_def name_place_def)
  next
    case False
    then have "name_place x \<noteq> (m, a)" using only [OF that] by blast
    with False show ?thesis by (auto simp: renamed_def name_place_def)
  qed
  note result = table_rename [OF dist b(1,2) free, of "renamed m s a n" "\<lambda>b. (nb_symbol b, nb_is_preferred b)", OF key]
  have "(nb_symbol (renamed m s a n x), nb_is_preferred (renamed m s a n x)) = (nb_symbol x, nb_is_preferred x)" for x
    by (simp add: renamed_def)
  with result b(3,4) once parts
  show "names_once r'" "view_of r' = (view_of r)\<lparr>v_names := (v_names (view_of r))((m, a) := None, (m, n) \<mapsto> (s, True))\<rparr>"
    by (simp_all add: names_once_keys view_of_def)
qed

lemma rename_type_refines:
  assumes once: "names_once r" and edit: "rename_type r m s a n = Inr r'"
  shows "names_once r'"
    and "view_of r' = (view_of r)\<lparr>v_types := (v_types (view_of r))((m, a) := None, (m, n) \<mapsto> (s, True))\<rparr>"
proof -
  note parts = edit [unfolded rename_type_Inr]
  obtain b where b: "b \<in> set (type_names r)" "type_name_place b = (m, a)" "tnb_type_symbol b = s" "tnb_is_preferred b"
    using parts by (auto simp: type_name_place_def)
  have dist: "distinct (map type_name_place (type_names r))" using once by (simp add: names_once_keys)
  have only: "x = b" if "x \<in> set (type_names r)" "type_name_place x = (m, a)" for x
    using dist b that by (auto simp: distinct_map inj_on_def)
  have free: "(m, n) \<notin> type_name_place ` set (type_names r)" using parts by (auto simp: type_name_place_def)
  have key: "type_name_place (type_renamed m s a n x) = (if x = b then (m, n) else type_name_place x)"
    if "x \<in> set (type_names r)" for x
  proof (cases "x = b")
    case True
    with b(2-4) show ?thesis by (simp add: type_renamed_def type_name_place_def)
  next
    case False
    then have "type_name_place x \<noteq> (m, a)" using only [OF that] by blast
    with False show ?thesis by (auto simp: type_renamed_def type_name_place_def)
  qed
  note result = table_rename [OF dist b(1,2) free, of "type_renamed m s a n" "\<lambda>b. (tnb_type_symbol b, tnb_is_preferred b)", OF key]
  have "(tnb_type_symbol (type_renamed m s a n x), tnb_is_preferred (type_renamed m s a n x))
      = (tnb_type_symbol x, tnb_is_preferred x)" for x
    by (simp add: type_renamed_def)
  with result b(3,4) once parts
  show "names_once r'" "view_of r' = (view_of r)\<lparr>v_types := (v_types (view_of r))((m, a) := None, (m, n) \<mapsto> (s, True))\<rparr>"
    by (simp_all add: names_once_keys view_of_def)
qed

lemma move_refines:
  assumes once: "names_once r" and edit: "move_symbol r m s n new_m = Inr r'" and other: "m \<noteq> new_m"
    and free: "\<And>x. owned_by s (v_names (view_of r) (m, x)) \<Longrightarrow> v_names (view_of r) (new_m, x) = None"
  shows "names_once r'" and "view_of r' = (view_of r)\<lparr>v_names := move_entries m s new_m (v_names (view_of r))\<rparr>"
proof -
  note parts = edit [unfolded move_symbol_Inr]
  have dist: "distinct (map name_place (names r))" using once by (simp add: names_once_keys)
  let ?val = "\<lambda>b. (nb_symbol b, nb_is_preferred b)"
  have "(new_m, snd (name_place x)) \<notin> name_place ` set (names r)"
    if "x \<in> set (names r)" "fst (name_place x) = m" "fst (?val x) = s" for x
  proof -
    have "owned_by s (v_names (view_of r) (m, nb_display_name x))"
      using that by (auto simp: view_owned [OF once] name_points_to_symbol_def list_ex_iff name_place_def)
    from free [OF this] show ?thesis by (auto simp: view_None name_place_def)
  qed
  moreover have "name_place (moved m s new_m x) =
      (if fst (name_place x) = m \<and> fst (?val x) = s then (new_m, snd (name_place x)) else name_place x)" for x
    by (simp add: moved_def name_place_def)
  moreover have "?val (moved m s new_m x) = ?val x" for x by (simp add: moved_def)
  ultimately have "distinct (map name_place (map (moved m s new_m) (names r)))"
    "table name_place ?val (map (moved m s new_m) (names r)) = move_entries m s new_m (table name_place ?val (names r))"
    using table_move [OF dist other, where f = "moved m s new_m" and val = ?val and s = s] by blast+
  with once parts
  show "names_once r'" "view_of r' = (view_of r)\<lparr>v_names := move_entries m s new_m (v_names (view_of r))\<rparr>"
    by (simp_all add: names_once_keys [of "r\<lparr>names := _\<rparr>"] names_once_keys [of r] view_of_def)
qed

lemma move_type_refines:
  assumes once: "names_once r" and edit: "move_type r m s n new_m = Inr r'" and other: "m \<noteq> new_m"
    and free: "\<And>x. owned_by s (v_types (view_of r) (m, x)) \<Longrightarrow> v_types (view_of r) (new_m, x) = None"
  shows "names_once r'" and "view_of r' = (view_of r)\<lparr>v_types := move_entries m s new_m (v_types (view_of r))\<rparr>"
proof -
  note parts = edit [unfolded move_type_Inr]
  have dist: "distinct (map type_name_place (type_names r))" using once by (simp add: names_once_keys)
  let ?val = "\<lambda>b. (tnb_type_symbol b, tnb_is_preferred b)"
  have "(new_m, snd (type_name_place x)) \<notin> type_name_place ` set (type_names r)"
    if "x \<in> set (type_names r)" "fst (type_name_place x) = m" "fst (?val x) = s" for x
  proof -
    have "owned_by s (v_types (view_of r) (m, tnb_display_name x))"
      using that by (auto simp: view_owned [OF once] type_name_points_to_type_def list_ex_iff type_name_place_def)
    from free [OF this] show ?thesis by (auto simp: view_None type_name_place_def)
  qed
  moreover have "type_name_place (type_moved m s new_m x) =
      (if fst (type_name_place x) = m \<and> fst (?val x) = s then (new_m, snd (type_name_place x)) else type_name_place x)" for x
    by (simp add: type_moved_def type_name_place_def)
  moreover have "?val (type_moved m s new_m x) = ?val x" for x by (simp add: type_moved_def)
  ultimately have "distinct (map type_name_place (map (type_moved m s new_m) (type_names r)))"
    "table type_name_place ?val (map (type_moved m s new_m) (type_names r))
      = move_entries m s new_m (table type_name_place ?val (type_names r))"
    using table_move [OF dist other, where f = "type_moved m s new_m" and val = ?val and s = s] by blast+
  with once parts
  show "names_once r'" "view_of r' = (view_of r)\<lparr>v_types := move_entries m s new_m (v_types (view_of r))\<rparr>"
    by (simp_all add: names_once_keys [of "r\<lparr>type_names := _\<rparr>"] names_once_keys [of r] view_of_def)
qed

lemma alias_refines:
  assumes once: "names_once r" and edit: "create_alias r m s n a = Inr r'"
  shows "names_once r'" and "view_of r' = (view_of r)\<lparr>v_names := (v_names (view_of r))((m, a) \<mapsto> (s, False))\<rparr>"
proof -
  let ?b = "alias_binding m a s"
  note parts = edit [unfolded create_alias_Inr]
  have dist: "distinct (map name_place (names r))" using once by (simp add: names_once_keys)
  have free: "name_place ?b \<notin> name_place ` set (names r)" using parts by (auto simp: name_place_def)
  with table_append [OF dist free, of "\<lambda>b. (nb_symbol b, nb_is_preferred b)"] dist once parts
  show "names_once r'" "view_of r' = (view_of r)\<lparr>v_names := (v_names (view_of r))((m, a) \<mapsto> (s, False))\<rparr>"
    by (simp_all add: names_once_keys view_of_def name_place_def [of ?b])
qed

lemma remove_alias_Inr:
  "remove_alias r m s n a = Inr r' \<longleftrightarrow>
     name_points_to_symbol r m n s \<and> alias_points_to_symbol r m a s \<and>
     r' = r\<lparr>names := filter (\<lambda>b. \<not> (nb_module b = m \<and> nb_display_name b = a \<and> nb_symbol b = s \<and> \<not> nb_is_preferred b)) (names r)\<rparr>"
  by (auto simp: remove_alias_def Let_def length_filter_eq assert_name_points_Inr name_points_to_symbol_def
      alias_points_to_symbol_def list_ex_iff)

lemma remove_export_Inr:
  "remove_export r m s n e = Inr r' \<longleftrightarrow>
     name_points_to_symbol r m n s \<and> export_points_to_symbol r e s \<and>
     r' = r\<lparr>exports := filter (\<lambda>b. \<not> (eb_exported_name b = e \<and> eb_symbol b = s)) (exports r)\<rparr>"
  by (auto simp: remove_export_def Let_def length_filter_eq assert_name_points_Inr name_points_to_symbol_def
      export_points_to_symbol_def list_ex_iff)

lemma delete_test_Inr:
  "delete_test r n t = Inr r' \<longleftrightarrow> test_name_points_to_test r n t \<and>
     r' = r\<lparr>tests := filter (\<lambda>b. \<not> (tb_name b = n \<and> tb_test b = t)) (tests r)\<rparr>"
  by (auto simp: delete_test_def Let_def length_filter_eq test_name_points_to_test_def list_ex_iff)

lemma remove_alias_refines:
  assumes once: "names_once r" and edit: "remove_alias r m s n a = Inr r'"
  shows "names_once r'" and "view_of r' = (view_of r)\<lparr>v_names := (v_names (view_of r))((m, a) := None)\<rparr>"
proof -
  let ?kept = "\<lambda>b. \<not> (nb_module b = m \<and> nb_display_name b = a \<and> nb_symbol b = s \<and> \<not> nb_is_preferred b)"
  note parts = edit [unfolded remove_alias_Inr]
  obtain b where b: "b \<in> set (names r)" "name_place b = (m, a)" "\<not> ?kept b"
    using parts by (auto simp: alias_points_to_symbol_def list_ex_iff name_place_def)
  have dist: "distinct (map name_place (names r))" using once by (simp add: names_once_keys)
  have "x = b" if "x \<in> set (names r)" "name_place x = (m, a)" for x
    using dist b that by (auto simp: distinct_map inj_on_def)
  then have "?kept x \<longleftrightarrow> x \<noteq> b" if "x \<in> set (names r)" for x
    using b(3) that unfolding name_place_def by blast
  from table_remove [OF dist b(1) this, of "\<lambda>b. (nb_symbol b, nb_is_preferred b)"] b(2) dist once parts
  show "names_once r'" "view_of r' = (view_of r)\<lparr>v_names := (v_names (view_of r))((m, a) := None)\<rparr>"
    by (simp_all add: names_once_keys view_of_def distinct_map_filter)
qed

lemma set_export_refines:
  assumes once: "names_once r" and edit: "set_export r m s n e = Inr r'"
  shows "names_once r'" and "view_of r' = (view_of r)\<lparr>v_exports := (v_exports (view_of r))(e \<mapsto> s)\<rparr>"
proof -
  let ?b = "\<lparr>eb_symbol = s, eb_exported_name = e\<rparr>"
  note parts = edit [unfolded set_export_Inr]
  have dist: "distinct (map eb_exported_name (exports r))" using once by (simp add: names_once_keys)
  with table_append [OF dist, of ?b eb_symbol] once parts
  show "names_once r'" "view_of r' = (view_of r)\<lparr>v_exports := (v_exports (view_of r))(e \<mapsto> s)\<rparr>"
    by (simp_all add: names_once_keys view_of_def)
qed

lemma remove_export_refines:
  assumes once: "names_once r" and edit: "remove_export r m s n e = Inr r'"
  shows "names_once r'" and "view_of r' = (view_of r)\<lparr>v_exports := (v_exports (view_of r))(e := None)\<rparr>"
proof -
  note parts = edit [unfolded remove_export_Inr]
  obtain b where b: "b \<in> set (exports r)" "eb_exported_name b = e" "eb_symbol b = s"
    using parts by (auto simp: export_points_to_symbol_def list_ex_iff)
  have dist: "distinct (map eb_exported_name (exports r))" using once by (simp add: names_once_keys)
  have "x = b" if "x \<in> set (exports r)" "eb_exported_name x = e" for x
    using dist b that by (auto simp: distinct_map inj_on_def)
  then have "\<not> (eb_exported_name x = e \<and> eb_symbol x = s) \<longleftrightarrow> x \<noteq> b" if "x \<in> set (exports r)" for x
    using b(2,3) that by blast
  from table_remove [OF dist b(1) this, of eb_symbol] b(2) dist once parts
  show "names_once r'" "view_of r' = (view_of r)\<lparr>v_exports := (v_exports (view_of r))(e := None)\<rparr>"
    by (simp_all add: names_once_keys view_of_def distinct_map_filter)
qed

lemma delete_test_refines:
  assumes once: "names_once r" and edit: "delete_test r n t = Inr r'"
  shows "names_once r'" and "view_of r' = (view_of r)\<lparr>v_tests := (v_tests (view_of r))(n := None)\<rparr>"
proof -
  note parts = edit [unfolded delete_test_Inr]
  obtain b where b: "b \<in> set (tests r)" "tb_name b = n" "tb_test b = t"
    using parts by (auto simp: test_name_points_to_test_def list_ex_iff)
  have dist: "distinct (map tb_name (tests r))" using once by (simp add: names_once_keys)
  have "x = b" if "x \<in> set (tests r)" "tb_name x = n" for x
    using dist b that by (auto simp: distinct_map inj_on_def)
  then have "\<not> (tb_name x = n \<and> tb_test x = t) \<longleftrightarrow> x \<noteq> b" if "x \<in> set (tests r)" for x
    using b(2,3) that by blast
  from table_remove [OF dist b(1) this, of tb_test] b(2) dist once parts
  show "names_once r'" "view_of r' = (view_of r)\<lparr>v_tests := (v_tests (view_of r))(n := None)\<rparr>"
    by (simp_all add: names_once_keys view_of_def distinct_map_filter)
qed

lemma edit_refines:
  assumes edit: "edits_view op" and allowed: "allowed op (view_of r)" and once: "names_once r"
    and moves: "\<not> stays op" and run: "edit_of op r = Inr r'"
  shows "names_once r' \<and> view_of r' = edit_view op (view_of r)"
proof (cases op)
  case (MoveSymbol m s n new_m)
  with allowed run moves have "move_symbol r m s n new_m = Inr r'" "m \<noteq> new_m"
    "\<forall>x. owned_by s (v_names (view_of r) (m, x)) \<longrightarrow> v_names (view_of r) (new_m, x) = None"
    by (auto simp: edit_cases stays_def move_checked_def)
  with move_refines [OF once this(1,2)] MoveSymbol show ?thesis by (simp add: edit_cases)
next
  case (MoveType m s n new_m)
  with allowed run moves have "move_type r m s n new_m = Inr r'" "m \<noteq> new_m"
    "\<forall>x. owned_by s (v_types (view_of r) (m, x)) \<longrightarrow> v_types (view_of r) (new_m, x) = None"
    by (auto simp: edit_cases stays_def move_type_checked_def)
  with move_type_refines [OF once this(1,2)] MoveType show ?thesis by (simp add: edit_cases)
next
  case (RenameSymbol m s a n)
  with run have "rename_symbol r m s a n = Inr r'" by (auto simp: edit_of_def rename_checked_def)
  with rename_refines [OF once this] RenameSymbol show ?thesis by (simp add: edit_view_def)
next
  case (RenameType m s a n)
  with run have "rename_type r m s a n = Inr r'" by (auto simp: edit_of_def rename_type_checked_def)
  with rename_type_refines [OF once this] RenameType show ?thesis by (simp add: edit_view_def)
next
  case (CreateAlias m s n a)
  with run have "create_alias r m s n a = Inr r'" by (auto simp: edit_of_def alias_checked_def)
  with alias_refines [OF once this] CreateAlias show ?thesis by (simp add: edit_view_def)
next
  case (SetExport m s n e)
  with run have "set_export r m s n e = Inr r'" by (auto simp: edit_of_def export_checked_def)
  with set_export_refines [OF once this] SetExport show ?thesis by (simp add: edit_view_def)
next
  case (RemoveAlias m s n a)
  with run have "remove_alias r m s n a = Inr r'" by (auto simp: edit_of_def )
  with remove_alias_refines [OF once this] RemoveAlias show ?thesis by (simp add: edit_view_def)
next
  case (RemoveExport m s n e)
  with run have "remove_export r m s n e = Inr r'" by (auto simp: edit_of_def )
  with remove_export_refines [OF once this] RemoveExport show ?thesis by (simp add: edit_view_def)
next
  case (DeleteTest n t)
  with run have "delete_test r n t = Inr r'" by (auto simp: edit_of_def )
  with delete_test_refines [OF once this] DeleteTest show ?thesis by (simp add: edit_view_def)
qed (use edit in \<open>simp_all add: edits_view_def\<close>)

end
