(* ===== verification/Lineage.thy ===== *)
theory Lineage
  imports Chains
begin

text \<open>
  The chain of a branch, over the stores a client can reach: it always returns, it is a path
  of roots that ends at the root of the branch, a commit appends one item to it, and a fast
  forward is possible exactly when the chain of the target is a prefix of the chain of the
  source.
\<close>

subsection \<open>Chains as lists\<close>

text \<open>The items met from a history back to the first, newest first.\<close>

inductive lineage :: "env \<Rightarrow> db \<Rightarrow> string option \<Rightarrow> history_item list \<Rightarrow> bool" for env db where
  start: "lineage env db None []"
| further: "row_by hs_hash h (db_histories db) = Some row \<Longrightarrow>
    row_by mg_hash (hs_migration row) (db_migrations db) = Some m \<Longrightarrow>
    env_operation_of_text env (mg_operation m) = Inr op \<Longrightarrow>
    lineage env db (hs_parent row) items \<Longrightarrow>
    lineage env db (Some h) (\<lparr>hi_history_hash = h, hi_migration_hash = hs_migration row,
      hi_input_root = mg_input m, hi_output_root = hs_output row, hi_operation_kind = mg_kind m,
      hi_operation = op\<rparr> # items)"

inductive_cases lineage_NoneE: "lineage env db None items"
inductive_cases lineage_SomeE: "lineage env db (Some h) items"

lemma chain_loop: "lineage env db c items \<Longrightarrow> history_chain_loop env db c acc = Some (Inr (acc @ items))"
proof (induction arbitrary: acc rule: lineage.induct)
  case start
  show ?case by (subst history_chain_loop.simps) simp
next
  case (further h row m op items)
  then show ?case by (subst history_chain_loop.simps) simp
qed

lemma lineage_unique: "lineage env db c items \<Longrightarrow> lineage env db c items' \<Longrightarrow> items = items'"
  using chain_loop [of env db c items "[]"] chain_loop [of env db c items' "[]"] by simp

lemma history_chain_lineage:
  "branch db name = Inr st \<Longrightarrow> lineage env db (bs_history_hash st) items \<Longrightarrow>
   history_chain env db name = Some (Inr (rev items))"
  by (simp add: history_chain_def chain_loop)

lemma lineage_grows:
  assumes "grows db db'"
  shows "lineage env db c items \<Longrightarrow> lineage env db' c items"
proof (induction rule: lineage.induct)
  case (further h row m op items)
  then show ?case using assms
    by (auto simp: grows_def intro!: lineage.further dest: extends_row_by)
qed (rule lineage.start)

abbreviation linked :: "history_item list \<Rightarrow> bool" where
  "linked items \<equiv> successively (\<lambda>newer older. hi_input_root newer = hi_output_root older) items"

lemma lineage_exists:
  assumes ok: "db_ok env db" and r: "db_histories db = before @ r # after"
  shows "\<exists>item items. lineage env db (Some (hs_hash r)) (item # items) \<and> linked (item # items)
    \<and> hi_output_root item = hs_output r \<and> hi_history_hash item = hs_hash r
    \<and> distinct (map hi_history_hash (item # items)) \<and> set (map hi_history_hash items) \<subseteq> hs_hash ` set before"
  using r
proof (induction "length before" arbitrary: before r after rule: less_induct)
  case less
  have hs: "histories_ok env (db_migrations db) [] (db_histories db)"
    and ms: "distinct (map mg_hash (db_migrations db))" "\<forall>m \<in> set (db_migrations db). migration_row_ok env m"
    using ok by (auto simp: db_ok_def)
  then have row: "history_row_ok env (db_migrations db) before r"
    using less.prems by (simp add: histories_ok_append)
  then obtain m where m: "m \<in> set (db_migrations db)" "mg_hash m = hs_migration r"
    and parent: "\<And>p. hs_parent r = Some p \<Longrightarrow> \<exists>q \<in> set before. hs_hash q = p \<and> hs_output q = mg_input m"
    unfolding history_row_ok_def by blast
  obtain op where op: "env_operation_of_text env (mg_operation m) = Inr op"
    using ms(2) m(1) by (auto simp: migration_row_ok_def operation_ok_def)
  have found: "row_by hs_hash (hs_hash r) (db_histories db) = Some r"
    "row_by mg_hash (hs_migration r) (db_migrations db) = Some m"
    using row_by_Some_iff [OF histories_distinct [OF hs]] row_by_Some_iff [OF ms(1)] m less.prems by auto
  note step = lineage.further [OF found op]
  show ?case
  proof (cases "hs_parent r")
    case None
    have "lineage env db (hs_parent r) []" unfolding None by (rule lineage.start)
    from step [OF this] show ?thesis
      by (intro exI [of _ "\<lparr>hi_history_hash = hs_hash r, hi_migration_hash = hs_migration r,
        hi_input_root = mg_input m, hi_output_root = hs_output r, hi_operation_kind = mg_kind m,
        hi_operation = op\<rparr>"] exI [of _ "[]"]) simp
  next
    case (Some p)
    with parent obtain q where q: "q \<in> set before" "hs_hash q = p" "hs_output q = mg_input m" by blast
    then obtain us vs where us: "before = us @ q # vs" by (meson split_list)
    have prev: "db_histories db = us @ q # (vs @ r # after)" using less.prems us by simp
    have "length us < length before" using us by simp
    from less.hyps [OF this prev] obtain item items where ih:
      "lineage env db (Some (hs_hash q)) (item # items)" "linked (item # items)"
      "hi_output_root item = hs_output q" "hi_history_hash item = hs_hash q"
      "distinct (map hi_history_hash (item # items))" "set (map hi_history_hash items) \<subseteq> hs_hash ` set us"
      by blast
    have "lineage env db (hs_parent r) (item # items)" using ih(1) Some q(2) by simp
    note step [OF this]
    moreover have "hs_hash r \<notin> hs_hash ` set before" using row unfolding history_row_ok_def by blast
    then have "hs_hash r \<notin> set (map hi_history_hash (item # items))"
      "set (map hi_history_hash (item # items)) \<subseteq> hs_hash ` set before"
      using ih(4,6) us by auto
    ultimately show ?thesis using ih(2,3,5) q(3)
      by (intro exI [of _ "\<lparr>hi_history_hash = hs_hash r, hi_migration_hash = hs_migration r,
        hi_input_root = mg_input m, hi_output_root = hs_output r, hi_operation_kind = mg_kind m,
        hi_operation = op\<rparr>"] exI [of _ "item # items"]) auto
  qed
qed

text \<open>What the invariant gives for a branch: its chain, newest first.\<close>

lemma branch_lineage:
  assumes ok: "db_ok env db" and st: "branch db name = Inr st"
  obtains items where "lineage env db (bs_history_hash st) items" "linked items"
    "distinct (map hi_history_hash items)"
    "case items of [] \<Rightarrow> bs_history_hash st = None
       | item # _ \<Rightarrow> bs_history_hash st = Some (hi_history_hash item) \<and> hi_output_root item = bs_root_hash st"
proof (cases "bs_history_hash st")
  case None
  have "lineage env db (bs_history_hash st) []" unfolding None by (rule lineage.start)
  with None show thesis by (intro that [of "[]"]) simp_all
next
  case (Some h)
  with db_ok_branch [OF ok st] obtain r where r: "r \<in> set (db_histories db)" "hs_hash r = h"
    "hs_output r = bs_root_hash st" by (auto simp: branch_ok_def)
  then obtain before after where "db_histories db = before @ r # after" by (meson split_list)
  from lineage_exists [OF ok this] obtain item items where
    "lineage env db (Some (hs_hash r)) (item # items)" "linked (item # items)"
    "hi_output_root item = hs_output r" "hi_history_hash item = hs_hash r"
    "distinct (map hi_history_hash (item # items))" by blast
  with Some r show thesis by (intro that [of "item # items"]) simp_all
qed

subsection \<open>The chain of a branch returns\<close>

definition builtins_ok :: "(string \<times> json) list \<Rightarrow> bool" where
  "builtins_ok builtin_types \<longleftrightarrow> list_all (\<lambda>(kind, payload). json_ok payload \<and> CHR 0x00 \<notin> set kind) builtin_types"

text \<open>A list of items is the history of a branch state: each starts where the one before ended,
  and the last ends at the root of the branch.\<close>

definition chain_path :: "branch_state \<Rightarrow> history_item list \<Rightarrow> bool" where
  "chain_path st items \<longleftrightarrow>
     successively (\<lambda>older newer. hi_output_root older = hi_input_root newer) items \<and>
     distinct (map hi_history_hash items) \<and>
     (if items = [] then bs_history_hash st = None
      else bs_history_hash st = Some (hi_history_hash (last items))
         \<and> hi_output_root (last items) = bs_root_hash st)"

lemma chain_path_rev:
  assumes "linked items" "distinct (map hi_history_hash items)"
    and "case items of [] \<Rightarrow> bs_history_hash st = None
       | item # _ \<Rightarrow> bs_history_hash st = Some (hi_history_hash item) \<and> hi_output_root item = bs_root_hash st"
  shows "chain_path st (rev items)"
proof -
  have "successively (\<lambda>older newer. hi_output_root older = hi_input_root newer) (rev items)"
    using assms(1) by (simp add: successively_rev eq_commute)
  with assms(2,3) show ?thesis by (cases items) (auto simp: chain_path_def rev_map [symmetric])
qed

lemma db_chain:
  assumes "db_ok env db" and "branch db name = Inr st"
  obtains items where "lineage env db (bs_history_hash st) items" "history_chain env db name = Some (Inr (rev items))"
    "chain_path st (rev items)" "linked items" "distinct (map hi_history_hash items)"
    "items = [] \<longleftrightarrow> bs_history_hash st = None"
proof (rule branch_lineage [OF assms])
  fix items assume items: "lineage env db (bs_history_hash st) items" "linked items"
    "distinct (map hi_history_hash items)"
    "case items of [] \<Rightarrow> bs_history_hash st = None
       | item # _ \<Rightarrow> bs_history_hash st = Some (hi_history_hash item) \<and> hi_output_root item = bs_root_hash st"
  show thesis
    by (rule that [OF items(1) history_chain_lineage [OF assms(2) items(1)] chain_path_rev [OF items(2-4)] items(2,3)])
      (use items(4) in \<open>auto split: list.splits\<close>)
qed

text \<open>C7. In every store a client can reach, the walk back from a branch returns. It follows parent
  pointers with no check of its own, so it would loop on a cycle; it yields a path of roots
  without repetition that ends at the root of the branch.\<close>

theorem history_chain_returns:
  assumes "env_ok env" and "builtins_ok builtin_types" and "reachable env builtin_types db"
    and "branch db name = Inr st"
  shows "\<exists>items. history_chain env db name = Some (Inr items) \<and> chain_path st items"
proof -
  have "db_ok env db" using reachable_ok assms(1-3) by (simp add: builtins_ok_def)
  from db_chain [OF this assms(4)] show ?thesis by blast
qed

subsection \<open>Commits\<close>

lemma set_branch_lookup:
  "db_branches db' = set_branch name st (db_branches db) \<Longrightarrow>
   branch db' other = (if other = name then Inr st else branch db other)"
  by (simp add: branch_def branch_opt_def map_of_set_branch)

lemma chain_grows:
  assumes "db_ok env db" and "grows db db'" and "branch db' name = branch db name"
  shows "history_chain env db' name = history_chain env db name"
proof (cases "branch db name")
  case (Inl e)
  with assms(3) show ?thesis by (simp add: history_chain_def)
next
  case (Inr st)
  from db_chain [OF assms(1) Inr] obtain items where items: "lineage env db (bs_history_hash st) items" by blast
  then show ?thesis
    using history_chain_lineage [OF Inr items] history_chain_lineage [OF _ lineage_grows [OF assms(2) items]]
      assms(3) Inr by metis
qed

lemma recorded_chain:
  assumes ok: "db_ok env db" and ok': "db_ok env db'" and grows: "grows db db'" and st: "branch db name = Inr st"
    and row: "\<lparr>hs_hash = hist, hs_parent = bs_history_hash st, hs_migration = migration, hs_output = new_root\<rparr>
      \<in> set (db_histories db')"
    and m: "m \<in> set (db_migrations db')" "mg_hash m = migration"
    and op: "env_operation_of_text env (mg_operation m) = Inr op"
    and branches: "db_branches db' = set_branch name \<lparr>bs_root_hash = new_root, bs_history_hash = Some hist\<rparr> (db_branches db)"
  shows "\<exists>items item. history_chain env db name = Some (Inr items) \<and>
     history_chain env db' name = Some (Inr (items @ [item])) \<and>
     hi_operation item = op \<and> hi_input_root item = mg_input m \<and> hi_output_root item = new_root \<and>
     branch db' name = Inr \<lparr>bs_root_hash = new_root, bs_history_hash = Some (hi_history_hash item)\<rparr> \<and>
     (\<forall>other. other \<noteq> name \<longrightarrow> branch db' other = branch db other \<and>
        history_chain env db' other = history_chain env db other)"
proof -
  from db_chain [OF ok st] obtain items where items: "lineage env db (bs_history_hash st) items"
    "history_chain env db name = Some (Inr (rev items))" by blast
  have keys: "distinct (map hs_hash (db_histories db'))" "distinct (map mg_hash (db_migrations db'))"
    using ok' histories_distinct by (auto simp: db_ok_def)
  have found: "row_by hs_hash hist (db_histories db') = Some \<lparr>hs_hash = hist, hs_parent = bs_history_hash st,
      hs_migration = migration, hs_output = new_root\<rparr>" "row_by mg_hash migration (db_migrations db') = Some m"
    using row m row_by_Some_iff [OF keys(1)] row_by_Some_iff [OF keys(2)] by auto
  let ?item = "\<lparr>hi_history_hash = hist, hi_migration_hash = migration, hi_input_root = mg_input m,
    hi_output_root = new_root, hi_operation_kind = mg_kind m, hi_operation = op\<rparr>"
  from lineage.further [OF found(1) _ op] found(2) lineage_grows [OF grows items(1)]
  have "lineage env db' (Some hist) (?item # items)" by simp
  moreover have branch': "branch db' other = (if other = name
      then Inr \<lparr>bs_root_hash = new_root, bs_history_hash = Some hist\<rparr> else branch db other)" for other
    by (rule set_branch_lookup [OF branches])
  ultimately have "history_chain env db' name = Some (Inr (rev (?item # items)))"
    by (intro history_chain_lineage [of _ _ "\<lparr>bs_root_hash = new_root, bs_history_hash = Some hist\<rparr>"]) simp_all
  moreover have "history_chain env db' other = history_chain env db other" if "other \<noteq> name" for other
    using chain_grows [OF ok grows] branch' that by simp
  ultimately show ?thesis
    using items(2) branch' by (intro exI [of _ "rev items"] exI [of _ ?item]) simp
qed

text \<open>C5. A commit is a compare-and-swap on the root the client expects: it happens only when that
  is the root of the branch, it appends exactly one item, the operation of the client from that
  root, to the chain of the branch and moves the branch to the output of the item, and the
  other branches keep their state and their chains. No recorded migration is lost.\<close>

theorem commit_appends:
  assumes env: "env_ok env" and builtin: "builtins_ok builtin_types" and reach: "reachable env builtin_types db"
    and op: "operation_ok env op"
    and tx: "apply_and_record_in_tx env name expected_root op agent db = Inr ((result, True), db')"
  shows "\<exists>st items item. branch db name = Inr st \<and> bs_root_hash st = expected_root \<and>
     history_chain env db name = Some (Inr items) \<and>
     history_chain env db' name = Some (Inr (items @ [item])) \<and>
     hi_operation item = op \<and> hi_input_root item = expected_root \<and> hi_output_root item \<noteq> expected_root \<and>
     branch db' name = Inr \<lparr>bs_root_hash = hi_output_root item, bs_history_hash = Some (hi_history_hash item)\<rparr> \<and>
     (\<forall>other. other \<noteq> name \<longrightarrow> branch db' other = branch db other \<and>
        history_chain env db' other = history_chain env db other)"
proof (rule committed [OF tx])
  fix st new_root objs post summary migration hist
  assume st: "branch db name = Inr st"
    and pre: "failed_preconditions env (db_objects db) (bs_root_hash st)
       (preconditions_for env (db_objects db) expected_root op) = Inr []"
    and run: "apply_operation_to_root env (bs_root_hash st) (bs_history_hash st) op (db_objects db) = Inr (new_root, objs)"
    and post: "failed_postconditions env objs new_root post = Inr []"
    and new: "new_root \<noteq> bs_root_hash st"
    and rec: "record_migration env name st new_root op (preconditions_for env (db_objects db) expected_root op) post
       (case agent of None \<Rightarrow> JObj [] | Some a \<Rightarrow> a) (db\<lparr>db_objects := objs\<rparr>) = ((migration, hist), db')"
  have ok: "db_ok env db" using reachable_ok [OF env _ reach] builtin by (simp add: builtins_ok_def)
  have adds: "adds env (db_objects db) objs"
    using apply_operation_adds [OF env _ op run] ok by (simp add: db_ok_def)
  note recorded = record_migration_ok [OF env ok st _ _ _ op rec]
  have ok': "db_ok env db'" and grows: "grows db db'"
    and row: "\<lparr>hs_hash = hist, hs_parent = bs_history_hash st, hs_migration = migration, hs_output = new_root\<rparr>
      \<in> set (db_histories db')"
    and branches: "db_branches db' = set_branch name \<lparr>bs_root_hash = new_root, bs_history_hash = Some hist\<rparr> (db_branches db)"
    using recorded adds failed_postconditions_load [OF post] by auto
  obtain m where m: "m \<in> set (db_migrations db')" "mg_hash m = migration" "mg_input m = bs_root_hash st"
    "mg_operation m = operation_text env op" using recorded(4) adds failed_postconditions_load [OF post] by auto
  have expected: "bs_root_hash st = expected_root" using failed_preconditions_current [OF pre] by simp
  have "env_operation_of_text env (mg_operation m) = Inr op" using op m(4) by (simp add: operation_ok_def)
  from recorded_chain [OF ok ok' grows st row m(1,2) this branches] show ?thesis
    using st expected m(3) new by fastforce
qed

text \<open>C34. A run that is not committed leaves the store as it was, and every other run is: on the main
  branch the tables change only when the outcome is that the operation was applied.\<close>

theorem only_applied_changes:
  "apply_and_record_expected env expected_root op db = Inr (result, db') \<Longrightarrow>
   db' = db \<or> (\<exists>report. result = Applied report \<and> rp_old_root report = expected_root
     \<and> branch db' MAIN_BRANCH = Inr \<lparr>bs_root_hash = rp_new_root report, bs_history_hash = rp_history_hash report\<rparr>)"
proof -
  assume "apply_and_record_expected env expected_root op db = Inr (result, db')"
  then obtain commit tables where tx:
    "apply_and_record_in_tx env MAIN_BRANCH expected_root op None db = Inr ((result, commit), tables)"
    and db': "db' = (if commit then tables else db)"
    by (auto simp: apply_and_record_expected_def)
  show ?thesis
  proof (cases commit)
    case True
    then have "apply_and_record_in_tx env MAIN_BRANCH expected_root op None db = Inr ((result, True), db')"
      using tx db' by simp
    then show ?thesis
    proof (rule committed)
      fix st new_root objs post summary migration hist
      assume pre: "failed_preconditions env (db_objects db) (bs_root_hash st)
          (preconditions_for env (db_objects db) expected_root op) = Inr []"
        and rec: "record_migration env MAIN_BRANCH st new_root op (preconditions_for env (db_objects db) expected_root op)
          post (case None of None \<Rightarrow> JObj [] | Some a \<Rightarrow> a) (db\<lparr>db_objects := objs\<rparr>) = ((migration, hist), db')"
        and result: "result = Applied \<lparr>rp_old_root = bs_root_hash st, rp_new_root = new_root,
          rp_migration_hash = Some migration, rp_history_hash = Some hist, rp_summary = summary\<rparr>"
      have "branch db' MAIN_BRANCH = Inr \<lparr>bs_root_hash = new_root, bs_history_hash = Some hist\<rparr>"
        using rec by (auto simp: record_migration_def Let_def update_branch_def branch_def branch_opt_def map_of_set_branch)
      with result failed_preconditions_current [OF pre] show ?thesis by simp
    qed
  qed (use db' in simp)
qed

subsection \<open>Fast forward\<close>

lemma lineage_suffix:
  "lineage env db c items \<Longrightarrow> items = newer @ item # older \<Longrightarrow>
   lineage env db (Some (hi_history_hash item)) (item # older)"
proof (induction arbitrary: newer rule: lineage.induct)
  case (further h row m op items)
  show ?case
  proof (cases newer)
    case Nil
    then show ?thesis
      using lineage.further [OF further.hyps(1-4)] further.prems by auto
  next
    case (Cons a newer')
    with further.prems show ?thesis by (intro further.IH) simp
  qed
qed simp

declare history_descends_loop.simps [simp del]

lemma descends_to:
  "lineage env db c items \<Longrightarrow> distinct (map hi_history_hash items) \<Longrightarrow>
   set (map hi_history_hash items) \<inter> set seen = {} \<Longrightarrow>
   history_descends_loop db (Some t) root c seen = Inr (t \<in> hi_history_hash ` set items)"
proof (induction arbitrary: seen rule: lineage.induct)
  case (further h row m op items)
  from further.prems have "set (map hi_history_hash items) \<inter> set (bset_insert h seen) = {}" by auto
  with further.prems have "history_descends_loop db (Some t) root (hs_parent row) (bset_insert h seen)
      = Inr (t \<in> hi_history_hash ` set items)"
    by (intro further.IH) simp_all
  with further.hyps further.prems show ?case by (subst history_descends_loop.simps(2)) auto
qed (simp add: history_descends_loop.simps)

lemma descends_to_start:
  "lineage env db c items \<Longrightarrow> distinct (map hi_history_hash items) \<Longrightarrow>
   set (map hi_history_hash items) \<inter> set seen = {} \<Longrightarrow>
   history_descends_loop db None root c seen = Inr (items \<noteq> [] \<and> hi_input_root (last items) = root)"
proof (induction arbitrary: seen rule: lineage.induct)
  case (further h row m op items)
  from further.prems have "set (map hi_history_hash items) \<inter> set (bset_insert h seen) = {}" by auto
  with further.prems have ih: "history_descends_loop db None root (hs_parent row) (bset_insert h seen)
      = Inr (items \<noteq> [] \<and> hi_input_root (last items) = root)"
    by (intro further.IH) simp_all
  have "hs_parent row = None \<longleftrightarrow> items = []"
    using further.hyps(4) by (cases "hs_parent row") (auto elim: lineage_NoneE lineage_SomeE)
  with ih further.hyps further.prems show ?case by (subst history_descends_loop.simps(2)) auto
qed (simp add: history_descends_loop.simps)

text \<open>One branch continues another: its chain starts with the chain of the other, and with the root
  of the other where that has no chain.\<close>

definition continues :: "branch_state \<Rightarrow> history_item list \<Rightarrow> branch_state \<Rightarrow> history_item list \<Rightarrow> bool" where
  "continues old older new newer \<longleftrightarrow>
     prefix older newer \<and>
     (older = [] \<longrightarrow> (case newer of [] \<Rightarrow> bs_root_hash new | first # _ \<Rightarrow> hi_input_root first) = bs_root_hash old)"

lemma descends_continues:
  assumes ok: "db_ok env db"
    and old: "lineage env db (bs_history_hash old) olds" "chain_path old (rev olds)"
    and new: "lineage env db (bs_history_hash new) news" "chain_path new (rev news)" "distinct (map hi_history_hash news)"
  shows "branch_state_descends_from db old new = Inr (continues old (rev olds) new (rev news))"
proof (cases "bs_root_hash old = bs_root_hash new \<and> bs_history_hash old = bs_history_hash new")
  case True
  then have same: "olds = news" using lineage_unique [OF old(1)] new(1) by simp
  have "continues old (rev olds) new (rev olds)"
    using True by (auto simp: continues_def split: list.splits)
  with True same show ?thesis by (simp add: branch_state_descends_from_def)
next
  case False
  then have run: "branch_state_descends_from db old new
      = history_descends_loop db (bs_history_hash old) (bs_root_hash old) (bs_history_hash new) []"
    unfolding branch_state_descends_from_def history_descends_from_def by (rule if_not_P)
  show ?thesis
  proof (cases "bs_history_hash old")
    case None
    then have olds: "olds = []" using old(1) by (auto elim: lineage_NoneE)
    have "bs_history_hash new = None" if "news = []" using new(2) that by (simp add: chain_path_def)
    then have "(news \<noteq> [] \<and> hi_input_root (last news) = bs_root_hash old) = continues old [] new (rev news)"
      using False None by (cases news rule: rev_cases) (auto simp: continues_def)
    with descends_to_start [OF new(1,3), of "[]"] run None olds show ?thesis by simp
  next
    case (Some t)
    then obtain item older where olds: "olds = item # older" using old(1) by (auto elim: lineage_SomeE)
    with old(2) Some have t: "t = hi_history_hash item" by (simp add: chain_path_def)
    have "t \<in> hi_history_hash ` set news \<longleftrightarrow> prefix (rev olds) (rev news)"
    proof
      assume "t \<in> hi_history_hash ` set news"
      then obtain item' xs ys where news: "news = xs @ item' # ys" "t = hi_history_hash item'"
        by (auto dest: split_list)
      have "item' # ys = olds"
        using lineage_unique lineage_suffix [OF new(1) news(1)] news(2) old(1) Some by simp
      then show "prefix (rev olds) (rev news)" using news(1) by auto
    next
      assume "prefix (rev olds) (rev news)"
      then have "item \<in> set news" using olds by (auto dest: set_mono_prefix)
      with t show "t \<in> hi_history_hash ` set news" by simp
    qed
    moreover have "continues old (rev olds) new (rev news) = prefix (rev olds) (rev news)"
      using olds by (simp add: continues_def)
    ultimately show ?thesis using descends_to [OF new(1,3), of "[]"] run Some by simp
  qed
qed

lemma branch_ok_history:
  assumes "db_ok env db" and "branch_ok env db st"
  shows "ensure_branch_history db st = Inr ()"
proof (cases "bs_history_hash st")
  case (Some h)
  with assms(2) obtain r where r: "r \<in> set (db_histories db)" "hs_hash r = h" "hs_output r = bs_root_hash st"
    by (auto simp: branch_ok_def)
  have "distinct (map hs_hash (db_histories db))"
    using assms(1) histories_distinct by (auto simp: db_ok_def)
  then have "row_by hs_hash h (db_histories db) = Some r" using row_by_Some_iff r by fastforce
  with Some r show ?thesis by (simp add: ensure_branch_history_def ensure_history_matches_root_def)
qed (simp add: ensure_branch_history_def)

text \<open>C6. With the current root of the target as the expected one, a fast forward is decided by the
  two chains alone: the target moves to the source exactly when the chain of the source
  continues its own, and otherwise nothing changes. It never ends in an error, whatever
  the histories are.\<close>

theorem fast_forward_exact:
  assumes env: "env_ok env" and builtin: "builtins_ok builtin_types" and reach: "reachable env builtin_types db"
    and old: "branch db target = Inr old" and new: "branch db source = Inr new"
    and name: "validate_branch_name target = Inr ()"
  shows "\<exists>olds news. history_chain env db target = Some (Inr olds) \<and> history_chain env db source = Some (Inr news) \<and>
     fast_forward_branch env target source (bs_root_hash old) db =
       Inr (if continues old olds new news
            then (Updated old new,
                  db\<lparr>db_branches := map (\<lambda>(n, s). (n, if n = target then new else s)) (db_branches db)\<rparr>)
            else (NonFastForward old new, db))"
proof -
  have ok: "db_ok env db" using reachable_ok [OF env _ reach] builtin by (simp add: builtins_ok_def)
  obtain olds where olds: "lineage env db (bs_history_hash old) olds" "chain_path old (rev olds)"
    "history_chain env db target = Some (Inr (rev olds))" using db_chain [OF ok old] by metis
  obtain news where news: "lineage env db (bs_history_hash new) news" "chain_path new (rev news)"
    "history_chain env db source = Some (Inr (rev news))" "distinct (map hi_history_hash news)"
    using db_chain [OF ok new] by metis
  have b: "branch_ok env db old" "branch_ok env db new" using db_ok_branch [OF ok] old new by auto
  then obtain root where "load_root env (db_objects db) (bs_root_hash new) = Inr root"
    by (auto simp: branch_ok_def is_ok_iff)
  then show ?thesis
    using descends_continues [OF ok olds(1,2) news(1,2,4)] branch_ok_history [OF ok] b old new name olds(3) news(3)
    by (intro exI [of _ "rev olds"] exI [of _ "rev news"])
      (simp add: fast_forward_branch_def fast_forward_branch_pointer_def)
qed

end
