(* ===== verification/NameOps.thy ===== *)
theory NameOps
  imports EditSpec Lineage
begin

text \<open>
  The operations on names, exports and tests as transactions on a branch: what a committed one
  has done to the root of its branch, when one is committed, which roots stay well formed, and
  which pairs of operations cancel out.
\<close>

subsection \<open>What a commit has done\<close>

lemma committed_branch:
  assumes "apply_and_record_in_tx env name expected op agent db = Inr ((result, True), db')"
  obtains st new_root hist where "branch db name = Inr st" and "expected = bs_root_hash st"
    and "failed_preconditions env (db_objects db) expected (preconditions_for env (db_objects db) expected op) = Inr []"
    and "apply_operation_to_root env expected (bs_history_hash st) op (db_objects db) = Inr (new_root, db_objects db')"
    and "failed_postconditions env (db_objects db') new_root (postconditions_for env (db_objects db') new_root op) = Inr []"
    and "new_root \<noteq> expected" and "branch db' name = Inr \<lparr>bs_root_hash = new_root, bs_history_hash = Some hist\<rparr>"
proof (rule committed [OF assms])
  fix st new_root objs post summary migration hist
  assume st: "branch db name = Inr st"
    and pre: "failed_preconditions env (db_objects db) (bs_root_hash st)
       (preconditions_for env (db_objects db) expected op) = Inr []"
    and run: "apply_operation_to_root env (bs_root_hash st) (bs_history_hash st) op (db_objects db) = Inr (new_root, objs)"
    and post: "failed_postconditions env objs new_root post = Inr []" "post = postconditions_for env objs new_root op"
    and new: "new_root \<noteq> bs_root_hash st"
    and rec: "record_migration env name st new_root op (preconditions_for env (db_objects db) expected op) post
       (case agent of None \<Rightarrow> JObj [] | Some a \<Rightarrow> a) (db\<lparr>db_objects := objs\<rparr>) = ((migration, hist), db')"
  have expected: "expected = bs_root_hash st" by (rule failed_preconditions_current [OF pre])
  have "db_objects db' = objs" and
    "db_branches db' = set_branch name \<lparr>bs_root_hash = new_root, bs_history_hash = Some hist\<rparr> (db_branches db)"
    using rec by (auto simp: record_migration_def Let_def update_branch_def)
  with st pre run post new expected set_branch_lookup [of db' name _ db name] show thesis
    by (intro that [of st new_root hist]) auto
qed

lemma edit_stored:
  assumes edit: "edits_view op" and env: "env_ok env" and objs: "list_all (object_row_ok env) objs"
    and load: "load_root env objs h = Inr r" and moves: "\<not> stays op"
    and run: "apply_operation_to_root env h parent op objs = Inr (h', objs')"
  shows "\<exists>r'. edit_of op r = Inr r' \<and> load_root env objs' h' = Inr (normalize_root r') \<and>
    adds env objs objs' \<and> validate_export_map (normalize_root r') = Inr ()"
proof -
  obtain check r' where r': "edit_of op r = Inr r'" "store_root env check r' objs = Inr (h', objs')"
    using apply_edit [OF edit load moves run] by blast
  from root_preserving.stored_root [OF root_edit.axioms(1) [OF edit_of_root_edit [OF edit]] env objs load r'] r'(1)
  show ?thesis by blast
qed

lemma reachable_objects:
  "env_ok env \<Longrightarrow> builtins_ok builtin_types \<Longrightarrow> reachable env builtin_types db \<Longrightarrow> list_all (object_row_ok env) (db_objects db)"
  using reachable_ok by (fastforce simp: builtins_ok_def db_ok_def)

text \<open>C8. A committed operation on names, exports or tests does to the tables of the root of its
  branch exactly what it says: seen as maps, the tables of the new root are the updated ones (the
  old name is gone, the new one has the owner of the old one, all others are as they were), every
  name still has one entry, and no definition has changed. Its preconditions, checked one by one
  on lists, are the conditions on the maps under which the update makes sense.\<close>

theorem name_edits_refine:
  assumes env: "env_ok env" and builtin: "builtins_ok builtin_types" and reach: "reachable env builtin_types db"
    and edit: "edits_view op"
    and tx: "apply_and_record_in_tx env name expected op agent db = Inr ((result, True), db')"
    and load: "load_root env (db_objects db) expected = Inr r" and once: "names_once r"
  shows "\<exists>st' r'. branch db' name = Inr st' \<and> load_root env (db_objects db') (bs_root_hash st') = Inr r' \<and>
     allowed op (view_of r) \<and> view_of r' = edit_view op (view_of r) \<and> names_once r' \<and>
     definitions_of r' = definitions_of r"
proof -
  obtain st new_root hist where "branch db name = Inr st" and
    pre: "failed_preconditions env (db_objects db) expected (preconditions_for env (db_objects db) expected op) = Inr []"
    and run: "apply_operation_to_root env expected (bs_history_hash st) op (db_objects db) = Inr (new_root, db_objects db')"
    and new: "new_root \<noteq> expected"
    and st': "branch db' name = Inr \<lparr>bs_root_hash = new_root, bs_history_hash = Some hist\<rparr>"
    by (rule committed_branch [OF tx]) blast
  have moves: "\<not> stays op" using apply_stays [OF _ run] new by blast
  obtain r' where r': "edit_of op r = Inr r'" "load_root env (db_objects db') new_root = Inr (normalize_root r')"
    using edit_stored [OF edit env reachable_objects [OF env builtin reach] load moves run] by blast
  have allowed: "allowed op (view_of r)" using pre by (simp add: preconditions_allowed [OF edit load once])
  from edit_refines [OF edit this once moves r'(1)] allowed st' r'
    root_edit.keeps_definitions [OF edit_of_root_edit [OF edit] r'(1)]
  show ?thesis by simp
qed

text \<open>A test whose case another test shares can not be deleted. The name of a test is not part of
  its case, so two tests with the same case have the same hash; the promise of the deletion asks
  that neither the name nor the hash be bound afterwards, the other test still binds the hash, and
  the transaction fails.\<close>

lemma shared_test_stays:
  assumes env: "env_ok env" and builtin: "builtins_ok builtin_types" and reach: "reachable env builtin_types db"
    and st: "branch db name = Inr st" and load: "load_root env (db_objects db) (bs_root_hash st) = Inr r"
    and other: "b \<in> set (tests r)" "tb_name b \<noteq> n" "tb_test b = t"
  shows "\<nexists>result db'. apply_and_record_in_tx env name expected (DeleteTest n t) agent db = Inr ((result, True), db')"
proof (intro notI, elim exE)
  fix result db' assume "apply_and_record_in_tx env name expected (DeleteTest n t) agent db = Inr ((result, True), db')"
  then show False
  proof (rule committed_branch)
    fix st' new_root hist
    assume "branch db name = Inr st'" and expected: "expected = bs_root_hash st'"
      and run: "apply_operation_to_root env expected (bs_history_hash st') (DeleteTest n t) (db_objects db)
        = Inr (new_root, db_objects db')"
      and post: "failed_postconditions env (db_objects db') new_root
        (postconditions_for env (db_objects db') new_root (DeleteTest n t)) = Inr []"
    then have load: "load_root env (db_objects db) expected = Inr r" using st load by simp
    obtain r' where r': "delete_test r n t = Inr r'" "load_root env (db_objects db') new_root = Inr (normalize_root r')"
      using edit_stored [OF _ env reachable_objects [OF env builtin reach] load _ run]
      by (auto simp: edits_view_def edit_of_def stays_def)
    have "b \<in> set (tests r')" using other r'(1) by (auto simp: delete_test_Inr)
    with post other(3) show False
      unfolding no_failed_postconditions [OF r'(2)]
      by (auto simp: postconditions_for_def postcondition_holds_def list_ex_iff)
  qed
qed

text \<open>C9. When an operation on names, exports or tests goes through. Let its preconditions hold, and let
  the store, the indexer and the checker take its root; then it is applied, and the branch moves on to
  the new root, unless it moves a name to the module it is in or deletes a test whose case another
  test shares. In these two cases it is not: the first changes nothing, and the second breaks the
  promise that no test with this case is left.\<close>

theorem name_edits_apply:
  assumes env: "env_ok env" and builtin: "builtins_ok builtin_types" and reach: "reachable env builtin_types db"
    and edit: "edits_view op"
    and st: "branch db name = Inr st" and load: "load_root env (db_objects db) (bs_root_hash st) = Inr r"
    and once: "names_once r" and allowed: "allowed op (view_of r)"
    and run: "apply_operation_to_root env (bs_root_hash st) (bs_history_hash st) op (db_objects db) = Inr (new_root, objs)"
    and summary: "env_summary env objs op (bs_root_hash st) new_root = Inr summary"
  shows "(\<exists>report db'. apply_and_record_in_tx env name (bs_root_hash st) op agent db = Inr ((Applied report, True), db')
       \<and> rp_old_root report = bs_root_hash st \<and> rp_new_root report = new_root \<and> new_root \<noteq> bs_root_hash st)
     \<longleftrightarrow> \<not> stays op \<and> (\<forall>n t k. op = DeleteTest n t \<longrightarrow> v_tests (view_of r) k = Some t \<longrightarrow> k = n)"
proof
  assume "\<exists>report db'. apply_and_record_in_tx env name (bs_root_hash st) op agent db = Inr ((Applied report, True), db')
       \<and> rp_old_root report = bs_root_hash st \<and> rp_new_root report = new_root \<and> new_root \<noteq> bs_root_hash st"
  then obtain report db' where tx: "apply_and_record_in_tx env name (bs_root_hash st) op agent db = Inr ((Applied report, True), db')"
    and moved: "new_root \<noteq> bs_root_hash st" by blast
  have "k = n" if op: "op = DeleteTest n t" and k: "v_tests (view_of r) k = Some t" for n t k
  proof (rule ccontr)
    assume "k \<noteq> n"
    moreover obtain b where "b \<in> set (tests r)" "tb_name b = k" "tb_test b = t"
      using k once by (auto simp: view_of_def table_Some names_once_keys)
    ultimately show False using shared_test_stays [OF env builtin reach st load] tx unfolding op by blast
  qed
  with apply_stays [OF _ run] moved show "\<not> stays op \<and> (\<forall>n t k. op = DeleteTest n t \<longrightarrow> v_tests (view_of r) k = Some t \<longrightarrow> k = n)"
    by blast
next
  assume goes: "\<not> stays op \<and> (\<forall>n t k. op = DeleteTest n t \<longrightarrow> v_tests (view_of r) k = Some t \<longrightarrow> k = n)"
  then have moves: "\<not> stays op" and shared: "\<And>n t. op = DeleteTest n t \<Longrightarrow> \<forall>k. v_tests (view_of r) k = Some t \<longrightarrow> k = n" by blast+
  let ?h = "bs_root_hash st"
  note objs = reachable_objects [OF env builtin reach]
  obtain r' where r': "edit_of op r = Inr r'" "load_root env objs new_root = Inr (normalize_root r')"
    and adds: "adds env (db_objects db) objs"
    using edit_stored [OF edit env objs load moves run] by blast
  from edit_refines [OF edit allowed once moves r'(1)]
  have view: "names_once (normalize_root r')" "view_of (normalize_root r') = edit_view op (view_of r)" by simp_all
  have "failed_preconditions env (db_objects db) ?h (preconditions_for env (db_objects db) ?h op) = Inr []"
    using allowed by (simp add: preconditions_allowed [OF edit load once])
  moreover have "failed_postconditions env objs new_root (postconditions_for env objs new_root op) = Inr []"
    using allowed_fulfilled(1) [OF edit allowed moves shared]
    by (simp add: postconditions_fulfilled [OF edit r'(2) view(1)] view(2))
  moreover have "new_root \<noteq> ?h"
  proof
    assume "new_root = ?h"
    with load_root_extends [OF adds_extends [OF adds]] load r'(2) have "normalize_root r' = r" by fastforce
    with view(2) allowed_fulfilled(2) [OF edit allowed moves shared] show False by simp
  qed
  ultimately show "\<exists>report db'. apply_and_record_in_tx env name ?h op agent db = Inr ((Applied report, True), db')
       \<and> rp_old_root report = ?h \<and> rp_new_root report = new_root \<and> new_root \<noteq> ?h"
    using st run summary by (simp add: apply_and_record_in_tx_def Let_def record_migration_def case_prod_unfold)
qed

subsection \<open>Deleting symbols and tests\<close>

lemma delete_stored:
  assumes env: "env_ok env" and objs: "list_all (object_row_ok env) objs" and load: "load_root env objs h = Inr r"
    and run: "apply_operation_to_root env h parent (DeleteSymbol m s n force) objs = Inr (h', objs')"
  obtains deps live where "reverse_dependencies_for_root env objs r s = Inr deps"
    and "live_tests_of env objs r s = Inr live" and "force \<or> deps = [] \<and> live = []"
    and "load_root env objs' h' = Inr (normalize_root (delete_symbol_entries r s force live))"
    and "validate_export_map (normalize_root (delete_symbol_entries r s force live)) = Inr ()"
proof -
  from run load obtain deps live where parts: "reverse_dependencies_for_root env objs r s = Inr deps"
    "live_tests_of env objs r s = Inr live" "force \<or> deps = [] \<and> live = []"
    and store: "store_root env True (delete_symbol_entries r s force live) objs = Inr (h', objs')"
    by (auto simp: apply_operation_to_root_def apply_delete_symbol_def Let_def split: if_splits)
  from delete_symbol.stored_root [OF env objs load refl store] parts show thesis by (blast intro: that)
qed

text \<open>C10. The operations on names, exports and tests and the deletion of a symbol keep the root of a
  branch well formed: its names are identifiers with one owner, its entries are unique, nothing
  refers to a symbol or type the root does not define, and the export gate accepts it.\<close>

theorem edits_keep_roots_wf:
  assumes env: "env_ok env" and builtin: "builtins_ok builtin_types" and reach: "reachable env builtin_types db"
    and op: "edits_view op \<or> kind_name op = ''delete_symbol''"
    and tx: "apply_and_record_in_tx env name expected op agent db = Inr ((result, True), db')"
    and load: "load_root env (db_objects db) expected = Inr r" and wf: "root_wf r"
  shows "\<exists>st' r'. branch db' name = Inr st' \<and> load_root env (db_objects db') (bs_root_hash st') = Inr r' \<and>
     root_wf r' \<and> validate_export_map r' = Inr ()"
proof (rule committed_branch [OF tx])
  fix st new_root hist
  assume run: "apply_operation_to_root env expected (bs_history_hash st) op (db_objects db) = Inr (new_root, db_objects db')"
    and new: "new_root \<noteq> expected"
    and st': "branch db' name = Inr \<lparr>bs_root_hash = new_root, bs_history_hash = Some hist\<rparr>"
  note objs = reachable_objects [OF env builtin reach]
  have "\<exists>r'. load_root env (db_objects db') new_root = Inr r' \<and> root_wf r' \<and> validate_export_map r' = Inr ()"
  proof (cases "edits_view op")
    case True
    have "\<not> stays op" using apply_stays [OF _ run] new by blast
    then obtain check r' where r': "edit_of op r = Inr r'" "store_root env check r' (db_objects db) = Inr (new_root, db_objects db')"
      using apply_edit [OF True load _ run] by blast
    show ?thesis
      by (rule root_preserving.stored_wf [OF root_edit.axioms(1) [OF edit_of_root_edit [OF True]] env objs load r' wf])
  next
    case False
    then obtain m s n force where "op = DeleteSymbol m s n force" using op by (cases op) (simp_all add: edits_view_def)
    from delete_stored [OF env objs load run [unfolded this]] obtain live where
      "load_root env (db_objects db') new_root = Inr (normalize_root (delete_symbol_entries r s force live))"
      "validate_export_map (normalize_root (delete_symbol_entries r s force live)) = Inr ()" by blast
    then show ?thesis using delete_symbol.keeps_wf [OF refl wf, of s force live] by auto
  qed
  with st' show ?thesis by auto
qed

lemma reverse_dependencies_empty:
  assumes "reverse_dependencies_for_root env objs r s = Inr []" and "entry \<in> set (symbols r)"
    and "env_dependencies env objs r (rs_definition entry) = Inr (Some deps)"
  shows "s \<notin> set deps"
proof -
  define step where "step = (\<lambda>(entry :: root_symbol_payload) callers. res_bind (env_dependencies env objs r (rs_definition entry)) (\<lambda>deps.
      case deps of None \<Rightarrow> Inr callers
      | Some deps \<Rightarrow> Inr (if s \<in> set deps then callers @ [rs_symbol entry] else callers)))"
  have one: "callers = [] \<and> (\<forall>ds. env_dependencies env objs r (rs_definition e) = Inr (Some ds) \<longrightarrow> s \<notin> set ds)"
    if "step e callers = Inr []" for e callers
    using that by (auto simp: step_def split: option.splits if_splits)
  have "res_fold step es callers = Inr [] \<Longrightarrow> callers = [] \<and>
      (\<forall>e \<in> set es. \<forall>ds. env_dependencies env objs r (rs_definition e) = Inr (Some ds) \<longrightarrow> s \<notin> set ds)" for es callers
  proof (induction es arbitrary: callers)
    case (Cons e es)
    then obtain cs where "step e callers = Inr cs" "res_fold step es cs = Inr []" by auto
    with Cons.IH [of cs] one [of e callers] show ?case by simp
  qed simp
  moreover have "res_fold step (symbols r) [] = Inr []"
  proof -
    obtain cs where "res_fold step (symbols r) [] = Inr cs" "sort cs = []"
      using assms(1) by (auto simp: reverse_dependencies_for_root_def step_def)
    moreover from this(2) have "cs = []" by (metis length_0_conv length_sort)
    ultimately show ?thesis by simp
  qed
  ultimately show ?thesis using assms(2,3) by blast
qed

lemma live_tests:
  assumes "live_tests_of env objs r s = Inr live"
  shows "set live = {tb_name b | b. b \<in> set (tests r) \<and> env_test_entry env objs (tb_test b) = Inr s}"
proof -
  obtain ns where ns: "res_map (\<lambda>b. res_bind (env_test_entry env objs (tb_test b)) (\<lambda>entry.
      Inr (if entry = s then [tb_name b] else []))) (tests r) = Inr ns" "live = concat ns"
    using assms by (auto simp: live_tests_of_def)
  have "res_map (\<lambda>b. res_bind (env_test_entry env objs (tb_test b)) (\<lambda>entry. Inr (if entry = s then [tb_name b] else []))) bs = Inr ns
      \<Longrightarrow> x \<in> set (concat ns) \<longleftrightarrow> (\<exists>b \<in> set bs. env_test_entry env objs (tb_test b) = Inr s \<and> x = tb_name b)" for bs x
    by (induction bs arbitrary: ns) (auto split: if_splits)
  from this [OF ns(1)] ns(2) show ?thesis by blast
qed

text \<open>C11. A deletion leaves nothing of the symbol and touches nothing else. After a committed one the
  root has no entry, name, parameter list or export of the symbol; of the tests exactly those are gone
  that carry the name of a test about the symbol; every other entry, the types, the recursion groups
  and the metadata are as they were. Without force no definition of the root depended on the symbol
  and no test was about it, so all tests stay.\<close>

theorem delete_symbol_exact:
  assumes env: "env_ok env" and builtin: "builtins_ok builtin_types" and reach: "reachable env builtin_types db"
    and tx: "apply_and_record_in_tx env name expected (DeleteSymbol m s n force) agent db = Inr ((result, True), db')"
    and load: "load_root env (db_objects db) expected = Inr r"
  shows "\<exists>st' r'. branch db' name = Inr st' \<and> load_root env (db_objects db') (bs_root_hash st') = Inr r' \<and>
     set (symbols r') = {e \<in> set (symbols r). rs_symbol e \<noteq> s} \<and>
     set (names r') = {b \<in> set (names r). nb_symbol b \<noteq> s} \<and>
     set (param_names r') = {e \<in> set (param_names r). pn_symbol e \<noteq> s} \<and>
     set (exports r') = {b \<in> set (exports r). eb_symbol b \<noteq> s} \<and>
     set (types r') = set (types r) \<and> set (type_names r') = set (type_names r) \<and>
     set (recursion_groups r') = set (recursion_groups r) \<and>
     set (type_recursion_groups r') = set (type_recursion_groups r) \<and> metadata r' = metadata r \<and>
     set (tests r') = {b \<in> set (tests r). \<not> (\<exists>b' \<in> set (tests r). tb_name b' = tb_name b \<and>
       env_test_entry env (db_objects db) (tb_test b') = Inr s)} \<and>
     (\<forall>b \<in> set (tests r'). env_test_entry env (db_objects db') (tb_test b) \<noteq> Inr s) \<and>
     (\<not> force \<longrightarrow> set (tests r') = set (tests r) \<and> (\<forall>e \<in> set (symbols r). \<forall>deps.
        env_dependencies env (db_objects db) r (rs_definition e) = Inr (Some deps) \<longrightarrow> s \<notin> set deps))"
proof (rule committed_branch [OF tx])
  fix st new_root hist
  assume run: "apply_operation_to_root env expected (bs_history_hash st) (DeleteSymbol m s n force) (db_objects db)
      = Inr (new_root, db_objects db')"
    and post: "failed_postconditions env (db_objects db') new_root
      (postconditions_for env (db_objects db') new_root (DeleteSymbol m s n force)) = Inr []"
    and st': "branch db' name = Inr \<lparr>bs_root_hash = new_root, bs_history_hash = Some hist\<rparr>"
  from delete_stored [OF env reachable_objects [OF env builtin reach] load run] obtain deps live where
    parts: "reverse_dependencies_for_root env (db_objects db) r s = Inr deps" "force \<or> deps = [] \<and> live = []"
    and live: "live_tests_of env (db_objects db) r s = Inr live"
    and load': "load_root env (db_objects db') new_root = Inr (normalize_root (delete_symbol_entries r s force live))"
    by blast
  let ?r' = "normalize_root (delete_symbol_entries r s force live)"
  have "\<forall>b \<in> set (tests ?r'). env_test_entry env (db_objects db') (tb_test b) \<noteq> Inr s"
    using post unfolding no_failed_postconditions [OF load']
    by (simp add: postconditions_for_def postcondition_holds_def list_ex_iff)
  moreover have "set (tests ?r') = {b \<in> set (tests r). tb_name b \<notin> set live}"
    using parts(2) by (auto simp: delete_symbol_entries_def)
  then have "set (tests ?r') = {b \<in> set (tests r). \<not> (\<exists>b' \<in> set (tests r). tb_name b' = tb_name b \<and>
       env_test_entry env (db_objects db) (tb_test b') = Inr s)}"
    unfolding live_tests [OF live] by auto
  moreover have "\<not> force \<longrightarrow> set (tests ?r') = set (tests r)" using parts(2) by (auto simp: delete_symbol_entries_def)
  moreover have "metadata ?r' = metadata r" by (simp add: delete_symbol_entries_def normalize_root_def)
  ultimately show ?thesis
    using st' load' parts reverse_dependencies_empty [of env "db_objects db" r s]
    by (intro exI [of _ "\<lparr>bs_root_hash = new_root, bs_history_hash = Some hist\<rparr>"] exI [of _ ?r'])
      (auto simp: delete_symbol_entries_def)
qed

subsection \<open>Operations that cancel out\<close>

definition undo :: "operation \<Rightarrow> operation option" where
  "undo op = (case op of
     RenameSymbol m s a n \<Rightarrow> Some (RenameSymbol m s n a)
   | RenameType m s a n \<Rightarrow> Some (RenameType m s n a)
   | CreateAlias m s n a \<Rightarrow> Some (RemoveAlias m s n a)
   | SetExport m s n e \<Rightarrow> Some (RemoveExport m s n e)
   | _ \<Rightarrow> None)"

lemma renamed_back:
  assumes "\<forall>b \<in> set ns. \<not> (nb_module b = m \<and> nb_display_name b = n)"
  shows "image_mset (renamed m s n a) (image_mset (renamed m s a n) (mset ns)) = mset ns"
proof -
  have "map (renamed m s n a) (map (renamed m s a n) ns) = ns"
    using assms by (induction ns) (auto simp: renamed_def)
  then show ?thesis by (metis mset_map)
qed

lemma type_renamed_back:
  assumes "\<forall>b \<in> set ns. \<not> (tnb_module b = m \<and> tnb_display_name b = n)"
  shows "image_mset (type_renamed m s n a) (image_mset (type_renamed m s a n) (mset ns)) = mset ns"
proof -
  have "map (type_renamed m s n a) (map (type_renamed m s a n) ns) = ns"
    using assms by (induction ns) (auto simp: type_renamed_def)
  then show ?thesis by (metis mset_map)
qed

lemma undo_content:
  assumes undo: "undo op = Some back" and edit: "edit_of op r = Inr r1" and again: "edit_of back (normalize_root r1) = Inr r2"
  shows "same_content r2 r"
proof (cases op)
  case (RenameSymbol m s a n)
  then have "rename_symbol r m s a n = Inr r1" "rename_symbol (normalize_root r1) m s n a = Inr r2"
    using assms by (auto simp: undo_def edit_of_def rename_checked_def)
  then show ?thesis using renamed_back [of "names r" m n s a]
    by (auto simp: rename_symbol_Inr same_content_def)
next
  case (RenameType m s a n)
  then have "rename_type r m s a n = Inr r1" "rename_type (normalize_root r1) m s n a = Inr r2"
    using assms by (auto simp: undo_def edit_of_def rename_type_checked_def)
  then show ?thesis using type_renamed_back [of "type_names r" m n s a]
    by (auto simp: rename_type_Inr same_content_def)
next
  case (CreateAlias m s n a)
  then have "create_alias r m s n a = Inr r1" "remove_alias (normalize_root r1) m s n a = Inr r2"
    using assms by (auto simp: undo_def edit_of_def alias_checked_def)
  then show ?thesis
    by (auto simp: create_alias_Inr remove_alias_Inr same_content_def filter_mset_eq_conv mset_filter)
next
  case (SetExport m s n e)
  then have "set_export r m s n e = Inr r1" "remove_export (normalize_root r1) m s n e = Inr r2"
    using assms by (auto simp: undo_def edit_of_def export_checked_def)
  then show ?thesis
    by (auto simp: set_export_Inr remove_export_Inr same_content_def filter_mset_eq_conv mset_filter)
qed (use undo in \<open>simp_all add: undo_def\<close>)

lemma undo_edits: "undo op = Some back \<Longrightarrow> edits_view op \<and> edits_view back \<and> \<not> stays op \<and> \<not> stays back"
  by (cases op) (auto simp: undo_def edits_view_def stays_def)

lemma put_hash: "put_program_root env r objs = Inr (h, objs') \<Longrightarrow>
  h = hash_object env ''ProgramRoot'' (env_root_to_json env (normalize_root r))"
  by (auto simp: put_program_root_def put_object_def Let_def)

text \<open>C12. Renaming a symbol or type and renaming it back, setting an alias or an export and removing
  it again give the very root they started from: the same hash, so the branch points at the same
  object, whatever order the entries went through.\<close>

theorem edits_undo:
  assumes env: "env_ok env" and objs: "list_all (object_row_ok env) objs0" and root: "root_ok r" "keyed_once r"
    and put: "put_program_root env r objs0 = Inr (h, objs)" and undo: "undo op = Some back"
    and first: "apply_operation_to_root env h p1 op objs = Inr (h1, objs1)"
    and second: "apply_operation_to_root env h1 p2 back objs1 = Inr (h2, objs2)"
  shows "h2 = h"
proof -
  note ops = undo_edits [OF undo]
  have objs': "list_all (object_row_ok env) objs" and load: "load_root env objs h = Inr (normalize_root r)"
    using load_stored [OF env objs put root(1)] adds_objects_ok [OF _ objs] by auto
  obtain r1 where r1: "edit_of op (normalize_root r) = Inr r1" "load_root env objs1 h1 = Inr (normalize_root r1)"
    and adds: "adds env objs objs1" using edit_stored [OF _ env objs' load _ first] ops by blast
  obtain check r2 where r2: "edit_of back (normalize_root r1) = Inr r2" "store_root env check r2 objs1 = Inr (h2, objs2)"
    using apply_edit [OF _ r1(2) _ second] ops by blast
  from undo_content [OF undo r1(1) r2(1)] have "same_content (normalize_root r) r2" by (rule same_content_sym)
  then have "normalize_root (normalize_root r) = normalize_root r2"
    using root(2) by (intro normalize_root_content) (simp_all add: keyed_once_def)
  then have same: "normalize_root r2 = normalize_root r" by (simp add: normalize_root_idem)
  obtain objs3 where "put_program_root env r2 objs1 = Inr (h2, objs3)" using r2(2) by (auto simp: store_root_def)
  from put_hash [OF this] put_hash [OF put] same show ?thesis by simp
qed

end
