(* ===== verification/SampleEnv.thy ===== *)
theory SampleEnv
  imports NameOps
begin

text \<open>
  An environment with concrete codecs and a digest that is injective, so that the hypotheses about
  the environment can be met. A root is written as an array of its tables. The digest escapes NUL
  and is otherwise the text itself; creating a definition installs a root with one symbol.
\<close>

subsection \<open>A codec for roots\<close>

definition enc_strings :: "string list \<Rightarrow> json" where
  "enc_strings ss = JArr (map JStr ss)"

fun dec_strings :: "json \<Rightarrow> string list option" where
  "dec_strings (JArr vs) = those (map as_str vs)"
| "dec_strings _ = None"

definition enc_bool :: "bool \<Rightarrow> string" where
  "enc_bool b = (if b then ''1'' else [])"

definition sample_root_to_json :: "program_root \<Rightarrow> json" where
  "sample_root_to_json r = JArr
     [JArr (map (\<lambda>e. enc_strings [rs_symbol e, rs_definition e, rs_signature e]) (symbols r)),
      JArr (map (\<lambda>e. enc_strings [rt_type_symbol e, rt_type_def e]) (types r)),
      JArr (map (\<lambda>b. enc_strings [nb_module b, nb_display_name b, nb_symbol b, enc_bool (nb_is_preferred b)]) (names r)),
      JArr (map (\<lambda>b. enc_strings [tnb_module b, tnb_display_name b, tnb_type_symbol b, enc_bool (tnb_is_preferred b)]) (type_names r)),
      JArr (map (\<lambda>e. enc_strings (pn_symbol e # pn_names e)) (param_names r)),
      JArr (map (\<lambda>b. enc_strings [eb_symbol b, eb_exported_name b]) (exports r)),
      JArr (map (\<lambda>b. enc_strings [tb_name b, tb_test b]) (tests r)),
      enc_strings (recursion_groups r),
      enc_strings (type_recursion_groups r),
      JObj (metadata r)]"

definition dec_rows :: "(string list \<Rightarrow> 'a option) \<Rightarrow> json list \<Rightarrow> 'a list option" where
  "dec_rows f vs = those (map (\<lambda>v. Option.bind (dec_strings v) f) vs)"

fun dec_symbol :: "string list \<Rightarrow> root_symbol_payload option" where
  "dec_symbol [a, b, c] = Some \<lparr>rs_symbol = a, rs_definition = b, rs_signature = c\<rparr>"
| "dec_symbol _ = None"

fun dec_type :: "string list \<Rightarrow> root_type_payload option" where
  "dec_type [a, b] = Some \<lparr>rt_type_symbol = a, rt_type_def = b\<rparr>"
| "dec_type _ = None"

fun dec_name :: "string list \<Rightarrow> name_binding option" where
  "dec_name [a, b, c, d] = Some \<lparr>nb_module = a, nb_display_name = b, nb_symbol = c, nb_is_preferred = (d \<noteq> [])\<rparr>"
| "dec_name _ = None"

fun dec_type_name :: "string list \<Rightarrow> type_name_binding option" where
  "dec_type_name [a, b, c, d] =
     Some \<lparr>tnb_module = a, tnb_display_name = b, tnb_type_symbol = c, tnb_is_preferred = (d \<noteq> [])\<rparr>"
| "dec_type_name _ = None"

fun dec_params :: "string list \<Rightarrow> param_names_payload option" where
  "dec_params (a # ns) = Some \<lparr>pn_symbol = a, pn_names = ns\<rparr>"
| "dec_params _ = None"

fun dec_export :: "string list \<Rightarrow> export_binding option" where
  "dec_export [a, b] = Some \<lparr>eb_symbol = a, eb_exported_name = b\<rparr>"
| "dec_export _ = None"

fun dec_test :: "string list \<Rightarrow> root_test_binding option" where
  "dec_test [a, b] = Some \<lparr>tb_name = a, tb_test = b\<rparr>"
| "dec_test _ = None"

definition sample_root_decode :: "json \<Rightarrow> program_root option" where
  "sample_root_decode v = (case v of
     JArr [JArr ss, JArr ts, JArr ns, JArr tns, JArr ps, JArr es, JArr tes, gs, tgs, JObj m] \<Rightarrow>
       Option.bind (dec_rows dec_symbol ss) (\<lambda>ss.
       Option.bind (dec_rows dec_type ts) (\<lambda>ts.
       Option.bind (dec_rows dec_name ns) (\<lambda>ns.
       Option.bind (dec_rows dec_type_name tns) (\<lambda>tns.
       Option.bind (dec_rows dec_params ps) (\<lambda>ps.
       Option.bind (dec_rows dec_export es) (\<lambda>es.
       Option.bind (dec_rows dec_test tes) (\<lambda>tes.
       Option.bind (dec_strings gs) (\<lambda>gs.
       Option.bind (dec_strings tgs) (\<lambda>tgs.
         Some \<lparr>symbols = ss, types = ts, names = ns, type_names = tns, param_names = ps, exports = es,
           tests = tes, recursion_groups = gs, type_recursion_groups = tgs, metadata = m\<rparr>)))))))))
   | _ \<Rightarrow> None)"

definition sample_root_from_json :: "json \<Rightarrow> program_root res" where
  "sample_root_from_json v =
     (case sample_root_decode (json_norm v) of
        Some r \<Rightarrow> if root_ok r then Inr r else Inl (Bail ''not a root'' [])
      | None \<Rightarrow> Inl (Bail ''not a root'' []))"

lemma those_map_Some: "(\<And>x. x \<in> set xs \<Longrightarrow> f (g x) = Some x) \<Longrightarrow> those (map f (map g xs)) = Some xs"
  by (induction xs) auto

lemma dec_enc_strings [simp]: "dec_strings (enc_strings ss) = Some ss"
  using those_map_Some [of ss as_str JStr] by (simp add: enc_strings_def)

lemma dec_enc_rows: "(\<And>x. f (g x) = Some x) \<Longrightarrow> dec_rows f (map (\<lambda>x. enc_strings (g x)) xs) = Some xs"
  unfolding dec_rows_def by (induction xs) auto

lemma sample_root_decode_encode: "sample_root_decode (sample_root_to_json r) = Some (r :: program_root)"
  by (simp add: sample_root_decode_def sample_root_to_json_def dec_enc_rows enc_bool_def)

lemma enc_strings_norm [simp]: "json_norm (enc_strings ss) = enc_strings ss" "json_ok (enc_strings ss)"
  by (auto simp: enc_strings_def comp_def)

lemma sample_root_norm:
  assumes "root_ok r"
  shows "json_ok (sample_root_to_json r)" and "json_norm (sample_root_to_json r) = sample_root_to_json r"
proof -
  have "map (\<lambda>(k, v). (k, json_norm v)) (metadata r) = metadata r"
    using assms by (auto simp: root_ok_def intro!: map_idI)
  moreover have "sort_key fst (metadata r) = metadata r"
    using assms by (intro sort_key_id_if_sorted) (simp add: root_ok_def)
  ultimately show "json_norm (sample_root_to_json r) = sample_root_to_json r"
    by (simp add: sample_root_to_json_def comp_def)
  show "json_ok (sample_root_to_json r)"
    using assms by (auto simp: sample_root_to_json_def root_ok_def)
qed

subsection \<open>The environment\<close>

definition escape :: "char \<Rightarrow> string" where
  "escape c = (if c = CHR 0x00 then [CHR 0x01, CHR 0x02] else if c = CHR 0x01 then [CHR 0x01, CHR 0x03] else [c])"

definition sample_sha256 :: "string \<Rightarrow> string" where
  "sample_sha256 s = concat (map escape s)"

lemma sample_sha256_inj: "inj sample_sha256"
proof (rule injI)
  fix s t show "sample_sha256 s = sample_sha256 t \<Longrightarrow> s = t"
  proof (induction s arbitrary: t)
    case Nil
    then show ?case by (cases t) (auto simp: sample_sha256_def escape_def split: if_splits)
  next
    case (Cons c s)
    show ?case
    proof (cases t)
      case (Cons d u)
      then show ?thesis using Cons.prems Cons.IH
        by (auto simp: sample_sha256_def escape_def split: if_splits)
    qed (use Cons.prems in \<open>auto simp: sample_sha256_def escape_def split: if_splits\<close>)
  qed
qed

lemma sample_sha256_no_NUL: "CHR 0x00 \<notin> set (sample_sha256 s)"
  by (auto simp: sample_sha256_def escape_def)

definition sample_root :: program_root where
  "sample_root = empty_root\<lparr>
     symbols := [\<lparr>rs_symbol = sample_symbol_hash, rs_definition = ''d'', rs_signature = ''s''\<rparr>],
     names := [\<lparr>nb_module = ''shop'', nb_display_name = ''tax'', nb_symbol = sample_symbol_hash,
       nb_is_preferred = True\<rparr>],
     tests := [\<lparr>tb_name = ''t'', tb_test = ''c''\<rparr>, \<lparr>tb_name = ''u'', tb_test = ''c''\<rparr>]\<rparr>"

definition sample_create :: operation where
  "sample_create = CreateFunction ''shop'' ''tax'' ''b'' [] [] [] ''i64'' [] UnitE"

definition sample_rename :: operation where
  "sample_rename = RenameSymbol ''shop'' sample_symbol_hash ''tax'' ''vat''"

definition sample_delete :: operation where
  "sample_delete = DeleteSymbol ''shop'' sample_symbol_hash ''tax'' False"

definition sample_env :: env where
  "sample_env = \<lparr>
     env_quote = sample_quote,
     env_sha256 = sample_sha256,
     env_root_to_json = sample_root_to_json,
     env_root_from_json = sample_root_from_json,
     env_operation_to_json = (\<lambda>op. JStr (kind_name op)),
     env_operation_of_text = (\<lambda>text.
       if text = sample_quote ''create_function'' then Inr sample_create
       else if text = sample_quote ''rename_symbol'' then Inr sample_rename
       else Inl (Bail ''not an operation'' [])),
     env_preconditions_to_json = (\<lambda>_. JNull),
     env_postconditions_to_json = (\<lambda>_. JNull),
     env_index_root = (\<lambda>_ objects. Inr objects),
     env_type_check_root = (\<lambda>_ _. Inr ()),
     env_dependencies = (\<lambda>_ _ _. Inr None),
     env_test_entry = (\<lambda>_ _. Inr ''other''),
     env_field_symbol = (\<lambda>_ _ _ _. Inl (Bail ''no field'' [])),
     env_variant_symbol = (\<lambda>_ _ _ _. Inl (Bail ''no variant'' [])),
     env_field_points = (\<lambda>_ _ _ _ _. Inr False),
     env_field_available = (\<lambda>_ _ _ _. Inr True),
     env_variant_points = (\<lambda>_ _ _ _ _. Inr False),
     env_variant_available = (\<lambda>_ _ _ _. Inr True),
     env_source_matches = (\<lambda>_ _ _. Inr True),
     env_apply_definition = (\<lambda>objects _ _ _.
       let payload = sample_root_to_json sample_root;
           hash = hash_object_canonical sample_sha256 ''ProgramRoot'' SCHEMA_VERSION (canonical_json sample_quote payload)
       in Inr (hash, insert_or_ignore or_hash \<lparr>or_hash = hash, or_kind = ''ProgramRoot'', or_payload = payload\<rparr> objects)),
     env_summary = (\<lambda>_ _ _ _. Inr JNull),
     env_fallback_summary = (\<lambda>_. JNull)\<rparr>"

lemma sample_env_ok: "env_ok sample_env"
proof -
  have decode: "sample_root_from_json v = Inr r"
    if "root_ok r" "json_norm v = json_norm (sample_root_to_json r)" for v r
    using that sample_root_norm(2) [OF that(1)] sample_root_decode_encode [of r]
    by (simp add: sample_root_from_json_def)
  have ok: "root_ok r" if "sample_root_from_json v = Inr r" for v r
    using that by (auto simp: sample_root_from_json_def split: option.splits if_splits)
  have root: "root_ok sample_root" by (simp add: root_ok_def sample_root_def empty_root_def)
  have env: "env_quote sample_env = sample_quote" "env_sha256 sample_env = sample_sha256"
    "env_root_to_json sample_env = sample_root_to_json" "env_root_from_json sample_env = sample_root_from_json"
    by (simp_all add: sample_env_def)
  have adds: "adds sample_env objs objs'" if "env_apply_definition sample_env objs h p op = Inr (h', objs')"
    for objs h p op h' objs'
    using that sample_root_norm(1) [OF root]
    by (auto simp: sample_env_def adds_def object_row_ok_def insert_or_ignore_def Let_def hash_object_def)
  show ?thesis
    unfolding env_ok_def
  proof (intro conjI allI impI)
    fix v r assume "root_ok r \<and> json_ok v \<and> json_norm v = json_norm (env_root_to_json sample_env r)"
    then show "env_root_from_json sample_env v = Inr r" using decode by (simp add: env)
  next
    fix v r assume "env_root_from_json sample_env v = Inr r"
    then show "root_ok r" using ok by (simp add: env)
  next
    fix h objs objs' assume "env_index_root sample_env h objs = Inr objs'"
    then show "adds sample_env objs objs'" by (simp add: sample_env_def)
  qed (use adds in \<open>simp_all add: env sample_quote_ok sample_sha256_inj sample_sha256_no_NUL sample_root_norm(1),
      (simp add: sample_env_def)+\<close>)
qed

end
