(* ===== verification/Sample.thy ===== *)
theory Sample
  imports SampleEnv
begin

text \<open>
  A store to run the operations on: the environment of \<open>SampleEnv\<close>, a branch, a fork and the
  commits the witnesses of the operations rest on.
\<close>

definition sample_db0 :: db where
  "sample_db0 = (case ensure_initialized sample_env []
       \<lparr>db_objects = [], db_migrations = [], db_histories = [], db_branches = []\<rparr> of
     Inr (_, db) \<Rightarrow> db | Inl _ \<Rightarrow> \<lparr>db_objects = [], db_migrations = [], db_histories = [], db_branches = []\<rparr>)"

definition main_root :: "db \<Rightarrow> string" where
  "main_root db = (case branch db MAIN_BRANCH of Inr st \<Rightarrow> bs_root_hash st | Inl _ \<Rightarrow> [])"

definition sample_run :: "operation \<Rightarrow> db \<Rightarrow> ((migration_outcome \<times> bool) \<times> db) res" where
  "sample_run op db = apply_and_record_in_tx sample_env MAIN_BRANCH (main_root db) op None db"

definition sample_next :: "operation \<Rightarrow> db \<Rightarrow> db" where
  "sample_next op db = (case sample_run op db of Inr (_, db') \<Rightarrow> db' | Inl _ \<Rightarrow> db)"

definition sample_db1 :: db where
  "sample_db1 = sample_next sample_create sample_db0"

definition sample_db2 :: db where
  "sample_db2 = sample_next sample_rename sample_db1"

definition committed_run :: "((migration_outcome \<times> bool) \<times> db) res \<Rightarrow> bool" where
  "committed_run r = (case r of Inr ((_, c), _) \<Rightarrow> c | Inl _ \<Rightarrow> False)"

definition sample_fork :: db where
  "sample_fork = (case create_branch_from sample_env ''dev'' None None None sample_db0 of
     Inr (_, db) \<Rightarrow> db | Inl _ \<Rightarrow> sample_db0)"

definition sample_forked :: db where
  "sample_forked = sample_next sample_create sample_fork"

lemma sample_init: "is_ok (ensure_initialized sample_env []
    \<lparr>db_objects = [], db_migrations = [], db_histories = [], db_branches = []\<rparr>)"
  by code_simp

definition sample_renamed :: program_root where
  "sample_renamed = sample_root\<lparr>names := [\<lparr>nb_module = ''shop'', nb_display_name = ''vat'',
     nb_symbol = sample_symbol_hash, nb_is_preferred = True\<rparr>]\<rparr>"

text \<open>The runs of the samples, as one evaluation in which every store is computed once.\<close>

definition run_then :: "operation \<Rightarrow> db \<Rightarrow> (db \<Rightarrow> bool) \<Rightarrow> bool" where
  "run_then op db k = (case sample_run op db of Inr ((_, c), db') \<Rightarrow> c \<and> k db' | Inl _ \<Rightarrow> False)"

definition main_holds :: "program_root \<Rightarrow> db \<Rightarrow> bool" where
  "main_holds r db = (case branch db MAIN_BRANCH of
     Inl _ \<Rightarrow> False | Inr st \<Rightarrow> load_root sample_env (db_objects db) (bs_root_hash st) = Inr r)"

lemma sample_script:
  "run_then sample_create sample_db0 (\<lambda>db1. main_holds sample_root db1 \<and>
     run_then sample_rename db1 (main_holds sample_renamed) \<and> run_then sample_delete db1 (\<lambda>_. True))"
  by code_simp

lemma sample_fork_script:
  "case create_branch_from sample_env ''dev'' None None None sample_db0 of
     Inr (_, db) \<Rightarrow> run_then sample_create db (\<lambda>db'. is_ok (branch db' MAIN_BRANCH) \<and> is_ok (branch db' ''dev''))
   | Inl _ \<Rightarrow> False"
  by code_simp

lemma run_then_iff: "run_then op db k \<longleftrightarrow> committed_run (sample_run op db) \<and> k (sample_next op db)"
  by (auto simp: run_then_def committed_run_def sample_next_def split: sum.splits)

lemma sample_commits:
  "committed_run (sample_run sample_create sample_db0)" "committed_run (sample_run sample_rename sample_db1)"
  "committed_run (sample_run sample_delete sample_db1)"
  using sample_script by (simp_all add: run_then_iff flip: sample_db1_def sample_db2_def)

lemma main_holds_load:
  "main_holds r db \<Longrightarrow> \<exists>st. branch db MAIN_BRANCH = Inr st \<and> main_root db = bs_root_hash st \<and>
     load_root sample_env (db_objects db) (main_root db) = Inr r"
  by (auto simp: main_holds_def main_root_def split: sum.splits)

lemma sample_main_holds: "main_holds sample_root sample_db1" "main_holds sample_renamed sample_db2"
  using sample_script by (simp_all add: run_then_iff flip: sample_db1_def sample_db2_def)

lemma sample_mains: "load_root sample_env (db_objects sample_db1) (main_root sample_db1) = Inr sample_root"
  "load_root sample_env (db_objects sample_db2) (main_root sample_db2) = Inr sample_renamed"
  using sample_main_holds by (auto dest: main_holds_load)

lemma sample_paths: "validate_module_path ''module'' ''shop'' = Inr ()" "is_projection_identifier ''tax''"
  "is_projection_identifier ''vat''"
  by code_simp+

lemma sample_root_wf: "names_once sample_root" "root_wf sample_root" "root_wf sample_renamed"
  using sample_paths
  by (simp_all add: names_once_def root_wf_def names_wf_def keyed_once_def root_closed_def sample_root_def
      sample_renamed_def empty_root_def nm.unambiguous_def tnm.unambiguous_def)

lemma sample_fork_commits:
  "is_ok (create_branch_from sample_env ''dev'' None None None sample_db0)"
  "committed_run (sample_run sample_create sample_fork)"
  "is_ok (branch sample_forked MAIN_BRANCH)" "is_ok (branch sample_forked ''dev'')"
  using sample_fork_script
  by (auto simp: run_then_iff sample_fork_def sample_forked_def split: sum.splits)

lemma sample_operations_ok: "operation_ok sample_env sample_create" "operation_ok sample_env sample_rename"
  by code_simp+

lemma sample_branches: "is_ok (branch sample_db2 MAIN_BRANCH)" "validate_branch_name ''dev'' = Inr ()"
  using sample_main_holds(2) by (auto dest: main_holds_load) (code_simp)

lemma sample_run_next:
  assumes "committed_run (sample_run op db)"
  shows "\<exists>result. apply_and_record_in_tx sample_env MAIN_BRANCH (main_root db) op None db
    = Inr ((result, True), sample_next op db)"
  using assms by (auto simp: committed_run_def sample_next_def sample_run_def split: sum.splits prod.splits)

lemma sample_step:
  assumes "committed_run (sample_run op db)" and "operation_ok sample_env op" and "reachable sample_env [] db"
  shows "reachable sample_env [] (sample_next op db)"
  using sample_run_next [OF assms(1)] assms(2,3) by (blast intro: reachable.step db_step.commit)

lemma sample_reachable: "reachable sample_env [] sample_db0" "reachable sample_env [] sample_db1"
  "reachable sample_env [] sample_db2" "reachable sample_env [] sample_forked"
proof -
  obtain root where "ensure_initialized sample_env []
    \<lparr>db_objects = [], db_migrations = [], db_histories = [], db_branches = []\<rparr> = Inr (root, sample_db0)"
    using sample_init by (auto simp: is_ok_iff sample_db0_def)
  then show db0: "reachable sample_env [] sample_db0" by (rule reachable.init)
  show db1: "reachable sample_env [] sample_db1"
    unfolding sample_db1_def by (rule sample_step [OF sample_commits(1) sample_operations_ok(1) db0])
  show "reachable sample_env [] sample_db2"
    unfolding sample_db2_def by (rule sample_step [OF sample_commits(2) sample_operations_ok(2) db1])
  obtain st where "create_branch_from sample_env ''dev'' None None None sample_db0 = Inr (st, sample_fork)"
    using sample_fork_commits(1) by (auto simp: is_ok_iff sample_fork_def)
  then have "reachable sample_env [] sample_fork"
    by (rule reachable.step [OF db0 db_step.create])
  then show "reachable sample_env [] sample_forked"
    unfolding sample_forked_def by (rule sample_step [OF sample_fork_commits(2) sample_operations_ok(1)])
qed

lemma sample_builtins_ok: "builtins_ok []"
  by (simp add: builtins_ok_def)

subsection \<open>Witnesses\<close>

theorem history_chain_returns_witness:
  "\<exists>st items. branch sample_db2 MAIN_BRANCH = Inr st \<and>
     history_chain sample_env sample_db2 MAIN_BRANCH = Some (Inr items) \<and> chain_path st items"
  using history_chain_returns [OF sample_env_ok sample_builtins_ok sample_reachable(3)] sample_branches(1)
  by (auto simp: is_ok_iff)

theorem commit_appends_witness:
  "\<exists>items item. history_chain sample_env sample_db1 MAIN_BRANCH = Some (Inr items) \<and>
     history_chain sample_env sample_db2 MAIN_BRANCH = Some (Inr (items @ [item])) \<and>
     hi_operation item = sample_rename \<and> hi_input_root item = main_root sample_db1"
proof -
  obtain result where tx: "apply_and_record_in_tx sample_env MAIN_BRANCH (main_root sample_db1) sample_rename None sample_db1
    = Inr ((result, True), sample_db2)"
    using sample_run_next [OF sample_commits(2)] by (auto simp: sample_db2_def)
  from commit_appends [OF sample_env_ok sample_builtins_ok sample_reachable(2) sample_operations_ok(2) this]
  show ?thesis by blast
qed

theorem only_applied_changes_witness:
  "\<exists>result. apply_and_record_expected sample_env (main_root sample_db1) sample_rename sample_db1 = Inr (result, sample_db2)
     \<and> (sample_db2 = sample_db1 \<or> (\<exists>report. result = Applied report \<and> rp_old_root report = main_root sample_db1
        \<and> branch sample_db2 MAIN_BRANCH = Inr \<lparr>bs_root_hash = rp_new_root report, bs_history_hash = rp_history_hash report\<rparr>))"
proof -
  obtain result where "apply_and_record_in_tx sample_env MAIN_BRANCH (main_root sample_db1) sample_rename None sample_db1
    = Inr ((result, True), sample_db2)"
    using sample_run_next [OF sample_commits(2)] by (auto simp: sample_db2_def)
  then have run: "apply_and_record_expected sample_env (main_root sample_db1) sample_rename sample_db1 = Inr (result, sample_db2)"
    by (simp add: apply_and_record_expected_def)
  from only_applied_changes [OF run] run show ?thesis by blast
qed

theorem fast_forward_exact_witness:
  "\<exists>old new olds news. history_chain sample_env sample_forked ''dev'' = Some (Inr olds) \<and>
     history_chain sample_env sample_forked MAIN_BRANCH = Some (Inr news) \<and>
     fast_forward_branch sample_env ''dev'' MAIN_BRANCH (bs_root_hash old) sample_forked =
       Inr (if continues old olds new news
            then (Updated old new, sample_forked\<lparr>db_branches :=
                    map (\<lambda>(n, s). (n, if n = ''dev'' then new else s)) (db_branches sample_forked)\<rparr>)
            else (NonFastForward old new, sample_forked))"
proof -
  obtain old new where "branch sample_forked ''dev'' = Inr old" "branch sample_forked MAIN_BRANCH = Inr new"
    using sample_fork_commits by (auto simp: is_ok_iff)
  from fast_forward_exact [OF sample_env_ok sample_builtins_ok sample_reachable(4) this sample_branches(2)]
  show ?thesis by blast
qed

theorem name_edits_refine_witness:
  "\<exists>st' r'. branch sample_db2 MAIN_BRANCH = Inr st' \<and> load_root sample_env (db_objects sample_db2) (bs_root_hash st') = Inr r' \<and>
     view_of r' = edit_view sample_rename (view_of sample_root)"
proof -
  obtain result where "apply_and_record_in_tx sample_env MAIN_BRANCH (main_root sample_db1) sample_rename None sample_db1
    = Inr ((result, True), sample_db2)"
    using sample_run_next [OF sample_commits(2)] by (auto simp: sample_db2_def)
  from name_edits_refine [OF sample_env_ok sample_builtins_ok sample_reachable(2) _ this
      sample_mains(1) sample_root_wf(1)]
  show ?thesis by (auto simp: sample_rename_def edits_view_def)
qed

theorem name_edits_apply_witness:
  "\<exists>report db'. apply_and_record_in_tx sample_env MAIN_BRANCH (main_root sample_db1) sample_rename None sample_db1
     = Inr ((Applied report, True), db') \<and> rp_new_root report \<noteq> main_root sample_db1"
proof -
  have edit: "edits_view sample_rename" "\<not> stays sample_rename" by (simp_all add: sample_rename_def edits_view_def stays_def)
  obtain result where "apply_and_record_in_tx sample_env MAIN_BRANCH (main_root sample_db1) sample_rename None sample_db1
    = Inr ((result, True), sample_db2)"
    using sample_run_next [OF sample_commits(2)] by (auto simp: sample_db2_def)
  then show ?thesis
  proof (rule committed_branch)
    fix st new_root hist
    assume st: "branch sample_db1 MAIN_BRANCH = Inr st" "main_root sample_db1 = bs_root_hash st"
      and pre: "failed_preconditions sample_env (db_objects sample_db1) (main_root sample_db1)
        (preconditions_for sample_env (db_objects sample_db1) (main_root sample_db1) sample_rename) = Inr []"
      and run: "apply_operation_to_root sample_env (main_root sample_db1) (bs_history_hash st) sample_rename
        (db_objects sample_db1) = Inr (new_root, db_objects sample_db2)"
    note load = sample_mains(1) sample_root_wf(1)
    have "allowed sample_rename (view_of sample_root)"
      using pre by (simp add: preconditions_allowed [OF edit(1) load(1,2)])
    from name_edits_apply [OF sample_env_ok sample_builtins_ok sample_reachable(2) edit(1) st(1)
        load(1) [unfolded st(2)] load(2) this run [unfolded st(2)], where summary = JNull and agent = None]
    show ?thesis using edit(2) by (auto simp: sample_rename_def sample_env_def st(2))
  qed
qed

theorem edits_keep_roots_wf_witness:
  "\<exists>st' r'. branch sample_db2 MAIN_BRANCH = Inr st' \<and> load_root sample_env (db_objects sample_db2) (bs_root_hash st') = Inr r' \<and>
     root_wf r' \<and> validate_export_map r' = Inr ()"
proof -
  obtain result where "apply_and_record_in_tx sample_env MAIN_BRANCH (main_root sample_db1) sample_rename None sample_db1
    = Inr ((result, True), sample_db2)"
    using sample_run_next [OF sample_commits(2)] by (auto simp: sample_db2_def)
  from edits_keep_roots_wf [OF sample_env_ok sample_builtins_ok sample_reachable(2) _ this
      sample_mains(1) sample_root_wf(2)]
  show ?thesis by (auto simp: sample_rename_def edits_view_def)
qed

theorem delete_symbol_exact_witness:
  "\<exists>db' st' r'. branch db' MAIN_BRANCH = Inr st' \<and> load_root sample_env (db_objects db') (bs_root_hash st') = Inr r' \<and>
     set (symbols r') = {e \<in> set (symbols sample_root). rs_symbol e \<noteq> sample_symbol_hash} \<and>
     set (names r') = {b \<in> set (names sample_root). nb_symbol b \<noteq> sample_symbol_hash} \<and>
     set (tests r') = set (tests sample_root)"
proof -
  obtain result where "apply_and_record_in_tx sample_env MAIN_BRANCH (main_root sample_db1)
      (DeleteSymbol ''shop'' sample_symbol_hash ''tax'' False) None sample_db1 = Inr ((result, True), sample_next sample_delete sample_db1)"
    using sample_run_next [OF sample_commits(3)] by (auto simp: sample_delete_def)
  from delete_symbol_exact [OF sample_env_ok sample_builtins_ok sample_reachable(2) this sample_mains(1)]
  show ?thesis by blast
qed

lemma shared_test_stays_witness:
  "\<nexists>result db'. apply_and_record_in_tx sample_env MAIN_BRANCH (main_root sample_db1) (DeleteTest ''t'' ''c'') None
     sample_db1 = Inr ((result, True), db')"
proof -
  obtain st where st: "branch sample_db1 MAIN_BRANCH = Inr st"
    and load: "load_root sample_env (db_objects sample_db1) (bs_root_hash st) = Inr sample_root"
    using main_holds_load [OF sample_main_holds(1)] by auto
  have "\<lparr>tb_name = ''u'', tb_test = ''c''\<rparr> \<in> set (tests sample_root)" by (simp add: sample_root_def)
  from shared_test_stays [OF sample_env_ok sample_builtins_ok sample_reachable(2) st load this]
  show ?thesis by simp
qed

text \<open>Renaming there and back from the root with one symbol.\<close>

definition sample_put :: "string \<times> objects" where
  "sample_put = (case put_program_root sample_env sample_root [] of Inr x \<Rightarrow> x | Inl _ \<Rightarrow> ([], []))"

definition sample_apply :: "operation \<Rightarrow> string \<times> objects \<Rightarrow> (string \<times> objects) res" where
  "sample_apply op x = apply_operation_to_root sample_env (fst x) None op (snd x)"

definition sample_there :: "string \<times> objects" where
  "sample_there = (case sample_apply sample_rename sample_put of Inr x \<Rightarrow> x | Inl _ \<Rightarrow> ([], []))"

definition sample_back :: operation where
  "sample_back = RenameSymbol ''shop'' sample_symbol_hash ''vat'' ''tax''"

lemma sample_undo_script:
  "case put_program_root sample_env sample_root [] of Inl _ \<Rightarrow> False | Inr x \<Rightarrow>
     (case sample_apply sample_rename x of Inl _ \<Rightarrow> False | Inr y \<Rightarrow> is_ok (sample_apply sample_back y))"
  by code_simp

lemma sample_there_and_back:
  "is_ok (put_program_root sample_env sample_root [])" "is_ok (sample_apply sample_rename sample_put)"
  "is_ok (sample_apply sample_back sample_there)"
  using sample_undo_script by (auto simp: sample_put_def sample_there_def split: sum.splits)

theorem edits_undo_witness:
  "\<exists>objs. apply_operation_to_root sample_env (fst sample_there) None sample_back (snd sample_there) = Inr (fst sample_put, objs)"
proof -
  have put: "put_program_root sample_env sample_root [] = Inr (fst sample_put, snd sample_put)"
    using sample_there_and_back(1) by (auto simp: sample_put_def is_ok_iff)
  have there: "apply_operation_to_root sample_env (fst sample_put) None sample_rename (snd sample_put)
    = Inr (fst sample_there, snd sample_there)"
    using sample_there_and_back(2) by (auto simp: sample_there_def sample_apply_def is_ok_iff)
  obtain h objs where "apply_operation_to_root sample_env (fst sample_there) None sample_back (snd sample_there) = Inr (h, objs)"
    using sample_there_and_back(3) by (auto simp: sample_apply_def is_ok_iff)
  with edits_undo [OF sample_env_ok _ _ _ put _ there this] show ?thesis
    by (auto simp: undo_def sample_rename_def sample_back_def root_ok_def keyed_once_def sample_root_def empty_root_def)
qed

end
