(* ===== verification/TypeSource.thy ===== *)
theory TypeSource
  imports TypeParser
begin

text \<open>
  Types between their source text and their hash, \<open>src/src/types.rs\<close>: the resolution of a parsed
  type in a root, which computes the hash, its twin, which stores every object on the way and the
  members of the instances it meets, and the printer. The theory shows that a printed type is read
  back as the same hash, and where it is not.
\<close>

subsection \<open>Resolution\<close>

definition resolve_region_arg :: "env \<Rightarrow> string \<Rightarrow> (string \<times> string) list \<Rightarrow> string res" where
  "resolve_region_arg env arg scope =
     (if arg = ''static'' then Inr (static_region_hash env)
      else ok_or (map_of scope arg) (Bail ''unknown region parameter '{}'' [arg]))"

definition resolve_region_args :: "env \<Rightarrow> string list \<Rightarrow> (string \<times> string) list \<Rightarrow> string list res" where
  "resolve_region_args env args scope = res_map (\<lambda>arg. resolve_region_arg env arg scope) args"

text \<open>The type a name stands for, its definition checked against the number of arguments.\<close>

definition resolve_type_use ::
    "objects \<Rightarrow> string \<Rightarrow> program_root \<Rightarrow> string \<Rightarrow> nat \<Rightarrow> nat \<Rightarrow> string res" where
  "resolve_type_use objects current_module root name region_args type_args =
     res_bind (ok_or (resolve_named_type_in_root root current_module name) (Bail ''unknown type {}'' [name])) (\<lambda>type_symbol.
     res_bind (ok_or (root_type root type_symbol) (Bail ''type {} missing root definition'' [name])) (\<lambda>entry.
     res_bind (type_definition objects (rt_type_def entry)) (\<lambda>def.
       if length (td_region_params def) \<noteq> region_args
       then Inl (Bail ''type {} expects {} region args, got {}''
              [name, dec_nat (length (td_region_params def)), dec_nat region_args])
       else if length (td_type_params def) \<noteq> type_args
       then Inl (Bail ''type {} expects {} type args, got {}''
              [name, dec_nat (length (td_type_params def)), dec_nat type_args])
       else Inr type_symbol)))"

fun type_hash_for_parsed_in_root ::
    "env \<Rightarrow> objects \<Rightarrow> string \<Rightarrow> program_root \<Rightarrow> parsed_type_spec \<Rightarrow> (string \<times> string) list \<Rightarrow> string res" where
  "type_hash_for_parsed_in_root env objects m root (PtBuiltin kind) scope = Inr (type_hash_for env kind)"
| "type_hash_for_parsed_in_root env objects m root (PtNamed name region_args type_args) scope =
     res_bind (resolve_type_use objects m root name (length region_args) (length type_args)) (\<lambda>type_symbol.
     res_bind (resolve_region_args env region_args scope) (\<lambda>region_args.
     res_bind (res_map (\<lambda>arg. type_hash_for_parsed_in_root env objects m root arg scope) type_args) (\<lambda>type_args.
       hash_for_type_spec env (TsNamed type_symbol region_args type_args))))"
| "type_hash_for_parsed_in_root env objects m root (PtTypeParam index) scope =
     hash_for_type_spec env (TsTypeParam index)"
| "type_hash_for_parsed_in_root env objects m root (PtReference region mutable referent) scope =
     res_bind (type_hash_for_parsed_in_root env objects m root referent scope) (\<lambda>referent.
     res_bind (resolve_region_arg env region scope) (\<lambda>region.
       hash_for_type_spec env (TsReference region mutable referent)))"
| "type_hash_for_parsed_in_root env objects m root (PtRawPointer mutable pointee) scope =
     res_bind (type_hash_for_parsed_in_root env objects m root pointee scope) (\<lambda>pointee.
       hash_for_type_spec env (TsRawPointer mutable pointee))"
| "type_hash_for_parsed_in_root env objects m root (PtBox element) scope =
     res_bind (type_hash_for_parsed_in_root env objects m root element scope) (\<lambda>element.
       hash_for_type_spec env (TsBox element))"
| "type_hash_for_parsed_in_root env objects m root (PtVec element) scope =
     res_bind (type_hash_for_parsed_in_root env objects m root element scope) (\<lambda>element.
       hash_for_type_spec env (TsVec element))"
| "type_hash_for_parsed_in_root env objects m root PtString scope = hash_for_type_spec env TsString"
| "type_hash_for_parsed_in_root env objects m root (PtSlice region mutable element) scope =
     res_bind (type_hash_for_parsed_in_root env objects m root element scope) (\<lambda>element.
     res_bind (resolve_region_arg env region scope) (\<lambda>region.
       hash_for_type_spec env (TsSlice region mutable element)))"
| "type_hash_for_parsed_in_root env objects m root (PtFixedArray element len) scope =
     res_bind (type_hash_for_parsed_in_root env objects m root element scope) (\<lambda>element.
       hash_for_type_spec env (TsFixedArray element len))"
| "type_hash_for_parsed_in_root env objects m root (PtRecord fs) scope =
     res_bind (res_map (\<lambda>(name, ty).
         res_bind (type_hash_for_parsed_in_root env objects m root ty scope) (\<lambda>t.
           Inr \<lparr>tf_name = name, tf_type = t\<rparr>)) fs) (\<lambda>fs.
       hash_for_type_spec env (TsRecord fs))"
| "type_hash_for_parsed_in_root env objects m root (PtEnum variants) scope =
     res_bind (res_map (\<lambda>(name, ty).
         res_bind (type_hash_for_parsed_in_root env objects m root ty scope) (\<lambda>t.
           Inr \<lparr>tf_name = name, tf_type = t\<rparr>)) variants) (\<lambda>variants.
       hash_for_type_spec env (TsEnum variants))"

definition type_hash_for_source_in_root_with_scope ::
    "env \<Rightarrow> objects \<Rightarrow> string \<Rightarrow> program_root \<Rightarrow> string \<Rightarrow> (string \<times> string) list \<Rightarrow> string list \<Rightarrow> string res" where
  "type_hash_for_source_in_root_with_scope env objects m root ty scope type_param_names =
     res_bind (parse_type_source ty) (\<lambda>parsed.
     res_bind (bind_type_params parsed type_param_names) (\<lambda>parsed.
       type_hash_for_parsed_in_root env objects m root parsed scope))"

subsection \<open>Printing\<close>

definition scalar_int_source_name_for_hash :: "env \<Rightarrow> string \<Rightarrow> string option" where
  "scalar_int_source_name_for_hash env hash =
     map_option (\<lambda>t. to_ascii_lowercase (int_name t)) (scalar_int_type_by_hash env hash)"

definition type_symbol_display_for_module :: "program_root \<Rightarrow> string \<Rightarrow> string \<Rightarrow> string res" where
  "type_symbol_display_for_module root current_module type_symbol =
     ok_or (type_symbol_display_in_module root current_module type_symbol)
       (Bail ''type symbol has no display name {}'' [type_symbol])"

text \<open>The region of a reference or a slice, and a region argument of a named type.\<close>

definition region_name :: "env \<Rightarrow> string \<Rightarrow> (string \<times> string) list \<Rightarrow> string" where
  "region_name env region region_names =
     (case map_of region_names region of
        Some name \<Rightarrow> name
      | None \<Rightarrow> if is_static_region env region then ''static'' else region)"

definition region_arg_source :: "string \<Rightarrow> (string \<times> string) list \<Rightarrow> string" where
  "region_arg_source region region_names =
     (case map_of region_names region of Some name \<Rightarrow> CHR 0x27 # name | None \<Rightarrow> region)"

definition builtin_source :: "string \<Rightarrow> string res" where
  "builtin_source kind =
     (if kind = ''Bool'' then Inr ''bool''
      else if kind = ''Unit'' then Inr ''unit''
      else ok_or (scalar_int_source_name kind) (Bail ''unknown builtin type kind {}'' [kind]))"

fun type_name_in_root_with_scope ::
    "nat \<Rightarrow> env \<Rightarrow> objects \<Rightarrow> program_root \<Rightarrow> string \<Rightarrow> string \<Rightarrow> (string \<times> string) list \<Rightarrow> string list \<Rightarrow> string res" where
  "type_name_in_root_with_scope 0 env objects root m hash region_names type_param_names = Inl NO_FUEL"
| "type_name_in_root_with_scope (Suc fuel) env objects root m hash region_names type_param_names =
     (case scalar_int_source_name_for_hash env hash of
        Some name \<Rightarrow> Inr name
      | None \<Rightarrow>
          if hash = type_hash_for env ''Bool'' then Inr ''bool''
          else if hash = type_hash_for env ''Unit'' then Inr ''unit''
          else
            res_bind (type_spec_of env objects hash) (\<lambda>spec.
              case spec of
                TsNamed type_symbol region_args type_args \<Rightarrow>
                  res_bind (type_symbol_display_for_module root m type_symbol) (\<lambda>source.
                    if region_args = [] \<and> type_args = [] then Inr source
                    else
                      res_bind (res_map (\<lambda>arg.
                          type_name_in_root_with_scope fuel env objects root m arg region_names type_param_names) type_args) (\<lambda>args.
                        Inr (source @ ''<''
                          @ join_with '', '' (map (\<lambda>r. region_arg_source r region_names) region_args @ args) @ ''>'')))
              | TsTypeParam index \<Rightarrow>
                  ok_or (if unat index < length type_param_names then Some (type_param_names ! unat index) else None)
                    (Bail ''type parameter {} out of scope while rendering'' [dec_nat (unat index)])
              | TsReference region mutable referent \<Rightarrow>
                  res_bind (type_name_in_root_with_scope fuel env objects root m referent region_names type_param_names) (\<lambda>referent.
                    Inr (''&'' @ [CHR 0x27] @ region_name env region region_names
                      @ (if mutable then '' mut '' else '' '') @ referent))
              | TsRawPointer mutable pointee \<Rightarrow>
                  res_bind (type_name_in_root_with_scope fuel env objects root m pointee region_names type_param_names) (\<lambda>pointee.
                    Inr ((if mutable then ''raw_mut_ptr<'' else ''raw_ptr<'') @ pointee @ ''>''))
              | TsBox element \<Rightarrow>
                  res_bind (type_name_in_root_with_scope fuel env objects root m element region_names type_param_names) (\<lambda>element.
                    Inr (''box<'' @ element @ ''>''))
              | TsVec element \<Rightarrow>
                  res_bind (type_name_in_root_with_scope fuel env objects root m element region_names type_param_names) (\<lambda>element.
                    Inr (''vec<'' @ element @ ''>''))
              | TsString \<Rightarrow> Inr ''string''
              | TsSlice region mutable element \<Rightarrow>
                  res_bind (type_name_in_root_with_scope fuel env objects root m element region_names type_param_names) (\<lambda>element.
                    Inr ((if mutable then ''mut_slice<'' else ''slice<'') @ [CHR 0x27]
                      @ region_name env region region_names @ '', '' @ element @ ''>''))
              | TsFixedArray element len \<Rightarrow>
                  res_bind (type_name_in_root_with_scope fuel env objects root m element region_names type_param_names) (\<lambda>element.
                    Inr (''array<'' @ element @ '', '' @ dec_nat (unat len) @ ''>''))
              | TsRecord fs \<Rightarrow>
                  res_bind (res_map (\<lambda>field.
                      res_bind (type_name_in_root_with_scope fuel env objects root m (tf_type field) region_names type_param_names) (\<lambda>t.
                        Inr (tf_name field @ '': '' @ t))) fs) (\<lambda>rendered.
                    Inr (''record {'' @ join_with '', '' rendered @ ''}''))
              | TsEnum variants \<Rightarrow>
                  res_bind (res_map (\<lambda>variant.
                      res_bind (type_name_in_root_with_scope fuel env objects root m (tf_type variant) region_names type_param_names) (\<lambda>t.
                        Inr (tf_name variant @ '': '' @ t))) variants) (\<lambda>rendered.
                    Inr (''enum {'' @ join_with '', '' rendered @ ''}''))
              | TsBuiltin kind \<Rightarrow> builtin_source kind))"

subsection \<open>Lexing what is printed\<close>

definition is_word :: "string \<Rightarrow> bool" where
  "is_word w \<longleftrightarrow> w \<noteq> [] \<and> is_ident_start (hd w) \<and> list_all is_ident_char (tl w)"

definition word_end :: "string \<Rightarrow> bool" where
  "word_end rest \<longleftrightarrow> rest = [] \<or> \<not> is_ident_char (hd rest)"

lemma word_end_simps [simp]: "word_end []" "word_end (c # s) = (\<not> is_ident_char c)"
  by (simp_all add: word_end_def)

lemma ident_char_code:
  "is_ident_char c \<longleftrightarrow> (of_char c :: nat) \<in> {48..57} \<union> {65..90} \<union> {97..122} \<union> {95}"
  "is_ident_start c \<longleftrightarrow> (of_char c :: nat) \<in> {65..90} \<union> {97..122} \<union> {95}"
  "is_ascii_digit c \<longleftrightarrow> (of_char c :: nat) \<in> {48..57}"
  using of_char_eq_iff [of c "CHR ''_''", where 'a = nat]
  by (auto simp: is_ident_char_def is_ident_start_def is_ascii_alphanumeric_def is_ascii_alphabetic_def is_ascii_digit_def
      less_eq_char_def)

lemma ident_start_char: "is_ident_start c \<Longrightarrow> is_ident_char c"
  by (simp only: ident_char_code) blast

lemma digit_char: "is_ascii_digit c \<Longrightarrow> is_ident_char c"
  by (simp only: ident_char_code) blast

lemma ascii_width: "is_ident_char c \<Longrightarrow> utf8_width c = 1 \<and> [c] \<notin> set whitespace_chars"
  by (auto simp: ident_char_code utf8_width_def less_char_def whitespace_chars_def)

lemma takeWhile_word: "list_all P cs \<Longrightarrow> rest = [] \<or> \<not> P (hd rest) \<Longrightarrow> takeWhile P (cs @ rest) = cs \<and> dropWhile P (cs @ rest) = rest"
  by (induction cs) (cases rest; auto)+

lemma lex_word: "is_word w \<Longrightarrow> word_end rest \<Longrightarrow> lex_type (w @ rest) = TtIdent w # lex_type rest"
proof (cases w)
  case (Cons c cs)
  assume "is_word w" "word_end rest"
  then have c: "is_ident_start c" "list_all is_ident_char cs" by (auto simp: is_word_def Cons)
  from takeWhile_word [OF c(2), of rest] \<open>word_end rest\<close> ascii_width [OF ident_start_char [OF c(1)]] c(1)
  show ?thesis by (simp add: Cons word_end_def)
qed (simp add: is_word_def)

lemma lex_number:
  assumes "ds \<noteq> []" "list_all is_ascii_digit ds" "word_end rest"
  shows "lex_type (ds @ rest) = TtNumber ds # lex_type rest"
proof (cases ds)
  case (Cons d cs)
  have "rest = [] \<or> \<not> is_ascii_digit (hd rest)" using assms(3) digit_char by (auto simp: word_end_def)
  with takeWhile_word [of is_ascii_digit cs rest] ascii_width [OF digit_char, of d] assms(2)
  show ?thesis by (auto simp: Cons ident_char_code)
qed (use assms in simp)

lemma lex_symbols [simp]:
  "lex_type (CHR ''<'' # s) = TtSymbol ''<'' # lex_type s" "lex_type (CHR ''>'' # s) = TtSymbol ''>'' # lex_type s"
  "lex_type (CHR '','' # s) = TtSymbol '','' # lex_type s" "lex_type (CHR ''.'' # s) = TtSymbol ''.'' # lex_type s"
  "lex_type (CHR '':'' # s) = TtSymbol '':'' # lex_type s" "lex_type (CHR ''{'' # s) = TtSymbol ''{'' # lex_type s"
  "lex_type (CHR ''}'' # s) = TtSymbol ''}'' # lex_type s" "lex_type (CHR ''&'' # s) = TtSymbol ''&'' # lex_type s"
  "lex_type (CHR 0x27 # s) = TtSymbol [CHR 0x27] # lex_type s" "lex_type (CHR '' '' # s) = lex_type s"
  by (simp_all add: utf8_width_def less_char_def whitespace_chars_def is_ident_start_def is_ascii_alphabetic_def
      is_ascii_digit_def less_eq_char_def)

declare lex_type.simps(2) [simp del]

lemma not_ident_char [simp]:
  "\<not> is_ident_char (CHR ''<'')" "\<not> is_ident_char (CHR ''>'')" "\<not> is_ident_char (CHR '','')" "\<not> is_ident_char (CHR ''.'')"
  "\<not> is_ident_char (CHR '':'')" "\<not> is_ident_char (CHR ''{'')" "\<not> is_ident_char (CHR ''}'')" "\<not> is_ident_char (CHR '' '')"
  by code_simp+

lemma projection_word: "is_projection_identifier n \<Longrightarrow> is_word n"
  by (auto simp: is_projection_identifier_def is_word_def is_ident_start_def is_ident_char_def list_all_iff
      split: list.splits if_splits)

text \<open>The tokens of a text, whatever follows that does not continue its last word.\<close>

definition lexes :: "string \<Rightarrow> type_token list \<Rightarrow> bool" where
  "lexes s toks \<longleftrightarrow> (\<forall>rest. word_end rest \<longrightarrow> lex_type (s @ rest) = toks @ lex_type rest)"

lemma lexesD: "lexes s toks \<Longrightarrow> word_end rest \<Longrightarrow> lex_type (s @ rest) = toks @ lex_type rest"
  by (simp add: lexes_def)

lemma lexes_word: "is_word w \<Longrightarrow> lexes w [TtIdent w]"
  by (simp add: lexes_def lex_word)

fun path_rest :: "string list \<Rightarrow> type_token list" where
  "path_rest [] = []"
| "path_rest (seg # segs) = TtSymbol ''.'' # TtIdent seg # path_rest segs"

lemma lexes_path:
  "list_all is_word (seg # segs) \<Longrightarrow> lexes (join_with ''.'' (seg # segs)) (TtIdent seg # path_rest segs)"
proof (induction segs arbitrary: seg)
  case Nil
  then show ?case by (simp add: lexes_word)
next
  case (Cons next_seg segs)
  from Cons have "lexes (join_with ''.'' (next_seg # segs)) (TtIdent next_seg # path_rest segs)" by simp
  with Cons.prems show ?case by (simp add: lexes_def lex_word)
qed

lemma finish_path:
  "tt_peek rest \<noteq> TtSymbol ''.'' \<Longrightarrow>
    finish_name_path v (path_rest segs @ rest) = Inr (join_with ''.'' (v # segs), rest)"
proof (induction segs arbitrary: v)
  case Nil
  then show ?case by (cases "(v, rest)" rule: finish_name_path.cases) auto
next
  case (Cons seg segs)
  have "join_with ''.'' ((v @ ''.'' @ seg) # segs) = join_with ''.'' (v # seg # segs)" by (cases segs) auto
  with Cons show ?case by simp
qed

lemma join_split_on: "join_with [c] (split_on c s) = s"
proof (induction s)
  case (Cons d s)
  then show ?case
    by (cases "split_on c s") (auto simp: join_with_Cons split: if_splits)
qed simp

subsection \<open>Parsing what is printed\<close>

definition closes :: "type_token list \<Rightarrow> bool" where
  "closes rest \<longleftrightarrow> rest \<noteq> [] \<and> hd rest \<in> {TtSymbol ''>'', TtSymbol '','', TtSymbol ''}'', TtEof}"

lemma closes_simps [simp]:
  "closes (TtSymbol ''>'' # ts)" "closes (TtSymbol '','' # ts)" "closes (TtSymbol ''}'' # ts)" "closes [TtEof]"
  by (simp_all add: closes_def)

fun opens :: "type_token list \<Rightarrow> bool" where
  "opens (TtIdent w # ts) \<longleftrightarrow> w \<noteq> ''mut''"
| "opens (TtSymbol c # ts) \<longleftrightarrow> c = ''&''"
| "opens ts \<longleftrightarrow> False"

text \<open>The tokens are those of a type, whatever closes it.\<close>

definition parses :: "type_token list \<Rightarrow> parsed_type_spec \<Rightarrow> bool" where
  "parses toks p \<longleftrightarrow> opens toks \<and>
     (\<forall>rest n. closes rest \<longrightarrow> length (toks @ rest) < n \<longrightarrow> parse_type n (toks @ rest) = Inr (p, rest))"

lemma parsesD: "parses toks p \<Longrightarrow> closes rest \<Longrightarrow> length toks + length rest < n \<Longrightarrow> parse_type n (toks @ rest) = Inr (p, rest)"
  by (simp add: parses_def)

lemma opens_peek: "opens ts \<Longrightarrow> tt_peek (ts @ us) \<noteq> TtSymbol ''>'' \<and> tt_peek (ts @ us) \<noteq> TtSymbol [CHR 0x27]
    \<and> tt_peek (ts @ us) \<noteq> TtIdent ''mut''"
  by (cases ts rule: opens.cases) auto

lemma expect_simps [simp]:
  "tt_expect_symbol s (TtSymbol s # ts) = Inr ts" "tt_expect_ident (TtIdent v # ts) = Inr (v, ts)"
  "tt_peek_symbol s (TtSymbol s # ts)" "tt_consume_symbol s (TtSymbol s # ts) = (True, ts)"
  by (simp_all add: tt_expect_symbol_def tt_expect_ident_def tt_peek_symbol_def tt_consume_symbol_def)

lemma consume_other [simp]:
  "tt_peek ts \<noteq> TtSymbol s \<Longrightarrow> tt_consume_symbol s ts = (False, ts)"
  "tt_peek ts \<noteq> TtIdent v \<Longrightarrow> tt_consume_ident_value v ts = (False, ts)"
  by (simp_all add: tt_consume_symbol_def tt_consume_ident_value_def)

fun join_toks :: "type_token list list \<Rightarrow> type_token list" where
  "join_toks [] = []"
| "join_toks [t] = t"
| "join_toks (t # u # ts) = t @ TtSymbol '','' # join_toks (u # ts)"

lemma join_toks_Cons: "join_toks (t # ts) = t @ (if ts = [] then [] else TtSymbol '','' # join_toks ts)"
  by (cases ts) auto

lemma lexes_join:
  "list_all2 lexes ss tss \<Longrightarrow> ss \<noteq> [] \<Longrightarrow> lexes (join_with '', '' ss) (join_toks tss)"
proof (induction rule: list_all2_induct)
  case (Cons s ss t ts)
  show ?case
  proof (cases "ss = []")
    case False
    with Cons obtain u us where "ts = u # us" by (cases ts) auto
    with Cons False show ?thesis by (auto simp: lexes_def join_with_Cons)
  qed (use Cons in auto)
qed simp

lemma args_loop_types:
  "list_all2 parses tss ps \<Longrightarrow> tss \<noteq> [] \<Longrightarrow> length (join_toks tss) + length rest + 1 < n \<Longrightarrow> n \<le> f \<Longrightarrow>
    parse_args_loop n (parse_type f) rs qs (join_toks tss @ TtSymbol ''>'' # rest) = Inr ((rs, qs @ ps), rest)"
proof (induction arbitrary: n qs rule: list_all2_induct)
  case (Cons t tss p ps)
  then obtain k where n: "n = Suc k" by (cases n) auto
  let ?rest = "(if tss = [] then [] else TtSymbol '','' # join_toks tss) @ TtSymbol ''>'' # rest"
  have toks: "join_toks (t # tss) @ TtSymbol ''>'' # rest = t @ ?rest" by (simp add: join_toks_Cons)
  have parse: "parse_type f (t @ ?rest) = Inr (p, ?rest)"
    by (rule parsesD [OF Cons.hyps(1)]) (use Cons.prems in \<open>auto simp: join_toks_Cons split: if_splits\<close>)
  have "\<not> tt_peek_symbol [CHR 0x27] (t @ ?rest)"
    using Cons.hyps(1) opens_peek by (auto simp: parses_def tt_peek_symbol_def)
  moreover have "parse_args_loop k (parse_type f) rs (qs @ [p]) (join_toks tss @ TtSymbol ''>'' # rest) = Inr ((rs, qs @ p # ps), rest)"
    if "tss \<noteq> []" using Cons.IH [OF that, of k "qs @ [p]"] Cons.prems n that by (simp add: join_toks_Cons)
  ultimately show ?case
    using Cons.hyps(2) unfolding toks n parse_args_loop.simps by (auto simp: parse)
qed simp

definition region_toks :: "string \<Rightarrow> type_token list" where
  "region_toks name = [TtSymbol [CHR 0x27], TtIdent name]"

lemma region_toks_simps [simp]:
  "region_toks v @ ts = TtSymbol [CHR 0x27] # TtIdent v # ts" "length (region_toks v) = 2"
  by (simp_all add: region_toks_def)

lemma args_loop_regions:
  "list_all is_projection_identifier ns \<Longrightarrow> list_all2 parses tss ps \<Longrightarrow> ns \<noteq> [] \<or> tss \<noteq> [] \<Longrightarrow>
    length (join_toks (map region_toks ns @ tss)) + length rest + 1 < n \<Longrightarrow> n \<le> f \<Longrightarrow>
    parse_args_loop n (parse_type f) rs [] (join_toks (map region_toks ns @ tss) @ TtSymbol ''>'' # rest)
      = Inr ((rs @ ns, ps), rest)"
proof (induction ns arbitrary: n rs)
  case Nil
  then show ?case using args_loop_types [of tss ps rest n f rs "[]"] by simp
next
  case (Cons name ns)
  then obtain k where n: "n = Suc k" by (cases n) auto
  have name: "validate_region_name l name = Inr ()" for l
    using Cons.prems(1) by (simp add: validate_region_name_def validate_projection_identifier_ok)
  show ?case
  proof (cases "map region_toks ns @ tss = []")
    case True
    then show ?thesis using name Cons.prems(2) unfolding n by (simp add: region_toks_def)
  next
    case False
    then have "parse_args_loop k (parse_type f) (rs @ [name]) [] (join_toks (map region_toks ns @ tss) @ TtSymbol ''>'' # rest)
        = Inr ((rs @ name # ns, ps), rest)"
      using Cons.IH [of k "rs @ [name]"] Cons.prems n by (auto simp: join_toks_Cons split: if_splits)
    with False name show ?thesis unfolding n by (auto simp: join_toks_Cons)
  qed
qed

definition field_toks :: "string \<Rightarrow> type_token list \<Rightarrow> type_token list" where
  "field_toks name ts = TtIdent name # TtSymbol '':'' # ts"

lemma field_toks_simps [simp]:
  "field_toks v t @ ts = TtIdent v # TtSymbol '':'' # t @ ts" "length (field_toks v t) = length t + 2"
  by (simp_all add: field_toks_def)

lemma fields_loop_parses:
  "list_all2 parses tss ps \<Longrightarrow> length ns = length tss \<Longrightarrow> list_all is_projection_identifier ns \<Longrightarrow> tss \<noteq> [] \<Longrightarrow>
    length (join_toks (map2 field_toks ns tss)) + length rest + 1 < n \<Longrightarrow> n \<le> f \<Longrightarrow>
    parse_fields_loop n (parse_type f) label (join_toks (map2 field_toks ns tss) @ TtSymbol ''}'' # rest)
      = Inr (zip ns ps, rest)"
proof (induction arbitrary: n ns rule: list_all2_induct)
  case (Cons t tss p ps)
  then obtain k name ns' where n: "n = Suc k" "ns = name # ns'" by (cases n; cases ns) auto
  have name: "validate_projection_identifier l name = Inr ()" for l
    using Cons.prems n by (simp add: validate_projection_identifier_ok)
  let ?more = "map2 field_toks ns' tss"
  let ?rest = "(if tss = [] then [] else TtSymbol '','' # join_toks ?more) @ TtSymbol ''}'' # rest"
  have more: "?more = [] \<longleftrightarrow> tss = []" using Cons.prems(1) n by (cases tss; cases ns') auto
  have toks: "join_toks (map2 field_toks ns (t # tss)) @ TtSymbol ''}'' # rest
      = TtIdent name # TtSymbol '':'' # t @ ?rest"
    using more by (simp add: n join_toks_Cons)
  have parse: "parse_type f (t @ ?rest) = Inr (p, ?rest)"
    by (rule parsesD [OF Cons.hyps(1)])
      (use Cons.prems(4,5) more n in \<open>auto simp: join_toks_Cons split: if_splits\<close>)
  have "parse_fields_loop k (parse_type f) label (join_toks ?more @ TtSymbol ''}'' # rest) = Inr (zip ns' ps, rest)"
    if "tss \<noteq> []"
    using Cons.IH [of ns' k] Cons.prems n that more by (simp add: join_toks_Cons)
  then show ?case
    using Cons.hyps(2) Cons.prems(1) unfolding toks unfolding n parse_fields_loop.simps by (auto simp: parse name)
qed simp

subsection \<open>The source of a type, one constructor at a time\<close>

definition source_of :: "string \<Rightarrow> parsed_type_spec \<Rightarrow> bool" where
  "source_of s p \<longleftrightarrow> (\<exists>toks. lexes s toks \<and> parses toks p)"

lemma source_ofI:
  assumes "lexes s toks" "opens toks"
    and "\<And>rest f. closes rest \<Longrightarrow> length toks + length rest \<le> f \<Longrightarrow> parse_type (Suc f) (toks @ rest) = Inr (p, rest)"
  shows "source_of s p"
proof -
  have "parse_type n (toks @ rest) = Inr (p, rest)" if "closes rest" "length (toks @ rest) < n" for rest n
    using assms(3) [OF that(1), of "n - 1"] that(2) by (cases n) auto
  then show ?thesis using assms(1,2) by (auto simp: source_of_def parses_def)
qed

lemma scalar_keywords [simp]:
  "scalar_int_name_for_source ''bool'' = None" "scalar_int_name_for_source ''unit'' = None"
  "scalar_int_name_for_source ''string'' = None" "scalar_int_name_for_source ''record'' = None"
  "scalar_int_name_for_source ''enum'' = None" "scalar_int_name_for_source ''raw_ptr'' = None"
  "scalar_int_name_for_source ''raw_mut_ptr'' = None" "scalar_int_name_for_source ''box'' = None"
  "scalar_int_name_for_source ''vec'' = None" "scalar_int_name_for_source ''slice'' = None"
  "scalar_int_name_for_source ''mut_slice'' = None" "scalar_int_name_for_source ''array'' = None"
  by code_simp+

lemma keyword_words [simp]:
  "is_word ''bool''" "is_word ''unit''" "is_word ''string''" "is_word ''record''" "is_word ''enum''" "is_word ''raw_ptr''"
  "is_word ''raw_mut_ptr''" "is_word ''box''" "is_word ''vec''" "is_word ''slice''" "is_word ''mut_slice''"
  "is_word ''array''" "is_word ''mut''" "is_word ''static''"
  by code_simp+

lemma source_keyword:
  assumes "is_word w" "w \<noteq> ''mut''" and "\<And>f parse ts. parse_ident_type f parse w ts = Inr (p, ts)"
  shows "source_of w p"
  by (rule source_ofI [OF lexes_word [OF assms(1)]]) (use assms in simp_all)

lemma source_scalar:
  assumes "t \<in> set SCALAR_INT_TYPES"
  shows "source_of (to_ascii_lowercase (int_name t)) (PtBuiltin (int_name t))"
proof -
  have "list_all (\<lambda>t. is_word (to_ascii_lowercase (int_name t)) \<and> to_ascii_lowercase (int_name t) \<noteq> ''mut''
      \<and> scalar_int_name_for_source (to_ascii_lowercase (int_name t)) = Some (int_name t)) SCALAR_INT_TYPES"
    by code_simp
  with assms show ?thesis by (intro source_keyword) (auto simp: list_all_iff parse_ident_type_def)
qed

lemma source_single:
  assumes "source_of s p" and "is_word w" "w \<noteq> ''mut''"
    and "\<And>f parse ts. parse_ident_type f parse w ts
      = res_bind (parse_single_type_arg parse ts) (\<lambda>(ty, ts). Inr (C ty, ts))"
  shows "source_of (w @ ''<'' @ s @ ''>'') (C p)"
proof -
  from assms(1) obtain toks where t: "lexes s toks" "parses toks p" by (auto simp: source_of_def)
  show ?thesis
  proof (rule source_ofI)
    show "lexes (w @ ''<'' @ s @ ''>'') (TtIdent w # TtSymbol ''<'' # toks @ [TtSymbol ''>''])"
      using t(1) assms(2) by (auto simp: lexes_def lex_word)
    show "parse_type (Suc f) ((TtIdent w # TtSymbol ''<'' # toks @ [TtSymbol ''>'']) @ rest) = Inr (C p, rest)"
      if "closes rest" "length (TtIdent w # TtSymbol ''<'' # toks @ [TtSymbol ''>'']) + length rest \<le> f" for rest f
      using that assms(4) parsesD [OF t(2), of "TtSymbol ''>'' # rest" f] by (simp add: parse_single_type_arg_def)
  qed (use assms(3) in simp)
qed

definition region_word :: "string \<Rightarrow> bool" where
  "region_word r \<longleftrightarrow> r = ''static'' \<or> is_projection_identifier r"

lemma region_word: "region_word r \<Longrightarrow> is_word r" "region_word r \<Longrightarrow> validate_region_name l r = Inr ()"
  by (auto simp: region_word_def projection_word validate_region_name_def validate_projection_identifier_ok)

lemma source_reference:
  assumes "source_of s p" and "region_word r"
  shows "source_of (''&'' @ [CHR 0x27] @ r @ (if m then '' mut '' else '' '') @ s) (PtReference r m p)"
proof -
  from assms(1) obtain toks where t: "lexes s toks" "parses toks p" by (auto simp: source_of_def)
  let ?toks = "TtSymbol ''&'' # TtSymbol [CHR 0x27] # TtIdent r # (if m then [TtIdent ''mut''] else []) @ toks"
  show ?thesis
  proof (rule source_ofI)
    show "lexes (''&'' @ [CHR 0x27] @ r @ (if m then '' mut '' else '' '') @ s) ?toks"
      using t(1) lex_word [OF region_word(1) [OF assms(2)]] lex_word [of "''mut''"]
      by (auto simp: lexes_def)
    show "parse_type (Suc f) (?toks @ rest) = Inr (PtReference r m p, rest)"
      if "closes rest" "length ?toks + length rest \<le> f" for rest f
    proof -
      have "tt_consume_ident_value ''mut'' ((if m then [TtIdent ''mut''] else []) @ toks @ rest) = (m, toks @ rest)"
        using t(2) opens_peek [of toks rest] by (auto simp: parses_def tt_consume_ident_value_def)
      then show ?thesis
        using that parsesD [OF t(2) that(1), of f] region_word(2) [OF assms(2)] by (simp add: parse_reference_type_def)
    qed
  qed simp
qed

lemma source_slice:
  assumes "source_of s p" and "region_word r" and "w = (if m then ''mut_slice'' else ''slice'')"
  shows "source_of (w @ ''<'' @ [CHR 0x27] @ r @ '', '' @ s @ ''>'') (PtSlice r m p)"
proof -
  from assms(1) obtain toks where t: "lexes s toks" "parses toks p" by (auto simp: source_of_def)
  let ?toks = "TtIdent w # TtSymbol ''<'' # TtSymbol [CHR 0x27] # TtIdent r # TtSymbol '','' # toks @ [TtSymbol ''>'']"
  have w: "is_word w" by (simp add: assms(3))
  show ?thesis
  proof (rule source_ofI)
    show "lexes (w @ ''<'' @ [CHR 0x27] @ r @ '', '' @ s @ ''>'') ?toks"
      using t(1) lex_word [OF region_word(1) [OF assms(2)]] lex_word [OF w] by (auto simp: lexes_def)
    show "parse_type (Suc f) (?toks @ rest) = Inr (PtSlice r m p, rest)"
      if "closes rest" "length ?toks + length rest \<le> f" for rest f
      using that parsesD [OF t(2), of "TtSymbol ''>'' # rest" f] region_word(2) [OF assms(2)]
      by (simp add: assms(3) parse_ident_type_def parse_slice_type_def)
  qed (simp add: assms(3))
qed

lemma dec_nat_lexes: "lexes (dec_nat n) [TtNumber (dec_nat n)]"
proof -
  have "list_all is_ascii_digit (dec_nat n)"
    using dec_nat_digits by (auto simp: list_all_iff ident_char_code)
  then show ?thesis by (simp add: lexes_def lex_number dec_nat_not_Nil)
qed

lemma source_array:
  assumes "source_of s p"
  shows "source_of (''array<'' @ s @ '', '' @ dec_nat (unat (n :: 64 word)) @ ''>'') (PtFixedArray p n)"
proof -
  from assms obtain toks where t: "lexes s toks" "parses toks p" by (auto simp: source_of_def)
  let ?num = "TtNumber (dec_nat (unat n))"
  let ?toks = "TtIdent ''array'' # TtSymbol ''<'' # toks @ [TtSymbol '','', ?num, TtSymbol ''>'']"
  have parse: "parse_u64 (dec_nat (unat n)) = Some n"
    using unsigned_less [of n] by (simp add: parse_u64_def read_dec_nat)
  show ?thesis
  proof (rule source_ofI)
    show "lexes (''array<'' @ s @ '', '' @ dec_nat (unat n) @ ''>'') ?toks"
      using t(1) lex_word [of "''array''"] lexesD [OF dec_nat_lexes] by (auto simp: lexes_def)
    show "parse_type (Suc f) (?toks @ rest) = Inr (PtFixedArray p n, rest)"
      if "closes rest" "length ?toks + length rest \<le> f" for rest f
      using that parsesD [OF t(2), of "TtSymbol '','' # ?num # TtSymbol ''>'' # rest" f]
      by (simp add: parse_ident_type_def parse_fixed_array_type_def tt_expect_number_def parse)
  qed simp
qed

lemma source_ofs: "list_all2 source_of ss ps \<longleftrightarrow> (\<exists>tss. list_all2 lexes ss tss \<and> list_all2 parses tss ps)"
proof
  show "list_all2 source_of ss ps \<Longrightarrow> \<exists>tss. list_all2 lexes ss tss \<and> list_all2 parses tss ps"
    by (induction rule: list_all2_induct) (auto simp: source_of_def intro: list_all2_Cons [THEN iffD2])
next
  assume "\<exists>tss. list_all2 lexes ss tss \<and> list_all2 parses tss ps"
  then show "list_all2 source_of ss ps" by (auto simp: source_of_def list_all2_conv_all_nth)
qed

lemma validate_parsed_ok:
  assumes "distinct (map fst fs)" "sorted (map fst fs)"
  shows "validate_parsed_type_fields label fs = Inr fs"
proof -
  have "is_ok (res_fold (\<lambda>(name, _) ns. if name \<in> set ns then Inl (Bail ''duplicate {} {}'' [label, name])
      else Inr (bset_insert name ns)) fs seen)"
    if "distinct (map fst fs)" "fst ` set fs \<inter> set seen = {}" for seen
    using that by (induction fs arbitrary: seen) auto
  from this [of "[]"] assms show ?thesis
    by (auto simp: validate_parsed_type_fields_def is_ok_iff sort_key_id_if_sorted)
qed

lemma lexes_fields:
  "list_all2 lexes ss tss \<Longrightarrow> length ns = length ss \<Longrightarrow> list_all is_projection_identifier ns \<Longrightarrow>
    list_all2 lexes (map2 (\<lambda>n s. n @ '': '' @ s) ns ss) (map2 field_toks ns tss)"
proof (induction arbitrary: ns rule: list_all2_induct)
  case (Cons s ss t tss)
  then obtain n ns' where "ns = n # ns'" by (cases ns) auto
  with Cons show ?case by (auto simp: lexes_def lex_word projection_word) (simp add: field_toks_def)
qed simp

lemma parse_fields_ok:
  assumes "list_all2 parses tss ps" "length ns = length tss" "list_all is_projection_identifier ns" "tss \<noteq> []"
    and "sorted ns" "distinct ns" and "length (join_toks (map2 field_toks ns tss)) + length rest + 1 < f"
  shows "parse_fields f (parse_type f) label (TtSymbol ''{'' # join_toks (map2 field_toks ns tss) @ TtSymbol ''}'' # rest)
    = Inr (zip ns ps, rest)"
proof -
  have "length ps = length ns" using assms(1,2) by (auto dest: list_all2_lengthD)
  then have zip: "map fst (zip ns ps) = ns" by simp
  have loop: "parse_fields_loop f (parse_type f) label (join_toks (map2 field_toks ns tss) @ TtSymbol ''}'' # rest)
      = Inr (zip ns ps, rest)"
    by (rule fields_loop_parses [OF assms(1-4)]) (use assms(7) in simp_all)
  have "tt_peek (join_toks (map2 field_toks ns tss) @ TtSymbol ''}'' # rest) \<noteq> TtSymbol ''}''"
    using assms(2,4) by (cases ns; cases tss) (auto simp: join_toks_Cons)
  then show ?thesis using validate_parsed_ok [of "zip ns ps" label] assms(5,6)
    by (simp add: parse_fields_def loop zip)
qed

lemma source_fields:
  assumes "list_all2 source_of ss ps" "length ns = length ss" "list_all is_projection_identifier ns" "ss \<noteq> []"
    and "sorted ns" "distinct ns"
  shows "source_of (''record {'' @ join_with '', '' (map2 (\<lambda>n s. n @ '': '' @ s) ns ss) @ ''}'') (PtRecord (zip ns ps))"
    and "source_of (''enum {'' @ join_with '', '' (map2 (\<lambda>n s. n @ '': '' @ s) ns ss) @ ''}'') (PtEnum (zip ns ps))"
proof -
  from assms(1) obtain tss where t: "list_all2 lexes ss tss" "list_all2 parses tss ps" by (auto simp: source_ofs)
  note len = list_all2_lengthD [OF t(1)]
  let ?fields = "join_toks (map2 field_toks ns tss)"
  have "map2 (\<lambda>n s. n @ '': '' @ s) ns ss \<noteq> []" using assms(2,4) by (cases ns; cases ss) auto
  from lexes_join [OF lexes_fields [OF t(1) assms(2,3)] this]
  have lex: "lexes (kw @ '' {'' @ join_with '', '' (map2 (\<lambda>n s. n @ '': '' @ s) ns ss) @ ''}'')
      (TtIdent kw # TtSymbol ''{'' # ?fields @ [TtSymbol ''}''])" if "is_word kw" for kw
    using lex_word [OF that] by (auto simp: lexes_def)
  have parse: "parse_fields f (parse_type f) label (TtSymbol ''{'' # ?fields @ TtSymbol ''}'' # rest) = Inr (zip ns ps, rest)"
    if "length ?fields + length rest + 1 < f" for f rest label
    by (rule parse_fields_ok [OF t(2) _ assms(3) _ assms(5,6) that]) (use assms(2,4) len in auto)
  show "source_of (''record {'' @ join_with '', '' (map2 (\<lambda>n s. n @ '': '' @ s) ns ss) @ ''}'') (PtRecord (zip ns ps))"
  proof (rule source_ofI)
    show "lexes (''record {'' @ join_with '', '' (map2 (\<lambda>n s. n @ '': '' @ s) ns ss) @ ''}'')
        (TtIdent ''record'' # TtSymbol ''{'' # ?fields @ [TtSymbol ''}''])"
      using lex [of "''record''"] by simp
    show "parse_type (Suc f) ((TtIdent ''record'' # TtSymbol ''{'' # ?fields @ [TtSymbol ''}'']) @ rest)
        = Inr (PtRecord (zip ns ps), rest)"
      if "length (TtIdent ''record'' # TtSymbol ''{'' # ?fields @ [TtSymbol ''}'']) + length rest \<le> f" for rest f
      using parse [of rest f] that by (simp add: parse_ident_type_def)
  qed simp
  show "source_of (''enum {'' @ join_with '', '' (map2 (\<lambda>n s. n @ '': '' @ s) ns ss) @ ''}'') (PtEnum (zip ns ps))"
  proof (rule source_ofI)
    show "lexes (''enum {'' @ join_with '', '' (map2 (\<lambda>n s. n @ '': '' @ s) ns ss) @ ''}'')
        (TtIdent ''enum'' # TtSymbol ''{'' # ?fields @ [TtSymbol ''}''])"
      using lex [of "''enum''"] by simp
    show "parse_type (Suc f) ((TtIdent ''enum'' # TtSymbol ''{'' # ?fields @ [TtSymbol ''}'']) @ rest)
        = Inr (PtEnum (zip ns ps), rest)"
      if "length (TtIdent ''enum'' # TtSymbol ''{'' # ?fields @ [TtSymbol ''}'']) + length rest \<le> f" for rest f
      using parse [of rest f] that by (simp add: parse_ident_type_def)
  qed simp
qed

text \<open>The words a type name can not start with: the parser takes them for something else.\<close>

definition is_type_keyword :: "string \<Rightarrow> bool" where
  "is_type_keyword w \<longleftrightarrow> scalar_int_name_for_source w \<noteq> None \<or>
     w \<in> set [''bool'', ''Bool'', ''unit'', ''Unit'', ''string'', ''String'', ''record'', ''enum'', ''raw_ptr'',
       ''raw_mut_ptr'', ''box'', ''vec'', ''slice'', ''mut_slice'', ''array'']"

lemma parse_ident_named:
  "\<not> is_type_keyword w \<Longrightarrow> parse_ident_type f parse w ts =
     res_bind (finish_name_path w ts) (\<lambda>(name, ts).
     res_bind (parse_optional_type_args f parse ts) (\<lambda>((region_args, type_args), ts).
       Inr (PtNamed name region_args type_args, ts)))"
  by (simp add: parse_ident_type_def is_type_keyword_def)

lemma reserved_mut: "is_projection_identifier w \<Longrightarrow> w \<noteq> ''mut''"
proof
  assume "is_projection_identifier w" "w = ''mut''"
  moreover have "\<not> is_projection_identifier ''mut''" by code_simp
  ultimately show False by simp
qed

lemma closes_peek: "closes rest \<Longrightarrow> tt_peek rest \<noteq> TtSymbol ''.'' \<and> tt_peek rest \<noteq> TtSymbol ''<''"
  by (cases rest) (auto simp: closes_def)

lemma source_name:
  assumes segs: "list_all is_projection_identifier (seg # segs)" and "\<not> is_type_keyword seg"
  shows "source_of (join_with ''.'' (seg # segs)) (PtNamed (join_with ''.'' (seg # segs)) [] [])"
proof (rule source_ofI [OF lexes_path])
  show "list_all is_word (seg # segs)" using segs projection_word by (auto simp: list_all_iff)
  show "opens (TtIdent seg # path_rest segs)" using segs reserved_mut by simp
  show "parse_type (Suc f) ((TtIdent seg # path_rest segs) @ rest) = Inr (PtNamed (join_with ''.'' (seg # segs)) [] [], rest)"
    if "closes rest" for rest f
    using closes_peek [OF that] by (simp add: parse_ident_named [OF assms(2)] finish_path parse_optional_type_args_def)
qed

lemma lexes_regions:
  "list_all is_projection_identifier rs \<Longrightarrow> list_all2 lexes (map (\<lambda>r. CHR 0x27 # r) rs) (map region_toks rs)"
  by (induction rs) (auto simp: lexes_def lex_word projection_word)

lemma source_instance:
  assumes segs: "list_all is_projection_identifier (seg # segs)" and "\<not> is_type_keyword seg"
    and rs: "list_all is_projection_identifier rs" and ss: "list_all2 source_of ss ps" and ne: "rs \<noteq> [] \<or> ss \<noteq> []"
  shows "source_of (join_with ''.'' (seg # segs) @ ''<'' @ join_with '', '' (map (\<lambda>r. CHR 0x27 # r) rs @ ss) @ ''>'')
    (PtNamed (join_with ''.'' (seg # segs)) rs ps)"
proof -
  from ss obtain tss where t: "list_all2 lexes ss tss" "list_all2 parses tss ps" by (auto simp: source_ofs)
  let ?args = "join_toks (map region_toks rs @ tss)"
  let ?toks = "TtIdent seg # path_rest segs @ TtSymbol ''<'' # ?args @ [TtSymbol ''>'']"
  have tss: "tss \<noteq> [] \<longleftrightarrow> ss \<noteq> []" using list_all2_lengthD [OF t(1)] by auto
  have path: "lexes (join_with ''.'' (seg # segs)) (TtIdent seg # path_rest segs)"
    by (rule lexes_path) (use segs projection_word in \<open>auto simp: list_all_iff\<close>)
  have "list_all2 lexes (map (\<lambda>r. CHR 0x27 # r) rs @ ss) (map region_toks rs @ tss)"
    using lexes_regions [OF rs] t(1) by (auto intro: list_all2_appendI)
  from lexes_join [OF this] ne have args: "lexes (join_with '', '' (map (\<lambda>r. CHR 0x27 # r) rs @ ss)) ?args" by auto
  show ?thesis
  proof (rule source_ofI)
    show "lexes (join_with ''.'' (seg # segs) @ ''<'' @ join_with '', '' (map (\<lambda>r. CHR 0x27 # r) rs @ ss) @ ''>'') ?toks"
      using lexesD [OF path] lexesD [OF args] by (auto simp: lexes_def)
    show "parse_type (Suc f) (?toks @ rest) = Inr (PtNamed (join_with ''.'' (seg # segs)) rs ps, rest)"
      if "closes rest" "length ?toks + length rest \<le> f" for rest f
    proof -
      have "parse_args_loop f (parse_type f) [] [] (?args @ TtSymbol ''>'' # rest) = Inr ((rs, ps), rest)"
        using args_loop_regions [OF rs t(2), of rest f f "[]"] ne tss that(2) by simp
      moreover have "tt_peek (?args @ TtSymbol ''>'' # rest) \<noteq> TtSymbol ''>''"
      proof (cases rs)
        case Nil
        with ne tss t(2) obtain u us p where "tss = u # us" "parses u p" by (cases tss) (auto simp: list_all2_Cons1)
        with opens_peek Nil show ?thesis by (auto simp: join_toks_Cons parses_def)
      qed (simp add: join_toks_Cons)
      ultimately show ?thesis
        by (simp add: parse_ident_named [OF assms(2)] finish_path parse_optional_type_args_def)
    qed
  qed (use segs reserved_mut in simp)
qed

subsection \<open>Round trip of a printed type\<close>

definition region_named :: "(string \<times> string) list \<Rightarrow> (string \<times> string) list \<Rightarrow> string \<Rightarrow> bool" where
  "region_named region_names scope r \<longleftrightarrow>
     (case map_of region_names r of
        Some v \<Rightarrow> is_projection_identifier v \<and> map_of scope v = Some r
      | None \<Rightarrow> False)"

text \<open>
  What printing needs: a name for every region, in the scope the text is read in (a reference may
  also have the static region), a name for every parameter, and for a named type a display that
  neither starts with a word of the type syntax nor is the name of a parameter, and a definition
  with as many parameters as there are arguments.
\<close>

definition named_printable :: "objects \<Rightarrow> program_root \<Rightarrow> string \<Rightarrow> string list \<Rightarrow> string \<Rightarrow> nat \<Rightarrow> nat \<Rightarrow> bool" where
  "named_printable objects root m tparams type_symbol rs ts \<longleftrightarrow>
     (case type_symbol_display_in_module root m type_symbol of
        None \<Rightarrow> False
      | Some d \<Rightarrow> \<not> is_type_keyword (hd (split_on (CHR ''.'') d)) \<and> d \<notin> set tparams) \<and>
     (case root_type root type_symbol of
        None \<Rightarrow> False
      | Some entry \<Rightarrow>
          (case type_definition objects (rt_type_def entry) of
             Inl _ \<Rightarrow> False
           | Inr def \<Rightarrow> length (td_region_params def) = rs \<and> length (td_type_params def) = ts))"

fun type_printable ::
    "env \<Rightarrow> objects \<Rightarrow> program_root \<Rightarrow> string \<Rightarrow> (string \<times> string) list \<Rightarrow> (string \<times> string) list \<Rightarrow> string list
      \<Rightarrow> nat \<Rightarrow> string \<Rightarrow> bool" where
  "type_printable env objects root m regions scope tparams 0 h \<longleftrightarrow> False"
| "type_printable env objects root m regions scope tparams (Suc n) h \<longleftrightarrow>
     (case type_spec_of env objects h of
        Inl _ \<Rightarrow> False
      | Inr spec \<Rightarrow>
          hash_for_type_spec env spec = Inr h \<and>
          (case spec of
             TsTypeParam i \<Rightarrow> unat i < length tparams
           | TsNamed type_symbol rs ts \<Rightarrow>
               named_printable objects root m tparams type_symbol (length rs) (length ts)
               \<and> list_all (region_named regions scope) rs
           | _ \<Rightarrow> list_all (\<lambda>r. region_named regions scope r
               \<or> map_of regions r = None \<and> is_static_region env r) (spec_regions spec)) \<and>
          list_all (type_printable env objects root m regions scope tparams n) (spec_parts spec))"

definition reads ::
    "env \<Rightarrow> objects \<Rightarrow> program_root \<Rightarrow> string \<Rightarrow> (string \<times> string) list \<Rightarrow> string list \<Rightarrow> string \<Rightarrow> string \<Rightarrow> bool" where
  "reads env objects root m scope tparams s h \<longleftrightarrow>
     (\<exists>p q. source_of s p \<and> bind_type_params p tparams = Inr q
       \<and> type_hash_for_parsed_in_root env objects m root q scope = Inr h)"

lemma reads_list:
  "list_all2 (reads env objs root m scope tparams) ss hs \<Longrightarrow>
    \<exists>ps qs. list_all2 source_of ss ps \<and> res_map (\<lambda>p. bind_type_params p tparams) ps = Inr qs
      \<and> res_map (\<lambda>q. type_hash_for_parsed_in_root env objs m root q scope) qs = Inr hs"
proof (induction rule: list_all2_induct)
  case (Cons s ss h hs)
  then obtain p q ps qs where "source_of s p" "bind_type_params p tparams = Inr q"
    "type_hash_for_parsed_in_root env objs m root q scope = Inr h" "list_all2 source_of ss ps"
    "res_map (\<lambda>p. bind_type_params p tparams) ps = Inr qs"
    "res_map (\<lambda>q. type_hash_for_parsed_in_root env objs m root q scope) qs = Inr hs"
    by (auto simp: reads_def)
  then have "list_all2 source_of (s # ss) (p # ps) \<and> res_map (\<lambda>p. bind_type_params p tparams) (p # ps) = Inr (q # qs)
    \<and> res_map (\<lambda>q. type_hash_for_parsed_in_root env objs m root q scope) (q # qs) = Inr (h # hs)"
    by simp
  then show ?case by blast
qed simp

lemma display_segments:
  assumes wf: "names_wf root" and disp: "type_symbol_display_in_module root m ts = Some d"
  shows "list_all is_projection_identifier (split_on (CHR ''.'') d)"
proof -
  obtain b where pref: "preferred_type_binding root ts = Some b"
    and d: "d = (if tnb_module b = m then tnb_display_name b else tnb_module b @ CHR ''.'' # tnb_display_name b)"
    using disp by (auto simp: type_symbol_display_in_module_def split: option.splits if_splits)
  then have "b \<in> set (type_names root)"
    using tnm.preferred_SomeD by (auto simp: preferred_type_binding_tnm)
  then have n: "is_projection_identifier (tnb_display_name b)"
    and m: "\<forall>seg \<in> set (split_on (CHR ''.'') (tnb_module b)). is_projection_identifier seg"
    using wf by (auto simp: names_wf_def validate_module_path_ok)
  from split_on_no_sep [OF projection_identifier_no_dot [OF n]] n m show ?thesis
    by (auto simp: d split_on_append list_all_iff)
qed

lemma map_fields:
  "length ns = length ps \<Longrightarrow> res_map f ps = Inr qs \<Longrightarrow>
    res_map (\<lambda>(name, ty). res_bind (f ty) (\<lambda>ty. Inr (g name ty))) (zip ns ps) = Inr (map2 g ns qs)"
  by (induction ns ps arbitrary: qs rule: list_induct2) auto

lemma hash_fields:
  assumes "length ns = length qs" "res_map f qs = Inr hs"
  shows "res_map (\<lambda>(name, ty). res_bind (f ty) (\<lambda>t. Inr \<lparr>tf_name = name, tf_type = t\<rparr>)) (zip ns qs)
    = Inr (map2 (\<lambda>n t. \<lparr>tf_name = n, tf_type = t\<rparr>) ns hs)"
  using map_fields [OF assms, of "\<lambda>n t. \<lparr>tf_name = n, tf_type = t\<rparr>"] by simp

lemma fields_again: "map2 (\<lambda>n t. \<lparr>tf_name = n, tf_type = t\<rparr>) (map tf_name fs) (map tf_type fs) = fs"
  by (induction fs) auto

lemma loaded_fields:
  assumes "hash_for_type_spec env spec = Inr h" "canonical_spec spec = spec" "spec_fields spec = Some fs"
  shows "fs \<noteq> []" "list_all is_projection_identifier (map tf_name fs)" "sorted (map tf_name fs)" "distinct (map tf_name fs)"
proof -
  have "fields_ok fs" using assms(1,3) hash_for_spec_iff [of env spec] by auto
  moreover have "sort_key tf_name fs = fs" using assms(2,3) by (cases spec) auto
  ultimately show "fs \<noteq> []" "list_all is_projection_identifier (map tf_name fs)" "sorted (map tf_name fs)"
    "distinct (map tf_name fs)"
    using sorted_sort_key [of tf_name fs] by (auto simp: fields_ok_names)
qed

lemma builtin_by_hash:
  assumes "type_spec_of env objs h = Inr (TsBuiltin k)" "hash_for_type_spec env (TsBuiltin k) = Inr h"
  shows "(\<exists>t \<in> set SCALAR_INT_TYPES. scalar_int_type_by_hash env h = Some t \<and> h = type_hash_for env (int_name t))
    \<or> scalar_int_type_by_hash env h = None \<and> (h = type_hash_for env ''Bool'' \<or> h = type_hash_for env ''Unit'')"
proof -
  have "builtin_kind k" and h: "h = type_hash_for env k"
    using loaded_known [OF assms(1)] assms(2) by (auto simp: hash_for_type_spec_def type_hash_for_def)
  then have "scalar_int_type_by_hash env h = None \<Longrightarrow> h = type_hash_for env ''Bool'' \<or> h = type_hash_for env ''Unit''"
    by (auto simp: builtin_kind_def scalar_int_type_by_hash_def find_eq_None_iff dest!: scalar_of_Some)
  then show ?thesis
    by (cases "scalar_int_type_by_hash env h") (auto simp: scalar_int_type_by_hash_def dest: find_Some_in)
qed

lemma not_builtin_hash:
  assumes "type_spec_of env objs h = Inr spec" "\<forall>k. spec \<noteq> TsBuiltin k"
  shows "scalar_int_source_name_for_hash env h = None" "h \<noteq> type_hash_for env ''Bool''" "h \<noteq> type_hash_for env ''Unit''"
  using assms by (auto simp: scalar_int_source_name_for_hash_def type_spec_of_def split: option.splits if_splits)

lemma reads_one:
  assumes "reads env objs root m scope tparams s h"
  obtains p q where "source_of s p" "bind_type_params p tparams = Inr q"
    "type_hash_for_parsed_in_root env objs m root q scope = Inr h"
  using assms by (auto simp: reads_def)

lemma reads_fields:
  assumes "list_all2 (reads env objs root m scope tparams) ss (map tf_type fs)"
    and "list_all is_projection_identifier (map tf_name fs)" "fs \<noteq> []" "sorted (map tf_name fs)" "distinct (map tf_name fs)"
  shows "hash_for_type_spec env (TsRecord fs) = Inr h \<Longrightarrow> reads env objs root m scope tparams
      (''record {'' @ join_with '', '' (map2 (\<lambda>n s. n @ '': '' @ s) (map tf_name fs) ss) @ ''}'') h"
    and "hash_for_type_spec env (TsEnum fs) = Inr h \<Longrightarrow> reads env objs root m scope tparams
      (''enum {'' @ join_with '', '' (map2 (\<lambda>n s. n @ '': '' @ s) (map tf_name fs) ss) @ ''}'') h"
proof -
  from reads_list [OF assms(1)] obtain ps qs where r: "list_all2 source_of ss ps"
    "res_map (\<lambda>p. bind_type_params p tparams) ps = Inr qs"
    "res_map (\<lambda>q. type_hash_for_parsed_in_root env objs m root q scope) qs = Inr (map tf_type fs)" by blast
  have len: "length (map tf_name fs) = length ss" "length (map tf_name fs) = length ps" "length (map tf_name fs) = length qs"
    using list_all2_lengthD [OF assms(1)] list_all2_lengthD [OF r(1)] res_map_length [OF r(2)] by simp_all
  have ne: "ss \<noteq> []" using len(1) assms(3) by auto
  note src = source_fields [OF r(1) len(1) assms(2) ne assms(4,5)]
  have bind: "res_map (\<lambda>(name, ty). res_bind (bind_type_params ty tparams) (\<lambda>ty. Inr (name, ty))) (zip (map tf_name fs) ps)
      = Inr (zip (map tf_name fs) qs)"
    using map_fields [OF len(2) r(2), of Pair] by simp
  note hash = hash_fields [OF len(3) r(3), unfolded fields_again]
  show "reads env objs root m scope tparams
      (''record {'' @ join_with '', '' (map2 (\<lambda>n s. n @ '': '' @ s) (map tf_name fs) ss) @ ''}'') h"
    if "hash_for_type_spec env (TsRecord fs) = Inr h"
  proof -
    have "bind_type_params (PtRecord (zip (map tf_name fs) ps)) tparams = Inr (PtRecord (zip (map tf_name fs) qs))"
      by (simp add: bind)
    moreover have "type_hash_for_parsed_in_root env objs m root (PtRecord (zip (map tf_name fs) qs)) scope = Inr h"
      using that hash by simp
    ultimately show ?thesis using src(1) unfolding reads_def by blast
  qed
  show "reads env objs root m scope tparams
      (''enum {'' @ join_with '', '' (map2 (\<lambda>n s. n @ '': '' @ s) (map tf_name fs) ss) @ ''}'') h"
    if "hash_for_type_spec env (TsEnum fs) = Inr h"
  proof -
    have "bind_type_params (PtEnum (zip (map tf_name fs) ps)) tparams = Inr (PtEnum (zip (map tf_name fs) qs))"
      by (simp add: bind)
    moreover have "type_hash_for_parsed_in_root env objs m root (PtEnum (zip (map tf_name fs) qs)) scope = Inr h"
      using that hash by simp
    ultimately show ?thesis using src(2) unfolding reads_def by blast
  qed
qed

lemma print_list:
  "list_all (\<lambda>h. \<exists>s. f h = Inr s \<and> P s h) hs \<Longrightarrow> \<exists>ss. res_map f hs = Inr ss \<and> list_all2 P ss hs"
  by (induction hs) auto

lemma print_fields:
  "res_map f (map tf_type fs) = Inr ss \<Longrightarrow>
    res_map (\<lambda>field. res_bind (f (tf_type field)) (\<lambda>t. Inr (tf_name field @ '': '' @ t))) fs
      = Inr (map2 (\<lambda>n s. n @ '': '' @ s) (map tf_name fs) ss)"
  by (induction fs arbitrary: ss) auto

lemma reads_region:
  assumes "region_named regions scope r \<or> map_of regions r = None \<and> is_static_region env r"
  shows "region_word (region_name env r regions) \<and> resolve_region_arg env (region_name env r regions) scope = Inr r"
proof -
  have "\<not> is_projection_identifier ''static''" by code_simp
  then show ?thesis using assms
    by (auto simp: region_named_def region_name_def region_word_def resolve_region_arg_def is_static_region_def
        split: option.splits)
qed

lemma reads_region_args:
  assumes "list_all (region_named regions scope) rs"
  shows "\<exists>vs. map (\<lambda>r. region_arg_source r regions) rs = map (\<lambda>v. CHR 0x27 # v) vs
    \<and> list_all is_projection_identifier vs \<and> resolve_region_args env vs scope = Inr rs"
  using assms
proof (induction rs)
  case (Cons r rs)
  then obtain vs v where vs: "map (\<lambda>r. region_arg_source r regions) rs = map (\<lambda>v. CHR 0x27 # v) vs"
    "list_all is_projection_identifier vs" "resolve_region_args env vs scope = Inr rs"
    and v: "map_of regions r = Some v" "is_projection_identifier v" "map_of scope v = Some r"
    by (auto simp: region_named_def split: option.splits)
  have "\<not> is_projection_identifier ''static''" by code_simp
  with v(2) have "v \<noteq> ''static''" by auto
  with vs v have "map (\<lambda>r. region_arg_source r regions) (r # rs) = map (\<lambda>v. CHR 0x27 # v) (v # vs)
    \<and> list_all is_projection_identifier (v # vs) \<and> resolve_region_args env (v # vs) scope = Inr (r # rs)"
    by (simp add: region_arg_source_def resolve_region_args_def resolve_region_arg_def)
  then show ?case by blast
qed (simp add: resolve_region_args_def)

lemma reads_single:
  assumes "reads env objs root m scope tparams s t" and "is_word w" "w \<noteq> ''mut''"
    and "\<And>f parse ts. parse_ident_type f parse w ts
      = res_bind (parse_single_type_arg parse ts) (\<lambda>(ty, ts). Inr (C ty, ts))"
    and "\<And>p q. bind_type_params p tparams = Inr q \<Longrightarrow> bind_type_params (C p) tparams = Inr (C q)"
    and "\<And>q. type_hash_for_parsed_in_root env objs m root q scope = Inr t \<Longrightarrow>
      type_hash_for_parsed_in_root env objs m root (C q) scope = Inr h"
  shows "reads env objs root m scope tparams (w @ ''<'' @ s @ ''>'') h"
  using reads_one [OF assms(1)] source_single [OF _ assms(2-4)] assms(5,6) unfolding reads_def by metis

lemma reads_param:
  assumes "list_all (\<lambda>v. is_projection_identifier v \<and> \<not> is_type_keyword v) tparams" "distinct tparams"
    and "unat i < length tparams" and "hash_for_type_spec env (TsTypeParam i) = Inr h"
  shows "reads env objs root m scope tparams (tparams ! unat i) h"
proof -
  have v: "is_projection_identifier (tparams ! unat i)" "\<not> is_type_keyword (tparams ! unat i)"
    using assms(1,3) by (simp_all add: list_all_length)
  have src: "source_of (tparams ! unat i) (PtNamed (tparams ! unat i) [] [])"
    using source_name [of "tparams ! unat i" "[]"] v by simp
  have "position (\<lambda>c. c = tparams ! unat i) tparams = Some (unat i)"
  proof (cases "position (\<lambda>c. c = tparams ! unat i) tparams")
    case None
    then show ?thesis using assms(3) by (auto simp: position_None_iff)
  next
    case (Some j)
    with position_Some [OF Some] assms(2,3) show ?thesis by (auto simp: nth_eq_iff_index_eq)
  qed
  then have bind: "bind_type_params (PtNamed (tparams ! unat i) [] []) tparams = Inr (PtTypeParam i)" by simp
  have "type_hash_for_parsed_in_root env objs m root (PtTypeParam i) scope = Inr h" using assms(4) by simp
  with src bind show ?thesis unfolding reads_def by blast
qed

lemma reads_named:
  assumes wf: "names_wf root" and named: "named_printable objs root m tparams ts (length rs) (length hs)"
    and disp: "type_symbol_display_in_module root m ts = Some d" and regions: "list_all (region_named regions scope) rs"
    and parts: "list_all2 (reads env objs root m scope tparams) ss hs" and hash: "hash_for_type_spec env (TsNamed ts rs hs) = Inr h"
  shows "reads env objs root m scope tparams
    (if rs = [] \<and> hs = [] then d
     else d @ ''<'' @ join_with '', '' (map (\<lambda>r. region_arg_source r regions) rs @ ss) @ ''>'') h"
proof -
  obtain seg segs where split: "split_on (CHR ''.'') d = seg # segs" by (cases "split_on (CHR ''.'') d") auto
  have join: "join_with ''.'' (seg # segs) = d" using join_split_on [of "CHR ''.''" d] split by simp
  have ident: "list_all is_projection_identifier (seg # segs)" using display_segments [OF wf disp] split by simp
  have kw: "\<not> is_type_keyword seg" and d: "d \<notin> set tparams" using named disp split by (auto simp: named_printable_def)
  from reads_list [OF parts] obtain ps qs where r: "list_all2 source_of ss ps"
    "res_map (\<lambda>p. bind_type_params p tparams) ps = Inr qs"
    "res_map (\<lambda>q. type_hash_for_parsed_in_root env objs m root q scope) qs = Inr hs" by blast
  have len: "length qs = length hs" using res_map_length [OF r(3)] by simp
  from reads_region_args [OF regions] obtain vs where vs: "map (\<lambda>r. region_arg_source r regions) rs = map (\<lambda>v. CHR 0x27 # v) vs"
    "list_all is_projection_identifier vs" "resolve_region_args env vs scope = Inr rs" by blast
  have vlen: "length vs = length rs" using vs(3) by (simp add: resolve_region_args_def res_map_length)
  have sslen: "length ss = length hs" using list_all2_lengthD [OF parts] .
  have pos: "position (\<lambda>c. c = d) tparams = None" using d by (auto simp: position_None_iff)
  have bind: "bind_type_params (PtNamed d vs ps) tparams = Inr (PtNamed d vs qs)" using pos r(2) by simp
  have "resolve_type_use objs m root d (length rs) (length hs) = Inr ts"
    using named type_display_resolves [OF wf disp] disp
    by (auto simp: resolve_type_use_def named_printable_def split: option.splits sum.splits)
  then have "type_hash_for_parsed_in_root env objs m root (PtNamed d vs qs) scope = Inr h"
    using hash vs(3) r(3) vlen len by simp
  moreover have "source_of (if rs = [] \<and> hs = [] then d
      else d @ ''<'' @ join_with '', '' (map (\<lambda>r. region_arg_source r regions) rs @ ss) @ ''>'') (PtNamed d vs ps)"
  proof (cases "rs = [] \<and> hs = []")
    case True
    then have "vs = []" "ps = []" using vlen sslen list_all2_lengthD [OF r(1)] by auto
    with True source_name [OF ident kw] show ?thesis by (simp add: join)
  next
    case False
    then have "vs \<noteq> [] \<or> ss \<noteq> []" using vlen sslen by auto
    from source_instance [OF ident kw vs(2) r(1) this] show ?thesis
      unfolding if_not_P [OF False] by (simp only: join vs(1))
  qed
  ultimately show ?thesis using bind unfolding reads_def by blast
qed

lemma ident_keywords [simp]:
  "parse_ident_type f parse ''raw_ptr'' ts = res_bind (parse_single_type_arg parse ts) (\<lambda>(ty, ts). Inr (PtRawPointer False ty, ts))"
  "parse_ident_type f parse ''raw_mut_ptr'' ts = res_bind (parse_single_type_arg parse ts) (\<lambda>(ty, ts). Inr (PtRawPointer True ty, ts))"
  "parse_ident_type f parse ''box'' ts = res_bind (parse_single_type_arg parse ts) (\<lambda>(ty, ts). Inr (PtBox ty, ts))"
  "parse_ident_type f parse ''vec'' ts = res_bind (parse_single_type_arg parse ts) (\<lambda>(ty, ts). Inr (PtVec ty, ts))"
  "parse_ident_type f parse ''bool'' ts = Inr (PtBuiltin ''Bool'', ts)"
  "parse_ident_type f parse ''unit'' ts = Inr (PtBuiltin ''Unit'', ts)"
  "parse_ident_type f parse ''string'' ts = Inr (PtString, ts)"
  by (simp_all add: parse_ident_type_def)

lemma reads_keyword:
  assumes "is_word w" "w \<noteq> ''mut''" "\<And>f parse ts. parse_ident_type f parse w ts = Inr (p, ts)"
    and "bind_type_params p tparams = Inr p" "type_hash_for_parsed_in_root env objs m root p scope = Inr h"
  shows "reads env objs root m scope tparams w h"
  using source_keyword [OF assms(1-3)] assms(4,5) unfolding reads_def by blast

lemma reads_builtin:
  assumes "type_spec_of env objs h = Inr (TsBuiltin k)" "hash_for_type_spec env (TsBuiltin k) = Inr h"
  shows "\<exists>s. type_name_in_root_with_scope (Suc f) env objs root m h regions tparams = Inr s
    \<and> reads env objs root m scope tparams s h"
  using builtin_by_hash [OF assms]
proof (elim disjE conjE bexE)
  fix t assume t: "t \<in> set SCALAR_INT_TYPES" "scalar_int_type_by_hash env h = Some t" "h = type_hash_for env (int_name t)"
  have "reads env objs root m scope tparams (to_ascii_lowercase (int_name t)) h"
    using source_scalar [OF t(1)] t(3) by (auto simp: reads_def intro!: exI)
  with t(2) show ?thesis by (simp add: scalar_int_source_name_for_hash_def)
next
  assume h: "scalar_int_type_by_hash env h = None" "h = type_hash_for env ''Bool''"
  have "reads env objs root m scope tparams ''bool'' h"
    by (rule reads_keyword [where p = "PtBuiltin ''Bool''"]) (simp_all add: h(2))
  with h show ?thesis by (simp add: scalar_int_source_name_for_hash_def)
next
  assume h: "scalar_int_type_by_hash env h = None" "h = type_hash_for env ''Unit''"
  have r: "reads env objs root m scope tparams ''unit'' h"
    by (rule reads_keyword [where p = "PtBuiltin ''Unit''"]) (simp_all add: h(2))
  have b: "reads env objs root m scope tparams ''bool'' h" if "h = type_hash_for env ''Bool''"
    by (rule reads_keyword [where p = "PtBuiltin ''Bool''"]) (simp_all add: that)
  show ?thesis
    using r b h(1) by (cases "h = type_hash_for env ''Bool''") (simp_all add: scalar_int_source_name_for_hash_def h(2))
qed

lemma readsI:
  "source_of s p \<Longrightarrow> bind_type_params p tparams = Inr q \<Longrightarrow>
    type_hash_for_parsed_in_root env objs m root q scope = Inr h \<Longrightarrow> reads env objs root m scope tparams s h"
  unfolding reads_def by blast

lemma prints_and_reads:
  assumes wf: "names_wf root"
    and tps: "list_all (\<lambda>v. is_projection_identifier v \<and> \<not> is_type_keyword v) tparams" "distinct tparams"
  shows "type_printable env objs root m regions scope tparams n h \<Longrightarrow> n \<le> fuel \<Longrightarrow>
    \<exists>s. type_name_in_root_with_scope fuel env objs root m h regions tparams = Inr s
      \<and> reads env objs root m scope tparams s h"
proof (induction n arbitrary: fuel h)
  case (Suc n)
  then obtain f where f: "fuel = Suc f" "n \<le> f" by (cases fuel) auto
  from Suc.prems(1) obtain spec where spec: "type_spec_of env objs h = Inr spec" and hash: "hash_for_type_spec env spec = Inr h"
    and parts: "list_all (type_printable env objs root m regions scope tparams n) (spec_parts spec)"
    by (auto split: sum.splits)
  let ?print = "\<lambda>h. type_name_in_root_with_scope f env objs root m h regions tparams"
  let ?reads = "reads env objs root m scope tparams"
  have "list_all (\<lambda>h. \<exists>s. ?print h = Inr s \<and> ?reads s h) (spec_parts spec)"
    using parts Suc.IH [OF _ f(2)] by (auto simp: list_all_iff)
  from print_list [OF this] obtain ss where ss: "res_map ?print (spec_parts spec) = Inr ss"
    "list_all2 ?reads ss (spec_parts spec)" by blast
  note canonical = loaded_canonical [OF spec]
  show ?case
  proof (cases "\<forall>k. spec \<noteq> TsBuiltin k")
    case False
    then obtain k where "spec = TsBuiltin k" by blast
    with spec hash show ?thesis unfolding f(1) by (intro reads_builtin) simp_all
  next
    case True
    note nb [simp] = not_builtin_hash [OF spec True]
    have *: "?thesis" if "type_name_in_root_with_scope (Suc f) env objs root m h regions tparams = Inr s" "?reads s h" for s
      using that f(1) by blast
    show ?thesis
    proof (cases spec)
      case (TsTypeParam i)
      then have i: "unat i < length tparams" using Suc.prems(1) spec by simp
      show ?thesis
        by (rule * [OF _ reads_param [OF tps i]]) (use i hash spec TsTypeParam in simp_all)
    next
      case (TsNamed ts rs hs)
      have named: "named_printable objs root m tparams ts (length rs) (length hs)" and regions: "list_all (region_named regions scope) rs"
        using Suc.prems(1) spec TsNamed by auto
      then obtain d where d: "type_symbol_display_in_module root m ts = Some d" by (auto simp: named_printable_def split: option.splits)
      show ?thesis
        by (rule * [OF _ reads_named [OF wf named d regions]])
          (use ss hash spec TsNamed d in \<open>simp_all add: type_symbol_display_for_module_def\<close>)
    next
      case (TsReference r mu t)
      then obtain s where s: "?print t = Inr s" "?reads s t" using ss by (auto simp: list_all2_Cons2)
      have r: "region_named regions scope r \<or> map_of regions r = None \<and> is_static_region env r"
        using Suc.prems(1) spec TsReference by simp
      note r = reads_region [OF this]
      from reads_one [OF s(2)] obtain p q where "source_of s p" "bind_type_params p tparams = Inr q"
        "type_hash_for_parsed_in_root env objs m root q scope = Inr t" .
      then have "?reads (''&'' @ [CHR 0x27] @ region_name env r regions @ (if mu then '' mut '' else '' '') @ s) h"
        using source_reference [of s p "region_name env r regions" mu] r hash TsReference
        by (intro readsI [of _ "PtReference (region_name env r regions) mu p" _ "PtReference (region_name env r regions) mu q"]) simp_all
      from * [OF _ this] spec s(1) TsReference show ?thesis by simp
    next
      case (TsSlice r mu t)
      then obtain s where s: "?print t = Inr s" "?reads s t" using ss by (auto simp: list_all2_Cons2)
      have r: "region_named regions scope r \<or> map_of regions r = None \<and> is_static_region env r"
        using Suc.prems(1) spec TsSlice by simp
      note r = reads_region [OF this]
      from reads_one [OF s(2)] obtain p q where "source_of s p" "bind_type_params p tparams = Inr q"
        "type_hash_for_parsed_in_root env objs m root q scope = Inr t" .
      then have "?reads ((if mu then ''mut_slice'' else ''slice'') @ ''<'' @ [CHR 0x27] @ region_name env r regions @ '', '' @ s @ ''>'') h"
        using source_slice [of s p "region_name env r regions" _ mu] r hash TsSlice
        by (intro readsI [of _ "PtSlice (region_name env r regions) mu p" _ "PtSlice (region_name env r regions) mu q"]) simp_all
      from * [OF _ this] spec s(1) TsSlice show ?thesis by (auto split: if_splits)
    next
      case (TsFixedArray t len)
      then obtain s where s: "?print t = Inr s" "?reads s t" using ss by (auto simp: list_all2_Cons2)
      from reads_one [OF s(2)] obtain p q where "source_of s p" "bind_type_params p tparams = Inr q"
        "type_hash_for_parsed_in_root env objs m root q scope = Inr t" .
      then have "?reads (''array<'' @ s @ '', '' @ dec_nat (unat len) @ ''>'') h"
        using source_array [of s p len] hash TsFixedArray
        by (intro readsI [of _ "PtFixedArray p len" _ "PtFixedArray q len"]) simp_all
      from * [OF _ this] spec s(1) TsFixedArray show ?thesis by simp
    next
      case (TsBox t)
      then obtain s where s: "?print t = Inr s" "?reads s t" using ss by (auto simp: list_all2_Cons2)
      have "?reads (''box'' @ ''<'' @ s @ ''>'') h"
        by (rule reads_single [OF s(2), where C = PtBox]) (use hash TsBox in simp_all)
      from * [OF _ this] spec s(1) TsBox show ?thesis by simp
    next
      case (TsVec t)
      then obtain s where s: "?print t = Inr s" "?reads s t" using ss by (auto simp: list_all2_Cons2)
      have "?reads (''vec'' @ ''<'' @ s @ ''>'') h"
        by (rule reads_single [OF s(2), where C = PtVec]) (use hash TsVec in simp_all)
      from * [OF _ this] spec s(1) TsVec show ?thesis by simp
    next
      case (TsRawPointer mu t)
      then obtain s where s: "?print t = Inr s" "?reads s t" using ss by (auto simp: list_all2_Cons2)
      have "?reads ((if mu then ''raw_mut_ptr'' else ''raw_ptr'') @ ''<'' @ s @ ''>'') h"
        by (rule reads_single [OF s(2), where C = "PtRawPointer mu"]) (use hash TsRawPointer in auto)
      from * [OF _ this] spec s(1) TsRawPointer show ?thesis by (auto split: if_splits)
    next
      case TsString
      have "?reads ''string'' h" by (rule reads_keyword [where p = PtString]) (use hash TsString in simp_all)
      from * [OF _ this] spec TsString show ?thesis by simp
    next
      case (TsRecord fs)
      note fs = loaded_fields [OF hash canonical, of fs]
      have "?reads (''record {'' @ join_with '', '' (map2 (\<lambda>n s. n @ '': '' @ s) (map tf_name fs) ss) @ ''}'') h"
        by (rule reads_fields(1)) (use ss(2) fs hash TsRecord in simp_all)
      from * [OF _ this] spec print_fields [of ?print fs ss] ss(1) TsRecord show ?thesis by simp
    next
      case (TsEnum fs)
      note fs = loaded_fields [OF hash canonical, of fs]
      have "?reads (''enum {'' @ join_with '', '' (map2 (\<lambda>n s. n @ '': '' @ s) (map tf_name fs) ss) @ ''}'') h"
        by (rule reads_fields(2)) (use ss(2) fs hash TsEnum in simp_all)
      from * [OF _ this] spec print_fields [of ?print fs ss] ss(1) TsEnum show ?thesis by simp
    qed (use True in simp)
  qed
qed simp

lemma reads_source:
  assumes "reads env objs root m scope tparams s h"
  shows "type_hash_for_source_in_root_with_scope env objs m root s scope tparams = Inr h"
proof -
  from reads_one [OF assms] obtain p q where r: "source_of s p" "bind_type_params p tparams = Inr q"
    "type_hash_for_parsed_in_root env objs m root q scope = Inr h" .
  from r(1) obtain toks where t: "lexes s toks" "parses toks p" by (auto simp: source_of_def)
  have lex: "lex_type s = toks @ [TtEof]" using lexesD [OF t(1), of "[]"] by simp
  have "parse_type_source s = Inr p"
    using parsesD [OF t(2), of "[TtEof]" "Suc (length (toks @ [TtEof]))"]
    by (simp add: parse_type_source_def lex Let_def tt_expect_eof_def del: parse_type.simps)
  with r show ?thesis by (simp add: type_hash_for_source_in_root_with_scope_def)
qed

text \<open>C17. A type that can be printed is read back as itself: in a root with well-formed names, where
  every region the type mentions has a name in the scope of the reader, every parameter has a
  distinct name that is not a word of the type syntax, and every named type is displayed under a name
  that does not start with such a word, the printed text of a stored type, of any of the twelve forms
  and any nesting, lexes, parses and resolves to the same hash.\<close>

theorem printed_types_read_back:
  assumes "names_wf root"
    and "list_all (\<lambda>v. is_projection_identifier v \<and> \<not> is_type_keyword v) tparams" and "distinct tparams"
    and "type_printable env objs root m regions scope tparams n h" and "n \<le> fuel"
  shows "\<exists>s. type_name_in_root_with_scope fuel env objs root m h regions tparams = Inr s
    \<and> type_hash_for_source_in_root_with_scope env objs m root s scope tparams = Inr h"
  using prints_and_reads [OF assms] reads_source by blast

text \<open>A keyword can be the name of a type, since the names reserved in \<open>model.rs\<close> leave out most of the
  words the type syntax takes; what is printed for such a type is read as the builtin one.\<close>

lemma builtin_names_not_reserved:
  "list_all is_projection_identifier [''string'', ''String'', ''box'', ''vec'', ''slice'', ''array'', ''raw_ptr'']"
  "parse_type_source ''string'' = Inr PtString"
  by code_simp+

end
