(* ===== verification/SampleTypes.thy ===== *)
theory SampleTypes
  imports SampleEnv TypeSource
begin

text \<open>Types stored in the environment of \<open>SampleEnv\<close>, and the runs the witnesses on types rest on.\<close>

definition put_sample :: "type_spec \<Rightarrow> objects \<Rightarrow> string \<times> objects" where
  "put_sample spec objs = (case put_structural_type sample_env spec objs of Inr r \<Rightarrow> r | Inl _ \<Rightarrow> ([], objs))"

definition sample_param :: string where
  "sample_param = fst (put_sample (TsTypeParam 0) [])"

definition sample_i64 :: string where
  "sample_i64 = type_hash_for sample_env ''I64''"

definition sample_vec :: string where
  "sample_vec = fst (put_sample (TsVec sample_param) [])"

definition sample_box :: string where
  "sample_box = fst (put_sample (TsBox sample_param) [])"

definition sample_types :: objects where
  "sample_types = snd (put_sample (TsBox sample_param) (snd (put_sample (TsVec sample_param)
     (snd (put_sample (TsTypeParam 0) [])))))"

lemma sample_types_stored:
  "is_ok (put_structural_type sample_env (TsTypeParam 0) [])"
  "is_ok (put_structural_type sample_env (TsVec sample_param) (snd (put_sample (TsTypeParam 0) [])))"
  "is_ok (put_structural_type sample_env (TsBox sample_param)
     (snd (put_sample (TsVec sample_param) (snd (put_sample (TsTypeParam 0) [])))))"
  by code_simp+

lemma put_sample_ok:
  assumes "is_ok (put_structural_type sample_env spec objs)" and "known_builtin spec"
    and "list_all (object_row_ok sample_env) objs"
  shows "list_all (object_row_ok sample_env) (snd (put_sample spec objs))"
proof -
  from assms(1) obtain h objs' where put: "put_structural_type sample_env spec objs = Inr (h, objs')"
    by (auto simp: is_ok_iff)
  from put_structural_type_loads(2) [OF sample_env_ok assms(3,2) put] assms(3) show ?thesis
    by (auto simp: put_sample_def put dest: adds_objects_ok)
qed

lemma sample_types_ok: "list_all (object_row_ok sample_env) sample_types"
  unfolding sample_types_def by (intro put_sample_ok sample_types_stored) simp_all

lemma sample_types_wf:
  "wf_type sample_env sample_types 1 2 sample_box" "wf_type sample_env sample_types 1 2 sample_vec"
  by code_simp+

lemma sample_i64_wf: "wf_type sample_env objs 0 1 sample_i64"
proof -
  have "type_spec_of sample_env objs sample_i64 = Inr (TsBuiltin ''I64'')"
    unfolding sample_i64_def by (rule type_spec_builtin [OF sample_env_ok]) (simp add: builtin_kind_iff)
  then show ?thesis by (simp add: hash_for_type_spec_def sample_i64_def type_hash_for_def)
qed

theorem stored_type_loads_witness:
  "type_spec_of sample_env (snd (put_sample (TsRecord [\<lparr>tf_name = ''b'', tf_type = sample_i64\<rparr>,
       \<lparr>tf_name = ''a'', tf_type = sample_i64\<rparr>]) []))
     (fst (put_sample (TsRecord [\<lparr>tf_name = ''b'', tf_type = sample_i64\<rparr>, \<lparr>tf_name = ''a'', tf_type = sample_i64\<rparr>]) []))
   = Inr (TsRecord [\<lparr>tf_name = ''a'', tf_type = sample_i64\<rparr>, \<lparr>tf_name = ''b'', tf_type = sample_i64\<rparr>])"
proof -
  let ?spec = "TsRecord [\<lparr>tf_name = ''b'', tf_type = sample_i64\<rparr>, \<lparr>tf_name = ''a'', tf_type = sample_i64\<rparr>]"
  have "is_ok (put_structural_type sample_env ?spec [])" by code_simp
  then have "put_structural_type sample_env ?spec [] = Inr (fst (put_sample ?spec []), snd (put_sample ?spec []))"
    by (auto simp: put_sample_def is_ok_iff)
  from stored_type_loads [OF sample_env_ok _ _ this] show ?thesis by simp
qed

theorem instances_exist_witness:
  "\<exists>h' objs'. substitute_type_hash 2 sample_env sample_types sample_box [] [sample_i64] = Inr h'
    \<and> put_substituted_type 2 sample_env sample_box [] [sample_i64] sample_types = Inr (h', objs')
    \<and> adds sample_env sample_types objs' \<and> wf_type sample_env objs' 0 3 h'"
proof -
  have "wf_type sample_env sample_types 0 1 sample_i64" by (rule sample_i64_wf)
  then show ?thesis
    using instances_exist [OF sample_env_ok sample_types_ok, of "[]" 0 1 "[sample_i64]" 2 sample_box 2] sample_types_wf(1)
    by simp
qed

definition sample_instance :: "string \<times> objects" where
  "sample_instance = (case put_substituted_type 2 sample_env sample_box [] [sample_vec] sample_types of
     Inr r \<Rightarrow> r | Inl _ \<Rightarrow> ([], []))"

definition hash_of :: "string res \<Rightarrow> string" where
  "hash_of r = (case r of Inr h \<Rightarrow> h | Inl _ \<Rightarrow> [])"

lemma sample_substitute:
  assumes "list_all (object_row_ok sample_env) objs" "wf_type sample_env objs np m a" "wf_type sample_env objs 1 n h"
  shows "\<exists>h' objs'. put_substituted_type n sample_env h [] [a] objs = Inr (h', objs')
    \<and> substitute_type_hash n sample_env objs h [] [a] = Inr h' \<and> adds sample_env objs objs'
    \<and> wf_type sample_env objs' np (n + m) h'"
  using substitute_wf [OF sample_env_ok assms(1), of "[]" np m "[a]" n h objs n] assms(2,3)
  by (auto simp: substituted_def simp del: wf_type.simps)

lemma sample_instances:
  "put_substituted_type 2 sample_env sample_box [] [sample_vec] sample_types = Inr sample_instance"
  "is_ok (substitute_type_hash 2 sample_env (snd sample_instance) sample_vec [] [sample_i64])"
  "is_ok (substitute_type_hash 4 sample_env (snd sample_instance) (fst sample_instance) [] [sample_i64])"
proof -
  from sample_substitute [OF sample_types_ok sample_types_wf(2,1)] obtain h objs
    where run: "put_substituted_type 2 sample_env sample_box [] [sample_vec] sample_types = Inr (h, objs)"
      "adds sample_env sample_types objs" "wf_type sample_env objs 1 (2 + 2) h" by blast
  then show "put_substituted_type 2 sample_env sample_box [] [sample_vec] sample_types = Inr sample_instance"
    by (simp add: sample_instance_def)
  have ok: "list_all (object_row_ok sample_env) objs" using adds_objects_ok run(2) sample_types_ok by blast
  have "wf_type sample_env objs 1 2 sample_vec"
    using wf_type_extends adds_extends run(2) sample_types_wf(2) by blast
  from sample_substitute [OF ok sample_i64_wf this] sample_substitute [OF ok sample_i64_wf run(3)]
  show "is_ok (substitute_type_hash 2 sample_env (snd sample_instance) sample_vec [] [sample_i64])"
    "is_ok (substitute_type_hash 4 sample_env (snd sample_instance) (fst sample_instance) [] [sample_i64])"
    using run(1) by (auto simp: sample_instance_def is_ok_iff)
qed

theorem instances_compose_witness:
  "substitute_type_hash 2 sample_env sample_types sample_box []
     [hash_of (substitute_type_hash 2 sample_env (snd sample_instance) sample_vec [] [sample_i64])]
   = substitute_type_hash 4 sample_env (snd sample_instance) (fst sample_instance) [] [sample_i64]"
proof -
  let ?a = "hash_of (substitute_type_hash 2 sample_env (snd sample_instance) sample_vec [] [sample_i64])"
  let ?h = "hash_of (substitute_type_hash 4 sample_env (snd sample_instance) (fst sample_instance) [] [sample_i64])"
  have runs: "put_substituted_type 2 sample_env sample_box [] [sample_vec] sample_types = Inr (fst sample_instance, snd sample_instance)"
    "substitute_type_hash 2 sample_env (snd sample_instance) sample_vec [] [sample_i64] = Inr ?a"
    "substitute_type_hash 4 sample_env (snd sample_instance) (fst sample_instance) [] [sample_i64] = Inr ?h"
    using sample_instances by (auto simp: hash_of_def is_ok_iff)
  have "substitute_type_hash 2 sample_env sample_types sample_box [] [?a] = Inr ?h"
    by (rule instances_compose [OF sample_env_ok sample_types_ok _ _ _ _ _ _ _ runs(1) _ runs(3), where np = 1 and m = 2])
      (use sample_types_wf runs(2) in \<open>simp_all add: substitute_region_hash_def\<close>)
  with runs(3) show ?thesis by simp
qed

definition sample_type_root :: program_root where
  "sample_type_root = empty_root \<lparr> type_names := [\<lparr>tnb_module = ''lib'', tnb_display_name = ''Item'',
     tnb_type_symbol = ''sha256:t'', tnb_is_preferred = True\<rparr>] \<rparr>"

theorem printed_types_read_back_witness:
  "type_name_in_root_with_scope 2 sample_env sample_types sample_type_root ''main'' sample_box [] [''T''] = Inr ''box<T>''
   \<and> type_hash_for_source_in_root_with_scope sample_env sample_types ''main'' sample_type_root ''box<T>'' [] [''T'']
     = Inr sample_box"
proof -
  have wf: "names_wf sample_type_root"
    by (simp add: names_wf_def sample_type_root_def empty_root_def nm.unambiguous_def tnm.unambiguous_def
        validate_module_path_ok is_projection_identifier_def is_ascii_alphanumeric_def
        is_ascii_alphabetic_def less_eq_char_def reserved_projection_identifier_def reserved_projection_identifiers_def)
  have ok: "type_printable sample_env sample_types sample_type_root ''main'' [] [] [''T''] 2 sample_box" by code_simp
  have tps: "list_all (\<lambda>v. is_projection_identifier v \<and> \<not> is_type_keyword v) [''T'']" by code_simp
  have "distinct [''T'']" by simp
  note printed_types_read_back [OF wf tps this ok order_refl]
  moreover have "type_name_in_root_with_scope 2 sample_env sample_types sample_type_root ''main'' sample_box [] [''T''] = Inr ''box<T>''"
    by code_simp
  ultimately show ?thesis by auto
qed

end
