(* ===== verification/Layout.thy ===== *)
theory Layout
  imports Types
begin

text \<open>
  The memory layout of types, \<open>src/src/layout.rs\<close>: sizes, alignments and offsets as 64-bit words,
  the copy and drop class of a type, and the metadata object that records them. A layout computer
  walks the types a value embeds; the set of types it is in the middle of is what stops it on a
  type that embeds itself, and what makes the walk end. The theory shows that it does, and that what
  it computes is sound: aligned, disjoint and in bounds.
\<close>

subsection \<open>Machine arithmetic\<close>

definition checked_add :: "64 word \<Rightarrow> 64 word \<Rightarrow> 64 word option" where
  "checked_add a b = (if unat a + unat b < 2 ^ 64 then Some (a + b) else None)"

definition checked_mul :: "64 word \<Rightarrow> 64 word \<Rightarrow> 64 word option" where
  "checked_mul a b = (if unat a * unat b < 2 ^ 64 then Some (a * b) else None)"

definition align_up :: "64 word \<Rightarrow> 64 word \<Rightarrow> 64 word res" where
  "align_up val align =
     (if align = 0 then Inl (Bail ''layout alignment must not be zero'' [])
      else
        res_bind (ok_or (checked_add val (align - 1)) (Bail ''layout alignment overflows'' [])) (\<lambda>rounded.
          Inr ((rounded div align) * align)))"

subsection \<open>Classes and layouts\<close>

datatype copy_kind = Copy | MoveOnly

datatype drop_kind = Trivial | NeedsDrop

fun copy_kind_str :: "copy_kind \<Rightarrow> string" where
  "copy_kind_str Copy = ''copy''"
| "copy_kind_str MoveOnly = ''move_only''"

fun drop_kind_str :: "drop_kind \<Rightarrow> string" where
  "drop_kind_str Trivial = ''trivial''"
| "drop_kind_str NeedsDrop = ''needs_drop''"

record layout_class =
  cls_copy_kind :: copy_kind
  cls_drop_kind :: drop_kind
  contains_reference :: bool
  contains_mut_reference :: bool
  contains_raw_pointer :: bool
  contains_box :: bool
  contains_owned_resource :: bool
  contains_capability_handle :: bool

definition class_copy :: layout_class where
  "class_copy = \<lparr>cls_copy_kind = Copy, cls_drop_kind = Trivial, contains_reference = False,
     contains_mut_reference = False, contains_raw_pointer = False, contains_box = False,
     contains_owned_resource = False, contains_capability_handle = False\<rparr>"

definition class_shared_reference :: layout_class where
  "class_shared_reference = class_copy\<lparr>contains_reference := True\<rparr>"

definition class_mutable_reference :: layout_class where
  "class_mutable_reference = class_copy\<lparr>cls_copy_kind := MoveOnly, contains_reference := True,
     contains_mut_reference := True\<rparr>"

definition class_raw_pointer :: layout_class where
  "class_raw_pointer = class_copy\<lparr>contains_raw_pointer := True\<rparr>"

definition class_boxed :: "layout_class \<Rightarrow> layout_class" where
  "class_boxed payload = \<lparr>cls_copy_kind = MoveOnly, cls_drop_kind = NeedsDrop,
     contains_reference = contains_reference payload,
     contains_mut_reference = contains_mut_reference payload,
     contains_raw_pointer = contains_raw_pointer payload, contains_box = True,
     contains_owned_resource = True,
     contains_capability_handle = contains_capability_handle payload\<rparr>"

definition class_owned_buffer :: "layout_class \<Rightarrow> layout_class" where
  "class_owned_buffer payload = \<lparr>cls_copy_kind = MoveOnly, cls_drop_kind = NeedsDrop,
     contains_reference = contains_reference payload,
     contains_mut_reference = contains_mut_reference payload,
     contains_raw_pointer = contains_raw_pointer payload, contains_box = contains_box payload,
     contains_owned_resource = True,
     contains_capability_handle = contains_capability_handle payload\<rparr>"

definition class_merge :: "layout_class \<Rightarrow> layout_class \<Rightarrow> layout_class" where
  "class_merge a b = \<lparr>
     cls_copy_kind = (if cls_copy_kind a = Copy \<and> cls_copy_kind b = Copy then Copy else MoveOnly),
     cls_drop_kind = (if cls_drop_kind a = NeedsDrop \<or> cls_drop_kind b = NeedsDrop then NeedsDrop else Trivial),
     contains_reference = (contains_reference a \<or> contains_reference b),
     contains_mut_reference = (contains_mut_reference a \<or> contains_mut_reference b),
     contains_raw_pointer = (contains_raw_pointer a \<or> contains_raw_pointer b),
     contains_box = (contains_box a \<or> contains_box b),
     contains_owned_resource = (contains_owned_resource a \<or> contains_owned_resource b),
     contains_capability_handle = (contains_capability_handle a \<or> contains_capability_handle b)\<rparr>"

record computed_layout =
  cl_metadata :: json
  cl_size :: "64 word"
  cl_align :: "64 word"
  cl_class :: layout_class

record target_layout =
  pointer_size_bytes :: "64 word"
  pointer_align_bytes :: "64 word"
  enum_tag_size_bytes :: "64 word"
  enum_tag_align_bytes :: "64 word"

record layout_member =
  lm_symbol :: "string option"
  lm_name :: string
  lm_type :: string

text \<open>
  \<open>LayoutComputer\<close> without its two sets: the types it is in the middle of are an argument of the
  walk, the definitions it has used are threaded through it. \<open>lc_fuel\<close> is the depth of the
  substitutions that instantiate a named type.
\<close>

record layout_computer =
  lc_fuel :: nat
  lc_env :: env
  lc_db :: objects
  lc_root :: program_root
  lc_target_triple :: string
  lc_target :: target_layout

definition LINUX_X86_64_TARGET :: string where
  "LINUX_X86_64_TARGET = ''x86_64-unknown-linux-gnu''"

definition APPLE_ARM64_TARGET :: string where
  "APPLE_ARM64_TARGET = ''aarch64-apple-darwin''"

definition target_layout_of :: "string \<Rightarrow> target_layout res" where
  "target_layout_of target_triple =
     (if target_triple = LINUX_X86_64_TARGET \<or> target_triple = APPLE_ARM64_TARGET
      then Inr \<lparr>pointer_size_bytes = 8, pointer_align_bytes = 8, enum_tag_size_bytes = 8, enum_tag_align_bytes = 8\<rparr>
      else Inl (Bail ''unsupported layout target {}; supported targets: {}, {}''
             [target_triple, LINUX_X86_64_TARGET, APPLE_ARM64_TARGET]))"

subsection \<open>Metadata\<close>

definition json_u64 :: "64 word \<Rightarrow> json" where
  "json_u64 w = JInt (uint w)"

definition abi_metadata :: "string \<Rightarrow> 64 word \<Rightarrow> json" where
  "abi_metadata kind size_bytes =
     (let by_value = JObj [(''pass'', JStr ''by_value''), (''return'', JStr ''by_value'')];
          indirect = JObj [(''pass'', JStr ''by_indirect''), (''return'', JStr ''hidden_return_slot'')]
      in if kind = ''record'' \<and> size_bytes \<le> 8 then by_value
         else if kind \<in> set [''record'', ''enum'', ''fixed_array'', ''slice'', ''vec'', ''string''] then indirect
         else by_value)"

definition base_metadata ::
    "layout_computer \<Rightarrow> string \<Rightarrow> string \<Rightarrow> 64 word \<Rightarrow> 64 word \<Rightarrow> layout_class \<Rightarrow> (string \<times> json) list" where
  "base_metadata c type_hash kind size_bytes align_bytes cls = [
     (''schema'', JStr ''codedb/type-layout/v2''),
     (''type_hash'', JStr type_hash),
     (''target_triple'', JStr (lc_target_triple c)),
     (''layout_version'', JStr ''layout:v2''),
     (''abi_version'', JStr ''codedb-v0-internal''),
     (''kind'', JStr kind),
     (''size_bytes'', json_u64 size_bytes),
     (''align_bytes'', json_u64 align_bytes),
     (''copy_kind'', JStr (copy_kind_str (cls_copy_kind cls))),
     (''drop_kind'', JStr (drop_kind_str (cls_drop_kind cls))),
     (''contains_reference'', JBool (contains_reference cls)),
     (''contains_mut_reference'', JBool (contains_mut_reference cls)),
     (''contains_raw_pointer'', JBool (contains_raw_pointer cls)),
     (''contains_box'', JBool (contains_box cls)),
     (''contains_owned_resource'', JBool (contains_owned_resource cls)),
     (''contains_capability_handle'', JBool (contains_capability_handle cls)),
     (''abi'', abi_metadata kind size_bytes)]"

text \<open>A layout of the given kind whose metadata has some more entries.\<close>

definition layout_with ::
    "layout_computer \<Rightarrow> string \<Rightarrow> string \<Rightarrow> 64 word \<Rightarrow> 64 word \<Rightarrow> layout_class \<Rightarrow> (string \<times> json) list
      \<Rightarrow> computed_layout" where
  "layout_with c type_hash kind size_bytes align_bytes cls entries =
     \<lparr>cl_metadata = JObj (base_metadata c type_hash kind size_bytes align_bytes cls @ entries),
      cl_size = size_bytes, cl_align = align_bytes, cl_class = cls\<rparr>"

definition optional_entry :: "string \<Rightarrow> string option \<Rightarrow> (string \<times> json) list" where
  "optional_entry key val = (case val of Some s \<Rightarrow> [(key, JStr s)] | None \<Rightarrow> [])"

subsection \<open>Members\<close>

definition members_with_expanded_types ::
    "string \<Rightarrow> type_member_def list \<Rightarrow> type_field_spec list \<Rightarrow> layout_member list res" where
  "members_with_expanded_types label members expanded =
     (if length members \<noteq> length expanded then Inl (Bail ''{} expansion changed member count'' [label])
      else res_map (\<lambda>(member, expanded).
        if tm_name member \<noteq> tf_name expanded
        then Inl (Bail ''{} expansion order mismatch: expected {}, got {}'' [label, tm_name member, tf_name expanded])
        else Inr \<lparr>lm_symbol = Some (tm_symbol member), lm_name = tm_name member, lm_type = tf_type expanded\<rparr>)
        (zip members expanded))"

definition structural_members :: "type_field_spec list \<Rightarrow> layout_member list" where
  "structural_members fs = map (\<lambda>field. \<lparr>lm_symbol = None, lm_name = tf_name field, lm_type = tf_type field\<rparr>) fs"

subsection \<open>The types that load\<close>

definition knows :: "layout_computer \<Rightarrow> string \<Rightarrow> bool" where
  "knows c h \<longleftrightarrow> is_ok (type_spec_of (lc_env c) (lc_db c) h)"

lemma finite_known: "finite {h. knows c h}"
proof (rule finite_subset)
  let ?names = "map int_name SCALAR_INT_TYPES @ [''Bool'', ''Unit'']"
  show "{h. knows c h} \<subseteq> type_hash_for (lc_env c) ` set ?names \<union> or_hash ` set (lc_db c)"
  proof
    fix h assume "h \<in> {h. knows c h}"
    then obtain spec where spec: "type_spec_of (lc_env c) (lc_db c) h = Inr spec" by (auto simp: knows_def is_ok_iff)
    show "h \<in> type_hash_for (lc_env c) ` set ?names \<union> or_hash ` set (lc_db c)"
    proof (cases "scalar_int_type_by_hash (lc_env c) h")
      case None
      then consider "h = type_hash_for (lc_env c) ''Bool''" | "h = type_hash_for (lc_env c) ''Unit''"
        | "\<exists>row. row_by or_hash h (lc_db c) = Some row"
        using spec by (auto simp: type_spec_of_def get_kind_def split: if_splits)
      then show ?thesis by cases (auto dest: row_by_Some)
    qed (auto simp: scalar_int_type_by_hash_def dest!: find_Some_in)
  qed
qed simp

definition unvisited :: "layout_computer \<Rightarrow> string list \<Rightarrow> nat" where
  "unvisited c active = card ({h. knows c h} - set active)"

lemma unvisited_decreases: "knows c h \<Longrightarrow> h \<notin> set active \<Longrightarrow> unvisited c (bset_insert h active) < unvisited c active"
  unfolding unvisited_def by (intro psubset_card_mono) (auto simp: finite_known)

lemma expanded_known: "type_spec_in_root n (lc_env c) (lc_db c) root h = Inr spec \<Longrightarrow> knows c h"
  by (auto simp: type_spec_in_root_def knows_def is_ok_iff)

subsection \<open>The class of a type, through boxes and buffers\<close>

definition flags_of_spec :: "(string \<Rightarrow> layout_class res) \<Rightarrow> type_spec \<Rightarrow> layout_class res" where
  "flags_of_spec flags spec =
     (case spec of
        TsBuiltin _ \<Rightarrow> Inr class_copy
      | TsNamed _ _ _ \<Rightarrow> Inr class_copy
      | TsTypeParam index \<Rightarrow> Inl (Bail ''cannot compute layout of type parameter {}'' [dec_nat (unat index)])
      | TsReference _ mutable _ \<Rightarrow> Inr (if mutable then class_mutable_reference else class_shared_reference)
      | TsRawPointer _ _ \<Rightarrow> Inr class_raw_pointer
      | TsBox element \<Rightarrow> res_bind (flags element) (\<lambda>payload. Inr (class_boxed payload))
      | TsVec element \<Rightarrow> res_bind (flags element) (\<lambda>payload. Inr (class_owned_buffer payload))
      | TsString \<Rightarrow> Inr (class_owned_buffer class_copy)
      | TsSlice _ mutable element \<Rightarrow>
          res_bind (flags element) (\<lambda>payload.
            Inr (class_merge (if mutable then class_mutable_reference else class_shared_reference) payload))
      | TsFixedArray element _ \<Rightarrow> flags element
      | TsRecord fs \<Rightarrow>
          res_fold (\<lambda>field cls. res_bind (flags (tf_type field)) (\<lambda>c. Inr (class_merge cls c))) fs class_copy
      | TsEnum fs \<Rightarrow>
          res_fold (\<lambda>field cls. res_bind (flags (tf_type field)) (\<lambda>c. Inr (class_merge cls c))) fs class_copy)"

lemma flags_of_spec_cong [fundef_cong]:
  "spec = spec' \<Longrightarrow> (\<And>h. h \<in> set (spec_parts spec') \<Longrightarrow> f h = g h) \<Longrightarrow> flags_of_spec f spec = flags_of_spec g spec'"
  by (cases spec') (auto simp: flags_of_spec_def intro!: res_fold_cong)

function layout_class_flags_for_type :: "layout_computer \<Rightarrow> string list \<Rightarrow> string \<Rightarrow> layout_class res" where
  "layout_class_flags_for_type c active type_hash =
     (if type_hash \<in> set active then Inr class_copy
      else
        res_bind (type_spec_in_root (lc_fuel c) (lc_env c) (lc_db c) (lc_root c) type_hash)
          (flags_of_spec (\<lambda>h. layout_class_flags_for_type c (bset_insert type_hash active) h)))"
  by pat_completeness auto

termination
  by (relation "measure (\<lambda>(c, active, _). unvisited c active)") (auto intro: unvisited_decreases expanded_known)

declare layout_class_flags_for_type.simps [simp del]

subsection \<open>The layout of a type\<close>

type_synonym lay = "string \<Rightarrow> string list \<Rightarrow> (computed_layout \<times> string list) res"

definition layout_builtin :: "layout_computer \<Rightarrow> string \<Rightarrow> string \<Rightarrow> computed_layout res" where
  "layout_builtin c type_hash kind =
     res_bind
       (case List.find (\<lambda>t. type_hash = type_hash_for (lc_env c) (int_name t)) SCALAR_INT_TYPES of
          Some t \<Rightarrow> Inr (''scalar'', of_nat (int_width t), of_nat (int_width t))
        | None \<Rightarrow>
            if type_hash = type_hash_for (lc_env c) ''Bool'' then Inr (''scalar'', 1, 1)
            else if type_hash = type_hash_for (lc_env c) ''Unit'' then Inr (''scalar'', 0, 1)
            else Inl (Bail ''unknown builtin type kind {}'' [kind]))
       (\<lambda>(layout_kind, size_bytes, align_bytes).
         Inr (layout_with c type_hash layout_kind size_bytes align_bytes class_copy []))"

text \<open>The entry of a field: where it is, and how large.\<close>

definition field_object :: "layout_member \<Rightarrow> 64 word \<Rightarrow> computed_layout \<Rightarrow> json" where
  "field_object field offset field_layout =
     JObj (optional_entry ''field_symbol'' (lm_symbol field)
       @ [(''name'', JStr (lm_name field)), (''type_hash'', JStr (lm_type field)),
          (''offset_bytes'', json_u64 offset), (''size_bytes'', json_u64 (cl_size field_layout)),
          (''align_bytes'', json_u64 (cl_align field_layout))])"

record record_state =
  rs_offset :: "64 word"
  rs_size :: "64 word"
  rs_align :: "64 word"
  rs_class :: layout_class
  rs_fields :: "json list"
  rs_deps :: "string list"

definition layout_field :: "lay \<Rightarrow> string \<Rightarrow> layout_member \<Rightarrow> record_state \<Rightarrow> record_state res" where
  "layout_field lay type_hash field s =
     res_bind (lay (lm_type field) (rs_deps s)) (\<lambda>(field_layout, deps).
     res_bind (align_up (rs_offset s) (cl_align field_layout)) (\<lambda>offset.
     res_bind (ok_or (checked_add offset (cl_size field_layout))
         (Bail ''record layout overflows for {}'' [type_hash])) (\<lambda>size_bytes.
       Inr \<lparr>rs_offset = size_bytes, rs_size = size_bytes,
             rs_align = max (rs_align s) (cl_align field_layout),
             rs_class = class_merge (rs_class s) (cl_class field_layout),
             rs_fields = rs_fields s @ [field_object field offset field_layout],
             rs_deps = deps\<rparr>)))"

definition layout_record ::
    "layout_computer \<Rightarrow> lay \<Rightarrow> string \<Rightarrow> string option \<Rightarrow> string option \<Rightarrow> layout_member list \<Rightarrow> string list
      \<Rightarrow> (computed_layout \<times> string list) res" where
  "layout_record c lay type_hash type_symbol type_def_hash members deps =
     res_bind (res_fold (layout_field lay type_hash) members
         \<lparr>rs_offset = 0, rs_size = 0, rs_align = 1, rs_class = class_copy, rs_fields = [], rs_deps = deps\<rparr>) (\<lambda>s.
     res_bind (align_up (rs_size s) (rs_align s)) (\<lambda>size_bytes.
       Inr (layout_with c type_hash ''record'' size_bytes (rs_align s) (rs_class s)
              (optional_entry ''type_symbol'' type_symbol @ optional_entry ''type_def_hash'' type_def_hash
               @ [(''fields'', JArr (rs_fields s))]),
            rs_deps s)))"

record enum_state =
  es_payload_size :: "64 word"
  es_payload_align :: "64 word"
  es_class :: layout_class
  es_layouts :: "computed_layout list"
  es_deps :: "string list"

definition layout_variant :: "lay \<Rightarrow> layout_member \<Rightarrow> enum_state \<Rightarrow> enum_state res" where
  "layout_variant lay variant s =
     res_bind (lay (lm_type variant) (es_deps s)) (\<lambda>(l, deps).
       Inr \<lparr>es_payload_size = max (es_payload_size s) (cl_size l),
             es_payload_align = max (es_payload_align s) (cl_align l),
             es_class = class_merge (es_class s) (cl_class l),
             es_layouts = es_layouts s @ [l], es_deps = deps\<rparr>)"

definition variant_object :: "64 word \<Rightarrow> nat \<Rightarrow> layout_member \<Rightarrow> computed_layout \<Rightarrow> json" where
  "variant_object payload_offset idx variant l =
     JObj (optional_entry ''variant_symbol'' (lm_symbol variant)
       @ [(''name'', JStr (lm_name variant)), (''type_hash'', JStr (lm_type variant)),
          (''tag_value'', JInt (int idx)), (''payload_offset_bytes'', json_u64 payload_offset),
          (''payload_size_bytes'', json_u64 (cl_size l)), (''payload_align_bytes'', json_u64 (cl_align l))])"

definition layout_enum ::
    "layout_computer \<Rightarrow> lay \<Rightarrow> string \<Rightarrow> string option \<Rightarrow> string option \<Rightarrow> layout_member list \<Rightarrow> string list
      \<Rightarrow> (computed_layout \<times> string list) res" where
  "layout_enum c lay type_hash type_symbol type_def_hash variants deps =
     res_bind (res_fold (layout_variant lay) variants
         \<lparr>es_payload_size = 0, es_payload_align = 1, es_class = class_copy, es_layouts = [], es_deps = deps\<rparr>) (\<lambda>s.
     res_bind (align_up (enum_tag_size_bytes (lc_target c)) (es_payload_align s)) (\<lambda>payload_offset.
     res_bind (ok_or (checked_add payload_offset (es_payload_size s))
         (Bail ''enum layout overflows for {}'' [type_hash])) (\<lambda>end.
     let align_bytes = max (enum_tag_align_bytes (lc_target c)) (es_payload_align s) in
     res_bind (align_up end align_bytes) (\<lambda>size_bytes.
       Inr (layout_with c type_hash ''enum'' size_bytes align_bytes (es_class s)
              (optional_entry ''type_symbol'' type_symbol @ optional_entry ''type_def_hash'' type_def_hash
               @ [(''tag'', JObj [(''offset_bytes'', JInt 0),
                      (''size_bytes'', json_u64 (enum_tag_size_bytes (lc_target c))),
                      (''align_bytes'', json_u64 (enum_tag_align_bytes (lc_target c))),
                      (''type'', JStr ''u64'')]),
                  (''payload_offset_bytes'', json_u64 payload_offset),
                  (''payload_size_bytes'', json_u64 (es_payload_size s)),
                  (''variants'', JArr (map (\<lambda>(idx, variant, l). variant_object payload_offset idx variant l)
                      (enumerate 0 (zip variants (es_layouts s)))))]),
            es_deps s)))))"

text \<open>One operation per form of type. A pointer is one word; it does not embed what it points to.\<close>

definition layout_pointer ::
    "layout_computer \<Rightarrow> string \<Rightarrow> string \<Rightarrow> layout_class \<Rightarrow> (string \<times> json) list \<Rightarrow> computed_layout" where
  "layout_pointer c type_hash kind cls entries =
     layout_with c type_hash kind (pointer_size_bytes (lc_target c)) (pointer_align_bytes (lc_target c)) cls entries"

definition layout_reference ::
    "layout_computer \<Rightarrow> string \<Rightarrow> string \<Rightarrow> bool \<Rightarrow> string \<Rightarrow> computed_layout res" where
  "layout_reference c type_hash region mutable referent =
     res_bind (type_spec_of (lc_env c) (lc_db c) referent) (\<lambda>_.
       Inr (layout_pointer c type_hash ''reference''
         (if mutable then class_mutable_reference else class_shared_reference)
         [(''region'', JStr region), (''mutable'', JBool mutable), (''referent_type_hash'', JStr referent)]))"

definition layout_raw_pointer :: "layout_computer \<Rightarrow> string \<Rightarrow> bool \<Rightarrow> string \<Rightarrow> computed_layout res" where
  "layout_raw_pointer c type_hash mutable pointee =
     res_bind (type_spec_of (lc_env c) (lc_db c) pointee) (\<lambda>_.
       Inr (layout_pointer c type_hash ''raw_pointer'' class_raw_pointer
         [(''mutable'', JBool mutable), (''pointee_type_hash'', JStr pointee)]))"

definition layout_box :: "layout_computer \<Rightarrow> string \<Rightarrow> string \<Rightarrow> computed_layout res" where
  "layout_box c type_hash element =
     res_bind (type_spec_of (lc_env c) (lc_db c) element) (\<lambda>_.
     res_bind (layout_class_flags_for_type c [] element) (\<lambda>payload_class.
       Inr (layout_pointer c type_hash ''box'' (class_boxed payload_class)
         [(''element_type_hash'', JStr element)])))"

text \<open>
  A vector and a string are a pointer, a length and a capacity, a slice a pointer and a length. The
  offset of the capacity is added without a check in the code too; it can not wrap on a target.
\<close>

definition element_entries :: "computed_layout \<Rightarrow> (string \<times> json) list res" where
  "element_entries element_layout =
     res_bind (align_up (cl_size element_layout) (cl_align element_layout)) (\<lambda>stride.
       Inr [(''element_size_bytes'', json_u64 (cl_size element_layout)),
            (''element_align_bytes'', json_u64 (cl_align element_layout)),
            (''element_stride_bytes'', json_u64 stride)])"

definition layout_vec ::
    "layout_computer \<Rightarrow> lay \<Rightarrow> string \<Rightarrow> string \<Rightarrow> string list \<Rightarrow> (computed_layout \<times> string list) res" where
  "layout_vec c lay type_hash element deps =
     res_bind (lay element deps) (\<lambda>(element_layout, deps).
     res_bind (layout_class_flags_for_type c [] element) (\<lambda>payload_class.
     res_bind (align_up (pointer_size_bytes (lc_target c)) 8) (\<lambda>len_offset.
     res_bind (ok_or (checked_add len_offset 16) (Bail ''vec layout overflows for {}'' [type_hash])) (\<lambda>size_bytes.
     res_bind (element_entries element_layout) (\<lambda>entries.
       Inr (layout_with c type_hash ''vec'' size_bytes (max (pointer_align_bytes (lc_target c)) 8)
              (class_owned_buffer payload_class)
              ([(''element_type_hash'', JStr element), (''ptr_offset_bytes'', JInt 0),
                (''len_offset_bytes'', json_u64 len_offset), (''capacity_offset_bytes'', json_u64 (len_offset + 8))]
               @ entries), deps))))))"

definition layout_string ::
    "layout_computer \<Rightarrow> lay \<Rightarrow> string \<Rightarrow> string list \<Rightarrow> (computed_layout \<times> string list) res" where
  "layout_string c lay type_hash deps =
     (let element = type_hash_for (lc_env c) ''U8'' in
     res_bind (lay element deps) (\<lambda>(element_layout, deps).
     res_bind (align_up (pointer_size_bytes (lc_target c)) 8) (\<lambda>len_offset.
     res_bind (ok_or (checked_add len_offset 16) (Bail ''string layout overflows for {}'' [type_hash])) (\<lambda>size_bytes.
     res_bind (element_entries element_layout) (\<lambda>entries.
       Inr (layout_with c type_hash ''string'' size_bytes (max (pointer_align_bytes (lc_target c)) 8)
              (class_owned_buffer class_copy)
              ([(''element_type_hash'', JStr element), (''ptr_offset_bytes'', JInt 0),
                (''len_offset_bytes'', json_u64 len_offset), (''capacity_offset_bytes'', json_u64 (len_offset + 8))]
               @ entries), deps))))))"

definition layout_slice ::
    "layout_computer \<Rightarrow> lay \<Rightarrow> string \<Rightarrow> string \<Rightarrow> bool \<Rightarrow> string \<Rightarrow> string list
      \<Rightarrow> (computed_layout \<times> string list) res" where
  "layout_slice c lay type_hash region mutable element deps =
     res_bind (lay element deps) (\<lambda>(element_layout, deps).
     res_bind (align_up (pointer_size_bytes (lc_target c)) 8) (\<lambda>len_offset.
     res_bind (ok_or (checked_add len_offset 8) (Bail ''slice layout overflows for {}'' [type_hash])) (\<lambda>size_bytes.
     res_bind (element_entries element_layout) (\<lambda>entries.
       Inr (layout_with c type_hash ''slice'' size_bytes (max (pointer_align_bytes (lc_target c)) 8)
              (if mutable then class_mutable_reference else class_shared_reference)
              ([(''region'', JStr region), (''mutable'', JBool mutable), (''element_type_hash'', JStr element),
                (''ptr_offset_bytes'', JInt 0), (''len_offset_bytes'', json_u64 len_offset)] @ entries), deps)))))"

definition layout_fixed_array ::
    "layout_computer \<Rightarrow> lay \<Rightarrow> string \<Rightarrow> string \<Rightarrow> 64 word \<Rightarrow> string list \<Rightarrow> (computed_layout \<times> string list) res" where
  "layout_fixed_array c lay type_hash element len deps =
     res_bind (lay element deps) (\<lambda>(element_layout, deps).
     res_bind (align_up (cl_size element_layout) (cl_align element_layout)) (\<lambda>stride.
     res_bind (ok_or (checked_mul stride len) (Bail ''fixed array layout overflows for {}'' [type_hash])) (\<lambda>size_bytes.
       Inr (layout_with c type_hash ''fixed_array'' size_bytes (cl_align element_layout) (cl_class element_layout)
              [(''element_type_hash'', JStr element), (''len'', json_u64 len), (''stride_bytes'', json_u64 stride),
               (''element_size_bytes'', json_u64 (cl_size element_layout)),
               (''element_align_bytes'', json_u64 (cl_align element_layout))], deps))))"

text \<open>A named type is laid out as its definition with the members of this instance.\<close>

definition layout_named ::
    "layout_computer \<Rightarrow> lay \<Rightarrow> string \<Rightarrow> string \<Rightarrow> string list \<Rightarrow> string list \<Rightarrow> string list
      \<Rightarrow> (computed_layout \<times> string list) res" where
  "layout_named c lay type_hash type_symbol region_args type_args deps =
     res_bind (ok_or (root_type (lc_root c) type_symbol)
         (Bail ''named type missing from root {}'' [type_symbol])) (\<lambda>entry.
     res_bind (type_definition (lc_db c) (rt_type_def entry)) (\<lambda>def.
       if length (td_region_params def) \<noteq> length region_args
       then Inl (Bail ''named type {} expects {} region args, got {}''
              [type_symbol, dec_nat (length (td_region_params def)), dec_nat (length region_args)])
       else if length (td_type_params def) \<noteq> length type_args
       then Inl (Bail ''named type {} expects {} type args, got {}''
              [type_symbol, dec_nat (length (td_type_params def)), dec_nat (length type_args)])
       else
         let deps = bset_insert (rt_type_def entry) deps in
         res_bind (type_spec_in_root (lc_fuel c) (lc_env c) (lc_db c) (lc_root c) type_hash) (\<lambda>expanded.
           case def of
             TdRecord _ _ _ members \<Rightarrow>
               (case expanded of
                  TsRecord fs \<Rightarrow>
                    res_bind (members_with_expanded_types ''record field'' members fs) (\<lambda>members.
                      layout_record c lay type_hash (Some type_symbol) (Some (rt_type_def entry)) members deps)
                | _ \<Rightarrow> Inl (Bail ''named record did not expand to record layout members'' []))
           | TdEnum _ _ _ variants \<Rightarrow>
               (case expanded of
                  TsEnum fs \<Rightarrow>
                    res_bind (members_with_expanded_types ''enum variant'' variants fs) (\<lambda>variants.
                      layout_enum c lay type_hash (Some type_symbol) (Some (rt_type_def entry)) variants deps)
                | _ \<Rightarrow> Inl (Bail ''named enum did not expand to enum layout members'' [])))))"

definition keep_deps :: "string list \<Rightarrow> computed_layout res \<Rightarrow> (computed_layout \<times> string list) res" where
  "keep_deps deps r = res_bind r (\<lambda>l. Inr (l, deps))"

definition layout_type_inner ::
    "layout_computer \<Rightarrow> lay \<Rightarrow> string \<Rightarrow> type_spec \<Rightarrow> string list \<Rightarrow> (computed_layout \<times> string list) res" where
  "layout_type_inner c lay type_hash spec deps =
     (case spec of
        TsBuiltin kind \<Rightarrow> keep_deps deps (layout_builtin c type_hash kind)
      | TsTypeParam index \<Rightarrow> Inl (Bail ''cannot lay out type parameter {}'' [dec_nat (unat index)])
      | TsNamed type_symbol region_args type_args \<Rightarrow>
          layout_named c lay type_hash type_symbol region_args type_args deps
      | TsReference region mutable referent \<Rightarrow> keep_deps deps (layout_reference c type_hash region mutable referent)
      | TsRawPointer mutable pointee \<Rightarrow> keep_deps deps (layout_raw_pointer c type_hash mutable pointee)
      | TsBox element \<Rightarrow> keep_deps deps (layout_box c type_hash element)
      | TsVec element \<Rightarrow> layout_vec c lay type_hash element deps
      | TsString \<Rightarrow> layout_string c lay type_hash deps
      | TsSlice region mutable element \<Rightarrow> layout_slice c lay type_hash region mutable element deps
      | TsFixedArray element len \<Rightarrow> layout_fixed_array c lay type_hash element len deps
      | TsRecord fs \<Rightarrow> layout_record c lay type_hash None None (structural_members fs) deps
      | TsEnum variants \<Rightarrow> layout_enum c lay type_hash None None (structural_members variants) deps)"

lemma layout_type_inner_cong [fundef_cong]:
  "(\<And>h ds. lay h ds = lay' h ds) \<Longrightarrow> layout_type_inner c lay type_hash spec deps = layout_type_inner c lay' type_hash spec deps"
  by (rule arg_cong [of lay lay' "\<lambda>l. layout_type_inner c l type_hash spec deps"]) (simp add: fun_eq_iff)

function layout_type :: "layout_computer \<Rightarrow> string list \<Rightarrow> lay" where
  "layout_type c active type_hash deps =
     (if type_hash \<in> set active then Inl (Bail ''recursive type layout is not supported for {}'' [type_hash])
      else
        res_bind (type_spec_of (lc_env c) (lc_db c) type_hash) (\<lambda>spec.
          layout_type_inner c (\<lambda>h deps. layout_type c (bset_insert type_hash active) h deps) type_hash spec deps))"
  by pat_completeness auto

termination
  by (relation "measure (\<lambda>(c, active, _). unvisited c active)") (auto intro: unvisited_decreases simp: knows_def)

declare layout_type.simps [simp del]

text \<open>The metadata of a layout gets the definitions the walk has used.\<close>

definition compute_type_layout ::
    "nat \<Rightarrow> env \<Rightarrow> objects \<Rightarrow> program_root \<Rightarrow> string \<Rightarrow> string \<Rightarrow> (json \<times> string list) res" where
  "compute_type_layout fuel env objects root type_hash target_triple =
     res_bind (target_layout_of target_triple) (\<lambda>target.
     res_bind (layout_type \<lparr>lc_fuel = fuel, lc_env = env, lc_db = objects, lc_root = root,
         lc_target_triple = target_triple, lc_target = target\<rparr> [] type_hash []) (\<lambda>(l, deps).
       case cl_metadata l of
         JObj entries \<Rightarrow> Inr (JObj (bmap_insert ''type_dependency_hashes'' (str_array deps) entries), deps)
       | _ \<Rightarrow> Inl (Bail ''computed type layout metadata is not a JSON object'' [])))"

subsection \<open>Arithmetic of layouts\<close>

lemma unat_checked_add: "checked_add a b = Some r \<Longrightarrow> unat r = unat a + unat b"
  by (auto simp: checked_add_def unat_add_lem [where 'a = 64, simplified] split: if_splits)

lemma unat_checked_mul: "checked_mul a b = Some r \<Longrightarrow> unat r = unat a * unat b"
  by (auto simp: checked_mul_def unat_mult_lem [where 'a = 64, simplified] split: if_splits)

lemma round_up:
  fixes n a :: nat
  assumes "0 < a"
  shows "a dvd (n + (a - 1)) div a * a" "n \<le> (n + (a - 1)) div a * a" "(n + (a - 1)) div a * a < n + a"
    "(n + (a - 1)) div a * a \<le> n + (a - 1)" "a dvd m \<Longrightarrow> n \<le> m \<Longrightarrow> (n + (a - 1)) div a * a \<le> m"
proof -
  show "a dvd (n + (a - 1)) div a * a" by simp
  have *: "(n + (a - 1)) div a * a = n + (a - 1) - (n + (a - 1)) mod a" by (simp add: minus_mod_eq_div_mult)
  moreover have "(n + (a - 1)) mod a < a" using assms by simp
  ultimately show "n \<le> (n + (a - 1)) div a * a" "(n + (a - 1)) div a * a < n + a"
    "(n + (a - 1)) div a * a \<le> n + (a - 1)" using assms by linarith+
  assume "a dvd m" "n \<le> m"
  then obtain k where "m = a * k" by (auto elim: dvdE)
  with \<open>n \<le> m\<close> have "n + (a - 1) < a * (k + 1)" using assms by simp
  then have "(n + (a - 1)) div a < k + 1" using less_mult_imp_div_less [of "n + (a - 1)" "k + 1" a] by (simp add: mult.commute)
  then have "(n + (a - 1)) div a * a \<le> k * a" by (intro mult_right_mono) simp_all
  then show "(n + (a - 1)) div a * a \<le> m" using \<open>m = a * k\<close> by (simp only: mult.commute)
qed

lemma unat_pred: "(a :: 64 word) \<noteq> 0 \<Longrightarrow> unat (a - 1) = unat a - 1"
  using unat_gt_0 [of a] by (simp add: unat_minus_one)

lemma align_up_unat:
  assumes "align_up v a = Inr r"
  shows "a \<noteq> 0" "unat r = (unat v + (unat a - 1)) div unat a * unat a"
proof -
  from assms show a: "a \<noteq> 0" by (auto simp: align_up_def split: if_splits)
  with assms obtain s where s: "checked_add v (a - 1) = Some s" and r: "r = s div a * a"
    by (auto simp: align_up_def ok_or_def split: option.splits)
  have "unat s = unat v + (unat a - 1)" using unat_checked_add [OF s] unat_pred [OF a] by simp
  moreover have "unat (s div a) * unat a \<le> unat s" by (simp add: unat_div)
  then have "unat (s div a) * unat a < 2 ^ 64" using unsigned_less [of s, where ?'a = nat] by simp
  then have "unat r = unat (s div a) * unat a"
    using unat_mult_lem [of "s div a" a] by (simp add: r)
  ultimately show "unat r = (unat v + (unat a - 1)) div unat a * unat a" by (simp add: unat_div)
qed

lemma align_up_ok:
  assumes "align_up v a = Inr r"
  shows "unat a dvd unat r" "unat v \<le> unat r" "unat r < unat v + unat a"
    "unat a dvd m \<Longrightarrow> unat v \<le> m \<Longrightarrow> unat r \<le> m"
proof -
  have pos: "0 < unat a" using align_up_unat(1) [OF assms] by (simp add: unat_gt_0)
  show "unat a dvd unat r" "unat v \<le> unat r" "unat r < unat v + unat a"
    using round_up(1-3) [OF pos, of "unat v"] by (simp_all only: align_up_unat(2) [OF assms])
  show "unat r \<le> m" if "unat a dvd m" "unat v \<le> m"
    using round_up(5) [OF pos that] by (simp only: align_up_unat(2) [OF assms])
qed

text \<open>The alignments of the machine.\<close>

definition natural_align :: "64 word \<Rightarrow> bool" where
  "natural_align a \<longleftrightarrow> a \<in> {1, 2, 4, 8}"

lemma natural_align_unat: "natural_align a \<Longrightarrow> unat a \<in> {1, 2, 4, 8}"
  by (auto simp: natural_align_def)

lemma natural_align_max:
  assumes "natural_align a" "natural_align b"
  shows "natural_align (max a b)" "unat a dvd unat (max a b)" "unat b dvd unat (max a b)"
  using natural_align_unat [OF assms(1)] natural_align_unat [OF assms(2)] assms
  by (auto simp: max_def word_le_nat_alt)

subsection \<open>Sound layouts\<close>

text \<open>
  The flags of a class agree: what moves is what is dropped or holds a mutable reference, what is
  dropped is what owns a resource, a box is such a resource, a mutable reference is a reference.
\<close>

definition class_ok :: "layout_class \<Rightarrow> bool" where
  "class_ok cls \<longleftrightarrow>
     (cls_copy_kind cls = MoveOnly \<longleftrightarrow> cls_drop_kind cls = NeedsDrop \<or> contains_mut_reference cls) \<and>
     (cls_drop_kind cls = NeedsDrop \<longleftrightarrow> contains_owned_resource cls) \<and>
     (contains_box cls \<longrightarrow> contains_owned_resource cls) \<and>
     (contains_mut_reference cls \<longrightarrow> contains_reference cls) \<and>
     \<not> contains_capability_handle cls"

lemma class_ok_simps [simp]:
  "class_ok class_copy" "class_ok class_shared_reference" "class_ok class_mutable_reference" "class_ok class_raw_pointer"
  "class_ok p \<Longrightarrow> class_ok (class_boxed p)" "class_ok p \<Longrightarrow> class_ok (class_owned_buffer p)"
  by (auto simp: class_ok_def class_copy_def class_shared_reference_def class_mutable_reference_def
      class_raw_pointer_def class_boxed_def class_owned_buffer_def)

lemma class_ok_merge [simp]:
  assumes "class_ok a" "class_ok b"
  shows "class_ok (class_merge a b)"
proof -
  have "k \<noteq> Copy \<longleftrightarrow> k = MoveOnly" "d \<noteq> NeedsDrop \<longleftrightarrow> d = Trivial" for k d by (cases k; simp; fail) (cases d; simp)
  with assms show ?thesis by (auto simp: class_ok_def class_merge_def)
qed

definition layout_ok :: "computed_layout \<Rightarrow> bool" where
  "layout_ok l \<longleftrightarrow> natural_align (cl_align l) \<and> unat (cl_align l) dvd unat (cl_size l) \<and> class_ok (cl_class l) \<and>
     json_get ''size_bytes'' (cl_metadata l) = Some (json_u64 (cl_size l)) \<and>
     json_get ''align_bytes'' (cl_metadata l) = Some (json_u64 (cl_align l)) \<and>
     json_get ''copy_kind'' (cl_metadata l) = Some (JStr (copy_kind_str (cls_copy_kind (cl_class l)))) \<and>
     json_get ''drop_kind'' (cl_metadata l) = Some (JStr (drop_kind_str (cls_drop_kind (cl_class l))))"

lemma layout_okD: "layout_ok l \<Longrightarrow> natural_align (cl_align l) \<and> class_ok (cl_class l)"
  by (simp add: layout_ok_def)

lemma layout_with_ok [simp]:
  "cl_size (layout_with c h k s a cls es) = s" "cl_align (layout_with c h k s a cls es) = a"
  "cl_class (layout_with c h k s a cls es) = cls"
  "layout_ok (layout_with c h k s a cls es) \<longleftrightarrow> natural_align a \<and> unat a dvd unat s \<and> class_ok cls"
  by (simp_all add: layout_with_def layout_ok_def base_metadata_def)

definition target_ok :: "target_layout \<Rightarrow> bool" where
  "target_ok t \<longleftrightarrow> t = \<lparr>pointer_size_bytes = 8, pointer_align_bytes = 8, enum_tag_size_bytes = 8, enum_tag_align_bytes = 8\<rparr>"

lemma target_ok_simps:
  "target_ok t \<Longrightarrow> pointer_size_bytes t = 8" "target_ok t \<Longrightarrow> pointer_align_bytes t = 8"
  "target_ok t \<Longrightarrow> enum_tag_size_bytes t = 8" "target_ok t \<Longrightarrow> enum_tag_align_bytes t = 8"
  by (auto simp: target_ok_def)

lemma target_layout_ok: "target_layout_of triple = Inr t \<Longrightarrow> target_ok t"
  by (auto simp: target_layout_of_def target_ok_def split: if_splits)

lemma flags_class_ok: "layout_class_flags_for_type c active h = Inr cls \<Longrightarrow> class_ok cls"
proof (induction c active h arbitrary: cls rule: layout_class_flags_for_type.induct)
  case (1 c active h)
  show ?case
  proof (cases "h \<in> set active")
    case False
    let ?flags = "layout_class_flags_for_type c (bset_insert h active)"
    from "1.prems" False obtain spec where spec: "type_spec_in_root (lc_fuel c) (lc_env c) (lc_db c) (lc_root c) h = Inr spec"
      and flags: "flags_of_spec ?flags spec = Inr cls" by (subst (asm) layout_class_flags_for_type.simps) auto
    note IH = "1.IH" [OF False spec]
    have merged: "class_ok cls'"
      if "res_fold (\<lambda>field cls. res_bind (?flags (tf_type field)) (\<lambda>c. Inr (class_merge cls c))) fs cls = Inr cls'"
        "class_ok cls" "tf_type ` set fs \<subseteq> set (spec_parts spec)" for fs cls cls'
      using that by (induction fs arbitrary: cls) (auto dest: IH)
    show ?thesis
    proof (cases spec)
      case (TsRecord fs)
      with flags merged [of fs class_copy cls] show ?thesis by (simp add: flags_of_spec_def)
    next
      case (TsEnum fs)
      with flags merged [of fs class_copy cls] show ?thesis by (simp add: flags_of_spec_def)
    qed (use flags IH in \<open>auto simp: flags_of_spec_def split: if_splits\<close>)
  qed (use "1.prems" in \<open>auto simp: layout_class_flags_for_type.simps\<close>)
qed

subsection \<open>Fields and payloads\<close>

text \<open>The members with where they are put: each at the next multiple of its alignment.\<close>

type_synonym placed = "(layout_member \<times> 64 word \<times> computed_layout) list"

fun packed :: "nat \<Rightarrow> placed \<Rightarrow> nat \<Rightarrow> bool" where
  "packed start [] stop \<longleftrightarrow> start = stop"
| "packed start ((_, offset, l) # ps) stop \<longleftrightarrow>
     unat (cl_align l) dvd unat offset \<and> start \<le> unat offset \<and> unat offset < start + unat (cl_align l)
     \<and> packed (unat offset + unat (cl_size l)) ps stop"

lemma packed_le: "packed start ps stop \<Longrightarrow> start \<le> stop"
  by (induction start ps stop rule: packed.induct) auto

lemma packed_bounds:
  "packed start ps stop \<Longrightarrow> (f, offset, l) \<in> set ps \<Longrightarrow>
    start \<le> unat offset \<and> unat offset + unat (cl_size l) \<le> stop \<and> unat (cl_align l) dvd unat offset"
  by (induction start ps stop rule: packed.induct) (fastforce dest: packed_le)+

lemma packed_disjoint:
  "packed start ps stop \<Longrightarrow> i < j \<Longrightarrow> j < length ps \<Longrightarrow> ps ! i = (f, offset, l) \<Longrightarrow> ps ! j = (f', offset', l') \<Longrightarrow>
    unat offset + unat (cl_size l) \<le> unat offset'"
proof (induction start ps stop arbitrary: i j rule: packed.induct)
  case (2 start g off k ps stop)
  then obtain j' where j: "j = Suc j'" by (cases j) auto
  show ?case
  proof (cases i)
    case 0
    with 2 j have "(f', offset', l') \<in> set ps" by (auto dest: nth_mem [of j' ps])
    with 2 0 show ?thesis using packed_bounds by fastforce
  next
    case (Suc i')
    with 2 j show ?thesis by auto
  qed
qed simp

definition lays_ok :: "lay \<Rightarrow> bool" where
  "lays_ok lay \<longleftrightarrow> (\<forall>h ds l ds'. lay h ds = Inr (l, ds') \<longrightarrow> layout_ok l)"

lemma lays_okD: "lays_ok lay \<Longrightarrow> lay h ds = Inr (l, ds') \<Longrightarrow> layout_ok l"
  by (auto simp: lays_ok_def)

lemma layout_field_Inr:
  "layout_field lay h f s = Inr s' \<longleftrightarrow> (\<exists>l ds offset size_bytes. lay (lm_type f) (rs_deps s) = Inr (l, ds) \<and>
     align_up (rs_offset s) (cl_align l) = Inr offset \<and> checked_add offset (cl_size l) = Some size_bytes \<and>
     s' = \<lparr>rs_offset = size_bytes, rs_size = size_bytes, rs_align = max (rs_align s) (cl_align l),
       rs_class = class_merge (rs_class s) (cl_class l), rs_fields = rs_fields s @ [field_object f offset l], rs_deps = ds\<rparr>)"
  unfolding layout_field_def by (auto simp: split_paired_Ex)

lemma layout_variant_Inr:
  "layout_variant lay v s = Inr s' \<longleftrightarrow> (\<exists>l ds. lay (lm_type v) (es_deps s) = Inr (l, ds) \<and>
     s' = \<lparr>es_payload_size = max (es_payload_size s) (cl_size l), es_payload_align = max (es_payload_align s) (cl_align l),
       es_class = class_merge (es_class s) (cl_class l), es_layouts = es_layouts s @ [l], es_deps = ds\<rparr>)"
  unfolding layout_variant_def by (auto simp: split_paired_Ex)

lemma layout_fields_packed:
  assumes lay: "lays_ok lay"
  shows "res_fold (layout_field lay type_hash) members s = Inr s' \<Longrightarrow>
    natural_align (rs_align s) \<Longrightarrow> class_ok (rs_class s) \<Longrightarrow> rs_size s = rs_offset s \<Longrightarrow>
    \<exists>ps. map fst ps = members \<and> rs_fields s' = rs_fields s @ map (\<lambda>(f, offset, l). field_object f offset l) ps
      \<and> packed (unat (rs_offset s)) ps (unat (rs_offset s'))
      \<and> (\<forall>(f, offset, l) \<in> set ps. \<exists>ds ds'. lay (lm_type f) ds = Inr (l, ds') \<and> unat (cl_align l) dvd unat (rs_align s'))
      \<and> natural_align (rs_align s') \<and> class_ok (rs_class s') \<and> rs_size s' = rs_offset s'
      \<and> unat (rs_align s) dvd unat (rs_align s')"
proof (induction members arbitrary: s)
  case Nil
  then show ?case by (auto intro: exI [of _ "[]"])
next
  case (Cons f members)
  from Cons.prems(1) obtain l ds offset size_bytes where run: "lay (lm_type f) (rs_deps s) = Inr (l, ds)"
    and off: "align_up (rs_offset s) (cl_align l) = Inr offset" and size: "checked_add offset (cl_size l) = Some size_bytes"
    and rest: "res_fold (layout_field lay type_hash) members
      \<lparr>rs_offset = size_bytes, rs_size = size_bytes, rs_align = max (rs_align s) (cl_align l),
       rs_class = class_merge (rs_class s) (cl_class l), rs_fields = rs_fields s @ [field_object f offset l], rs_deps = ds\<rparr>
      = Inr s'"
    by (auto simp: layout_field_Inr)
  have l: "natural_align (cl_align l)" "class_ok (cl_class l)" using lays_okD [OF lay run] by (simp_all add: layout_ok_def)
  note max = natural_align_max [OF Cons.prems(2) l(1)]
  from Cons.IH [OF rest] max Cons.prems(3) l(2) obtain ps where ps: "map fst ps = members"
    "rs_fields s' = rs_fields s @ field_object f offset l # map (\<lambda>(f, offset, l). field_object f offset l) ps"
    "packed (unat size_bytes) ps (unat (rs_offset s'))"
    "\<forall>(f, offset, l) \<in> set ps. \<exists>ds ds'. lay (lm_type f) ds = Inr (l, ds') \<and> unat (cl_align l) dvd unat (rs_align s')"
    "natural_align (rs_align s')" "class_ok (rs_class s')" "rs_size s' = rs_offset s'"
    "unat (max (rs_align s) (cl_align l)) dvd unat (rs_align s')" by auto
  have "unat (cl_align l) dvd unat (rs_align s')" "unat (rs_align s) dvd unat (rs_align s')"
    using max(2,3) ps(8) dvd_trans by blast+
  with ps run align_up_ok(1-3) [OF off] unat_checked_add [OF size]
  show ?case by (intro exI [of _ "(f, offset, l) # ps"]) auto
qed

lemma layout_variants_fold:
  assumes lay: "lays_ok lay"
  shows "res_fold (layout_variant lay) variants s = Inr s' \<Longrightarrow>
    natural_align (es_payload_align s) \<Longrightarrow> class_ok (es_class s) \<Longrightarrow>
    \<exists>ls. es_layouts s' = es_layouts s @ ls \<and> length ls = length variants
      \<and> (\<forall>(v, l) \<in> set (zip variants ls). \<exists>ds ds'. lay (lm_type v) ds = Inr (l, ds'))
      \<and> (\<forall>l \<in> set ls. unat (cl_align l) dvd unat (es_payload_align s') \<and> cl_size l \<le> es_payload_size s')
      \<and> natural_align (es_payload_align s') \<and> class_ok (es_class s')
      \<and> unat (es_payload_align s) dvd unat (es_payload_align s') \<and> es_payload_size s \<le> es_payload_size s'"
proof (induction variants arbitrary: s)
  case (Cons v variants)
  from Cons.prems(1) obtain l ds where run: "lay (lm_type v) (es_deps s) = Inr (l, ds)"
    and rest: "res_fold (layout_variant lay) variants
      \<lparr>es_payload_size = max (es_payload_size s) (cl_size l), es_payload_align = max (es_payload_align s) (cl_align l),
       es_class = class_merge (es_class s) (cl_class l), es_layouts = es_layouts s @ [l], es_deps = ds\<rparr> = Inr s'"
    by (auto simp: layout_variant_Inr)
  have l: "natural_align (cl_align l)" "class_ok (cl_class l)" using lays_okD [OF lay run] by (simp_all add: layout_ok_def)
  note max = natural_align_max [OF Cons.prems(2) l(1)]
  from Cons.IH [OF rest] max Cons.prems(3) l(2) obtain ls where ls: "es_layouts s' = es_layouts s @ l # ls"
    "length ls = length variants" "\<forall>(v, l) \<in> set (zip variants ls). \<exists>ds ds'. lay (lm_type v) ds = Inr (l, ds')"
    "\<forall>l \<in> set ls. unat (cl_align l) dvd unat (es_payload_align s') \<and> cl_size l \<le> es_payload_size s'"
    "natural_align (es_payload_align s')" "class_ok (es_class s')"
    "unat (max (es_payload_align s) (cl_align l)) dvd unat (es_payload_align s')"
    "max (es_payload_size s) (cl_size l) \<le> es_payload_size s'" by auto
  have "unat (cl_align l) dvd unat (es_payload_align s')" "unat (es_payload_align s) dvd unat (es_payload_align s')"
    using max(2,3) ls(7) dvd_trans by blast+
  with ls run show ?case by (intro exI [of _ "l # ls"]) auto
qed auto

lemma json_get_layout:
  assumes "k \<notin> fst ` set (base_metadata c h kind s a cls)" "k \<noteq> ''type_symbol''" "k \<noteq> ''type_def_hash''"
  shows "json_get k (cl_metadata (layout_with c h kind s a cls
      (optional_entry ''type_symbol'' ts @ optional_entry ''type_def_hash'' td @ es))) = map_of es k"
proof -
  have "map_of (base_metadata c h kind s a cls) k = None" using assms(1) by (auto simp: map_of_eq_None_iff)
  with assms(2,3) show ?thesis by (auto simp: layout_with_def optional_entry_def map_add_def split: option.splits)
qed

lemma layout_record_placed:
  assumes lay: "lays_ok lay"
    and run: "layout_record c lay type_hash ts td members deps = Inr (l, deps')"
  shows "\<exists>ps stop. map fst ps = members
    \<and> json_get ''fields'' (cl_metadata l) = Some (JArr (map (\<lambda>(f, offset, l). field_object f offset l) ps))
    \<and> (\<forall>(f, offset, k) \<in> set ps. (\<exists>ds ds'. lay (lm_type f) ds = Inr (k, ds')) \<and> unat (cl_align k) dvd unat (cl_align l))
    \<and> packed 0 ps stop \<and> stop \<le> unat (cl_size l) \<and> unat (cl_size l) < stop + unat (cl_align l) \<and> layout_ok l"
proof -
  from run obtain s size_bytes where loop: "res_fold (layout_field lay type_hash) members
      \<lparr>rs_offset = 0, rs_size = 0, rs_align = 1, rs_class = class_copy, rs_fields = [], rs_deps = deps\<rparr> = Inr s"
    and size: "align_up (rs_size s) (rs_align s) = Inr size_bytes"
    and l: "l = layout_with c type_hash ''record'' size_bytes (rs_align s) (rs_class s)
      (optional_entry ''type_symbol'' ts @ optional_entry ''type_def_hash'' td @ [(''fields'', JArr (rs_fields s))])"
    by (auto simp: layout_record_def)
  from layout_fields_packed [OF lay loop] obtain ps where ps: "map fst ps = members"
    "rs_fields s = map (\<lambda>(f, offset, l). field_object f offset l) ps" "packed 0 ps (unat (rs_size s))"
    "\<forall>(f, offset, l) \<in> set ps. \<exists>ds ds'. lay (lm_type f) ds = Inr (l, ds') \<and> unat (cl_align l) dvd unat (rs_align s)"
    "natural_align (rs_align s)" "class_ok (rs_class s)"
    by (auto simp: natural_align_def)
  have "json_get ''fields'' (cl_metadata l) = Some (JArr (rs_fields s))"
    unfolding l by (subst json_get_layout) (auto simp: base_metadata_def)
  with ps align_up_ok(1-3) [OF size] show ?thesis
    by (intro exI [of _ ps] exI [of _ "unat (rs_size s)"]) (auto simp: l)
qed

lemma layout_enum_placed:
  assumes lay: "lays_ok lay" and target: "target_ok (lc_target c)"
    and run: "layout_enum c lay type_hash ts td variants deps = Inr (l, deps')"
  shows "\<exists>ls offset. length ls = length variants \<and> 8 \<le> unat offset
    \<and> json_get ''variants'' (cl_metadata l)
      = Some (JArr (map (\<lambda>(idx, v, k). variant_object offset idx v k) (enumerate 0 (zip variants ls))))
    \<and> json_get ''payload_offset_bytes'' (cl_metadata l) = Some (json_u64 offset)
    \<and> (\<forall>(v, k) \<in> set (zip variants ls). (\<exists>ds ds'. lay (lm_type v) ds = Inr (k, ds')) \<and> unat (cl_align k) dvd unat offset
        \<and> unat offset + unat (cl_size k) \<le> unat (cl_size l) \<and> unat (cl_align k) dvd unat (cl_align l)) \<and> layout_ok l"
proof -
  note t = target_ok_simps [OF target]
  from run obtain s offset stop size_bytes where loop: "res_fold (layout_variant lay) variants
      \<lparr>es_payload_size = 0, es_payload_align = 1, es_class = class_copy, es_layouts = [], es_deps = deps\<rparr> = Inr s"
    and offset: "align_up 8 (es_payload_align s) = Inr offset"
    and stop: "checked_add offset (es_payload_size s) = Some stop"
    and size: "align_up stop (max 8 (es_payload_align s)) = Inr size_bytes"
    and l: "l = layout_with c type_hash ''enum'' size_bytes (max 8 (es_payload_align s)) (es_class s)
      (optional_entry ''type_symbol'' ts @ optional_entry ''type_def_hash'' td
       @ [(''tag'', JObj [(''offset_bytes'', JInt 0), (''size_bytes'', json_u64 8), (''align_bytes'', json_u64 8),
              (''type'', JStr ''u64'')]),
          (''payload_offset_bytes'', json_u64 offset), (''payload_size_bytes'', json_u64 (es_payload_size s)),
          (''variants'', JArr (map (\<lambda>(idx, variant, l). variant_object offset idx variant l)
              (enumerate 0 (zip variants (es_layouts s)))))])"
    by (auto simp: layout_enum_def Let_def t)
  from layout_variants_fold [OF lay loop] have ls: "length (es_layouts s) = length variants"
    "\<forall>(v, l) \<in> set (zip variants (es_layouts s)). \<exists>ds ds'. lay (lm_type v) ds = Inr (l, ds')"
    "\<forall>l \<in> set (es_layouts s). unat (cl_align l) dvd unat (es_payload_align s) \<and> cl_size l \<le> es_payload_size s"
    "natural_align (es_payload_align s)" "class_ok (es_class s)" by (auto simp: natural_align_def)
  have max: "natural_align (max 8 (es_payload_align s))" "unat (es_payload_align s) dvd unat (max 8 (es_payload_align s))"
    using natural_align_max [OF _ ls(4), of 8] by (simp_all add: natural_align_def)
  have "json_get ''variants'' (cl_metadata l) = Some (JArr (map (\<lambda>(idx, variant, l). variant_object offset idx variant l)
      (enumerate 0 (zip variants (es_layouts s)))))"
    "json_get ''payload_offset_bytes'' (cl_metadata l) = Some (json_u64 offset)"
    unfolding l by (subst json_get_layout; auto simp: base_metadata_def)+
  moreover have "unat (cl_align k) dvd unat offset \<and> unat offset + unat (cl_size k) \<le> unat size_bytes
      \<and> unat (cl_align k) dvd unat (max 8 (es_payload_align s))" if "k \<in> set (es_layouts s)" for k
  proof -
    have "unat (cl_align k) dvd unat (es_payload_align s)" "unat (cl_size k) \<le> unat (es_payload_size s)"
      using ls(3) that by (auto simp: word_le_nat_alt)
    with align_up_ok(1) [OF offset] align_up_ok(2) [OF size] unat_checked_add [OF stop] max(2) show ?thesis
      by (auto intro: dvd_trans)
  qed
  moreover have "8 \<le> unat offset" using align_up_ok(2) [OF offset] by simp
  moreover have "layout_ok l" using align_up_ok(1) [OF size] max(1) ls(5) by (simp add: l)
  ultimately show ?thesis using ls(1,2)
    by (intro exI [of _ "es_layouts s"] exI [of _ offset]) (auto simp: l dest: set_zip_rightD)
qed

subsection \<open>The walk\<close>

lemma builtin_layout_ok: "layout_builtin c h kind = Inr l \<Longrightarrow> layout_ok l"
proof -
  have "list_all (\<lambda>t. natural_align (of_nat (int_width t))) SCALAR_INT_TYPES"
    by (simp add: SCALAR_INT_TYPES_def natural_align_def)
  then show "layout_builtin c h kind = Inr l \<Longrightarrow> layout_ok l"
    by (auto simp: layout_builtin_def list_all_iff natural_align_def split: option.splits if_splits dest: find_Some_in)
qed

lemma array_size_ok:
  assumes "align_up v a = Inr stride" "checked_mul stride len = Some s"
  shows "unat a dvd unat s"
  using align_up_ok(1) [OF assms(1)] unat_checked_mul [OF assms(2)] by simp

lemma layout_named_cases:
  assumes "layout_named c lay h sym_hash rs ts deps = Inr (l, deps')"
  obtains td members fs deps1 where "type_spec_in_root (lc_fuel c) (lc_env c) (lc_db c) (lc_root c) h = Inr (TsRecord fs)"
      "map lm_type members = map tf_type fs" "layout_record c lay h (Some sym_hash) (Some td) members deps1 = Inr (l, deps')"
      "deps1 = bset_insert td deps"
  | td members fs deps1 where "type_spec_in_root (lc_fuel c) (lc_env c) (lc_db c) (lc_root c) h = Inr (TsEnum fs)"
      "map lm_type members = map tf_type fs" "layout_enum c lay h (Some sym_hash) (Some td) members deps1 = Inr (l, deps')"
      "deps1 = bset_insert td deps"
proof -
  have expand: "map lm_type ms = map tf_type fs" if "members_with_expanded_types label defs fs = Inr ms" for label defs fs ms
  proof -
    have "length defs = length fs" "res_map (\<lambda>(member, expanded).
        if tm_name member \<noteq> tf_name expanded
        then Inl (Bail ''{} expansion order mismatch: expected {}, got {}'' [label, tm_name member, tf_name expanded])
        else Inr \<lparr>lm_symbol = Some (tm_symbol member), lm_name = tm_name member, lm_type = tf_type expanded\<rparr>)
        (zip defs fs) = Inr ms"
      using that by (auto simp: members_with_expanded_types_def split: if_splits)
    then show ?thesis
      by (induction defs fs arbitrary: ms rule: list_induct2) (auto split: if_splits)
  qed
  from assms obtain entry def spec where "root_type (lc_root c) sym_hash = Some entry"
    and spec: "type_spec_in_root (lc_fuel c) (lc_env c) (lc_db c) (lc_root c) h = Inr spec"
    and body: "(case def of
             TdRecord _ _ _ members \<Rightarrow>
               (case spec of
                  TsRecord fs \<Rightarrow>
                    res_bind (members_with_expanded_types ''record field'' members fs) (\<lambda>members.
                      layout_record c lay h (Some sym_hash) (Some (rt_type_def entry)) members (bset_insert (rt_type_def entry) deps))
                | _ \<Rightarrow> Inl (Bail ''named record did not expand to record layout members'' []))
           | TdEnum _ _ _ variants \<Rightarrow>
               (case spec of
                  TsEnum fs \<Rightarrow>
                    res_bind (members_with_expanded_types ''enum variant'' variants fs) (\<lambda>variants.
                      layout_enum c lay h (Some sym_hash) (Some (rt_type_def entry)) variants (bset_insert (rt_type_def entry) deps))
                | _ \<Rightarrow> Inl (Bail ''named enum did not expand to enum layout members'' []))) = Inr (l, deps')"
    by (auto simp: layout_named_def Let_def split: if_splits)
  show thesis
    using body spec that expand by (cases def; cases spec; simp; blast)
qed

lemma layout_inner_ok:
  assumes target: "target_ok (lc_target c)" and lay: "lays_ok lay"
    and run: "layout_type_inner c lay h spec deps = Inr (l, deps')"
  shows "layout_ok l"
proof -
  note t = target_ok_simps [OF target]
  have align: "natural_align 8" "natural_align (1 :: 64 word)" by (simp_all add: natural_align_def)
  have up8: "align_up (8 :: 64 word) 8 = Inr 8" by (simp add: align_up_def checked_add_def)
  show ?thesis
  proof (cases spec)
    case (TsBuiltin k)
    with run builtin_layout_ok show ?thesis by (auto simp: layout_type_inner_def keep_deps_def)
  next
    case (TsNamed sym_hash rs ts)
    with run have "layout_named c lay h sym_hash rs ts deps = Inr (l, deps')" by (simp add: layout_type_inner_def)
    then show ?thesis
      by (cases rule: layout_named_cases) (auto dest: layout_record_placed [OF lay] layout_enum_placed [OF lay target])
  next
    case (TsFixedArray e len)
    with run show ?thesis
      by (auto simp: layout_type_inner_def layout_fixed_array_def dest!: lays_okD [OF lay] dest: layout_okD intro: array_size_ok)
  next
    case (TsRecord fs)
    with run show ?thesis by (auto simp: layout_type_inner_def dest: layout_record_placed [OF lay])
  next
    case (TsEnum fs)
    with run show ?thesis by (auto simp: layout_type_inner_def dest: layout_enum_placed [OF lay target])
  qed (use run in \<open>auto simp: layout_type_inner_def keep_deps_def layout_reference_def layout_raw_pointer_def
      layout_box_def layout_pointer_def layout_vec_def layout_string_def layout_slice_def Let_def t align up8 checked_add_def
      dest: flags_class_ok split: if_splits\<close>)
qed

lemma layout_type_Inr:
  "layout_type c active h deps = Inr r \<longleftrightarrow> h \<notin> set active \<and> (\<exists>spec. type_spec_of (lc_env c) (lc_db c) h = Inr spec
     \<and> layout_type_inner c (layout_type c (bset_insert h active)) h spec deps = Inr r)"
  by (subst layout_type.simps) auto

lemma layout_type_lays_ok:
  assumes "target_ok (lc_target c)"
  shows "lays_ok (layout_type c active)"
proof -
  have "layout_type c active h deps = Inr (l, deps') \<Longrightarrow> layout_ok l" for h deps l deps'
    using assms
  proof (induction c active h deps arbitrary: l deps' rule: layout_type.induct)
    case (1 c active h deps)
    then obtain spec where h: "h \<notin> set active" and spec: "type_spec_of (lc_env c) (lc_db c) h = Inr spec"
      and run: "layout_type_inner c (layout_type c (bset_insert h active)) h spec deps = Inr (l, deps')"
      by (auto simp: layout_type_Inr)
    have "lays_ok (layout_type c (bset_insert h active))"
      using "1.IH" [OF h spec] "1.prems"(2) by (auto simp: lays_ok_def)
    with layout_inner_ok [OF "1.prems"(2)] run show ?case by blast
  qed
  then show ?thesis by (auto simp: lays_ok_def)
qed

subsection \<open>Types that embed others\<close>

definition embedded :: "layout_computer \<Rightarrow> string \<Rightarrow> string list" where
  "embedded c h =
     (case type_spec_of (lc_env c) (lc_db c) h of
        Inl _ \<Rightarrow> []
      | Inr spec \<Rightarrow>
          (case spec of
             TsVec element \<Rightarrow> [element]
           | TsString \<Rightarrow> [type_hash_for (lc_env c) ''U8'']
           | TsSlice _ _ element \<Rightarrow> [element]
           | TsFixedArray element _ \<Rightarrow> [element]
           | TsRecord fs \<Rightarrow> map tf_type fs
           | TsEnum fs \<Rightarrow> map tf_type fs
           | TsNamed _ _ _ \<Rightarrow>
               (case type_spec_in_root (lc_fuel c) (lc_env c) (lc_db c) (lc_root c) h of
                  Inr (TsRecord fs) \<Rightarrow> map tf_type fs
                | Inr (TsEnum fs) \<Rightarrow> map tf_type fs
                | _ \<Rightarrow> [])
           | _ \<Rightarrow> []))"

definition embeds :: "layout_computer \<Rightarrow> string \<Rightarrow> string \<Rightarrow> bool" where
  "embeds c h h' \<longleftrightarrow> h' \<in> set (embedded c h)"

definition lays :: "lay \<Rightarrow> string \<Rightarrow> bool" where
  "lays lay h \<longleftrightarrow> (\<exists>ds l ds'. lay h ds = Inr (l, ds'))"

lemma laysI: "lay h ds = Inr (l, ds') \<Longrightarrow> lays lay h"
  by (auto simp: lays_def)

lemma fields_lay: "res_fold (layout_field lay th) ms s = Inr s' \<Longrightarrow> list_all (lays lay) (map lm_type ms)"
  by (induction ms arbitrary: s) (auto simp: layout_field_Inr intro: laysI)

lemma variants_lay: "res_fold (layout_variant lay) ms s = Inr s' \<Longrightarrow> list_all (lays lay) (map lm_type ms)"
  by (induction ms arbitrary: s) (auto simp: layout_variant_Inr intro: laysI)

lemma members_lay:
  "layout_record c lay h ts td ms deps = Inr r \<Longrightarrow> list_all (lays lay) (map lm_type ms)"
  "layout_enum c lay h ts td ms deps = Inr r \<Longrightarrow> list_all (lays lay) (map lm_type ms)"
  unfolding layout_record_def layout_enum_def by (auto simp del: list.pred_map dest!: fields_lay variants_lay)

lemma structural_types [simp]: "map lm_type (structural_members fs) = map tf_type fs"
  by (simp add: structural_members_def)

lemma inner_embedded:
  assumes spec: "type_spec_of (lc_env c) (lc_db c) h = Inr spec" and run: "layout_type_inner c lay h spec deps = Inr (l, deps')"
    and "h' \<in> set (embedded c h)"
  shows "lays lay h'"
proof -
  have "list_all (lays lay) (embedded c h)"
  proof (cases spec)
    case (TsNamed sym_hash rs ts)
    with run have "layout_named c lay h sym_hash rs ts deps = Inr (l, deps')" by (simp add: layout_type_inner_def)
    then show ?thesis
      by (cases rule: layout_named_cases) (use spec TsNamed in \<open>auto simp: embedded_def simp del: list.pred_map dest!: members_lay\<close>)
  next
    case (TsRecord fs)
    with run spec members_lay(1) show ?thesis by (fastforce simp: layout_type_inner_def embedded_def simp del: list.pred_map)
  next
    case (TsEnum fs)
    with run spec members_lay(2) show ?thesis by (fastforce simp: layout_type_inner_def embedded_def simp del: list.pred_map)
  qed (use run spec in \<open>auto simp: layout_type_inner_def layout_vec_def layout_string_def layout_slice_def
      layout_fixed_array_def Let_def embedded_def intro: laysI\<close>)
  with assms(3) show ?thesis by (auto simp: list_all_iff)
qed

lemma embedded_lays:
  assumes "lays (layout_type c active) h" "embeds c h h'"
  shows "lays (layout_type c (bset_insert h active)) h'"
  using assms inner_embedded by (auto simp: lays_def [of "layout_type c active"] layout_type_Inr embeds_def)

lemma embedded_not_active:
  "(embeds c)\<^sup>*\<^sup>* h h' \<Longrightarrow> lays (layout_type c active) h \<Longrightarrow> h' \<notin> set active"
proof (induction arbitrary: active rule: converse_rtranclp_induct)
  case base
  then show ?case by (auto simp: lays_def layout_type_Inr)
next
  case (step h k)
  from step.IH [OF embedded_lays [OF step.prems step.hyps(1)]] show ?case by simp
qed

lemma embedded_reach:
  "(embeds c)\<^sup>*\<^sup>* h h' \<Longrightarrow> lays (layout_type c active) h \<Longrightarrow> \<exists>active. lays (layout_type c active) h'"
  by (induction rule: rtranclp_induct) (blast intro: embedded_lays)+

subsection \<open>A layout does not depend on where it is asked for\<close>

text \<open>The second computation gives every layout the first one gives, whatever was threaded through it.\<close>

definition agrees :: "lay \<Rightarrow> lay \<Rightarrow> bool" where
  "agrees lay lay' \<longleftrightarrow> (\<forall>h ds l ds'. lay h ds = Inr (l, ds') \<longrightarrow> (\<forall>es. \<exists>es'. lay' h es = Inr (l, es')))"

lemma agreesE:
  assumes "agrees lay lay'" "lay h ds = Inr (l, ds')"
  obtains es' where "lay' h es = Inr (l, es')"
  using assms unfolding agrees_def by blast

lemma record_fields_agree:
  assumes "agrees lay lay'"
  shows "res_fold (layout_field lay th) ms s = Inr s' \<Longrightarrow>
    \<exists>es'. res_fold (layout_field lay' th) ms (s\<lparr>rs_deps := es\<rparr>) = Inr (s'\<lparr>rs_deps := es'\<rparr>)"
proof (induction ms arbitrary: s es)
  case (Cons f ms)
  then obtain t where t: "layout_field lay th f s = Inr t" "res_fold (layout_field lay th) ms t = Inr s'" by auto
  from t(1) assms obtain es1 where "layout_field lay' th f (s\<lparr>rs_deps := es\<rparr>) = Inr (t\<lparr>rs_deps := es1\<rparr>)"
    by (auto simp: layout_field_Inr elim!: agreesE [of _ _ _ _ _ _ es])
  with Cons.IH [OF t(2), of es1] show ?case by simp
qed (auto intro: exI [of _ es])

lemma variants_agree:
  assumes "agrees lay lay'"
  shows "res_fold (layout_variant lay) ms s = Inr s' \<Longrightarrow>
    \<exists>es'. res_fold (layout_variant lay') ms (s\<lparr>es_deps := es\<rparr>) = Inr (s'\<lparr>es_deps := es'\<rparr>)"
proof (induction ms arbitrary: s es)
  case (Cons f ms)
  then obtain t where t: "layout_variant lay f s = Inr t" "res_fold (layout_variant lay) ms t = Inr s'" by auto
  from t(1) assms obtain es1 where "layout_variant lay' f (s\<lparr>es_deps := es\<rparr>) = Inr (t\<lparr>es_deps := es1\<rparr>)"
    by (auto simp: layout_variant_Inr elim!: agreesE [of _ _ _ _ _ _ es])
  with Cons.IH [OF t(2), of es1] show ?case by simp
qed (auto intro: exI [of _ es])

lemma record_agrees:
  assumes "agrees lay lay'" "layout_record c lay h ts td ms ds = Inr (l, ds')"
  shows "\<exists>es'. layout_record c lay' h ts td ms es = Inr (l, es')"
  using assms(2) record_fields_agree [OF assms(1), of h ms _ _ es] unfolding layout_record_def
  by (fastforce simp: record_state.defs)

lemma enum_agrees:
  assumes "agrees lay lay'" "layout_enum c lay h ts td ms ds = Inr (l, ds')"
  shows "\<exists>es'. layout_enum c lay' h ts td ms es = Inr (l, es')"
  using assms(2) variants_agree [OF assms(1), of ms _ _ es] unfolding layout_enum_def Let_def
  by (fastforce simp: enum_state.defs)

lemma named_agrees:
  assumes agree: "agrees lay lay'" and run: "layout_named c lay h sym_hash rs ts ds = Inr (l, ds')"
  shows "\<exists>es'. layout_named c lay' h sym_hash rs ts es = Inr (l, es')"
proof -
  from run obtain entry def spec where e: "root_type (lc_root c) sym_hash = Some entry"
    "type_definition (lc_db c) (rt_type_def entry) = Inr def"
    "length (td_region_params def) = length rs" "length (td_type_params def) = length ts"
    "type_spec_in_root (lc_fuel c) (lc_env c) (lc_db c) (lc_root c) h = Inr spec"
    by (auto simp: layout_named_def Let_def split: if_splits)
  note members = record_agrees [OF agree, where es = "bset_insert (rt_type_def entry) es"]
    enum_agrees [OF agree, where es = "bset_insert (rt_type_def entry) es"]
  show ?thesis
    using run e by (cases def; cases spec) (auto simp: layout_named_def Let_def dest!: members)
qed

lemma inner_agrees:
  assumes agree: "agrees lay lay'" and run: "layout_type_inner c lay h spec ds = Inr (l, ds')"
  shows "\<exists>es'. layout_type_inner c lay' h spec es = Inr (l, es')"
proof (cases spec)
  case (TsNamed sym_hash rs ts)
  with run named_agrees [OF agree] show ?thesis by (simp add: layout_type_inner_def)
next
  case (TsRecord fs)
  with run record_agrees [OF agree] show ?thesis by (simp add: layout_type_inner_def)
next
  case (TsEnum fs)
  with run enum_agrees [OF agree] show ?thesis by (simp add: layout_type_inner_def)
qed (use run in \<open>auto simp: layout_type_inner_def keep_deps_def layout_vec_def layout_string_def layout_slice_def
    layout_fixed_array_def Let_def elim!: agreesE [OF agree, of _ _ _ _ es]\<close>)

lemma layout_type_agrees:
  assumes "set active' \<subseteq> set active"
  shows "agrees (layout_type c active) (layout_type c active')"
proof -
  have "\<exists>es'. layout_type c active' h es = Inr (l, es')"
    if "layout_type c active h ds = Inr (l, ds')" "set active' \<subseteq> set active" for h ds l ds' es active'
    using that
  proof (induction c active h ds arbitrary: l ds' es active' rule: layout_type.induct)
    case (1 c active h ds)
    then obtain spec where h: "h \<notin> set active" and spec: "type_spec_of (lc_env c) (lc_db c) h = Inr spec"
      and run: "layout_type_inner c (layout_type c (bset_insert h active)) h spec ds = Inr (l, ds')"
      by (auto simp: layout_type_Inr)
    have "set (bset_insert h active') \<subseteq> set (bset_insert h active)" using "1.prems"(2) by auto
    then have "agrees (layout_type c (bset_insert h active)) (layout_type c (bset_insert h active'))"
      using "1.IH" [OF h spec] by (auto simp: agrees_def simp del: set_bset_insert)
    from inner_agrees [OF this run] h spec "1.prems"(2) show ?case by (auto simp: layout_type_Inr)
  qed
  with assms show ?thesis unfolding agrees_def by blast
qed

text \<open>What is computed for a type in the middle of another, with any definitions used before, is what is
  computed for it first and on its own.\<close>

lemma layout_context_free:
  assumes "layout_type c active h ds = Inr (l, ds')"
  shows "\<exists>es. layout_type c [] h [] = Inr (l, es)"
  using agreesE [OF layout_type_agrees assms, of "[]" "[]"] by auto

lemma expanded_layout:
  assumes run: "layout_type c active h ds = Inr (l, ds')"
    and spec: "type_spec_in_root (lc_fuel c) (lc_env c) (lc_db c) (lc_root c) h = Inr spec"
  shows "spec = TsRecord fs \<Longrightarrow> \<exists>ts td ms ds ds'. map lm_type ms = map tf_type fs
      \<and> layout_record c (layout_type c (bset_insert h active)) h ts td ms ds = Inr (l, ds')"
    and "spec = TsEnum fs \<Longrightarrow> \<exists>ts td ms ds ds'. map lm_type ms = map tf_type fs
      \<and> layout_enum c (layout_type c (bset_insert h active)) h ts td ms ds = Inr (l, ds')"
proof -
  let ?lay = "layout_type c (bset_insert h active)"
  from run obtain spec0 where spec0: "type_spec_of (lc_env c) (lc_db c) h = Inr spec0"
    and inner: "layout_type_inner c ?lay h spec0 ds = Inr (l, ds')" by (auto simp: layout_type_Inr)
  have other: "spec = spec0" if "\<forall>a rs ts. spec0 \<noteq> TsNamed a rs ts"
    using spec spec0 that by (cases spec0) (auto simp: type_spec_in_root_def)
  show "\<exists>ts td ms ds ds'. map lm_type ms = map tf_type fs \<and> layout_record c ?lay h ts td ms ds = Inr (l, ds')"
    if s: "spec = TsRecord fs"
  proof (cases "\<exists>a rs ts. spec0 = TsNamed a rs ts")
    case True
    then obtain a rs ts where "layout_named c ?lay h a rs ts ds = Inr (l, ds')" using inner by (auto simp: layout_type_inner_def)
    then show ?thesis by (cases rule: layout_named_cases) (use s spec in \<open>simp; blast\<close>)+
  next
    case False
    with other s have "spec0 = TsRecord fs" by simp
    with inner have "layout_record c ?lay h None None (structural_members fs) ds = Inr (l, ds')"
      by (simp add: layout_type_inner_def)
    then show ?thesis using structural_types by blast
  qed
  show "\<exists>ts td ms ds ds'. map lm_type ms = map tf_type fs \<and> layout_enum c ?lay h ts td ms ds = Inr (l, ds')"
    if s: "spec = TsEnum fs"
  proof (cases "\<exists>a rs ts. spec0 = TsNamed a rs ts")
    case True
    then obtain a rs ts where "layout_named c ?lay h a rs ts ds = Inr (l, ds')" using inner by (auto simp: layout_type_inner_def)
    then show ?thesis by (cases rule: layout_named_cases) (use s spec in \<open>simp; blast\<close>)+
  next
    case False
    with other s have "spec0 = TsEnum fs" by simp
    with inner have "layout_enum c ?lay h None None (structural_members fs) ds = Inr (l, ds')"
      by (simp add: layout_type_inner_def)
    then show ?thesis using structural_types by blast
  qed
qed

subsection \<open>What the component promises\<close>

text \<open>C18. Every layout is well-formed: the alignment is 1, 2, 4 or 8 and divides the size, so the
  elements of an array of such values stay aligned; the metadata records the size, the alignment and
  the class of the layout; and the flags of the class agree: a type moves exactly when it has to be
  dropped or holds a mutable reference, and has to be dropped exactly when it owns a resource.\<close>

theorem layouts_sound:
  assumes "target_layout_of triple = Inr (lc_target c)" and "layout_type c active h ds = Inr (l, ds')"
  shows "layout_ok l"
  using lays_okD [OF layout_type_lays_ok [OF target_layout_ok [OF assms(1)]] assms(2)] .

text \<open>C19. The fields of a record are where the metadata says, in the order of the fields, and do not
  overlap: each is at a multiple of its alignment, the ones before it end where it starts or earlier,
  the last one ends within the size, and the padding at the end is less than the alignment. No sum
  wraps. The size and alignment of a field are those of its type laid out on its own.\<close>

theorem record_fields_placed:
  assumes "target_layout_of triple = Inr (lc_target c)" and run: "layout_type c active h ds = Inr (l, ds')"
    and "type_spec_in_root (lc_fuel c) (lc_env c) (lc_db c) (lc_root c) h = Inr (TsRecord fs)"
  shows "\<exists>ps stop. map (\<lambda>(f, _, _). lm_type f) ps = map tf_type fs
    \<and> json_get ''fields'' (cl_metadata l) = Some (JArr (map (\<lambda>(f, offset, k). field_object f offset k) ps))
    \<and> (\<forall>(f, offset, k) \<in> set ps. (\<exists>es. layout_type c [] (lm_type f) [] = Inr (k, es))
        \<and> unat (cl_align k) dvd unat offset \<and> unat (cl_align k) dvd unat (cl_align l)
        \<and> unat offset + unat (cl_size k) \<le> stop)
    \<and> (\<forall>i j f offset k f' offset' k'. i < j \<longrightarrow> j < length ps \<longrightarrow> ps ! i = (f, offset, k) \<longrightarrow> ps ! j = (f', offset', k')
        \<longrightarrow> unat offset + unat (cl_size k) \<le> unat offset')
    \<and> stop \<le> unat (cl_size l) \<and> unat (cl_size l) < stop + unat (cl_align l)"
proof -
  from expanded_layout(1) [OF run assms(3) refl] obtain ts td ms ds1 ds2 where ms: "map lm_type ms = map tf_type fs"
    and rec: "layout_record c (layout_type c (bset_insert h active)) h ts td ms ds1 = Inr (l, ds2)" by blast
  note ok = layout_type_lays_ok [OF target_layout_ok [OF assms(1)]]
  from layout_record_placed [OF ok rec] obtain ps stop where ps: "map fst ps = ms"
    "json_get ''fields'' (cl_metadata l) = Some (JArr (map (\<lambda>(f, offset, k). field_object f offset k) ps))"
    "\<forall>(f, offset, k) \<in> set ps. (\<exists>ds ds'. layout_type c (bset_insert h active) (lm_type f) ds = Inr (k, ds'))
      \<and> unat (cl_align k) dvd unat (cl_align l)"
    "packed 0 ps stop" "stop \<le> unat (cl_size l)" "unat (cl_size l) < stop + unat (cl_align l)" by blast
  have "map (\<lambda>(f, _, _). lm_type f) ps = map tf_type fs"
    using ms unfolding ps(1) [symmetric] by (simp add: case_prod_beta' o_def)
  then show ?thesis
    using ps packed_bounds [OF ps(4)] packed_disjoint [OF ps(4)] layout_context_free
    by (intro exI [of _ ps] exI [of _ stop]) (fastforce simp del: map_eq_conv)
qed

text \<open>C20. The payloads of an enum share one place behind the tag: the metadata lists the variants in
  order with the tags 0, 1, and so on, every payload starts at the same offset, at least 8 and a
  multiple of the payload's alignment, and ends within the size of the enum. The size and alignment
  of a payload are those of its type laid out on its own.\<close>

theorem enum_payloads_placed:
  assumes "target_layout_of triple = Inr (lc_target c)" and run: "layout_type c active h ds = Inr (l, ds')"
    and "type_spec_in_root (lc_fuel c) (lc_env c) (lc_db c) (lc_root c) h = Inr (TsEnum fs)"
  shows "\<exists>vs ls offset. map lm_type vs = map tf_type fs \<and> length ls = length vs \<and> 8 \<le> unat offset
    \<and> json_get ''variants'' (cl_metadata l)
      = Some (JArr (map (\<lambda>(idx, v, k). variant_object offset idx v k) (enumerate 0 (zip vs ls))))
    \<and> (\<forall>(v, k) \<in> set (zip vs ls). (\<exists>es. layout_type c [] (lm_type v) [] = Inr (k, es))
        \<and> unat (cl_align k) dvd unat offset \<and> unat (cl_align k) dvd unat (cl_align l)
        \<and> unat offset + unat (cl_size k) \<le> unat (cl_size l))"
proof -
  from expanded_layout(2) [OF run assms(3) refl] obtain ts td vs ds1 ds2 where vs: "map lm_type vs = map tf_type fs"
    and enum: "layout_enum c (layout_type c (bset_insert h active)) h ts td vs ds1 = Inr (l, ds2)" by blast
  note ok = layout_type_lays_ok [OF target_layout_ok [OF assms(1)]]
  from layout_enum_placed [OF ok target_layout_ok [OF assms(1)] enum] obtain ls offset where ls: "length ls = length vs"
    "8 \<le> unat offset" "json_get ''variants'' (cl_metadata l)
      = Some (JArr (map (\<lambda>(idx, v, k). variant_object offset idx v k) (enumerate 0 (zip vs ls))))"
    "\<forall>(v, k) \<in> set (zip vs ls). (\<exists>ds ds'. layout_type c (bset_insert h active) (lm_type v) ds = Inr (k, ds'))
      \<and> unat (cl_align k) dvd unat offset \<and> unat offset + unat (cl_size k) \<le> unat (cl_size l)
      \<and> unat (cl_align k) dvd unat (cl_align l)" by blast
  then show ?thesis
    using vs layout_context_free by (intro exI [of _ vs] exI [of _ ls] exI [of _ offset]) (fastforce simp del: map_eq_conv)
qed

text \<open>C21. A type that holds itself by value has no layout: when a type that is reached from \<open>h\<close> by
  going from a type to the types its values embed embeds itself, over any number of steps, then laying
  out \<open>h\<close> is an error, and the computation ends. References and boxes do not embed what they point to.\<close>

theorem recursive_layout_rejected:
  assumes "(embeds c)\<^sup>*\<^sup>* h h'" and "(embeds c)\<^sup>+\<^sup>+ h' h'"
  shows "\<exists>e. layout_type c active h ds = Inl e"
proof (cases "layout_type c active h ds")
  case (Inr r)
  then have "lays (layout_type c active) h" by (cases r) (auto intro: laysI)
  from embedded_reach [OF assms(1) this] obtain active' where lay: "lays (layout_type c active') h'" by blast
  from assms(2) obtain k where "embeds c h' k" "(embeds c)\<^sup>*\<^sup>* k h'" by (blast dest: tranclpD)
  with embedded_not_active [OF _ embedded_lays [OF lay]] show ?thesis by fastforce
qed simp

end
