(* ===== verification/SampleLayout.thy ===== *)
theory SampleLayout
  imports SampleTypes Layout
begin

text \<open>Layouts of two types of \<open>SampleTypes\<close>, a record and a record that holds itself, for the witnesses
  of \<open>Layout\<close>.\<close>

definition sample_u8 :: string where
  "sample_u8 = type_hash_for sample_env ''U8''"

definition sample_members :: "type_field_spec list" where
  "sample_members = [\<lparr>tf_name = ''a'', tf_type = sample_i64\<rparr>, \<lparr>tf_name = ''b'', tf_type = sample_u8\<rparr>]"

lemma sample_member_types: "map tf_type sample_members = [sample_i64, sample_u8]"
  by (simp add: sample_members_def)

definition sample_target :: target_layout where
  "sample_target = \<lparr>pointer_size_bytes = 8, pointer_align_bytes = 8, enum_tag_size_bytes = 8, enum_tag_align_bytes = 8\<rparr>"

text \<open>A store that holds one type, and the layout of that type.\<close>

definition sample_type :: "type_spec \<Rightarrow> string" where
  "sample_type spec = fst (put_sample spec [])"

definition sample_computer :: "type_spec \<Rightarrow> layout_computer" where
  "sample_computer spec = \<lparr>lc_fuel = 1, lc_env = sample_env, lc_db = snd (put_sample spec []),
     lc_root = empty_root, lc_target_triple = LINUX_X86_64_TARGET, lc_target = sample_target\<rparr>"

definition sample_layout :: "type_spec \<Rightarrow> computed_layout" where
  "sample_layout spec = (case layout_type (sample_computer spec) [] (sample_type spec) [] of Inr (l, _) \<Rightarrow> l
     | Inl _ \<Rightarrow> \<lparr>cl_metadata = JNull, cl_size = 0, cl_align = 0, cl_class = class_copy\<rparr>)"

lemma sample_computer_simps [simp]:
  "lc_env (sample_computer spec) = sample_env" "lc_db (sample_computer spec) = snd (put_sample spec [])"
  "lc_target (sample_computer spec) = sample_target" "target_layout_of LINUX_X86_64_TARGET = Inr sample_target"
  by (simp_all add: sample_computer_def target_layout_of_def sample_target_def)

lemma sample_target_layout: "target_layout_of LINUX_X86_64_TARGET = Inr (lc_target (sample_computer spec))"
  by simp

lemma sample_loads:
  assumes "spec = TsRecord sample_members \<or> spec = TsEnum sample_members"
  shows "type_spec_of sample_env (snd (put_sample spec [])) (sample_type spec) = Inr spec"
proof -
  have "is_ok (put_structural_type sample_env (TsRecord sample_members) [])"
    "is_ok (put_structural_type sample_env (TsEnum sample_members) [])" by code_simp+
  then have "put_structural_type sample_env spec [] = Inr (sample_type spec, snd (put_sample spec []))"
    using assms by (auto simp: put_sample_def is_ok_iff sample_type_def)
  from put_structural_type_loads(1) [OF sample_env_ok _ _ this]
  have "type_spec_of sample_env (snd (put_sample spec [])) (sample_type spec) = Inr (canonical_spec spec)"
    using assms by fastforce
  then show ?thesis using assms by (elim disjE) (simp_all add: sample_members_def)
qed

lemma sample_scalar_layout:
  assumes "lc_env c = sample_env" "scalar_int_type_of kind = Some t" "type_hash_for sample_env kind \<notin> set active"
  shows "layout_type c active (type_hash_for sample_env kind) ds
    = Inr (layout_with c (type_hash_for sample_env kind) ''scalar'' (of_nat (int_width t)) (of_nat (int_width t)) class_copy [], ds)"
proof -
  have k: "builtin_kind kind" using assms(2) by (simp add: builtin_kind_def)
  have "List.find (\<lambda>t. type_hash_for sample_env kind = type_hash_for sample_env (int_name t)) SCALAR_INT_TYPES = Some t"
    using by_hash_scalar [OF sample_env_ok k] assms(2) by (simp add: scalar_int_type_by_hash_def)
  then show ?thesis
    using assms(1,3) type_spec_builtin [OF sample_env_ok k] assms(2)
    by (simp add: layout_type_Inr layout_type_inner_def keep_deps_def layout_builtin_def)
qed

lemma sample_scalars:
  "scalar_int_type_of ''I64'' = Some \<lparr>int_name = ''I64'', int_width = 8, int_signed = True\<rparr>"
  "scalar_int_type_of ''U8'' = Some \<lparr>int_name = ''U8'', int_width = 1, int_signed = False\<rparr>"
  by code_simp+

lemma sample_align:
  "align_up 0 8 = Inr 0" "align_up 8 1 = Inr 8" "align_up 9 8 = Inr (16 :: 64 word)" "align_up 8 8 = Inr (8 :: 64 word)"
  "align_up 16 8 = Inr (16 :: 64 word)"
  by (simp_all add: align_up_def checked_add_def)

lemma sample_not_scalar:
  assumes "spec = TsRecord sample_members \<or> spec = TsEnum sample_members" "builtin_kind kind"
  shows "type_hash_for sample_env kind \<noteq> sample_type spec"
  using sample_loads [OF assms(1)] type_spec_builtin [OF sample_env_ok assms(2)] assms(1) by auto

lemma sample_layout_run:
  assumes spec: "spec = TsRecord sample_members \<or> spec = TsEnum sample_members"
  obtains ds where "layout_type (sample_computer spec) [] (sample_type spec) [] = Inr (sample_layout spec, ds)"
proof -
  have "type_hash_for sample_env ''I64'' \<noteq> sample_type spec" "type_hash_for sample_env ''U8'' \<noteq> sample_type spec"
    using sample_not_scalar [OF spec] by (simp_all add: builtin_kind_iff)
  then have "is_ok (layout_type (sample_computer spec) [] (sample_type spec) [])"
    using sample_loads [OF spec] spec
    by (subst layout_type.simps) (auto simp: layout_type_inner_def sample_members_def layout_record_def layout_enum_def
        structural_members_def layout_field_def layout_variant_def sample_i64_def sample_u8_def
        sample_scalar_layout [OF _ sample_scalars(1)] sample_scalar_layout [OF _ sample_scalars(2)]
        sample_align checked_add_def sample_target_def Let_def is_ok_iff)
  with that show thesis by (auto simp: sample_layout_def is_ok_iff)
qed

theorem layouts_sound_witness: "layout_ok (sample_layout (TsRecord sample_members))"
proof -
  obtain ds where "layout_type (sample_computer (TsRecord sample_members)) [] (sample_type (TsRecord sample_members)) []
      = Inr (sample_layout (TsRecord sample_members), ds)"
    using sample_layout_run by blast
  from layouts_sound [OF _ this, of LINUX_X86_64_TARGET] show ?thesis by simp
qed

theorem record_fields_placed_witness:
  "\<exists>ps. map (\<lambda>(f, _, _). lm_type f) ps = [sample_i64, sample_u8]
    \<and> json_get ''fields'' (cl_metadata (sample_layout (TsRecord sample_members)))
      = Some (JArr (map (\<lambda>(f, offset, k). field_object f offset k) ps))"
proof -
  let ?spec = "TsRecord sample_members"
  obtain ds where run: "layout_type (sample_computer ?spec) [] (sample_type ?spec) [] = Inr (sample_layout ?spec, ds)"
    using sample_layout_run by blast
  have "type_spec_in_root (lc_fuel (sample_computer ?spec)) (lc_env (sample_computer ?spec)) (lc_db (sample_computer ?spec))
      (lc_root (sample_computer ?spec)) (sample_type ?spec) = Inr ?spec"
    using sample_loads [of ?spec] by (simp add: type_spec_in_root_def)
  from record_fields_placed [OF sample_target_layout run this] show ?thesis
    unfolding sample_member_types by (elim exE conjE) (intro exI conjI, assumption+)
qed

theorem enum_payloads_placed_witness:
  "\<exists>vs ls offset. map lm_type vs = [sample_i64, sample_u8] \<and> length ls = length vs \<and> 8 \<le> unat (offset :: 64 word)
    \<and> json_get ''variants'' (cl_metadata (sample_layout (TsEnum sample_members)))
      = Some (JArr (map (\<lambda>(idx, v, k). variant_object offset idx v k) (enumerate 0 (zip vs ls))))"
proof -
  let ?spec = "TsEnum sample_members"
  obtain ds where run: "layout_type (sample_computer ?spec) [] (sample_type ?spec) [] = Inr (sample_layout ?spec, ds)"
    using sample_layout_run by blast
  have "type_spec_in_root (lc_fuel (sample_computer ?spec)) (lc_env (sample_computer ?spec)) (lc_db (sample_computer ?spec))
      (lc_root (sample_computer ?spec)) (sample_type ?spec) = Inr ?spec"
    using sample_loads [of ?spec] by (simp add: type_spec_in_root_def)
  from enum_payloads_placed [OF sample_target_layout run this] show ?thesis
    unfolding sample_member_types by (elim exE conjE) (intro exI conjI, assumption+)
qed

text \<open>A record that has itself as its only field.\<close>

definition sample_node :: "string \<times> objects" where
  "sample_node = put_sample (TsNamed ''sha256:t'' [] []) []"

definition sample_node_record :: "string \<times> objects" where
  "sample_node_record = put_object sample_env ''RecordDef''
     (JObj [(''type_symbol'', JStr ''sha256:t''), (''fields'', JArr [JObj [(''field_symbol'', JStr ''sha256:f''),
        (''name'', JStr ''self''), (''type'', JStr (fst sample_node))]])]) (snd sample_node)"

definition sample_node_def :: "string \<times> objects" where
  "sample_node_def = put_object sample_env ''TypeDef''
     (JObj [(''type_symbol'', JStr ''sha256:t''), (''type_kind'', JStr ''record''),
        (''definition'', JStr (fst sample_node_record))]) (snd sample_node_record)"

definition node_computer :: layout_computer where
  "node_computer = \<lparr>lc_fuel = 1, lc_env = sample_env, lc_db = snd sample_node_def,
     lc_root = empty_root\<lparr>types := [\<lparr>rt_type_symbol = ''sha256:t'', rt_type_def = fst sample_node_def\<rparr>]\<rparr>,
     lc_target_triple = LINUX_X86_64_TARGET, lc_target = sample_target\<rparr>"

theorem recursive_layout_rejected_witness:
  "\<exists>e. layout_type node_computer [] (fst sample_node) [] = Inl e"
proof -
  have "fst sample_node \<in> set (embedded node_computer (fst sample_node))" by code_simp
  then have "embeds node_computer (fst sample_node) (fst sample_node)" by (simp add: embeds_def)
  then show ?thesis by (intro recursive_layout_rejected [of node_computer _ "fst sample_node"]) auto
qed

end
