(* ===== verification/Assign.thy ===== *)
theory Assign
  imports Layout
begin

text \<open>
  Values of one type where another is expected: the assignability check of the type checker,
  \<open>src/src/types.rs\<close>, and the check of the lowering, \<open>src/src/lowering.rs\<close>, that lets the bytes of
  a value be read under the other layout. Types are assignable by the names of their fields and
  variants, so a record type and a named type with the same fields in another order are
  assignable and have different layouts. The theory shows what the second check buys: every
  place inside such a value is where the other type expects it. What is behind the pointer of a
  vector, a slice or a reference is not checked.

  A layout computer is the context here: the store, the root, the target and the depth of
  substitutions. \<open>fuel\<close> bounds the nesting of the two types.
\<close>

abbreviation expanded :: "layout_computer \<Rightarrow> string \<Rightarrow> type_spec res" where
  "expanded c h \<equiv> type_spec_in_root (lc_fuel c) (lc_env c) (lc_db c) (lc_root c) h"

abbreviation loaded :: "layout_computer \<Rightarrow> string \<Rightarrow> type_spec res" where
  "loaded c h \<equiv> type_spec_of (lc_env c) (lc_db c) h"

subsection \<open>Assignability\<close>

definition named_actual_type_assignable :: "type_spec \<Rightarrow> type_spec \<Rightarrow> bool option" where
  "named_actual_type_assignable actual expected =
     (case actual of
        TsNamed actual_symbol actual_args actual_type_args \<Rightarrow>
          (case expected of
             TsNamed expected_symbol expected_args expected_type_args \<Rightarrow>
               Some (actual_symbol = expected_symbol \<and> actual_args = expected_args
                 \<and> actual_type_args = expected_type_args)
           | _ \<Rightarrow> Some False)
      | _ \<Rightarrow> None)"

definition named_actual_type_assignable_for_call :: "type_spec \<Rightarrow> type_spec \<Rightarrow> string list \<Rightarrow> bool option" where
  "named_actual_type_assignable_for_call actual expected callee_regions =
     (case actual of
        TsNamed actual_symbol actual_args actual_type_args \<Rightarrow>
          (case expected of
             TsNamed expected_symbol expected_args expected_type_args \<Rightarrow>
               if actual_symbol \<noteq> expected_symbol \<or> length actual_args \<noteq> length expected_args
                 \<or> actual_type_args \<noteq> expected_type_args
               then Some False
               else Some (list_all (\<lambda>(actual_region, expected_region).
                      actual_region = expected_region \<or> expected_region \<in> set callee_regions)
                    (zip actual_args expected_args))
           | _ \<Rightarrow> Some False)
      | _ \<Rightarrow> None)"

text \<open>The loop over the expected fields or variants: each has an actual one of its name.\<close>

fun match_fields ::
    "(type_field_spec \<Rightarrow> type_field_spec \<Rightarrow> bool res) \<Rightarrow> type_field_spec list \<Rightarrow> type_field_spec list \<Rightarrow> bool res" where
  "match_fields related actual [] = Inr True"
| "match_fields related actual (field # expected) =
     (case List.find (\<lambda>candidate. tf_name candidate = tf_name field) actual of
        None \<Rightarrow> Inr False
      | Some candidate \<Rightarrow>
          res_bind (related candidate field) (\<lambda>ok.
            if ok then match_fields related actual expected else Inr False))"

fun type_assignable_in_root :: "nat \<Rightarrow> layout_computer \<Rightarrow> string \<Rightarrow> string \<Rightarrow> bool res" where
  "type_assignable_in_root 0 c actual expected = Inl NO_FUEL"
| "type_assignable_in_root (Suc fuel) c actual expected =
     (if actual = expected then Inr True
      else
        res_bind (loaded c actual) (\<lambda>actual_spec.
        res_bind (loaded c expected) (\<lambda>expected_spec.
        case named_actual_type_assignable actual_spec expected_spec of
          Some assignable \<Rightarrow> Inr assignable
        | None \<Rightarrow>
            res_bind (expanded c actual) (\<lambda>actual_spec.
            res_bind (expanded c expected) (\<lambda>expected_spec.
            case (actual_spec, expected_spec) of
              (TsReference actual_region actual_mutable actual_referent,
               TsReference expected_region expected_mutable expected_referent) \<Rightarrow>
                if actual_region \<noteq> expected_region \<or> actual_mutable \<noteq> expected_mutable then Inr False
                else type_assignable_in_root fuel c actual_referent expected_referent
            | (TsSlice actual_region actual_mutable actual_element,
               TsSlice expected_region expected_mutable expected_element) \<Rightarrow>
                if actual_region \<noteq> expected_region \<or> actual_mutable \<noteq> expected_mutable then Inr False
                else type_assignable_in_root fuel c actual_element expected_element
            | (TsBox actual_element, TsBox expected_element) \<Rightarrow>
                type_assignable_in_root fuel c actual_element expected_element
            | (TsVec actual_element, TsVec expected_element) \<Rightarrow>
                type_assignable_in_root fuel c actual_element expected_element
            | (TsFixedArray actual_element actual_len, TsFixedArray expected_element expected_len) \<Rightarrow>
                if actual_len \<noteq> expected_len then Inr False
                else type_assignable_in_root fuel c actual_element expected_element
            | (TsRecord actual_fields, TsRecord expected_fields) \<Rightarrow>
                if length actual_fields \<noteq> length expected_fields then Inr False
                else match_fields (\<lambda>a e. type_assignable_in_root fuel c (tf_type a) (tf_type e))
                       actual_fields expected_fields
            | (TsEnum actual_fields, TsEnum expected_fields) \<Rightarrow>
                if length actual_fields \<noteq> length expected_fields then Inr False
                else match_fields (\<lambda>a e. type_assignable_in_root fuel c (tf_type a) (tf_type e))
                       actual_fields expected_fields
            | _ \<Rightarrow> Inr False)))))"

text \<open>The same for an argument of a call: a region parameter of the callee takes any region.\<close>

fun type_assignable_for_call_in_root ::
    "nat \<Rightarrow> layout_computer \<Rightarrow> string \<Rightarrow> string \<Rightarrow> string list \<Rightarrow> bool res" where
  "type_assignable_for_call_in_root 0 c actual expected callee_regions = Inl NO_FUEL"
| "type_assignable_for_call_in_root (Suc fuel) c actual expected callee_regions =
     (if actual = expected then Inr True
      else
        res_bind (loaded c actual) (\<lambda>actual_spec.
        res_bind (loaded c expected) (\<lambda>expected_spec.
        case named_actual_type_assignable_for_call actual_spec expected_spec callee_regions of
          Some assignable \<Rightarrow> Inr assignable
        | None \<Rightarrow>
            res_bind (expanded c actual) (\<lambda>actual_spec.
            res_bind (expanded c expected) (\<lambda>expected_spec.
            case (actual_spec, expected_spec) of
              (TsReference actual_region actual_mutable actual_referent,
               TsReference expected_region expected_mutable expected_referent) \<Rightarrow>
                if actual_mutable \<noteq> expected_mutable then Inr False
                else if actual_region \<noteq> expected_region \<and> expected_region \<notin> set callee_regions then Inr False
                else type_assignable_for_call_in_root fuel c actual_referent expected_referent callee_regions
            | (TsSlice actual_region actual_mutable actual_element,
               TsSlice expected_region expected_mutable expected_element) \<Rightarrow>
                if actual_mutable \<noteq> expected_mutable then Inr False
                else if actual_region \<noteq> expected_region \<and> expected_region \<notin> set callee_regions then Inr False
                else type_assignable_for_call_in_root fuel c actual_element expected_element callee_regions
            | (TsBox actual_element, TsBox expected_element) \<Rightarrow>
                type_assignable_for_call_in_root fuel c actual_element expected_element callee_regions
            | (TsVec actual_element, TsVec expected_element) \<Rightarrow>
                type_assignable_for_call_in_root fuel c actual_element expected_element callee_regions
            | (TsFixedArray actual_element actual_len, TsFixedArray expected_element expected_len) \<Rightarrow>
                if actual_len \<noteq> expected_len then Inr False
                else type_assignable_for_call_in_root fuel c actual_element expected_element callee_regions
            | (TsRecord actual_fields, TsRecord expected_fields) \<Rightarrow>
                if length actual_fields \<noteq> length expected_fields then Inr False
                else match_fields (\<lambda>a e. type_assignable_for_call_in_root fuel c (tf_type a) (tf_type e) callee_regions)
                       actual_fields expected_fields
            | (TsEnum actual_fields, TsEnum expected_fields) \<Rightarrow>
                if length actual_fields \<noteq> length expected_fields then Inr False
                else match_fields (\<lambda>a e. type_assignable_for_call_in_root fuel c (tf_type a) (tf_type e) callee_regions)
                       actual_fields expected_fields
            | _ \<Rightarrow> Inr False)))))"

subsection \<open>Reading the metadata of a layout\<close>

definition layout_metadata :: "layout_computer \<Rightarrow> string \<Rightarrow> json res" where
  "layout_metadata c h =
     res_bind (compute_type_layout (lc_fuel c) (lc_env c) (lc_db c) (lc_root c) h (lc_target_triple c))
       (\<lambda>(meta, _). Inr meta)"

definition layout_size_bytes :: "layout_computer \<Rightarrow> string \<Rightarrow> 64 word res" where
  "layout_size_bytes c type_hash =
     res_bind (layout_metadata c type_hash) (\<lambda>meta.
       ok_or (Option.bind (json_get ''size_bytes'' meta) as_u64)
         (Bail ''type layout missing size_bytes for {}'' [type_hash]))"

text \<open>\<open>.get(key).and_then(as_array).into_iter().flatten().find(name)\<close>.\<close>

definition named_entry :: "string \<Rightarrow> string \<Rightarrow> json \<Rightarrow> json option" where
  "named_entry key name meta =
     List.find (\<lambda>entry. Option.bind (json_get ''name'' entry) as_str = Some name)
       (case Option.bind (json_get key meta) as_array of Some entries \<Rightarrow> entries | None \<Rightarrow> [])"

definition layout_field_offset_bytes :: "layout_computer \<Rightarrow> string \<Rightarrow> string \<Rightarrow> 64 word res" where
  "layout_field_offset_bytes c type_hash field =
     res_bind (layout_metadata c type_hash) (\<lambda>meta.
       ok_or (Option.bind (named_entry ''fields'' field meta) (\<lambda>entry.
           Option.bind (json_get ''offset_bytes'' entry) as_u64))
         (Bail ''type layout missing offset for field {}'' [field]))"

record variant_layout =
  vl_symbol :: "string option"
  vl_type :: string
  vl_tag :: "64 word"
  vl_payload_offset :: "64 word"

definition enum_variant_layout :: "json \<Rightarrow> string \<Rightarrow> variant_layout res" where
  "enum_variant_layout layout variant =
     (if Option.bind (json_get ''kind'' layout) as_str \<noteq> Some ''enum''
      then Inl (Bail ''type layout metadata must have kind enum'' [])
      else
        res_bind (ok_or (named_entry ''variants'' variant layout)
            (Bail ''enum layout missing variant {}'' [variant])) (\<lambda>entry.
        res_bind (ok_or (Option.bind (json_get ''type_hash'' entry) as_str)
            (Bail ''enum layout variant {} missing type_hash'' [variant])) (\<lambda>type_hash.
        res_bind (ok_or (Option.bind (json_get ''tag_value'' entry) as_u64)
            (Bail ''enum layout variant {} missing tag_value'' [variant])) (\<lambda>tag_value.
        res_bind (ok_or (Option.bind (json_get ''payload_offset_bytes'' entry) as_u64)
            (Bail ''enum layout variant {} missing payload_offset_bytes'' [variant])) (\<lambda>payload_offset.
          Inr \<lparr>vl_symbol = Option.bind (json_get ''variant_symbol'' entry) as_str, vl_type = type_hash,
               vl_tag = tag_value, vl_payload_offset = payload_offset\<rparr>)))))"

definition type_is_move_only :: "layout_computer \<Rightarrow> string \<Rightarrow> bool res" where
  "type_is_move_only c type_hash =
     res_bind (layout_metadata c type_hash) (\<lambda>meta.
       case Option.bind (json_get ''copy_kind'' meta) as_str of
         None \<Rightarrow> Inl (Bail ''type layout missing copy_kind for {}'' [type_hash])
       | Some kind \<Rightarrow>
           if kind = ''copy'' then Inr False
           else if kind = ''move_only'' then Inr True
           else Inl (Bail ''unknown copy_kind {} for type {}'' [kind, type_hash]))"

subsection \<open>Copies of bytes\<close>

definition sizes_equal :: "layout_computer \<Rightarrow> string \<Rightarrow> string \<Rightarrow> bool res" where
  "sizes_equal c src dst =
     res_bind (layout_size_bytes c src) (\<lambda>src_size.
     res_bind (layout_size_bytes c dst) (\<lambda>dst_size. Inr (src_size = dst_size)))"

definition scalar_layouts_equal :: "layout_computer \<Rightarrow> string \<Rightarrow> string \<Rightarrow> bool res" where
  "scalar_layouts_equal c src dst =
     res_bind (layout_metadata c src) (\<lambda>src_layout.
     res_bind (layout_metadata c dst) (\<lambda>dst_layout.
       Inr (json_get ''kind'' src_layout = json_get ''kind'' dst_layout
         \<and> json_get ''size_bytes'' src_layout = json_get ''size_bytes'' dst_layout
         \<and> json_get ''align_bytes'' src_layout = json_get ''align_bytes'' dst_layout)))"

fun layouts_blind_copy_compatible :: "nat \<Rightarrow> layout_computer \<Rightarrow> string \<Rightarrow> string \<Rightarrow> bool res" where
  "layouts_blind_copy_compatible 0 c src dst = Inl NO_FUEL"
| "layouts_blind_copy_compatible (Suc fuel) c src dst =
     (if src = dst then Inr True
      else
        res_bind (expanded c src) (\<lambda>src_spec.
        res_bind (expanded c dst) (\<lambda>dst_spec.
        case (src_spec, dst_spec) of
          (TsRecord src_fields, TsRecord dst_fields) \<Rightarrow>
            if length src_fields \<noteq> length dst_fields then Inr False
            else
              res_bind (match_fields (\<lambda>src_field dst_field.
                  res_bind (layout_field_offset_bytes c src (tf_name dst_field)) (\<lambda>src_offset.
                  res_bind (layout_field_offset_bytes c dst (tf_name dst_field)) (\<lambda>dst_offset.
                    if src_offset \<noteq> dst_offset then Inr False
                    else layouts_blind_copy_compatible fuel c (tf_type src_field) (tf_type dst_field))))
                  src_fields dst_fields) (\<lambda>ok.
                if ok then sizes_equal c src dst else Inr False)
        | (TsEnum src_variants, TsEnum dst_variants) \<Rightarrow>
            if length src_variants \<noteq> length dst_variants then Inr False
            else
              res_bind (layout_metadata c src) (\<lambda>src_layout.
              res_bind (layout_metadata c dst) (\<lambda>dst_layout.
              res_bind (match_fields (\<lambda>src_variant dst_variant.
                  res_bind (enum_variant_layout src_layout (tf_name dst_variant)) (\<lambda>src_info.
                  res_bind (enum_variant_layout dst_layout (tf_name dst_variant)) (\<lambda>dst_info.
                    if vl_tag src_info \<noteq> vl_tag dst_info \<or> vl_payload_offset src_info \<noteq> vl_payload_offset dst_info
                    then Inr False
                    else layouts_blind_copy_compatible fuel c (tf_type src_variant) (tf_type dst_variant))))
                  src_variants dst_variants) (\<lambda>ok.
                if ok then sizes_equal c src dst else Inr False)))
        | (TsFixedArray src_element src_len, TsFixedArray dst_element dst_len) \<Rightarrow>
            if src_len \<noteq> dst_len then Inr False
            else
              res_bind (layouts_blind_copy_compatible fuel c src_element dst_element) (\<lambda>ok.
                if ok then sizes_equal c src dst else Inr False)
        | (TsBox src_element, TsBox dst_element) \<Rightarrow> layouts_blind_copy_compatible fuel c src_element dst_element
        | (TsRecord _, _) \<Rightarrow> Inr False
        | (_, TsRecord _) \<Rightarrow> Inr False
        | (TsEnum _, _) \<Rightarrow> Inr False
        | (_, TsEnum _) \<Rightarrow> Inr False
        | (TsFixedArray _ _, _) \<Rightarrow> Inr False
        | (_, TsFixedArray _ _) \<Rightarrow> Inr False
        | (TsBox _, _) \<Rightarrow> Inr False
        | (_, TsBox _) \<Rightarrow> Inr False
        | _ \<Rightarrow> scalar_layouts_equal c src dst)))"

subsection \<open>Calls that take no region\<close>

lemma named_for_call [simp]:
  "named_actual_type_assignable_for_call a e [] = named_actual_type_assignable a e"
proof -
  have "length rs = length ss \<Longrightarrow> list_all (\<lambda>(r, s). r = s \<or> s \<in> set []) (zip rs ss) \<longleftrightarrow> rs = ss" for rs ss :: "string list"
    by (induction rs ss rule: list_induct2) auto
  then show ?thesis
    by (auto simp: named_actual_type_assignable_for_call_def named_actual_type_assignable_def split: type_spec.splits)
qed

subsection \<open>The metadata and the layout it comes from\<close>

definition lc_ok :: "layout_computer \<Rightarrow> bool" where
  "lc_ok c \<longleftrightarrow> target_layout_of (lc_target_triple c) = Inr (lc_target c)"

lemma layout_metadata_iff:
  assumes "lc_ok c"
  shows "layout_metadata c h = Inr m \<longleftrightarrow> (\<exists>l ds es. layout_type c [] h [] = Inr (l, ds) \<and> cl_metadata l = JObj es
    \<and> m = JObj (bmap_insert ''type_dependency_hashes'' (str_array ds) es))"
proof -
  have c: "\<lparr>lc_fuel = lc_fuel c, lc_env = lc_env c, lc_db = lc_db c, lc_root = lc_root c,
      lc_target_triple = lc_target_triple c, lc_target = lc_target c\<rparr> = c" by simp
  note unfold = layout_metadata_def compute_type_layout_def assms [unfolded lc_ok_def] c
  show ?thesis
  proof (cases "layout_type c [] h []")
    case (Inr r)
    obtain l ds where r: "r = (l, ds)" by (cases r)
    show ?thesis by (cases "cl_metadata l") (auto simp: unfold Inr r simp del: res_bind_eq_Inr)
  qed (simp add: unfold del: res_bind_eq_Inr)
qed

lemma metadata_get:
  assumes "lc_ok c" "layout_metadata c h = Inr m"
  obtains l ds where "layout_type c [] h [] = Inr (l, ds)" "layout_ok l"
    "\<And>k. k \<noteq> ''type_dependency_hashes'' \<Longrightarrow> json_get k m = json_get k (cl_metadata l)"
proof -
  from assms layout_metadata_iff obtain l ds es where l: "layout_type c [] h [] = Inr (l, ds)" "cl_metadata l = JObj es"
    "m = JObj (bmap_insert ''type_dependency_hashes'' (str_array ds) es)" by blast
  moreover have "layout_ok l"
    using lays_okD [OF layout_type_lays_ok [OF target_layout_ok]] l(1) assms(1) by (auto simp: lc_ok_def)
  ultimately show thesis using that [of l ds] by simp
qed

subsection \<open>Places inside a value\<close>

text \<open>
  A place inside a value, down from its type: a field of a record, an element of an array, the
  payload of a variant. It has an offset, the tags the enums on the way have to have, and a type.
  A pointer is a place; what is behind it is not.
\<close>

datatype place_step = Field string | Elem nat | Payload string

definition array_stride :: "layout_computer \<Rightarrow> string \<Rightarrow> 64 word res" where
  "array_stride c h =
     res_bind (layout_metadata c h) (\<lambda>meta.
       ok_or (Option.bind (json_get ''stride_bytes'' meta) as_u64) (Bail ''no stride'' []))"

definition step_place :: "layout_computer \<Rightarrow> string \<Rightarrow> place_step \<Rightarrow> (nat \<times> 64 word list \<times> string) res" where
  "step_place c h step =
     res_bind (expanded c h) (\<lambda>spec.
     case (step, spec) of
       (Field f, TsRecord fs) \<Rightarrow>
         res_bind (ok_or (List.find (\<lambda>field. tf_name field = f) fs) (Bail ''no field'' [])) (\<lambda>field.
         res_bind (layout_field_offset_bytes c h f) (\<lambda>offset. Inr (unat offset, [], tf_type field)))
     | (Elem i, TsFixedArray element len) \<Rightarrow>
         if unat len \<le> i then Inl (Bail ''out of bounds'' [])
         else res_bind (array_stride c h) (\<lambda>stride. Inr (i * unat stride, [], element))
     | (Payload v, TsEnum fs) \<Rightarrow>
         res_bind (ok_or (List.find (\<lambda>field. tf_name field = v) fs) (Bail ''no variant'' [])) (\<lambda>field.
         res_bind (layout_metadata c h) (\<lambda>meta.
         res_bind (enum_variant_layout meta v) (\<lambda>info.
           Inr (unat (vl_payload_offset info), [vl_tag info], tf_type field))))
     | _ \<Rightarrow> Inl (Bail ''no such place'' []))"

fun place :: "layout_computer \<Rightarrow> string \<Rightarrow> place_step list \<Rightarrow> (nat \<times> 64 word list \<times> string) res" where
  "place c h [] = Inr (0, [], h)"
| "place c h (step # path) =
     res_bind (step_place c h step) (\<lambda>(offset, tags, part).
     res_bind (place c part path) (\<lambda>(offset', tags', leaf). Inr (offset + offset', tags @ tags', leaf)))"

lemma match_fields_True:
  "match_fields related src dst = Inr True \<Longrightarrow> d \<in> set dst \<Longrightarrow>
    \<exists>s. List.find (\<lambda>x. tf_name x = tf_name d) src = Some s \<and> related s d = Inr True"
  by (induction dst) (auto split: option.splits if_splits)

lemma find_name: "List.find (\<lambda>field. tf_name field = f) fs = Some field \<Longrightarrow> field \<in> set fs \<and> tf_name field = f"
  by (auto dest: find_Some_in)

lemma expanded_array:
  assumes "expanded c h = Inr (TsFixedArray e len)"
  shows "loaded c h = Inr (TsFixedArray e len)"
proof -
  from assms obtain spec where spec: "loaded c h = Inr spec" by (auto simp: type_spec_in_root_def)
  have "\<exists>fs. r = TsRecord fs \<or> r = TsEnum fs" if "loaded c h = Inr (TsNamed a rs ts)" "expanded c h = Inr r" for a rs ts r
  proof -
    from that obtain x where "(case x of (def, regions, param_args) \<Rightarrow>
        (case def of
           TdRecord _ _ _ members \<Rightarrow>
             res_bind (substitute_members (lc_fuel c) (lc_env c) (lc_db c) members regions param_args) (\<lambda>fs. Inr (TsRecord fs))
         | TdEnum _ _ _ members \<Rightarrow>
             res_bind (substitute_members (lc_fuel c) (lc_env c) (lc_db c) members regions param_args) (\<lambda>fs. Inr (TsEnum fs)))) = Inr r"
      by (fastforce simp: type_spec_in_root_def)
    then show ?thesis by (cases x; cases "fst x") auto
  qed
  with assms spec show ?thesis by (cases spec) (fastforce simp: type_spec_in_root_def)+
qed

lemma array_size:
  assumes ok: "lc_ok c" and spec: "expanded c h = Inr (TsFixedArray e len)"
    and stride: "array_stride c h = Inr s" and size: "layout_size_bytes c h = Inr z"
  shows "unat z = unat s * unat len"
proof -
  from stride obtain m where m: "layout_metadata c h = Inr m" by (auto simp: array_stride_def)
  obtain l ds where l: "layout_type c [] h [] = Inr (l, ds)" and get: "\<And>k. k \<noteq> ''type_dependency_hashes'' \<Longrightarrow> json_get k m = json_get k (cl_metadata l)"
    using metadata_get [OF ok m] by blast
  from l expanded_array [OF spec] obtain st where st: "checked_mul st len = Some (cl_size l)" "json_get ''stride_bytes'' (cl_metadata l) = Some (json_u64 st)"
    "json_get ''size_bytes'' (cl_metadata l) = Some (json_u64 (cl_size l))"
    by (auto simp: layout_type_Inr layout_type_inner_def layout_fixed_array_def layout_with_def base_metadata_def)
  have u64: "as_u64 (json_u64 w) = Some w" for w by (simp add: json_u64_def)
  have "s = st" using stride m get st(2) by (simp add: array_stride_def u64)
  moreover have "z = cl_size l" using size m get st(3) by (simp add: layout_size_bytes_def u64)
  ultimately show ?thesis using unat_checked_mul [OF st(1)] by simp
qed

lemma array_strides:
  assumes ok: "lc_ok c" and "expanded c src = Inr (TsFixedArray e len)" "expanded c dst = Inr (TsFixedArray e' len)"
    and "sizes_equal c src dst = Inr True" "0 < unat len"
    and src: "array_stride c src = Inr s" and dst: "array_stride c dst = Inr s'"
  shows "s = s'"
proof -
  from assms(4) obtain z where "layout_size_bytes c src = Inr z" "layout_size_bytes c dst = Inr z"
    by (auto simp: sizes_equal_def)
  from array_size [OF ok assms(2) src this(1)] array_size [OF ok assms(3) dst this(2)] assms(5)
  have "unat s = unat s'" by simp
  then show ?thesis by (simp only: word_unat_eq_iff)
qed

lemma array_has_stride:
  assumes ok: "lc_ok c" and spec: "expanded c h = Inr (TsFixedArray e len)" and size: "layout_size_bytes c h = Inr z"
  shows "\<exists>s. array_stride c h = Inr s"
proof -
  from size obtain m where m: "layout_metadata c h = Inr m" by (auto simp: layout_size_bytes_def)
  obtain l ds where l: "layout_type c [] h [] = Inr (l, ds)" and get: "\<And>k. k \<noteq> ''type_dependency_hashes'' \<Longrightarrow> json_get k m = json_get k (cl_metadata l)"
    using metadata_get [OF ok m] by blast
  from l expanded_array [OF spec] obtain st where "json_get ''stride_bytes'' (cl_metadata l) = Some (json_u64 st)"
    by (auto simp: layout_type_Inr layout_type_inner_def layout_fixed_array_def layout_with_def base_metadata_def)
  then show ?thesis using m get by (simp add: array_stride_def json_u64_def)
qed

lemma blind_record:
  assumes "layouts_blind_copy_compatible (Suc n) c src dst = Inr True" "src \<noteq> dst" "expanded c dst = Inr (TsRecord ds)"
  obtains ss where "expanded c src = Inr (TsRecord ss)"
    "match_fields (\<lambda>s d. res_bind (layout_field_offset_bytes c src (tf_name d)) (\<lambda>so.
        res_bind (layout_field_offset_bytes c dst (tf_name d)) (\<lambda>do.
          if so \<noteq> do then Inr False else layouts_blind_copy_compatible n c (tf_type s) (tf_type d)))) ss ds = Inr True"
proof -
  from assms obtain spec where spec: "expanded c src = Inr spec" by auto
  with assms that show thesis by (cases spec) (auto split: if_splits)
qed

lemma blind_enum:
  assumes "layouts_blind_copy_compatible (Suc n) c src dst = Inr True" "src \<noteq> dst" "expanded c dst = Inr (TsEnum ds)"
  obtains ss src_layout dst_layout where "expanded c src = Inr (TsEnum ss)"
    "layout_metadata c src = Inr src_layout" "layout_metadata c dst = Inr dst_layout"
    "match_fields (\<lambda>s d. res_bind (enum_variant_layout src_layout (tf_name d)) (\<lambda>so.
        res_bind (enum_variant_layout dst_layout (tf_name d)) (\<lambda>do.
          if vl_tag so \<noteq> vl_tag do \<or> vl_payload_offset so \<noteq> vl_payload_offset do then Inr False
          else layouts_blind_copy_compatible n c (tf_type s) (tf_type d)))) ss ds = Inr True"
proof -
  from assms obtain spec where spec: "expanded c src = Inr spec" by auto
  with assms that show thesis by (cases spec) (auto split: if_splits)
qed

lemma blind_array:
  assumes "layouts_blind_copy_compatible (Suc n) c src dst = Inr True" "src \<noteq> dst" "expanded c dst = Inr (TsFixedArray e len)"
  obtains e' where "expanded c src = Inr (TsFixedArray e' len)" "layouts_blind_copy_compatible n c e' e = Inr True"
    "sizes_equal c src dst = Inr True"
proof -
  from assms obtain spec where spec: "expanded c src = Inr spec" by auto
  with assms that show thesis by (cases spec) (auto split: if_splits)
qed

lemma step_agrees:
  assumes ok: "lc_ok c" and copy: "layouts_blind_copy_compatible n c src dst = Inr True"
    and step: "step_place c dst step = Inr (offset, tags, part)"
  shows "\<exists>part' m. step_place c src step = Inr (offset, tags, part') \<and> layouts_blind_copy_compatible m c part' part = Inr True"
proof (cases "src = dst")
  case True
  have "layouts_blind_copy_compatible (Suc 0) c part part = Inr True" by simp
  with True step show ?thesis by blast
next
  case False
  from copy obtain k where n: "n = Suc k" by (cases n) auto
  note copy = copy [unfolded n]
  from step obtain spec where spec: "expanded c dst = Inr spec" by (auto simp: step_place_def)
  show ?thesis
  proof (cases step)
    case (Field f)
    with step spec obtain ds d off where ds: "spec = TsRecord ds" and d: "List.find (\<lambda>field. tf_name field = f) ds = Some d"
      and off: "layout_field_offset_bytes c dst f = Inr off" "offset = unat off" "tags = []" "part = tf_type d"
      by (cases spec) (auto simp: step_place_def)
    from blind_record [OF copy False] spec ds obtain ss where ss: "expanded c src = Inr (TsRecord ss)"
      "match_fields (\<lambda>s d. res_bind (layout_field_offset_bytes c src (tf_name d)) (\<lambda>so.
        res_bind (layout_field_offset_bytes c dst (tf_name d)) (\<lambda>do.
          if so \<noteq> do then Inr False else layouts_blind_copy_compatible k c (tf_type s) (tf_type d)))) ss ds = Inr True"
      by blast
    from match_fields_True [OF ss(2)] find_name [OF d] obtain s where "List.find (\<lambda>x. tf_name x = f) ss = Some s"
      "layout_field_offset_bytes c src f = Inr off" "layouts_blind_copy_compatible k c (tf_type s) (tf_type d) = Inr True"
      using off(1) by (fastforce split: if_splits)
    with ss(1) off Field show ?thesis by (auto simp: step_place_def)
  next
    case (Elem i)
    with step spec obtain e len stride where e: "spec = TsFixedArray e len" "i < unat len" "array_stride c dst = Inr stride"
      "offset = i * unat stride" "tags = []" "part = e"
      by (cases spec) (auto simp: step_place_def split: if_splits)
    from blind_array [OF copy False] spec e(1) obtain e' where e': "expanded c src = Inr (TsFixedArray e' len)"
      "layouts_blind_copy_compatible k c e' e = Inr True" "sizes_equal c src dst = Inr True" by blast
    from e'(3) obtain z where "layout_size_bytes c src = Inr z" by (auto simp: sizes_equal_def)
    from array_has_stride [OF ok e'(1) this] obtain s where s: "array_stride c src = Inr s" by blast
    from array_strides [OF ok e'(1) _ e'(3) _ s e(3)] spec e(1,2) have "s = stride" by simp
    with e e' s Elem show ?thesis by (auto simp: step_place_def)
  next
    case (Payload v)
    with step spec obtain ds d meta info where ds: "spec = TsEnum ds" and d: "List.find (\<lambda>field. tf_name field = v) ds = Some d"
      and info: "layout_metadata c dst = Inr meta" "enum_variant_layout meta v = Inr info"
        "offset = unat (vl_payload_offset info)" "tags = [vl_tag info]" "part = tf_type d"
      by (cases spec) (auto simp: step_place_def)
    from blind_enum [OF copy False] spec ds obtain ss sl dl where ss: "expanded c src = Inr (TsEnum ss)"
      "layout_metadata c src = Inr sl" "layout_metadata c dst = Inr dl"
      "match_fields (\<lambda>s d. res_bind (enum_variant_layout sl (tf_name d)) (\<lambda>so.
        res_bind (enum_variant_layout dl (tf_name d)) (\<lambda>do.
          if vl_tag so \<noteq> vl_tag do \<or> vl_payload_offset so \<noteq> vl_payload_offset do then Inr False
          else layouts_blind_copy_compatible k c (tf_type s) (tf_type d)))) ss ds = Inr True"
      by blast
    from match_fields_True [OF ss(4)] find_name [OF d] obtain s info' where "List.find (\<lambda>x. tf_name x = v) ss = Some s"
      "enum_variant_layout sl v = Inr info'" "vl_tag info' = vl_tag info" "vl_payload_offset info' = vl_payload_offset info"
      "layouts_blind_copy_compatible k c (tf_type s) (tf_type d) = Inr True"
      using info(1,2) ss(3) by (fastforce split: if_splits)
    with ss(1,2) info Payload show ?thesis by (auto simp: step_place_def)
  qed
qed

subsection \<open>Classes of values\<close>

fun type_is_concrete :: "nat \<Rightarrow> layout_computer \<Rightarrow> string \<Rightarrow> bool res" where
  "type_is_concrete 0 c type_hash = Inl NO_FUEL"
| "type_is_concrete (Suc fuel) c type_hash =
     res_bind (loaded c type_hash) (\<lambda>spec.
       case spec of
         TsTypeParam _ \<Rightarrow> Inr False
       | TsBuiltin _ \<Rightarrow> Inr True
       | TsString \<Rightarrow> Inr True
       | TsNamed _ _ type_args \<Rightarrow>
           res_fold (\<lambda>arg concrete. res_bind (type_is_concrete fuel c arg) (\<lambda>b. Inr (concrete \<and> b))) type_args True
       | TsReference _ _ inner \<Rightarrow> type_is_concrete fuel c inner
       | TsRawPointer _ inner \<Rightarrow> type_is_concrete fuel c inner
       | TsBox inner \<Rightarrow> type_is_concrete fuel c inner
       | TsVec inner \<Rightarrow> type_is_concrete fuel c inner
       | TsSlice _ _ inner \<Rightarrow> type_is_concrete fuel c inner
       | TsFixedArray inner _ \<Rightarrow> type_is_concrete fuel c inner
       | TsRecord members \<Rightarrow>
           res_fold (\<lambda>m concrete. res_bind (type_is_concrete fuel c (tf_type m)) (\<lambda>b. Inr (concrete \<and> b))) members True
       | TsEnum members \<Rightarrow>
           res_fold (\<lambda>m concrete. res_bind (type_is_concrete fuel c (tf_type m)) (\<lambda>b. Inr (concrete \<and> b))) members True)"

record value_class =
  vc_copy_kind :: copy_kind
  vc_drop_kind :: drop_kind
  vc_contains_reference :: bool
  vc_contains_mut_reference :: bool
  vc_contains_box :: bool

definition metadata_flag :: "string \<Rightarrow> string \<Rightarrow> json \<Rightarrow> bool res" where
  "metadata_flag key type_hash meta =
     ok_or (Option.bind (json_get key meta) as_bool) (Bail ''type layout missing {} for {}'' [key, type_hash])"

text \<open>The target of \<open>c\<close> is \<open>DEFAULT_NATIVE_TARGET\<close> in the code.\<close>

definition value_class_in_root :: "nat \<Rightarrow> layout_computer \<Rightarrow> string \<Rightarrow> value_class res" where
  "value_class_in_root fuel c type_hash =
     res_bind (type_is_concrete fuel c type_hash) (\<lambda>concrete.
       if \<not> concrete
       then Inr \<lparr>vc_copy_kind = MoveOnly, vc_drop_kind = NeedsDrop, vc_contains_reference = False,
             vc_contains_mut_reference = False, vc_contains_box = False\<rparr>
       else
         res_bind (layout_metadata c type_hash) (\<lambda>meta.
         res_bind (case Option.bind (json_get ''copy_kind'' meta) as_str of
             None \<Rightarrow> Inl (Bail ''type layout missing copy_kind for {}'' [type_hash])
           | Some kind \<Rightarrow>
               if kind = ''copy'' then Inr Copy
               else if kind = ''move_only'' then Inr MoveOnly
               else Inl (Bail ''unknown copy_kind {} for type {}'' [kind, type_hash])) (\<lambda>copy_kind.
         res_bind (case Option.bind (json_get ''drop_kind'' meta) as_str of
             None \<Rightarrow> Inl (Bail ''type layout missing drop_kind for {}'' [type_hash])
           | Some kind \<Rightarrow>
               if kind = ''trivial'' then Inr Trivial
               else if kind = ''needs_drop'' then Inr NeedsDrop
               else Inl (Bail ''unknown drop_kind {} for type {}'' [kind, type_hash])) (\<lambda>drop_kind.
         res_bind (metadata_flag ''contains_reference'' type_hash meta) (\<lambda>contains_reference.
         res_bind (metadata_flag ''contains_mut_reference'' type_hash meta) (\<lambda>contains_mut_reference.
         res_bind (metadata_flag ''contains_box'' type_hash meta) (\<lambda>contains_box.
           Inr \<lparr>vc_copy_kind = copy_kind, vc_drop_kind = drop_kind, vc_contains_reference = contains_reference,
                vc_contains_mut_reference = contains_mut_reference, vc_contains_box = contains_box\<rparr>)))))))"

text \<open>The fields of the metadata that the class decides, for every layout that is computed.\<close>

definition class_recorded :: "computed_layout \<Rightarrow> bool" where
  "class_recorded l \<longleftrightarrow>
     json_get ''contains_reference'' (cl_metadata l) = Some (JBool (contains_reference (cl_class l))) \<and>
     json_get ''contains_mut_reference'' (cl_metadata l) = Some (JBool (contains_mut_reference (cl_class l))) \<and>
     json_get ''contains_box'' (cl_metadata l) = Some (JBool (contains_box (cl_class l)))"

lemma recorded_with [simp]: "class_recorded (layout_with c h k s a cls es)"
  by (simp add: class_recorded_def layout_with_def base_metadata_def)

lemma inner_recorded: "layout_type_inner c lay h spec ds = Inr (l, ds') \<Longrightarrow> class_recorded l"
proof (cases spec)
  case (TsNamed sym_hash rs ts)
  assume "layout_type_inner c lay h spec ds = Inr (l, ds')"
  with TsNamed have "layout_named c lay h sym_hash rs ts ds = Inr (l, ds')" by (simp add: layout_type_inner_def)
  then show ?thesis by (cases rule: layout_named_cases) (auto simp: layout_record_def layout_enum_def Let_def)
qed (auto simp: layout_type_inner_def keep_deps_def layout_builtin_def layout_reference_def layout_raw_pointer_def layout_box_def
    layout_pointer_def layout_vec_def layout_string_def layout_slice_def layout_fixed_array_def layout_record_def
    layout_enum_def Let_def)

lemma copy_cases: "k \<noteq> Copy \<longleftrightarrow> k = MoveOnly" "k \<noteq> MoveOnly \<longleftrightarrow> k = Copy"
  by (cases k; simp)+

lemma move_only_class:
  assumes "lc_ok c"
  shows "type_is_move_only c h = Inr b \<longleftrightarrow>
    (\<exists>l ds. layout_type c [] h [] = Inr (l, ds) \<and> b = (cls_copy_kind (cl_class l) = MoveOnly) \<and> is_ok (layout_metadata c h))"
proof (cases "layout_metadata c h")
  case (Inr m)
  obtain l ds where l: "layout_type c [] h [] = Inr (l, ds)" "layout_ok l"
    "\<And>k. k \<noteq> ''type_dependency_hashes'' \<Longrightarrow> json_get k m = json_get k (cl_metadata l)"
    using metadata_get [OF assms Inr] by blast
  then show ?thesis
    by (cases "cls_copy_kind (cl_class l)") (auto simp: type_is_move_only_def Inr layout_ok_def)
qed (simp add: type_is_move_only_def del: res_bind_eq_Inr)

lemma metadata_ok:
  assumes "lc_ok c" "layout_type c [] h [] = Inr (l, ds)"
  shows "is_ok (layout_metadata c h)"
proof -
  have "json_get ''size_bytes'' (cl_metadata l) = Some (json_u64 (cl_size l))"
    using lays_okD [OF layout_type_lays_ok [OF target_layout_ok]] assms by (auto simp: lc_ok_def layout_ok_def)
  then obtain es where "cl_metadata l = JObj es" by (cases "cl_metadata l") auto
  with layout_metadata_iff [OF assms(1)] assms(2) have "\<exists>m. layout_metadata c h = Inr m" by blast
  then show ?thesis by (auto simp: is_ok_iff)
qed

definition lays_out :: "lay \<Rightarrow> layout_member \<Rightarrow> computed_layout \<Rightarrow> bool" where
  "lays_out lay m l \<longleftrightarrow> (\<exists>ds ds'. lay (lm_type m) ds = Inr (l, ds'))"

lemma lays_outI: "lay (lm_type m) ds = Inr (l, ds') \<Longrightarrow> lays_out lay m l"
  by (auto simp: lays_out_def)

definition moves :: "layout_class \<Rightarrow> bool" where
  "moves cls \<longleftrightarrow> cls_copy_kind cls = MoveOnly"

lemma moves_merge [simp]: "moves (class_merge a b) \<longleftrightarrow> moves a \<or> moves b" "\<not> moves class_copy"
  by (auto simp: moves_def class_merge_def class_copy_def copy_cases)

lemma fields_class:
  "res_fold (layout_field lay th) ms s = Inr s' \<Longrightarrow>
    \<exists>ls. list_all2 (lays_out lay) ms ls \<and> (moves (rs_class s') \<longleftrightarrow> moves (rs_class s) \<or> (\<exists>l \<in> set ls. moves (cl_class l)))"
proof (induction ms arbitrary: s)
  case (Cons m ms)
  then obtain t where t: "layout_field lay th m s = Inr t" "res_fold (layout_field lay th) ms t = Inr s'" by auto
  from t(1) obtain l where l: "lays_out lay m l" "rs_class t = class_merge (rs_class s) (cl_class l)"
    by (auto simp: layout_field_Inr dest: lays_outI)
  from Cons.IH [OF t(2)] obtain ls where "list_all2 (lays_out lay) ms ls"
    "moves (rs_class s') \<longleftrightarrow> moves (rs_class t) \<or> (\<exists>l \<in> set ls. moves (cl_class l))" by blast
  with l show ?case by (intro exI [of _ "l # ls"]) auto
qed simp

lemma variants_class:
  "res_fold (layout_variant lay) ms s = Inr s' \<Longrightarrow>
    \<exists>ls. list_all2 (lays_out lay) ms ls \<and> (moves (es_class s') \<longleftrightarrow> moves (es_class s) \<or> (\<exists>l \<in> set ls. moves (cl_class l)))"
proof (induction ms arbitrary: s)
  case (Cons m ms)
  then obtain t where t: "layout_variant lay m s = Inr t" "res_fold (layout_variant lay) ms t = Inr s'" by auto
  from t(1) obtain l where l: "lays_out lay m l" "es_class t = class_merge (es_class s) (cl_class l)"
    by (auto simp: layout_variant_Inr dest: lays_outI)
  from Cons.IH [OF t(2)] obtain ls where "list_all2 (lays_out lay) ms ls"
    "moves (es_class s') \<longleftrightarrow> moves (es_class t) \<or> (\<exists>l \<in> set ls. moves (cl_class l))" by blast
  with l show ?case by (intro exI [of _ "l # ls"]) auto
qed simp

lemma members_class:
  assumes run: "layout_type c [] h [] = Inr (l, ds)" and spec: "expanded c h = Inr spec" "spec = TsRecord fs \<or> spec = TsEnum fs"
  shows "\<exists>ls. list_all2 (\<lambda>t k. \<exists>es. layout_type c [] t [] = Inr (k, es)) (map tf_type fs) ls
    \<and> (moves (cl_class l) \<longleftrightarrow> (\<exists>k \<in> set ls. moves (cl_class k)))"
proof -
  let ?lay = "layout_type c (bset_insert h [])"
  have "\<exists>ms ls. map lm_type ms = map tf_type fs \<and> list_all2 (lays_out ?lay) ms ls
      \<and> (moves (cl_class l) \<longleftrightarrow> (\<exists>k \<in> set ls. moves (cl_class k)))"
    using spec(2)
  proof
    assume "spec = TsRecord fs"
    from expanded_layout(1) [OF run spec(1) this] obtain ts td ms d1 d2 where ms: "map lm_type ms = map tf_type fs"
      and r: "layout_record c ?lay h ts td ms d1 = Inr (l, d2)" by blast
    from r obtain s where "res_fold (layout_field ?lay h) ms
        \<lparr>rs_offset = 0, rs_size = 0, rs_align = 1, rs_class = class_copy, rs_fields = [], rs_deps = d1\<rparr> = Inr s"
      "cl_class l = rs_class s" by (auto simp: layout_record_def)
    with fields_class ms show ?thesis by fastforce
  next
    assume "spec = TsEnum fs"
    from expanded_layout(2) [OF run spec(1) this] obtain ts td ms d1 d2 where ms: "map lm_type ms = map tf_type fs"
      and r: "layout_enum c ?lay h ts td ms d1 = Inr (l, d2)" by blast
    from r obtain s where "res_fold (layout_variant ?lay) ms
        \<lparr>es_payload_size = 0, es_payload_align = 1, es_class = class_copy, es_layouts = [], es_deps = d1\<rparr> = Inr s"
      "cl_class l = es_class s" by (auto simp: layout_enum_def Let_def)
    with variants_class ms show ?thesis by fastforce
  qed
  then obtain ms ls where ms: "map lm_type ms = map tf_type fs" and ls: "list_all2 (lays_out ?lay) ms ls"
    and cls: "moves (cl_class l) \<longleftrightarrow> (\<exists>k \<in> set ls. moves (cl_class k))" by blast
  have "list_all2 (\<lambda>t k. \<exists>es. layout_type c [] t [] = Inr (k, es)) (map lm_type ms) ls"
    using ls unfolding list_all2_map1
    by (rule list_all2_mono) (auto simp: lays_out_def dest: layout_context_free)
  with ms cls show ?thesis by auto
qed

subsection \<open>Vectors\<close>

definition vec_shape :: "layout_computer \<Rightarrow> 64 word \<times> 64 word" where
  "vec_shape c = (case align_up (pointer_size_bytes (lc_target c)) 8 of
     Inr len_offset \<Rightarrow> (len_offset + 16, max (pointer_align_bytes (lc_target c)) 8)
   | Inl _ \<Rightarrow> (0, 0))"

lemma vec_metadata:
  assumes "lc_ok c" "loaded c v = Inr (TsVec e)" "is_ok (layout_metadata c v)"
  shows "\<exists>m s a. layout_metadata c v = Inr m \<and> vec_shape c = (s, a) \<and> json_get ''kind'' m = Some (JStr ''vec'')
    \<and> json_get ''size_bytes'' m = Some (json_u64 s) \<and> json_get ''align_bytes'' m = Some (json_u64 a)"
proof -
  from assms(3) obtain m where m: "layout_metadata c v = Inr m" by (auto simp: is_ok_iff)
  obtain l ds where l: "layout_type c [] v [] = Inr (l, ds)"
    and get: "\<And>k. k \<noteq> ''type_dependency_hashes'' \<Longrightarrow> json_get k m = json_get k (cl_metadata l)"
    using metadata_get [OF assms(1) m] by blast
  from l assms(2) obtain k where k: "align_up (pointer_size_bytes (lc_target c)) 8 = Inr k"
    "json_get ''kind'' (cl_metadata l) = Some (JStr ''vec'')"
    "json_get ''size_bytes'' (cl_metadata l) = Some (json_u64 (k + 16))"
    "json_get ''align_bytes'' (cl_metadata l) = Some (json_u64 (max (pointer_align_bytes (lc_target c)) 8))"
    by (auto simp: layout_type_Inr layout_type_inner_def layout_vec_def layout_with_def base_metadata_def
        checked_add_def split: if_splits)
  then show ?thesis using m get by (simp add: vec_shape_def)
qed

subsection \<open>What the component promises\<close>

text \<open>C22. When the lowering lets the bytes of a value of one type be read as another, every place the
  other type has inside the value is a place of the first: the field, array element or payload of the
  same name or index, at the same offset and under the same tags, down any path; and the types at its
  end are again compatible. So a copy never moves a field, whatever the order of declaration.\<close>

theorem byte_copies_keep_places:
  assumes "lc_ok c" and "layouts_blind_copy_compatible n c src dst = Inr True"
    and "place c dst path = Inr (offset, tags, leaf)"
  shows "\<exists>leaf' m. place c src path = Inr (offset, tags, leaf') \<and> layouts_blind_copy_compatible m c leaf' leaf = Inr True"
  using assms(2,3)
proof (induction path arbitrary: n src dst offset tags)
  case (Cons step path)
  from Cons.prems(2) obtain off1 tags1 part off2 tags2 where step: "step_place c dst step = Inr (off1, tags1, part)"
    and rest: "place c part path = Inr (off2, tags2, leaf)" "offset = off1 + off2" "tags = tags1 @ tags2" by auto
  from step_agrees [OF assms(1) Cons.prems(1) step] obtain part' m where part': "step_place c src step = Inr (off1, tags1, part')"
    "layouts_blind_copy_compatible m c part' part = Inr True" by blast
  from Cons.IH [OF part'(2) rest(1)] part'(1) rest(2,3) show ?case by auto
qed auto

text \<open>C23. A value of a record or an enum is moved and never copied exactly when a value of one of its
  fields or payloads is: the class the layout gives a type follows from the classes its members have
  on their own, and when the type has one, all of them do.\<close>

theorem moves_with_its_parts:
  assumes "lc_ok c" and "type_is_move_only c h = Inr b"
    and "type_spec_in_root (lc_fuel c) (lc_env c) (lc_db c) (lc_root c) h = Inr spec"
    and "spec = TsRecord fs \<or> spec = TsEnum fs"
  shows "(\<forall>field \<in> set fs. is_ok (type_is_move_only c (tf_type field)))
    \<and> (b \<longleftrightarrow> (\<exists>field \<in> set fs. type_is_move_only c (tf_type field) = Inr True))"
proof -
  from assms(2) move_only_class [OF assms(1)] obtain l ds where run: "layout_type c [] h [] = Inr (l, ds)"
    and b: "b \<longleftrightarrow> moves (cl_class l)" by (auto simp: moves_def)
  from members_class [OF run assms(3,4)] obtain ls
    where ls: "list_all2 (\<lambda>t k. \<exists>es. layout_type c [] t [] = Inr (k, es)) (map tf_type fs) ls"
      "moves (cl_class l) \<longleftrightarrow> (\<exists>k \<in> set ls. moves (cl_class k))" by blast
  have part: "list_all2 (\<lambda>field k. type_is_move_only c (tf_type field) = Inr (moves (cl_class k))) fs ls"
    using ls(1) unfolding list_all2_map1
    by (rule list_all2_mono) (use move_only_class [OF assms(1)] metadata_ok [OF assms(1)] in \<open>fastforce simp: moves_def\<close>)
  then show ?thesis
    unfolding b ls(2) by (induction rule: list_all2_induct) auto
qed

text \<open>C24. The checker and the lowering agree on what a value is: for a type without parameters, the class
  the type checker computes says that values move exactly when the lowering takes the type for
  move-only; and they move exactly when they have to be dropped or hold a mutable reference.\<close>

theorem classes_agree:
  assumes "lc_ok c" and "type_is_concrete n c h = Inr True" and "value_class_in_root n c h = Inr vc"
  shows "type_is_move_only c h = Inr (vc_copy_kind vc = MoveOnly)
    \<and> (vc_copy_kind vc = MoveOnly \<longleftrightarrow> vc_drop_kind vc = NeedsDrop \<or> vc_contains_mut_reference vc)
    \<and> (vc_contains_box vc \<longrightarrow> vc_drop_kind vc = NeedsDrop) \<and> (vc_contains_mut_reference vc \<longrightarrow> vc_contains_reference vc)"
proof -
  from assms(2,3) obtain m where m: "layout_metadata c h = Inr m" by (auto simp: value_class_in_root_def)
  obtain l ds where l: "layout_type c [] h [] = Inr (l, ds)" "layout_ok l"
    "\<And>k. k \<noteq> ''type_dependency_hashes'' \<Longrightarrow> json_get k m = json_get k (cl_metadata l)"
    using metadata_get [OF assms(1) m] by blast
  have rec: "class_recorded l" using l(1) inner_recorded by (auto simp: layout_type_Inr)
  have "vc = \<lparr>vc_copy_kind = cls_copy_kind (cl_class l), vc_drop_kind = cls_drop_kind (cl_class l),
      vc_contains_reference = contains_reference (cl_class l), vc_contains_mut_reference = contains_mut_reference (cl_class l),
      vc_contains_box = contains_box (cl_class l)\<rparr>"
    using assms(2,3) m l(2,3) rec
    by (cases "cls_copy_kind (cl_class l)"; cases "cls_drop_kind (cl_class l)")
      (auto simp: value_class_in_root_def metadata_flag_def layout_ok_def class_recorded_def)
  moreover have "type_is_move_only c h = Inr (cls_copy_kind (cl_class l) = MoveOnly)"
    using move_only_class [OF assms(1)] l(1) m by auto
  ultimately show ?thesis using l(2) by (auto simp: layout_ok_def class_ok_def)
qed

text \<open>C25. For a call that gives no region parameters away, the assignability of arguments is that of
  every other value: the two walks, which differ in their treatment of regions, agree on all types.\<close>

theorem calls_assign_alike:
  "type_assignable_for_call_in_root n c actual expected [] = type_assignable_in_root n c actual expected"
proof (induction n arbitrary: actual expected)
  case (Suc n)
  have "match_fields (\<lambda>a e. type_assignable_for_call_in_root n c (tf_type a) (tf_type e) []) as es
      = match_fields (\<lambda>a e. type_assignable_in_root n c (tf_type a) (tf_type e)) as es" for as es
    by (simp only: Suc.IH)
  then show ?case
    by (simp only: type_assignable_for_call_in_root.simps type_assignable_in_root.simps named_for_call Suc.IH)
      (auto intro!: res_bind_cong split: option.splits type_spec.splits prod.splits)
qed simp

text \<open>What a vector points to is not checked: of two distinct vector types that have layouts, one
  is always taken for a byte copy of the other, whatever the elements, and the checker assigns one to the
  other as soon as the elements are assignable. So two element records with the same fields at other
  offsets pass both checks.\<close>

lemma vec_elements_unchecked:
  assumes "lc_ok c" and "type_spec_of (lc_env c) (lc_db c) v = Inr (TsVec e)"
    and "type_spec_of (lc_env c) (lc_db c) v' = Inr (TsVec e')" and "v \<noteq> v'"
    and "is_ok (layout_metadata c v)" and "is_ok (layout_metadata c v')"
  shows "layouts_blind_copy_compatible (Suc n) c v v' = Inr True
    \<and> type_assignable_in_root (Suc n) c v v' = type_assignable_in_root n c e e'"
proof -
  have specs: "expanded c v = Inr (TsVec e)" "expanded c v' = Inr (TsVec e')"
    using assms(2,3) by (simp_all add: type_spec_in_root_def)
  from vec_metadata [OF assms(1,2,5)] obtain m s a where "layout_metadata c v = Inr m"
    "vec_shape c = (s, a)" "json_get ''kind'' m = Some (JStr ''vec'')" "json_get ''size_bytes'' m = Some (json_u64 s)"
    "json_get ''align_bytes'' m = Some (json_u64 a)" by blast
  moreover from vec_metadata [OF assms(1,3,6)] obtain m' s' a' where "layout_metadata c v' = Inr m'"
    "vec_shape c = (s', a')" "json_get ''kind'' m' = Some (JStr ''vec'')" "json_get ''size_bytes'' m' = Some (json_u64 s')"
    "json_get ''align_bytes'' m' = Some (json_u64 a')" by blast
  ultimately have "scalar_layouts_equal c v v' = Inr True" by (simp add: scalar_layouts_equal_def)
  then show ?thesis
    using assms(2-4) specs by (simp add: named_actual_type_assignable_def)
qed

end
