(* ===== verification/SampleAssign.thy ===== *)
theory SampleAssign
  imports SampleLayout Assign
begin

text \<open>
  Two types for the witnesses of \<open>Assign\<close>: the structural record \<open>{a: u8, b: i64}\<close> and a named record
  that declares \<open>b\<close> before \<open>a\<close>, and the vectors of each. The records are assignable to each other
  and have \<open>a\<close> at different offsets.
\<close>

definition pair_fields :: "type_field_spec list" where
  "pair_fields = [\<lparr>tf_name = ''a'', tf_type = sample_u8\<rparr>, \<lparr>tf_name = ''b'', tf_type = sample_i64\<rparr>]"

definition type_row :: "string \<Rightarrow> type_spec \<Rightarrow> object_row" where
  "type_row h spec = \<lparr>or_hash = h, or_kind = ''Type'',
     or_payload = (case type_payload_for_spec spec of Inr payload \<Rightarrow> payload | Inl _ \<Rightarrow> JNull)\<rparr>"

definition pair_objects :: objects where
  "pair_objects = [
     type_row ''sha256:p'' (TsRecord pair_fields),
     type_row ''sha256:q'' (TsNamed ''sha256:t'' [] []),
     type_row ''sha256:s'' (TsNamed ''sha256:u'' [] []),
     type_row ''sha256:vp'' (TsVec ''sha256:p''),
     type_row ''sha256:vq'' (TsVec ''sha256:q''),
     \<lparr>or_hash = ''sha256:r'', or_kind = ''RecordDef'', or_payload =
       JObj [(''type_symbol'', JStr ''sha256:t''), (''fields'', JArr
         [JObj [(''field_symbol'', JStr ''sha256:b''), (''name'', JStr ''b''), (''type'', JStr sample_i64)],
          JObj [(''field_symbol'', JStr ''sha256:a''), (''name'', JStr ''a''), (''type'', JStr sample_u8)]])]\<rparr>,
     \<lparr>or_hash = ''sha256:k'', or_kind = ''RecordDef'', or_payload =
       JObj [(''type_symbol'', JStr ''sha256:u''), (''fields'', JArr
         [JObj [(''field_symbol'', JStr ''sha256:a''), (''name'', JStr ''a''), (''type'', JStr sample_u8)],
          JObj [(''field_symbol'', JStr ''sha256:b''), (''name'', JStr ''b''), (''type'', JStr sample_i64)]])]\<rparr>,
     \<lparr>or_hash = ''sha256:e'', or_kind = ''TypeDef'', or_payload =
       JObj [(''type_symbol'', JStr ''sha256:u''), (''type_kind'', JStr ''record''), (''definition'', JStr ''sha256:k'')]\<rparr>,
     \<lparr>or_hash = ''sha256:d'', or_kind = ''TypeDef'', or_payload =
       JObj [(''type_symbol'', JStr ''sha256:t''), (''type_kind'', JStr ''record''), (''definition'', JStr ''sha256:r'')]\<rparr>]"

definition pair_computer :: layout_computer where
  "pair_computer = \<lparr>lc_fuel = 1, lc_env = sample_env, lc_db = pair_objects,
     lc_root = empty_root\<lparr>types := [\<lparr>rt_type_symbol = ''sha256:t'', rt_type_def = ''sha256:d''\<rparr>,
       \<lparr>rt_type_symbol = ''sha256:u'', rt_type_def = ''sha256:e''\<rparr>]\<rparr>,
     lc_target_triple = LINUX_X86_64_TARGET, lc_target = sample_target\<rparr>"

text \<open>The names of these objects are shorter than the hash of any builtin type.\<close>

lemma builtin_hash_long:
  "list_all (\<lambda>kind. 20 < length (type_hash_for sample_env kind))
     [''Bool'', ''Unit'', ''I8'', ''I16'', ''I32'', ''I64'', ''U8'', ''U16'', ''U32'', ''U64'']"
  by code_simp

lemma short_loads:
  assumes "length h \<le> 20"
  shows "type_spec_of sample_env objs h = res_bind (get_kind objs h) (\<lambda>kind.
    if kind \<noteq> ''Type'' then Inl (Bail ''type hash points to non-Type object {}'' [h])
    else res_bind (get_payload objs h) type_spec_from_payload)"
proof -
  have "h \<noteq> type_hash_for sample_env kind" if "builtin_kind kind" for kind
    using that builtin_hash_long assms by (auto simp: builtin_kind_iff)
  moreover have "builtin_kind (int_name t)" if "t \<in> set SCALAR_INT_TYPES" for t
    using that by (auto simp: builtin_kind_iff SCALAR_INT_TYPES_def)
  ultimately have "scalar_int_type_by_hash sample_env h = None" "h \<noteq> type_hash_for sample_env ''Bool''"
    "h \<noteq> type_hash_for sample_env ''Unit''"
    by (auto simp: scalar_int_type_by_hash_def find_eq_None_iff builtin_kind_iff)
  then show ?thesis by (simp add: type_spec_of_def)
qed

lemma pair_payloads:
  "get_kind pair_objects ''sha256:p'' = Inr ''Type''" "get_kind pair_objects ''sha256:q'' = Inr ''Type''"
  "get_kind pair_objects ''sha256:s'' = Inr ''Type''" "get_kind pair_objects ''sha256:vp'' = Inr ''Type''"
  "get_kind pair_objects ''sha256:vq'' = Inr ''Type''"
  "res_bind (get_payload pair_objects ''sha256:p'') type_spec_from_payload = Inr (TsRecord pair_fields)"
  "res_bind (get_payload pair_objects ''sha256:q'') type_spec_from_payload = Inr (TsNamed ''sha256:t'' [] [])"
  "res_bind (get_payload pair_objects ''sha256:s'') type_spec_from_payload = Inr (TsNamed ''sha256:u'' [] [])"
  "res_bind (get_payload pair_objects ''sha256:vp'') type_spec_from_payload = Inr (TsVec ''sha256:p'')"
  "res_bind (get_payload pair_objects ''sha256:vq'') type_spec_from_payload = Inr (TsVec ''sha256:q'')"
  by code_simp+

lemma pair_loads:
  "loaded pair_computer ''sha256:p'' = Inr (TsRecord pair_fields)"
  "loaded pair_computer ''sha256:q'' = Inr (TsNamed ''sha256:t'' [] [])"
  "loaded pair_computer ''sha256:s'' = Inr (TsNamed ''sha256:u'' [] [])"
  "loaded pair_computer ''sha256:vp'' = Inr (TsVec ''sha256:p'')"
  "loaded pair_computer ''sha256:vq'' = Inr (TsVec ''sha256:q'')"
  by (simp_all add: pair_computer_def short_loads pair_payloads del: res_bind_eq_Inr)

lemma pair_definition:
  "root_type (lc_root pair_computer) ''sha256:t'' = Some \<lparr>rt_type_symbol = ''sha256:t'', rt_type_def = ''sha256:d''\<rparr>"
  "type_definition (lc_db pair_computer) ''sha256:d'' = Inr (TdRecord ''sha256:t'' [] []
     [\<lparr>tm_symbol = ''sha256:b'', tm_name = ''b'', tm_type = sample_i64\<rparr>,
      \<lparr>tm_symbol = ''sha256:a'', tm_name = ''a'', tm_type = sample_u8\<rparr>])"
  "root_type (lc_root pair_computer) ''sha256:u'' = Some \<lparr>rt_type_symbol = ''sha256:u'', rt_type_def = ''sha256:e''\<rparr>"
  "type_definition (lc_db pair_computer) ''sha256:e'' = Inr (TdRecord ''sha256:u'' [] []
     [\<lparr>tm_symbol = ''sha256:a'', tm_name = ''a'', tm_type = sample_u8\<rparr>,
      \<lparr>tm_symbol = ''sha256:b'', tm_name = ''b'', tm_type = sample_i64\<rparr>])"
  by code_simp+

lemma pair_distinct:
  "distinct [sample_u8, sample_i64, ''sha256:p'', ''sha256:q'', ''sha256:s'', ''sha256:vp'', ''sha256:vq'']"
  by code_simp

lemma pair_simps [simp]:
  "lc_env pair_computer = sample_env" "lc_fuel pair_computer = 1" "lc_ok pair_computer"
  "pointer_size_bytes (lc_target pair_computer) = 8" "pointer_align_bytes (lc_target pair_computer) = 8"
  by (simp_all add: pair_computer_def lc_ok_def sample_target_def)

lemma pair_expands:
  "expanded pair_computer ''sha256:p'' = Inr (TsRecord pair_fields)"
  "expanded pair_computer ''sha256:q'' = Inr (TsRecord (rev pair_fields))"
  "expanded pair_computer ''sha256:s'' = Inr (TsRecord pair_fields)"
  using pair_loads(1-3) pair_definition
  by (simp_all add: type_spec_in_root_def named_type_definition_with_args_def substitute_members_def pair_fields_def
      substitute_type_hash.simps(2) del: res_bind_eq_Inr)

lemma pair_scalars:
  assumes "set active \<subseteq> {''sha256:p'', ''sha256:q'', ''sha256:s'', ''sha256:vp'', ''sha256:vq''}"
  shows "layout_type pair_computer active sample_i64 ds = Inr (layout_with pair_computer sample_i64 ''scalar'' 8 8 class_copy [], ds)"
    "layout_type pair_computer active sample_u8 ds = Inr (layout_with pair_computer sample_u8 ''scalar'' 1 1 class_copy [], ds)"
proof -
  have "sample_i64 \<notin> set active" "sample_u8 \<notin> set active" using assms pair_distinct by auto
  then show "layout_type pair_computer active sample_i64 ds = Inr (layout_with pair_computer sample_i64 ''scalar'' 8 8 class_copy [], ds)"
    "layout_type pair_computer active sample_u8 ds = Inr (layout_with pair_computer sample_u8 ''scalar'' 1 1 class_copy [], ds)"
    using sample_scalar_layout [OF _ sample_scalars(1), of pair_computer active ds] sample_scalar_layout [OF _ sample_scalars(2), of pair_computer active ds]
    by (simp_all add: sample_i64_def sample_u8_def)
qed

lemma pair_align: "align_up 0 1 = Inr (0 :: 64 word)" "align_up 1 8 = Inr (8 :: 64 word)"
  by (simp_all add: align_up_def checked_add_def)

definition pair_layout :: "string \<Rightarrow> (string \<times> json) list \<Rightarrow> json list \<Rightarrow> computed_layout" where
  "pair_layout h es entries = layout_with pair_computer h ''record'' 16 8
     (class_merge (class_merge class_copy class_copy) class_copy) (es @ [(''fields'', JArr entries)])"

abbreviation scalar_layout :: "string \<Rightarrow> 64 word \<Rightarrow> computed_layout" where
  "scalar_layout h w \<equiv> layout_with pair_computer h ''scalar'' w w class_copy []"

definition structural_entries :: "json list" where
  "structural_entries = [
     field_object \<lparr>lm_symbol = None, lm_name = ''a'', lm_type = sample_u8\<rparr> 0 (scalar_layout sample_u8 1),
     field_object \<lparr>lm_symbol = None, lm_name = ''b'', lm_type = sample_i64\<rparr> 8 (scalar_layout sample_i64 8)]"

definition named_entries :: "json list" where
  "named_entries = [
     field_object \<lparr>lm_symbol = Some ''sha256:b'', lm_name = ''b'', lm_type = sample_i64\<rparr> 0 (scalar_layout sample_i64 8),
     field_object \<lparr>lm_symbol = Some ''sha256:a'', lm_name = ''a'', lm_type = sample_u8\<rparr> 8 (scalar_layout sample_u8 1)]"

definition ordered_entries :: "json list" where
  "ordered_entries = [
     field_object \<lparr>lm_symbol = Some ''sha256:a'', lm_name = ''a'', lm_type = sample_u8\<rparr> 0 (scalar_layout sample_u8 1),
     field_object \<lparr>lm_symbol = Some ''sha256:b'', lm_name = ''b'', lm_type = sample_i64\<rparr> 8 (scalar_layout sample_i64 8)]"

lemma pair_layouts:
  assumes "set active \<subseteq> {''sha256:vp'', ''sha256:vq''}"
  shows "layout_type pair_computer active ''sha256:p'' ds = Inr (pair_layout ''sha256:p'' [] structural_entries, ds)"
    "layout_type pair_computer active ''sha256:q'' ds = Inr (pair_layout ''sha256:q''
       [(''type_symbol'', JStr ''sha256:t''), (''type_def_hash'', JStr ''sha256:d'')] named_entries,
       bset_insert ''sha256:d'' ds)"
    "layout_type pair_computer active ''sha256:s'' ds = Inr (pair_layout ''sha256:s''
       [(''type_symbol'', JStr ''sha256:u''), (''type_def_hash'', JStr ''sha256:e'')] ordered_entries,
       bset_insert ''sha256:e'' ds)"
proof -
  have out: "''sha256:p'' \<notin> set active" "''sha256:q'' \<notin> set active" "''sha256:s'' \<notin> set active" using assms by auto
  have subset: "set (bset_insert ''sha256:p'' active) \<subseteq> {''sha256:p'', ''sha256:q'', ''sha256:s'', ''sha256:vp'', ''sha256:vq''}"
    "set (bset_insert ''sha256:q'' active) \<subseteq> {''sha256:p'', ''sha256:q'', ''sha256:s'', ''sha256:vp'', ''sha256:vq''}"
    "set (bset_insert ''sha256:s'' active) \<subseteq> {''sha256:p'', ''sha256:q'', ''sha256:s'', ''sha256:vp'', ''sha256:vq''}"
    using assms by auto
  note step = layout_type_inner_def pair_fields_def layout_record_def layout_field_def layout_with_def pair_layout_def
    sample_align pair_align checked_add_def optional_entry_def
  show "layout_type pair_computer active ''sha256:p'' ds = Inr (pair_layout ''sha256:p'' [] structural_entries, ds)"
    using out pair_loads(1)
    by (subst layout_type.simps) (simp add: step structural_members_def structural_entries_def pair_scalars [OF subset(1)]
        del: res_bind_eq_Inr set_bset_insert)
  show "layout_type pair_computer active ''sha256:q'' ds = Inr (pair_layout ''sha256:q''
      [(''type_symbol'', JStr ''sha256:t''), (''type_def_hash'', JStr ''sha256:d'')] named_entries, bset_insert ''sha256:d'' ds)"
    using out pair_loads(2) pair_definition pair_expands(2)
    by (subst layout_type.simps) (simp add: step layout_named_def members_with_expanded_types_def named_entries_def
        pair_scalars [OF subset(2)] del: res_bind_eq_Inr set_bset_insert)
  show "layout_type pair_computer active ''sha256:s'' ds = Inr (pair_layout ''sha256:s''
      [(''type_symbol'', JStr ''sha256:u''), (''type_def_hash'', JStr ''sha256:e'')] ordered_entries, bset_insert ''sha256:e'' ds)"
    using out pair_loads(3) pair_definition pair_expands(3)
    by (subst layout_type.simps) (simp add: step layout_named_def members_with_expanded_types_def ordered_entries_def
        pair_scalars [OF subset(3)] del: res_bind_eq_Inr set_bset_insert)
qed

lemma pair_flags: "h \<in> {''sha256:p'', ''sha256:q''} \<Longrightarrow> is_ok (layout_class_flags_for_type pair_computer [] h)"
proof -
  have scalar: "layout_class_flags_for_type pair_computer (bset_insert h []) k = Inr class_copy"
    if "k = sample_i64 \<or> k = sample_u8" and "h \<in> {''sha256:p'', ''sha256:q''}" for h k
    using that pair_distinct type_spec_builtin [OF sample_env_ok, of "''I64''"] type_spec_builtin [OF sample_env_ok, of "''U8''"]
    by (subst layout_class_flags_for_type.simps)
      (auto simp: type_spec_in_root_def builtin_kind_iff sample_i64_def sample_u8_def flags_of_spec_def)
  show "h \<in> {''sha256:p'', ''sha256:q''} \<Longrightarrow> ?thesis"
    using pair_expands scalar
    by (subst layout_class_flags_for_type.simps) (auto simp: flags_of_spec_def pair_fields_def is_ok_iff)
qed

lemma vec_layouts: "h \<in> {''sha256:vp'', ''sha256:vq''} \<Longrightarrow> is_ok (layout_metadata pair_computer h)"
proof -
  assume h: "h \<in> {''sha256:vp'', ''sha256:vq''}"
  obtain f g where flags: "layout_class_flags_for_type pair_computer [] ''sha256:p'' = Inr f"
    "layout_class_flags_for_type pair_computer [] ''sha256:q'' = Inr g"
    using pair_flags by (fastforce simp: is_ok_iff)
  have "is_ok (layout_type pair_computer [] h [])"
    using h pair_loads(4,5) flags
    by (subst layout_type.simps) (auto simp: layout_type_inner_def layout_vec_def pair_layouts element_entries_def pair_layout_def
        layout_with_def sample_align checked_add_def is_ok_iff)
  then show "is_ok (layout_metadata pair_computer h)"
    using metadata_ok [of pair_computer h] by (auto simp: is_ok_iff)
qed

lemma pair_meta:
  assumes "layout_type pair_computer [] h [] = Inr (l, ds)"
  obtains meta where "layout_metadata pair_computer h = Inr meta"
    "\<And>k. k \<noteq> ''type_dependency_hashes'' \<Longrightarrow> json_get k meta = json_get k (cl_metadata l)"
proof -
  obtain meta where meta: "layout_metadata pair_computer h = Inr meta"
    using metadata_ok [OF _ assms] by (auto simp: is_ok_iff)
  from assms show thesis by (intro that [OF meta]) (auto intro: metadata_get [OF pair_simps(3) meta])
qed

lemma pair_offset:
  assumes "layout_type pair_computer [] h [] = Inr (pair_layout h es entries, ds)" and "map_of es ''fields'' = None"
    and "List.find (\<lambda>entry. Option.bind (json_get ''name'' entry) as_str = Some f) entries = Some (field_object m k l)"
  shows "layout_field_offset_bytes pair_computer h f = Inr k"
proof -
  obtain meta where meta: "layout_metadata pair_computer h = Inr meta"
    "\<And>k. k \<noteq> ''type_dependency_hashes'' \<Longrightarrow> json_get k meta = json_get k (cl_metadata (pair_layout h es entries))"
    using pair_meta [OF assms(1)] by blast
  have "json_get ''fields'' meta = Some (JArr entries)"
    using meta(2) assms(2) by (simp add: pair_layout_def layout_with_def base_metadata_def map_add_def)
  moreover have "Option.bind (json_get ''offset_bytes'' (field_object m k l)) as_u64 = Some k"
    by (cases "lm_symbol m") (simp_all add: field_object_def optional_entry_def json_u64_def)
  ultimately show ?thesis by (simp add: layout_field_offset_bytes_def meta(1) named_entry_def assms(3))
qed

lemma field_name [simp]: "json_get ''name'' (field_object m k l) = Some (JStr (lm_name m))"
  by (cases "lm_symbol m") (simp_all add: field_object_def optional_entry_def)

lemma pair_offsets:
  "layout_field_offset_bytes pair_computer ''sha256:p'' ''a'' = Inr 0"
  "layout_field_offset_bytes pair_computer ''sha256:p'' ''b'' = Inr 8"
  "layout_field_offset_bytes pair_computer ''sha256:q'' ''a'' = Inr 8"
  "layout_field_offset_bytes pair_computer ''sha256:s'' ''a'' = Inr 0"
  "layout_field_offset_bytes pair_computer ''sha256:s'' ''b'' = Inr 8"
proof -
  show "layout_field_offset_bytes pair_computer ''sha256:p'' ''a'' = Inr 0"
    by (rule pair_offset [OF pair_layouts(1)]) (simp_all add: structural_entries_def)
  show "layout_field_offset_bytes pair_computer ''sha256:p'' ''b'' = Inr 8"
    by (rule pair_offset [OF pair_layouts(1)]) (simp_all add: structural_entries_def)
  show "layout_field_offset_bytes pair_computer ''sha256:q'' ''a'' = Inr 8"
    by (rule pair_offset [OF pair_layouts(2)]) (simp_all add: named_entries_def)
  show "layout_field_offset_bytes pair_computer ''sha256:s'' ''a'' = Inr 0"
    by (rule pair_offset [OF pair_layouts(3)]) (simp_all add: ordered_entries_def)
  show "layout_field_offset_bytes pair_computer ''sha256:s'' ''b'' = Inr 8"
    by (rule pair_offset [OF pair_layouts(3)]) (simp_all add: ordered_entries_def)
qed

lemma pair_sizes:
  assumes "layout_type pair_computer [] h [] = Inr (pair_layout h es entries, ds)"
  shows "layout_size_bytes pair_computer h = Inr 16"
proof -
  obtain meta where meta: "layout_metadata pair_computer h = Inr meta"
    "\<And>k. k \<noteq> ''type_dependency_hashes'' \<Longrightarrow> json_get k meta = json_get k (cl_metadata (pair_layout h es entries))"
    using pair_meta [OF assms] by blast
  then show ?thesis
    by (simp add: layout_size_bytes_def json_u64_def pair_layout_def layout_with_def base_metadata_def)
qed

lemma pair_copies: "layouts_blind_copy_compatible 2 pair_computer ''sha256:p'' ''sha256:s'' = Inr True"
  using pair_sizes [OF pair_layouts(1)] pair_sizes [OF pair_layouts(3)] pair_expands
  by (simp add: numeral_2_eq_2 pair_fields_def pair_offsets sizes_equal_def)

theorem byte_copies_keep_places_witness:
  "\<exists>leaf m. place pair_computer ''sha256:p'' [Field ''b''] = Inr (8, [], leaf)
     \<and> layouts_blind_copy_compatible m pair_computer leaf sample_i64 = Inr True"
proof -
  have "place pair_computer ''sha256:s'' [Field ''b''] = Inr (8, [], sample_i64)"
    using pair_expands(3) by (simp add: step_place_def pair_fields_def pair_offsets)
  from byte_copies_keep_places [OF pair_simps(3) pair_copies this] show ?thesis .
qed

lemma vec_elements_differ:
  "layouts_blind_copy_compatible 3 pair_computer ''sha256:vp'' ''sha256:vq'' = Inr True
    \<and> type_assignable_in_root 3 pair_computer ''sha256:vp'' ''sha256:vq'' = Inr True
    \<and> layout_field_offset_bytes pair_computer ''sha256:p'' ''a'' = Inr 0
    \<and> layout_field_offset_bytes pair_computer ''sha256:q'' ''a'' = Inr 8"
proof -
  have three: "3 = Suc (Suc (Suc 0))" by simp
  have "''sha256:vp'' \<noteq> ''sha256:vq''" by simp
  note elements = vec_elements_unchecked [OF pair_simps(3) _ _ this, of "''sha256:p''" "''sha256:q''" "Suc (Suc 0)"]
  have "type_assignable_in_root (Suc (Suc 0)) pair_computer ''sha256:p'' ''sha256:q'' = Inr True"
    using pair_loads pair_expands by (simp add: named_actual_type_assignable_def pair_fields_def)
  then show ?thesis
    using elements pair_loads(4,5) vec_layouts pair_offsets(1,3) by (simp add: three)
qed

lemma pair_copied: "type_is_move_only pair_computer ''sha256:p'' = Inr False"
  using move_only_class [OF pair_simps(3), of "''sha256:p''" False] pair_layouts(1) [of "[]" "[]"]
    metadata_ok [OF pair_simps(3) pair_layouts(1) [of "[]" "[]"]]
  by (simp add: pair_layout_def layout_with_def class_merge_def class_copy_def)

theorem moves_with_its_parts_witness:
  "is_ok (type_is_move_only pair_computer sample_u8) \<and> \<not> (\<exists>field \<in> set pair_fields. type_is_move_only pair_computer (tf_type field) = Inr True)"
proof -
  from moves_with_its_parts [OF pair_simps(3) pair_copied, of "TsRecord pair_fields" pair_fields] pair_expands(1)
  show ?thesis by (auto simp: pair_fields_def)
qed

lemma pair_concrete: "type_is_concrete 2 pair_computer ''sha256:p'' = Inr True"
proof -
  have "loaded pair_computer sample_u8 = Inr (TsBuiltin ''U8'')" "loaded pair_computer sample_i64 = Inr (TsBuiltin ''I64'')"
    using type_spec_builtin [OF sample_env_ok, of "''I64''"] type_spec_builtin [OF sample_env_ok, of "''U8''"]
    by (simp_all add: builtin_kind_iff sample_i64_def sample_u8_def)
  then show ?thesis using pair_loads(1) by (simp add: numeral_2_eq_2 pair_fields_def)
qed

lemma pair_class: "is_ok (value_class_in_root 2 pair_computer ''sha256:p'')"
proof -
  have run: "layout_type pair_computer [] ''sha256:p'' [] = Inr (pair_layout ''sha256:p'' [] structural_entries, [])"
    by (simp add: pair_layouts)
  obtain meta where meta: "layout_metadata pair_computer ''sha256:p'' = Inr meta"
    "\<And>k. k \<noteq> ''type_dependency_hashes'' \<Longrightarrow> json_get k meta = json_get k (cl_metadata (pair_layout ''sha256:p'' [] structural_entries))"
    using pair_meta [OF run] by blast
  have "json_get ''copy_kind'' meta = Some (JStr ''copy'')" "json_get ''drop_kind'' meta = Some (JStr ''trivial'')"
    "json_get ''contains_reference'' meta = Some (JBool False)" "json_get ''contains_mut_reference'' meta = Some (JBool False)"
    "json_get ''contains_box'' meta = Some (JBool False)"
    using meta(2) by (simp_all add: pair_layout_def layout_with_def base_metadata_def class_merge_def class_copy_def)
  with meta(1) show ?thesis
    by (simp add: value_class_in_root_def pair_concrete metadata_flag_def is_ok_iff)
qed

theorem classes_agree_witness:
  "\<exists>vc. value_class_in_root 2 pair_computer ''sha256:p'' = Inr vc \<and> vc_copy_kind vc = Copy \<and> vc_drop_kind vc = Trivial"
proof -
  obtain vc where vc: "value_class_in_root 2 pair_computer ''sha256:p'' = Inr vc"
    using pair_class by (auto simp: is_ok_iff)
  from classes_agree [OF pair_simps(3) pair_concrete vc] pair_copied have "vc_copy_kind vc \<noteq> MoveOnly" "vc_drop_kind vc \<noteq> NeedsDrop"
    by auto
  with vc show ?thesis by (cases "vc_copy_kind vc"; cases "vc_drop_kind vc") auto
qed

end
