(* ===== verification/Spec2Isabelle.thy ===== *)
theory Spec2Isabelle
  imports Model Abi Merge Raw Rewrite Inline CallSites Ops Eval Hex ExprComplete Sample SampleTypes SampleLayout SampleAssign
begin

text \<open>
  codedb keeps a program in a content-addressed store: definitions are objects named by the
  hash of their text, a \<^emph>\<open>root\<close> is one object that binds names, types, exports and tests to
  definitions, and every edit is an \<^emph>\<open>operation\<close> recorded as a migration from one root to the
  next on the history of a branch. Typed source is checked, given layouts, lowered and compiled.
  This library models the data, the operations on roots and branches, the merge, the rewrites of
  source expressions, the types with their instances, their source form and their layouts, and
  the evaluation of operators. A name here is the name in the Rust source where HOL allows it.

  \<^bold>\<open>How the parts interact.\<close> A client submits an operation against a root it has seen.
  \<open>apply_and_record_expected\<close> opens a transaction on the tables (\<open>db\<close>); it compares the root of the
  branch, checks \<open>preconditions_for\<close>, runs \<open>apply_operation_to_root\<close>, which loads a root, edits
  its tables and stores the new one under \<open>root_hash\<close>, type-checks it, checks
  \<open>postconditions_for\<close> and records migration, history and branch pointer. A merge computes a
  root from three and installs it by the same route. Everything that is hashed goes
  through \<open>canonical_json\<close>. Types are objects too: resolving the source of a type stores or looks
  up its objects, an instance of a generic definition is a substitution over them, and the layout
  computer walks them; the check of byte copies compares two layouts of types that
  the type checker finds assignable.

  \<^bold>\<open>Theories and sources.\<close>

  \<^item> \<open>Prelude\<close>: results (\<open>error + 'a\<close>), sorting by keys, association lists, joins and splits of
    strings; the collections \<open>res_simps\<close>, \<open>root_simps\<close> and \<open>layout_simps\<close>.
  \<^item> \<open>Json\<close>, \<open>Canonical\<close> (\<open>store.rs\<close>): JSON values, their canonical text and the hash of an
    object. The text is injective up to the order of object entries, so with a digest that does
    not collide a hash names one content.
  \<^item> \<open>Model\<close> (\<open>model.rs\<close>): the root payload as a record of lists, normalisation, lookups by name,
    displays and identifiers. The locale \<open>name_table\<close> states the lookups once for symbols and
    for types. A displayed name resolves back, and normal forms are equal exactly for equal content.
  \<^item> \<open>Abi\<close> (\<open>abi.rs\<close>): linker names and the export gate, with what exactly it accepts.
  \<^item> \<open>Merge\<close> (\<open>merge.rs\<close>): the three-way merge. \<open>merge_facet\<close> states the loop over symbols and
    the loop over types once, \<open>claim_loop\<close> the three checks of ownership.
  \<^item> \<open>Operations\<close>, \<open>Edits\<close>, \<open>Conditions\<close>, \<open>History\<close> (\<open>migrations.rs\<close>, \<open>branches.rs\<close>) and
    \<open>Store\<close> (\<open>store.rs\<close>): the enum of operations, the edits of a root, the conditions, the
    transaction, and the branches. A table is a list of rows in insertion order; a transaction
    is a function from tables to an error or new tables.
  \<^item> \<open>Chains\<close>, \<open>Lineage\<close>: the invariant of the history tables, and what it gives: the walk back
    from a branch ends and reads as a path of roots, a commit appends one item, a fast forward
    is a prefix test. \<open>db_step\<close> is the step relation of the branch operations, \<open>reachable\<close> what
    they reach from a new store.
  \<^item> \<open>NameEdits\<close>, \<open>EditSpec\<close>, \<open>NameOps\<close>: the operations on names, exports and tests. The
    locales \<open>root_preserving\<close> and \<open>root_edit\<close> are interpreted on every edit; \<open>EditSpec\<close> gives
    the abstract reading of a root as four maps and of an operation as an update of them, and
    \<open>NameOps\<close> shows that the transactions refine it, when they are applied, that roots stay well
    formed, what a deletion leaves, and which operations undo which.
  \<^item> \<open>Raw\<close>, \<open>Rewrite\<close>, \<open>Inline\<close>, \<open>CallSites\<close> (\<open>expr.rs\<close>, \<open>patch.rs\<close>, \<open>migrations.rs\<close>):
    source expressions and the rewrites of them, against nameless forms. The locale
    \<open>stable_rewrite\<close> states what keeps early returns in place.
  \<^item> \<open>Scalars\<close>, \<open>Ops\<close>, \<open>Eval\<close>, \<open>Hex\<close> (\<open>types.rs\<close>, \<open>op_registry.rs\<close>, \<open>expr.rs\<close>): scalar types,
    the operator table with its lowering, the evaluator at every width and its exactness, and
    the text of byte literals.
  \<^item> \<open>Types\<close>, \<open>TypeParser\<close>, \<open>TypeSource\<close> (\<open>types.rs\<close>, \<open>store.rs\<close>): type objects and instances,
    the parser of types, and the resolution and printing between source text and hash.
  \<^item> \<open>ExprParser\<close>, \<open>ExprFuel\<close>, \<open>ExprGrammar\<close>, \<open>ExprReads\<close>, \<open>ExprComplete\<close> (\<open>expr.rs\<close>): the lexer
    and the parser of expressions, the proof that it returns, the grammar with its levels of
    precedence, and the proof that the parser reads every sentence of it.
  \<^item> \<open>Layout\<close> (\<open>layout.rs\<close>), \<open>Assign\<close> (\<open>types.rs\<close>, \<open>lowering.rs\<close>): layouts with their metadata,
    assignability, classes of values and the check of byte copies.
  \<^item> \<open>SampleEnv\<close>, \<open>Sample\<close>, \<open>SampleTypes\<close>, \<open>SampleLayout\<close>, \<open>SampleAssign\<close>: a concrete
    environment and a store, types and layouts in it, on which the properties are applied.

  \<^bold>\<open>Representation.\<close> A struct is a record, an enum a datatype with its constructors, a
  \<open>Vec\<close> a list, a \<open>BTreeMap\<close> the list of its entries in order. An \<open>Err\<close> or a \<open>bail!\<close> is \<open>Inl\<close> with
  the format of its message and the arguments. Sizes and offsets are \<open>64 word\<close>
  with the checked additions of the source; evaluated integers are words of their type.

  \<^bold>\<open>Environment.\<close> What the modelled code calls and the library does not define is the record
  \<open>env\<close>: string quoting (\<open>serde_json\<close>), the digest (\<open>sha2\<close>), the derived codecs of payloads, and
  the parts of codedb left out: indexing and type checking of a root, dependencies of
  a definition, fields and variants of type definitions, the comparison of stored definitions
  with a source, and the operations that create or change definitions. \<open>env_ok\<close> is what the
  theorems assume of it: quoted strings delimit themselves, the digest is injective and hex,
  a root that is written is read back whatever the order of entries, and indexing and creating
  only add objects. That the type checker accepts a new root is a hypothesis only where an operation
  is said to be applied. \<open>SampleEnv\<close> meets the hypotheses.

  \<^bold>\<open>Bounds.\<close> The history walk is a \<open>partial_function\<close>: it is shown to return on every reachable
  store. The rewrites of expressions are total. The substitutions over stored types, the printer and the
  assignability test walk objects the code bounds by nothing; they take a fuel, running out is an
  error of its own, and \<open>wf_type\<close> with \<open>unfolds\<close> says which depth is enough: a property that a type
  is instantiated or printed has that depth as its hypothesis and a result as its conclusion. The
  parsers take one unit per token and are shown never to run out. The layout walk needs no
  fuel: it is a function whose termination is proved from the set of types it is in the middle of.

  \<^bold>\<open>What the code does not promise.\<close> An operation that moves within a module or deletes a test
  whose case another test has is refused, or changes nothing, and the properties say so. A merge
  keeps the recursion groups of the target. Inlining a body with an early return turns it into a
  return of the caller. The check of byte copies does not look behind the pointer of a vector, a
  slice or a reference (\<open>vec_elements_differ\<close>). In the body of a case arm the index of an element
  ends at a bare bar, as the body does, so the grammar asks for parentheses there. Reserved names leave out words of the type syntax,
  so the round trip of printed types has them as a side condition.

  \<^bold>\<open>Not modelled.\<close> The parser of declarations and the projection of stored programs to
  source, the typing of expressions and the lowering of bodies (their
  input is typed bodies in the database), the native and C backends, the re-verification of stored
  objects, the evaluator of whole expressions, tracing and debugging, provenance, diff and CIR
  reports, the workspace, the API, the command line and the linker: these read
  the objects modelled here and write none of the state whose properties are stated. The index
  tables and caches of the store are left out, since nothing modelled reads them.
\<close>

end
